(* ===== verification/Prelude.thy ===== *)
theory Prelude
  imports Main "HOL-Library.Word"
begin

text \<open>
  Shared vocabulary of the russignol development: the machine integers and byte strings of the
  Rust sources, fixed-size byte arrays \<open>[u8; N]\<close> as a type (so that a length the Rust type
  guarantees needs no hypothesis), big-endian integer codecs, index-checked slice reads,
  the \<open>Result\<close> combinators behind the \<open>?\<close> operator, a state-and-error bind for code that
  threads a mutable receiver, and the decimal and hexadecimal formatting the error texts use.
\<close>

unbundle bit_operations_syntax

named_theorems be_simps "big-endian codecs and their inverses"
named_theorems result_simps "combinators on results and stateful results"
named_theorems codec_simps "decoders applied to encoder output"
named_theorems store_simps "effect of file-system operations on stored content"

section \<open>Machine integers and bytes\<close>

type_synonym u8 = "8 word"
type_synonym u16 = "16 word"
type_synonym u32 = "32 word"
type_synonym u64 = "64 word"
type_synonym bytes = "u8 list"

text \<open>\<open>u32::MAX\<close>.\<close>

abbreviation u32_MAX :: u32 where
  "u32_MAX \<equiv> - 1"

lemma le_u32_MAX [simp]: "(w :: u32) \<le> u32_MAX"
  by simp

lemma unat_u8_less [simp]: "unat (b :: u8) < 256"
proof -
  have "unat b < 2 ^ LENGTH(8)"
    by (rule unsigned_less)
  then show ?thesis
    by simp
qed

lemma unat_u16_less [simp]: "unat (b :: u16) < 65536"
proof -
  have "unat b < 2 ^ LENGTH(16)"
    by (rule unsigned_less)
  then show ?thesis
    by simp
qed

lemma word_of_nat_unat_mod [simp]: "word_of_nat (unat b mod 256) = (b :: u8)"
  by simp

lemma unat_u32_of_nat: "n < 2 ^ 32 \<Longrightarrow> unat (word_of_nat n :: u32) = n"
  by (simp add: unat_of_nat take_bit_nat_eq_self)

text \<open>\<open>checked_add\<close> and \<open>saturating_sub\<close> on \<open>u32\<close>.\<close>

definition checked_add_u32 :: "u32 \<Rightarrow> u32 \<Rightarrow> u32 option" where
  "checked_add_u32 a b = (if unat a + unat b < 2 ^ 32 then Some (a + b) else None)"

definition saturating_sub_u32 :: "u32 \<Rightarrow> u32 \<Rightarrow> u32" where
  "saturating_sub_u32 a b = (if a < b then 0 else a - b)"

lemma checked_add_u32_Some_unat:
  "checked_add_u32 a b = Some c \<Longrightarrow> unat c = unat a + unat b"
  by (auto simp: checked_add_u32_def unat_word_ariths split: if_splits)

lemma unat_saturating_sub_u32: "unat (saturating_sub_u32 a b) = unat a - unat b"
  by (auto simp: saturating_sub_u32_def word_less_nat_alt unat_sub_if')

section \<open>Fixed-size byte arrays\<close>

text \<open>The Rust type \<open>[u8; N]\<close>: a byte list whose length is the number in the type.\<close>

typedef (overloaded) 'n barray = "{bs :: bytes. length bs = LENGTH('n::len)}"
  morphisms bytes_of Abs_barray
  by (rule exI [of _ "replicate LENGTH('n) 0"]) simp

lemma barray_abstype [code abstype]: "Abs_barray (bytes_of x) = x"
  by (rule bytes_of_inverse)

text \<open>
  A buffer \<open>[0u8; N]\<close> into which \<open>bs\<close> is copied from the front; for a list of the right length
  this is the array holding it.
\<close>

definition barray_of :: "bytes \<Rightarrow> 'n::len barray" where
  "barray_of bs = Abs_barray (take LENGTH('n) (bs @ replicate LENGTH('n) 0))"

lemma bytes_of_barray_of_gen [code abstract]:
  "bytes_of (barray_of bs :: 'n::len barray) = take LENGTH('n) (bs @ replicate LENGTH('n) 0)"
  unfolding barray_of_def by (rule Abs_barray_inverse) simp

lemma length_bytes_of [simp]: "length (bytes_of (a :: 'n::len barray)) = LENGTH('n)"
  using bytes_of [of a] by simp

lemma bytes_of_barray_of [simp]:
  "length bs = LENGTH('n) \<Longrightarrow> bytes_of (barray_of bs :: 'n::len barray) = bs"
  by (simp add: bytes_of_barray_of_gen)

lemma barray_of_bytes_of [simp]: "barray_of (bytes_of a) = (a :: 'n::len barray)"
  by (simp add: bytes_of_inject [symmetric])

lemma barray_eq_iff: "a = b \<longleftrightarrow> bytes_of a = bytes_of b"
  by (simp add: bytes_of_inject)

instantiation barray :: (len) equal
begin

definition equal_barray :: "'a barray \<Rightarrow> 'a barray \<Rightarrow> bool" where
  "equal_barray a b \<longleftrightarrow> bytes_of a = bytes_of b"

instance
  by standard (simp add: equal_barray_def bytes_of_inject)

end

text \<open>The conversion \<open>slice.try_into::<[u8; N]>()\<close>, which fails unless the length fits.\<close>

definition try_barray :: "bytes \<Rightarrow> 'n::len barray option" where
  "try_barray bs = (if length bs = LENGTH('n) then Some (barray_of bs) else None)"

lemma try_barray_bytes_of [simp]: "try_barray (bytes_of a) = Some (a :: 'n::len barray)"
  by (simp add: try_barray_def)

lemma try_barray_Some: "try_barray bs = Some (a :: 'n::len barray) \<longleftrightarrow> bytes_of a = bs"
  by (auto simp: try_barray_def barray_eq_iff split: if_splits)

section \<open>Big-endian integers\<close>

definition to_be_bytes_u32 :: "u32 \<Rightarrow> bytes" where
  "to_be_bytes_u32 w =
     [ucast (drop_bit 24 w), ucast (drop_bit 16 w), ucast (drop_bit 8 w), ucast w]"

definition from_be_bytes_u32 :: "u8 \<Rightarrow> u8 \<Rightarrow> u8 \<Rightarrow> u8 \<Rightarrow> u32" where
  "from_be_bytes_u32 a b c d =
     push_bit 24 (ucast a) OR push_bit 16 (ucast b) OR push_bit 8 (ucast c) OR ucast d"

definition to_be_bytes_u16 :: "u16 \<Rightarrow> bytes" where
  "to_be_bytes_u16 w = [ucast (drop_bit 8 w), ucast w]"

definition from_be_bytes_u16 :: "u8 \<Rightarrow> u8 \<Rightarrow> u16" where
  "from_be_bytes_u16 a b = push_bit 8 (ucast a) OR ucast b"

lemma u8_bit_ge: "8 \<le> n \<Longrightarrow> \<not> bit (w :: u8) n"
  by (auto dest: bit_imp_le_length)

lemma length_to_be_bytes_u32 [simp]: "length (to_be_bytes_u32 w) = 4"
  by (simp add: to_be_bytes_u32_def)

lemma length_to_be_bytes_u16 [simp]: "length (to_be_bytes_u16 w) = 2"
  by (simp add: to_be_bytes_u16_def)

lemma from_be_to_be_u32 [be_simps]:
  "from_be_bytes_u32 (ucast (drop_bit 24 w)) (ucast (drop_bit 16 w)) (ucast (drop_bit 8 w)) (ucast w) = w"
    (is "?l = w")
proof (rule bit_word_eqI)
  fix n
  assume "n < LENGTH(32)"
  then consider "n < 8" | "8 \<le> n" "n < 16" | "16 \<le> n" "n < 24" | "24 \<le> n" "n < 32"
    by fastforce
  then show "bit ?l n = bit w n"
    unfolding from_be_bytes_u32_def by cases (auto simp: bit_simps)
qed

lemma to_be_from_be_u32 [be_simps]: "to_be_bytes_u32 (from_be_bytes_u32 a b c d) = [a, b, c, d]"
  unfolding from_be_bytes_u32_def to_be_bytes_u32_def
  by (auto intro!: bit_word_eqI simp: bit_simps u8_bit_ge)

lemma from_be_to_be_u16 [be_simps]: "from_be_bytes_u16 (ucast (drop_bit 8 w)) (ucast w) = w"
    (is "?l = w")
proof (rule bit_word_eqI)
  fix n
  assume "n < LENGTH(16)"
  then consider "n < 8" | "8 \<le> n" "n < 16"
    by fastforce
  then show "bit ?l n = bit w n"
    unfolding from_be_bytes_u16_def by cases (auto simp: bit_simps)
qed

lemma to_be_from_be_u16 [be_simps]: "to_be_bytes_u16 (from_be_bytes_u16 a b) = [a, b]"
  unfolding from_be_bytes_u16_def to_be_bytes_u16_def
  by (auto intro!: bit_word_eqI simp: bit_simps u8_bit_ge)

lemma from_be_bytes_u32_inj:
  "from_be_bytes_u32 a b c d = from_be_bytes_u32 a' b' c' d' \<Longrightarrow> [a, b, c, d] = [a', b', c', d']"
  by (metis to_be_from_be_u32)

lemma to_be_bytes_u32_inj [simp]: "to_be_bytes_u32 v = to_be_bytes_u32 w \<longleftrightarrow> v = w"
proof
  assume "to_be_bytes_u32 v = to_be_bytes_u32 w"
  then show "v = w"
    unfolding to_be_bytes_u32_def list.inject
    by (elim conjE) (subst from_be_to_be_u32 [of v, symmetric], simp only: from_be_to_be_u32)
qed simp

text \<open>
  \<open>u32::from_be_bytes([data[i], .., data[i+3]])\<close> with the bounds checks Rust inserts: \<open>None\<close> is the
  panic on an index outside the slice.
\<close>

definition read_u32_at :: "bytes \<Rightarrow> nat \<Rightarrow> u32 option" where
  "read_u32_at data i =
     (if i + 3 < length data
      then Some (from_be_bytes_u32 (data ! i) (data ! (i + 1)) (data ! (i + 2)) (data ! (i + 3)))
      else None)"

lemma read_u32_at_append [be_simps]:
  "length pre = i \<Longrightarrow> read_u32_at (pre @ to_be_bytes_u32 w @ post) i = Some w"
  by (auto simp: read_u32_at_def to_be_bytes_u32_def nth_append be_simps)

section \<open>Results\<close>

text \<open>
  \<open>Result<T, E>\<close> is \<open>'e + 'a\<close> with \<open>Inl\<close> the error. \<open>and_then\<close> is the sequencing the \<open>?\<close>
  operator performs, \<open>map_err\<close> its namesake.
\<close>

fun and_then :: "'e + 'a \<Rightarrow> ('a \<Rightarrow> 'e + 'b) \<Rightarrow> 'e + 'b" where
  "and_then (Inl e) f = Inl e"
| "and_then (Inr x) f = f x"

fun map_err :: "('e \<Rightarrow> 'f) \<Rightarrow> 'e + 'a \<Rightarrow> 'f + 'a" where
  "map_err f (Inl e) = Inl (f e)"
| "map_err f (Inr x) = Inr x"

fun ok_or :: "'e \<Rightarrow> 'a option \<Rightarrow> 'e + 'a" where
  "ok_or e None = Inl e"
| "ok_or e (Some x) = Inr x"

fun ok :: "'e + 'a \<Rightarrow> 'a option" where
  "ok (Inl e) = None"
| "ok (Inr x) = Some x"

fun is_ok :: "'e + 'a \<Rightarrow> bool" where
  "is_ok (Inl e) \<longleftrightarrow> False"
| "is_ok (Inr x) \<longleftrightarrow> True"

lemma and_then_Inr_iff [result_simps]:
  "and_then m f = Inr y \<longleftrightarrow> (\<exists>x. m = Inr x \<and> f x = Inr y)"
  by (cases m) auto

lemma map_err_Inr_iff [result_simps]: "map_err f m = Inr y \<longleftrightarrow> m = Inr y"
  by (cases m) auto

lemma ok_or_Inr_iff [result_simps]: "ok_or e m = Inr y \<longleftrightarrow> m = Some y"
  by (cases m) auto

lemma ok_Some_iff [result_simps]: "ok m = Some y \<longleftrightarrow> m = Inr y"
  by (cases m) auto

lemma is_ok_iff [result_simps]: "is_ok m \<longleftrightarrow> (\<exists>y. m = Inr y)"
  by (cases m) auto

text \<open>
  A method with a \<open>&mut self\<close> receiver and a \<open>Result\<close> return type is a function from the state to
  the result and the state it leaves, the state being kept on the error path too. \<open>bindS\<close> is \<open>?\<close>.
\<close>

type_synonym ('s, 'e, 'a) stateful = "'s \<Rightarrow> ('e + 'a) \<times> 's"

definition bindS :: "('s, 'e, 'a) stateful \<Rightarrow> ('a \<Rightarrow> ('s, 'e, 'b) stateful) \<Rightarrow> ('s, 'e, 'b) stateful" where
  "bindS m f s = (case m s of (Inl e, s') \<Rightarrow> (Inl e, s') | (Inr x, s') \<Rightarrow> f x s')"

definition returnS :: "'a \<Rightarrow> ('s, 'e, 'a) stateful" where
  "returnS x s = (Inr x, s)"

definition failS :: "'e \<Rightarrow> ('s, 'e, 'a) stateful" where
  "failS e s = (Inl e, s)"

lemma bindS_simps [result_simps]:
  "bindS (returnS x) f = f x"
  "bindS (failS e) f = failS e"
  by (auto simp: bindS_def returnS_def failS_def)

lemma bindS_Inr_iff:
  "bindS m f s = (Inr y, t) \<longleftrightarrow> (\<exists>x u. m s = (Inr x, u) \<and> f x u = (Inr y, t))"
  by (auto simp: bindS_def split: prod.splits sum.splits)

lemma bindS_eqI1: "m s = (Inr x, u) \<Longrightarrow> bindS m f s = f x u"
  by (simp add: bindS_def)

lemma bindS_eqI2: "m s = (Inl e, u) \<Longrightarrow> bindS m f s = (Inl e, u)"
  by (simp add: bindS_def)

text \<open>
  Invariants of stateful code: a predicate on the final state that holds on both outcomes is
  established through \<open>bindS\<close> piece by piece.
\<close>

lemma bindS_state_inv:
  assumes "Q (snd (m s))"
    and "\<And>x u. m s = (Inr x, u) \<Longrightarrow> Q u \<Longrightarrow> Q (snd (f x u))"
  shows "Q (snd (bindS m f s))"
  using assms by (cases "m s"; cases "fst (m s)") (auto simp: bindS_def)

text \<open>Code whose state is the trace of what it asked for: what it may add to it.\<close>

definition adds_only :: "('o \<Rightarrow> bool) \<Rightarrow> ('o list, 'e, 'a) stateful \<Rightarrow> bool" where
  "adds_only P f \<longleftrightarrow> (\<forall>tr. \<exists>ops. snd (f tr) = tr @ ops \<and> list_all P ops)"

named_theorems adds_intros "runs that only add certain operations"

lemma adds_bindS [adds_intros]:
  assumes "adds_only P f" "\<And>x. adds_only P (g x)"
  shows "adds_only P (bindS f g)"
proof (unfold adds_only_def, rule allI)
  fix tr
  obtain r tr1 where f: "f tr = (r, tr1)"
    by (cases "f tr")
  then obtain ops where ops: "tr1 = tr @ ops" "list_all P ops"
    using assms(1) [unfolded adds_only_def, rule_format, of tr] by auto
  show "\<exists>ops. snd (bindS f g tr) = tr @ ops \<and> list_all P ops"
  proof (cases r)
    case (Inl e)
    then show ?thesis
      using f ops by (simp add: bindS_def)
  next
    case (Inr x)
    obtain ops' where "snd (g x tr1) = tr1 @ ops'" "list_all P ops'"
      using assms(2) [unfolded adds_only_def, rule_format, of x tr1] by blast
    then show ?thesis
      using f ops Inr by (simp add: bindS_def)
  qed
qed

lemma adds_pure [adds_intros]: "adds_only P (returnS x)" "adds_only P (failS e)"
  by (simp_all add: adds_only_def returnS_def failS_def)

section \<open>Decimal and hexadecimal text\<close>

fun show_nat :: "nat \<Rightarrow> string" where
  "show_nat n = (if n < 10 then [char_of (48 + n)] else show_nat (n div 10) @ [char_of (48 + n mod 10)])"

declare show_nat.simps [simp del]

definition hex_digit :: "nat \<Rightarrow> char" where
  "hex_digit n = (if n < 10 then char_of (48 + n) else char_of (55 + n))"

text \<open>The format \<open>{:02X}\<close> of a byte.\<close>

definition hex2 :: "u8 \<Rightarrow> string" where
  "hex2 b = [hex_digit (unat b div 16), hex_digit (unat b mod 16)]"

section \<open>List lemmas\<close>

lemma nth_Cons_numeral_eq: "(x # xs) ! numeral k = xs ! (numeral k - 1)"
  by (simp add: nth_Cons')

lemma list_update_length3:
  "length xs = 3 \<Longrightarrow> \<exists>a b c. xs = [a, b, c]"
  by (auto simp: numeral_3_eq_3 length_Suc_conv)

lemma less_3_cases: "(i :: nat) < 3 \<longleftrightarrow> i = 0 \<or> i = 1 \<or> i = 2"
  by auto

lemma sorted_wrt_snoc:
  "sorted_wrt P (xs @ [y]) \<longleftrightarrow> sorted_wrt P xs \<and> (\<forall>x \<in> set xs. P x y)"
  by (auto simp: sorted_wrt_append)

text \<open>A write of \<open>new\<close> over \<open>old\<close> that stopped after \<open>k\<close> bytes.\<close>

definition torn :: "nat \<Rightarrow> 'a list \<Rightarrow> 'a list \<Rightarrow> 'a list" where
  "torn k new old = take k new @ drop k old"

lemma length_torn: "length new = length old \<Longrightarrow> length (torn k new old) = length old"
  by (simp add: torn_def)

lemma torn_0 [simp]: "torn 0 new old = old"
  by (simp add: torn_def)

lemma torn_all: "length new = length old \<Longrightarrow> length new \<le> k \<Longrightarrow> torn k new old = new"
  by (simp add: torn_def)

end
