(* ===== verification/File_System.thy ===== *)
theory File_System
  imports Prelude
begin

text \<open>
  The part of \<open>std::fs\<close> the watermark store uses, over an explicit medium. A file has a stable
  content (what survives a power cut) and possibly a cached content (written, not yet synced); reads
  see the cached content. Every operation that can fail asks an oracle for its outcome, so a theorem
  about all file systems is a theorem about every pattern of I/O failures. A failed write leaves the
  old content, the whole new content, or damaged bytes; a power cut does the same to every file with
  unsynced content.
\<close>

section \<open>The medium\<close>

type_synonym path = "string list"

datatype io_kind = NotFound | PermissionDenied | InvalidInput | InvalidDataKind | UnexpectedEof
  | WouldBlock | TimedOut | OtherKind

datatype io_error = IoError (io_error_kind: io_kind) (io_error_text: string)

datatype residue = Kept | Completed | Damaged bytes

datatype io_outcome = IoOk | IoFail io_error residue

record fs =
  stable :: "path \<rightharpoonup> bytes"
  cache :: "path \<rightharpoonup> bytes"
  dirs :: "path set"
  outcomes :: "nat \<Rightarrow> io_outcome"
  clock :: nat

text \<open>What a read of the file sees.\<close>

definition view :: "fs \<Rightarrow> path \<Rightarrow> bytes option" where
  "view f p = (case cache f p of Some c \<Rightarrow> Some c | None \<Rightarrow> stable f p)"

fun after_residue :: "residue \<Rightarrow> bytes option \<Rightarrow> bytes \<Rightarrow> bytes option" where
  "after_residue Kept old new = old"
| "after_residue Completed old new = Some new"
| "after_residue (Damaged c) old new = Some c"

definition next_outcome :: "fs \<Rightarrow> io_outcome" where
  "next_outcome f = outcomes f (clock f)"

definition tick :: "fs \<Rightarrow> fs" where
  "tick f = f\<lparr>clock := Suc (clock f)\<rparr>"

section \<open>Operations\<close>

definition is_dir :: "path \<Rightarrow> fs \<Rightarrow> bool" where
  "is_dir p f \<longleftrightarrow> p \<in> dirs f"

definition create_dir_all :: "path \<Rightarrow> (fs, io_error, unit) stateful" where
  "create_dir_all p f =
     (case next_outcome f of
        IoOk \<Rightarrow> (Inr (), (tick f)\<lparr>dirs := insert p (dirs f)\<rparr>)
      | IoFail e r \<Rightarrow> (Inl e, tick f))"

text \<open>
  \<open>OpenOptions::new().read(true).write(true).create(true).truncate(false).open(path)\<close>: the handle is
  the path, an absent file starts out empty.
\<close>

definition open_rw_create :: "path \<Rightarrow> (fs, io_error, path) stateful" where
  "open_rw_create p f =
     (case next_outcome f of
        IoOk \<Rightarrow> (Inr p, (tick f)\<lparr>cache := (case view f p of None \<Rightarrow> (cache f)(p \<mapsto> []) | Some c \<Rightarrow> cache f)\<rparr>)
      | IoFail e r \<Rightarrow> (Inl e, tick f))"

definition content :: "path \<Rightarrow> fs \<Rightarrow> bytes" where
  "content p f = (case view f p of Some c \<Rightarrow> c | None \<Rightarrow> [])"

definition metadata_len :: "path \<Rightarrow> (fs, io_error, nat) stateful" where
  "metadata_len p f =
     (case next_outcome f of
        IoOk \<Rightarrow> (Inr (length (content p f)), tick f)
      | IoFail e r \<Rightarrow> (Inl e, tick f))"

text \<open>\<open>read_exact_at(&mut [0u8; n], 0)\<close>.\<close>

definition read_exact_at :: "path \<Rightarrow> nat \<Rightarrow> (fs, io_error, bytes) stateful" where
  "read_exact_at p n f =
     (case next_outcome f of
        IoOk \<Rightarrow> (if n \<le> length (content p f) then (Inr (take n (content p f)), tick f)
                 else (Inl (IoError UnexpectedEof ''failed to fill whole buffer''), tick f))
      | IoFail e r \<Rightarrow> (Inl e, tick f))"

text \<open>\<open>write_all_at(buf, 0)\<close>: into the cache; a failure may have written some of it.\<close>

definition write_all_at :: "path \<Rightarrow> bytes \<Rightarrow> (fs, io_error, unit) stateful" where
  "write_all_at p buf f =
     (let new = buf @ drop (length buf) (content p f) in
      case next_outcome f of
        IoOk \<Rightarrow> (Inr (), (tick f)\<lparr>cache := (cache f)(p \<mapsto> new)\<rparr>)
      | IoFail e r \<Rightarrow> (Inl e, (tick f)\<lparr>cache := (cache f)(p := after_residue r (cache f p) new)\<rparr>))"

text \<open>\<open>sync_data()\<close>: the cached content becomes stable; after a failure it is still only cached.\<close>

definition sync_data :: "path \<Rightarrow> (fs, io_error, unit) stateful" where
  "sync_data p f =
     (case next_outcome f of
        IoOk \<Rightarrow> (Inr (), (tick f)\<lparr>stable := (stable f)(p := view f p), cache := (cache f)(p := None)\<rparr>)
      | IoFail e r \<Rightarrow> (Inl e, tick f))"

text \<open>\<open>fs::write(path, buf)\<close>: truncate and write, without a sync.\<close>

definition fs_write :: "path \<Rightarrow> bytes \<Rightarrow> (fs, io_error, unit) stateful" where
  "fs_write p buf f =
     (case next_outcome f of
        IoOk \<Rightarrow> (Inr (), (tick f)\<lparr>cache := (cache f)(p \<mapsto> buf)\<rparr>)
      | IoFail e r \<Rightarrow> (Inl e, (tick f)\<lparr>cache := (cache f)(p := after_residue r (cache f p) buf)\<rparr>))"

section \<open>The environment\<close>

text \<open>The kernel writes a dirty page back on its own, completely or not.\<close>

definition writeback :: "path \<Rightarrow> residue \<Rightarrow> fs \<Rightarrow> fs" where
  "writeback p r f =
     (case cache f p of None \<Rightarrow> f
      | Some c \<Rightarrow> f\<lparr>stable := (stable f)(p := after_residue r (stable f p) c)\<rparr>)"

text \<open>Power is lost: every unsynced file is left as its residue says, and the cache is gone.\<close>

definition power_cut :: "(path \<Rightarrow> residue) \<Rightarrow> fs \<Rightarrow> fs" where
  "power_cut res f =
     f\<lparr>stable := (\<lambda>p. case cache f p of None \<Rightarrow> stable f p | Some c \<Rightarrow> after_residue (res p) (stable f p) c),
       cache := Map.empty\<rparr>"

section \<open>Where a file's content can come from\<close>

text \<open>
  \<open>holds f p Q\<close>: whatever \<open>p\<close> holds now, cached or stable, satisfies \<open>Q\<close>. Operations on the file
  keep \<open>Q\<close> as long as the bytes they write, and any damage, satisfy it.
\<close>

definition holds :: "fs \<Rightarrow> path \<Rightarrow> (bytes \<Rightarrow> bool) \<Rightarrow> bool" where
  "holds f p Q \<longleftrightarrow> (\<forall>c. stable f p = Some c \<longrightarrow> Q c) \<and> (\<forall>c. cache f p = Some c \<longrightarrow> Q c)"

definition damage_ok :: "fs \<Rightarrow> (bytes \<Rightarrow> bool) \<Rightarrow> bool" where
  "damage_ok f Q \<longleftrightarrow> (\<forall>n e c. outcomes f n = IoFail e (Damaged c) \<longrightarrow> Q c)"

lemma damage_okD: "damage_ok f Q \<Longrightarrow> next_outcome f = IoFail e (Damaged c) \<Longrightarrow> Q c"
  by (auto simp: damage_ok_def next_outcome_def)

lemma outcomes_tick [simp]: "outcomes (tick f) = outcomes f" "stable (tick f) = stable f"
  "cache (tick f) = cache f" "dirs (tick f) = dirs f" "clock (tick f) = Suc (clock f)"
  by (simp_all add: tick_def)

lemma content_tick [simp]: "view (tick f) p = view f p" "content p (tick f) = content p f"
  by (simp_all add: view_def content_def split: option.splits)

text \<open>No operation changes the oracle.\<close>

lemma outcomes_ops [simp]:
  "outcomes (snd (create_dir_all p f)) = outcomes f"
  "outcomes (snd (open_rw_create p f)) = outcomes f"
  "outcomes (snd (metadata_len p f)) = outcomes f"
  "outcomes (snd (read_exact_at p n f)) = outcomes f"
  "outcomes (snd (write_all_at p buf f)) = outcomes f"
  "outcomes (snd (sync_data p f)) = outcomes f"
  "outcomes (snd (fs_write p buf f)) = outcomes f"
  "outcomes (writeback p r f) = outcomes f"
  "outcomes (power_cut res f) = outcomes f"
  by (auto simp: create_dir_all_def open_rw_create_def metadata_len_def read_exact_at_def
      write_all_at_def sync_data_def fs_write_def writeback_def power_cut_def Let_def
      split: io_outcome.splits option.splits)

lemma damage_ok_cong: "outcomes f = outcomes g \<Longrightarrow> damage_ok f Q = damage_ok g Q"
  by (simp add: damage_ok_def)

lemma holds_read_ops [simp]:
  "holds (snd (create_dir_all p f)) q Q = holds f q Q"
  "holds (snd (metadata_len p f)) q Q = holds f q Q"
  "holds (snd (read_exact_at p n f)) q Q = holds f q Q"
  by (auto simp: create_dir_all_def metadata_len_def read_exact_at_def holds_def split: io_outcome.splits)

lemma holds_open: "holds f q Q \<Longrightarrow> Q [] \<Longrightarrow> holds (snd (open_rw_create p f)) q Q"
  by (auto simp: open_rw_create_def holds_def view_def split: io_outcome.splits option.splits if_splits)

lemma holds_write_other: "p \<noteq> q \<Longrightarrow> holds (snd (write_all_at p buf f)) q Q = holds f q Q"
  by (auto simp: write_all_at_def holds_def Let_def split: io_outcome.splits)

lemma holds_sync_other: "p \<noteq> q \<Longrightarrow> holds (snd (sync_data p f)) q Q = holds f q Q"
  by (auto simp: sync_data_def holds_def split: io_outcome.splits)

lemma holds_write:
  assumes "holds f p Q" and "damage_ok f Q" and "Q (buf @ drop (length buf) (content p f))"
  shows "holds (snd (write_all_at p buf f)) p Q"
proof (cases "next_outcome f")
  case IoOk
  then show ?thesis
    using assms by (auto simp: write_all_at_def holds_def)
next
  case (IoFail e r)
  then show ?thesis
    using assms damage_okD [OF assms(2), of e]
    by (cases r) (auto simp: write_all_at_def holds_def)
qed

lemma holds_sync: "holds f p Q \<Longrightarrow> holds (snd (sync_data p f)) p Q"
  by (auto simp: sync_data_def holds_def view_def split: io_outcome.splits option.splits)

lemma holds_writeback:
  assumes "holds f q Q" and "\<And>c. r = Damaged c \<Longrightarrow> Q c"
  shows "holds (writeback p r f) q Q"
  using assms by (cases r) (auto simp: writeback_def holds_def split: option.splits)

lemma holds_power_cut:
  assumes "holds f q Q" and "\<And>c. res q = Damaged c \<Longrightarrow> Q c"
  shows "holds (power_cut res f) q Q"
  using assms by (cases "res q") (auto simp: power_cut_def holds_def split: option.splits)

text \<open>A write followed by a sync, both successful, leaves exactly the new bytes.\<close>

lemma write_sync_exact:
  assumes "write_all_at p buf f = (Inr (), f1)" and "sync_data p f1 = (Inr (), f2)"
  shows "stable f2 p = Some (buf @ drop (length buf) (content p f))" and "cache f2 p = None"
  using assms
  by (auto simp: write_all_at_def sync_data_def view_def Let_def split: io_outcome.splits)

end
