(* ===== verification/Crates.thy ===== *)
theory Crates
  imports Prelude
begin

text \<open>
  The third-party code the sources call: hash functions, the \<open>bs58\<close> and \<open>bson\<close> encoders and the
  \<open>blst\<close> curve library. None of it is under \<open>src/\<close>, so it is a parameter of the model: every
  definition that uses it takes a record of functions. The fixed-size results the Rust signatures
  promise are part of the types. Laws that a property relies on are named predicates below, and
  appear as hypotheses of that property.
\<close>

section \<open>Hashes and text encodings\<close>

record crates =
  blake3_hash :: "bytes \<Rightarrow> 32 barray"
  blake3_keyed :: "32 barray \<Rightarrow> bytes \<Rightarrow> 32 barray"
  sha256 :: "bytes \<Rightarrow> 32 barray"
  blake2b_20 :: "bytes \<Rightarrow> 20 barray"
  blake2b_32 :: "bytes \<Rightarrow> 32 barray"
  hmac_sha256 :: "bytes \<Rightarrow> bytes \<Rightarrow> 32 barray"
  bs58_encode :: "bytes \<Rightarrow> string"
  bs58_decode :: "string \<Rightarrow> string + bytes"
  bs58_check_encode :: "bytes \<Rightarrow> string"
  bs58_check_decode :: "string \<Rightarrow> bytes option"
  bson_generic_error :: "string \<Rightarrow> string + bytes"
  bson_error_field :: "bytes \<Rightarrow> string option option"
  json_error_field :: "bytes \<Rightarrow> string option"

text \<open>
  \<open>bson_generic_error\<close> serialises the document with the fields \<open>kind\<close> and \<open>error\<close>;
  \<open>bson_error_field\<close> is \<open>None\<close> when the bytes are no BSON document and otherwise the text of the
  document's \<open>error\<close> field, if it has one; \<open>json_error_field\<close> reads that field of a JSON text.
\<close>

definition bson_lawful :: "crates \<Rightarrow> bool" where
  "bson_lawful X \<longleftrightarrow> (\<forall>msg b. bson_generic_error X msg = Inr b \<longrightarrow> bson_error_field X b = Some (Some msg))"

text \<open>\<open>bs58\<close> decodes what it encoded, without and with its own checksum.\<close>

definition bs58_lawful :: "crates \<Rightarrow> bool" where
  "bs58_lawful X \<longleftrightarrow> (\<forall>bs. bs58_decode X (bs58_encode X bs) = Inr bs)"

definition bs58_check_lawful :: "crates \<Rightarrow> bool" where
  "bs58_check_lawful X \<longleftrightarrow> (\<forall>bs. bs58_check_decode X (bs58_check_encode X bs) = Some bs)"

text \<open>
  Keyed BLAKE3 does not collide on the messages of one associated data: the MAC tells apart any two
  8-byte level/round prefixes.
\<close>

definition mac_collision_free :: "crates \<Rightarrow> 32 barray \<Rightarrow> bytes \<Rightarrow> bool" where
  "mac_collision_free X k ad \<longleftrightarrow>
     (\<forall>m m'. length m = 8 \<longrightarrow> length m' = 8 \<longrightarrow>
        blake3_keyed X k (ad @ m) = blake3_keyed X k (ad @ m') \<longrightarrow> m = m')"

section \<open>The curve library\<close>

datatype blst_error = BLST_SUCCESS | BLST_BAD_ENCODING | BLST_OTHER string

record ('sk, 'pk, 'sg) blst =
  blst_sk_from_bytes :: "bytes \<Rightarrow> blst_error + 'sk"
  blst_sk_to_bytes :: "'sk \<Rightarrow> 32 barray"
  blst_sk_to_pk :: "'sk \<Rightarrow> 'pk"
  blst_key_gen :: "bytes \<Rightarrow> bytes \<Rightarrow> blst_error + 'sk"
  blst_pk_from_bytes :: "bytes \<Rightarrow> blst_error + 'pk"
  blst_pk_to_bytes :: "'pk \<Rightarrow> 48 barray"
  blst_sig_from_bytes :: "bytes \<Rightarrow> blst_error + 'sg"
  blst_sig_to_bytes :: "'sg \<Rightarrow> 96 barray"
  blst_sign :: "'sk \<Rightarrow> bytes \<Rightarrow> bytes \<Rightarrow> bytes \<Rightarrow> 'sg"
  blst_verify :: "'sg \<Rightarrow> bool \<Rightarrow> bytes \<Rightarrow> bytes \<Rightarrow> bytes \<Rightarrow> 'pk \<Rightarrow> bool \<Rightarrow> blst_error"

text \<open>Serialised keys load back, and a signature verifies under the key that made it.\<close>

definition blst_sk_lawful :: "('sk, 'pk, 'sg) blst \<Rightarrow> bool" where
  "blst_sk_lawful B \<longleftrightarrow> (\<forall>sk. blst_sk_from_bytes B (bytes_of (blst_sk_to_bytes B sk)) = Inr sk)"

definition blst_sign_lawful :: "('sk, 'pk, 'sg) blst \<Rightarrow> bool" where
  "blst_sign_lawful B \<longleftrightarrow>
     (\<forall>sk msg dst. blst_verify B (blst_sign B sk msg dst []) True msg dst [] (blst_sk_to_pk B sk) True
        = BLST_SUCCESS)"

definition blst_pk_lawful :: "('sk, 'pk, 'sg) blst \<Rightarrow> bool" where
  "blst_pk_lawful B \<longleftrightarrow> (\<forall>pk. blst_pk_from_bytes B (bytes_of (blst_pk_to_bytes B pk)) = Inr pk)"

definition blst_sig_lawful :: "('sk, 'pk, 'sg) blst \<Rightarrow> bool" where
  "blst_sig_lawful B \<longleftrightarrow> (\<forall>sg. blst_sig_from_bytes B (bytes_of (blst_sig_to_bytes B sg)) = Inr sg)"

text \<open>A concrete instance, used to exhibit inputs at which hypotheses about the crates hold.\<close>

definition sample_crates :: crates where
  "sample_crates =
     \<lparr> blake3_hash = barray_of,
       blake3_keyed = (\<lambda>k m. barray_of (drop (length m - 8) m)),
       sha256 = barray_of,
       blake2b_20 = barray_of,
       blake2b_32 = barray_of,
       hmac_sha256 = (\<lambda>k m. barray_of m),
       bs58_encode = map (\<lambda>b. char_of (unat b)),
       bs58_decode = (\<lambda>s. Inr (map (\<lambda>c. word_of_nat (of_char c)) s)),
       bs58_check_encode = map (\<lambda>b. char_of (unat b)),
       bs58_check_decode = (\<lambda>s. Some (map (\<lambda>c. word_of_nat (of_char c)) s)),
       bson_generic_error = (\<lambda>s. Inr (map (\<lambda>c. word_of_nat (of_char c)) s)),
       bson_error_field = (\<lambda>b. Some (Some (map (\<lambda>b. char_of (unat b)) b))),
       json_error_field = (\<lambda>b. None) \<rparr>"

lemma sample_crates_bson [simp]: "bson_lawful sample_crates"
  by (auto simp: bson_lawful_def sample_crates_def comp_def map_idI unat_of_nat)

lemma sample_crates_bs58 [simp]: "bs58_lawful sample_crates" "bs58_check_lawful sample_crates"
  by (simp_all add: bs58_lawful_def bs58_check_lawful_def sample_crates_def comp_def map_idI)

lemma sample_crates_mac [simp]: "mac_collision_free sample_crates k ad"
  unfolding mac_collision_free_def
proof (intro allI impI)
  fix m m' :: bytes
  assume len: "length m = 8" "length m' = 8"
    and eq: "blake3_keyed sample_crates k (ad @ m) = blake3_keyed sample_crates k (ad @ m')"
  from eq have "bytes_of (barray_of m :: 32 barray) = bytes_of (barray_of m' :: 32 barray)"
    using len by (simp add: sample_crates_def)
  then show "m = m'"
    using len by (simp add: bytes_of_barray_of_gen)
qed

text \<open>A concrete curve: keys and signatures are their own serialised forms, signing copies the key.\<close>

definition sample_blst :: "(32 barray, 48 barray, 96 barray) blst" where
  "sample_blst =
     \<lparr> blst_sk_from_bytes = (\<lambda>b. Inr (barray_of b)),
       blst_sk_to_bytes = (\<lambda>sk. sk),
       blst_sk_to_pk = (\<lambda>sk. barray_of (bytes_of sk)),
       blst_key_gen = (\<lambda>ikm info. Inr (barray_of ikm)),
       blst_pk_from_bytes = (\<lambda>b. Inr (barray_of b)),
       blst_pk_to_bytes = (\<lambda>pk. pk),
       blst_sig_from_bytes = (\<lambda>b. Inr (barray_of b)),
       blst_sig_to_bytes = (\<lambda>sg. sg),
       blst_sign = (\<lambda>sk msg dst aug. barray_of (bytes_of sk)),
       blst_verify = (\<lambda>sg g msg dst aug pk v.
         if take 32 (bytes_of sg) = take 32 (bytes_of pk) then BLST_SUCCESS else BLST_BAD_ENCODING) \<rparr>"

lemma sample_blst_lawful [simp]:
  "blst_sk_lawful sample_blst" "blst_pk_lawful sample_blst" "blst_sig_lawful sample_blst"
  "blst_sign_lawful sample_blst"
  by (simp_all add: blst_sk_lawful_def blst_pk_lawful_def blst_sig_lawful_def blst_sign_lawful_def
      sample_blst_def bytes_of_barray_of_gen)

end
