(* ===== verification/Watermark_File.thy ===== *)
theory Watermark_File
  imports Crates
begin

text \<open>
  \<open>libs/storage/src/watermark.rs\<close>: the on-disk watermark record, 40 bytes of level, round and
  BLAKE3 checksum, extended to 72 bytes by a keyed MAC over associated data, level and round.
  Shown: each decoder accepts exactly the encoder's output, so a record determines and is
  determined by its mark; a record of another key or chain is rejected unless the MACs collide; and
  a write interrupted at any byte leaves the old mark, the new mark or a record that does not verify.
\<close>

section \<open>Operations\<close>

abbreviation FILE_SIZE :: nat where
  "FILE_SIZE \<equiv> 40"

abbreviation AUTH_FILE_SIZE :: nat where
  "AUTH_FILE_SIZE \<equiv> FILE_SIZE + 32"

definition FILENAMES :: "string list" where
  "FILENAMES = [''block_watermark'', ''preattestation_watermark'', ''attestation_watermark'']"

text \<open>The 8 bytes of level and round at the front of a record.\<close>

definition level_round :: "u32 \<Rightarrow> u32 \<Rightarrow> bytes" where
  "level_round level round = to_be_bytes_u32 level @ to_be_bytes_u32 round"

definition encode :: "crates \<Rightarrow> u32 \<Rightarrow> u32 \<Rightarrow> 40 barray" where
  "encode X level round =
     (let hash = blake3_hash X (level_round level round)
      in barray_of (level_round level round @ bytes_of hash))"

definition decode :: "crates \<Rightarrow> 40 barray \<Rightarrow> (u32 \<times> u32) option" where
  "decode X buf =
     (let b = bytes_of buf;
          level = from_be_bytes_u32 (b ! 0) (b ! 1) (b ! 2) (b ! 3);
          round = from_be_bytes_u32 (b ! 4) (b ! 5) (b ! 6) (b ! 7);
          computed = blake3_hash X (take 8 b)
      in if drop 8 b \<noteq> bytes_of computed then None else Some (level, round))"

definition mac :: "crates \<Rightarrow> 32 barray \<Rightarrow> bytes \<Rightarrow> bytes \<Rightarrow> 32 barray" where
  "mac X mac_key ad lr = blake3_keyed X mac_key (ad @ lr)"

definition encode_authenticated :: "crates \<Rightarrow> 32 barray \<Rightarrow> bytes \<Rightarrow> u32 \<Rightarrow> u32 \<Rightarrow> 72 barray" where
  "encode_authenticated X mac_key ad level round =
     (let record = bytes_of (encode X level round);
          tag = mac X mac_key ad (take 8 record)
      in barray_of (record @ bytes_of tag))"

definition decode_authenticated :: "crates \<Rightarrow> 32 barray \<Rightarrow> bytes \<Rightarrow> 72 barray \<Rightarrow> (u32 \<times> u32) option" where
  "decode_authenticated X mac_key ad buf =
     (let b = bytes_of buf in
      case try_barray (take FILE_SIZE b) of None \<Rightarrow> None | Some prefix \<Rightarrow>
      case decode X prefix of None \<Rightarrow> None | Some (level, round) \<Rightarrow>
      let expected = mac X mac_key ad (take 8 b) in
      case try_barray (drop FILE_SIZE b) of None \<Rightarrow> None | Some stored \<Rightarrow>
      if expected = stored then Some (level, round) else None)"

section \<open>A codec contract for marks\<close>

text \<open>
  What both record formats promise: the decoder accepts exactly the images of the encoder.
\<close>

locale mark_codec =
  fixes enc :: "u32 \<Rightarrow> u32 \<Rightarrow> 'r"
    and dec :: "'r \<Rightarrow> (u32 \<times> u32) option"
  assumes dec_Some_iff: "dec b = Some (l, r) \<longleftrightarrow> b = enc l r"
begin

lemma dec_enc [simp]: "dec (enc l r) = Some (l, r)"
  by (simp add: dec_Some_iff)

lemma enc_inj: "enc l r = enc l' r' \<longleftrightarrow> l = l' \<and> r = r'"
proof
  assume eq: "enc l r = enc l' r'"
  have "dec (enc l r) = Some (l', r')"
    unfolding eq by (rule dec_enc)
  then show "l = l' \<and> r = r'"
    by simp
qed simp

lemma dec_None_iff: "dec b = None \<longleftrightarrow> (\<forall>l r. b \<noteq> enc l r)"
  by (cases "dec b") (use dec_Some_iff in force)+

end

lemma length_level_round [simp]: "length (level_round l r) = 8"
  by (simp add: level_round_def)

lemma level_round_inj [simp]: "level_round l r = level_round l' r' \<longleftrightarrow> l = l' \<and> r = r'"
  by (simp add: level_round_def)

lemma bytes_of_encode: "bytes_of (encode X l r) = level_round l r @ bytes_of (blake3_hash X (level_round l r))"
  by (simp add: encode_def Let_def)

lemma level_round_of_nths:
  "8 \<le> length b \<Longrightarrow>
   level_round (from_be_bytes_u32 (b ! 0) (b ! Suc 0) (b ! 2) (b ! 3))
     (from_be_bytes_u32 (b ! 4) (b ! 5) (b ! 6) (b ! 7)) = take 8 b"
  by (rule nth_equalityI)
    (auto simp: level_round_def be_simps nth_append less_Suc_eq numeral_eq_Suc)

lemma decode_iff: "decode X b = Some (l, r) \<longleftrightarrow> b = encode X l r"
proof
  assume "decode X b = Some (l, r)"
  then have lr: "level_round l r = take 8 (bytes_of b)"
    and h: "drop 8 (bytes_of b) = bytes_of (blake3_hash X (take 8 (bytes_of b)))"
    by (auto simp: decode_def Let_def level_round_of_nths split: if_splits)
  have "bytes_of b = take 8 (bytes_of b) @ drop 8 (bytes_of b)"
    by simp
  then show "b = encode X l r"
    unfolding barray_eq_iff bytes_of_encode h lr by simp
next
  assume b: "b = encode X l r"
  let ?b = "bytes_of b"
  have "level_round (from_be_bytes_u32 (?b ! 0) (?b ! Suc 0) (?b ! 2) (?b ! 3))
     (from_be_bytes_u32 (?b ! 4) (?b ! 5) (?b ! 6) (?b ! 7)) = level_round l r"
    by (subst level_round_of_nths) (simp_all add: b bytes_of_encode)
  then show "decode X b = Some (l, r)"
    by (simp add: decode_def Let_def) (simp add: b bytes_of_encode)
qed

interpretation plain: mark_codec "encode X" "decode X" for X
  by unfold_locales (rule decode_iff)

lemma bytes_of_encode_authenticated:
  "bytes_of (encode_authenticated X k ad l r)
   = bytes_of (encode X l r) @ bytes_of (mac X k ad (level_round l r))"
  by (simp add: encode_authenticated_def Let_def bytes_of_encode)

lemma decode_authenticated_iff:
  "decode_authenticated X k ad b = Some (l, r) \<longleftrightarrow> b = encode_authenticated X k ad l r"
proof
  assume "decode_authenticated X k ad b = Some (l, r)"
  then have p: "take 40 (bytes_of b) = bytes_of (encode X l r)"
    and t: "drop 40 (bytes_of b) = bytes_of (mac X k ad (take 8 (bytes_of b)))"
    by (auto simp: decode_authenticated_def Let_def decode_iff try_barray_Some split: option.splits if_splits)
  have "take 8 (bytes_of b) = take 8 (take 40 (bytes_of b))"
    by simp
  then have "take 8 (bytes_of b) = level_round l r"
    unfolding p by (simp add: bytes_of_encode)
  then have "bytes_of b = bytes_of (encode_authenticated X k ad l r)"
    unfolding bytes_of_encode_authenticated using p t by (metis append_take_drop_id)
  then show "b = encode_authenticated X k ad l r"
    by (simp add: barray_eq_iff)
next
  assume "b = encode_authenticated X k ad l r"
  then have "bytes_of b = bytes_of (encode X l r) @ bytes_of (mac X k ad (level_round l r))"
    by (simp add: bytes_of_encode_authenticated)
  then show "decode_authenticated X k ad b = Some (l, r)"
    by (simp add: decode_authenticated_def Let_def) (simp add: bytes_of_encode)
qed

interpretation auth: mark_codec "encode_authenticated X k ad" "decode_authenticated X k ad" for X k ad
  by unfold_locales (rule decode_authenticated_iff)

section \<open>Foreign and torn records\<close>

lemma decode_authenticated_foreign:
  "decode_authenticated X k' ad' (encode_authenticated X k ad l r) =
     (if mac X k' ad' (level_round l r) = mac X k ad (level_round l r) then Some (l, r) else None)"
proof (cases "mac X k' ad' (level_round l r) = mac X k ad (level_round l r)")
  case True
  then have "encode_authenticated X k ad l r = encode_authenticated X k' ad' l r"
    by (simp add: barray_eq_iff bytes_of_encode_authenticated)
  then show ?thesis
    using True by simp
next
  case False
  have "decode_authenticated X k' ad' (encode_authenticated X k ad l r) \<noteq> Some (l', r')" for l' r'
  proof
    assume "decode_authenticated X k' ad' (encode_authenticated X k ad l r) = Some (l', r')"
    then have eq: "bytes_of (encode_authenticated X k ad l r) = bytes_of (encode_authenticated X k' ad' l' r')"
      by (simp add: decode_authenticated_iff)
    then have "level_round l r = level_round l' r'"
      unfolding bytes_of_encode_authenticated bytes_of_encode by simp
    with eq show False
      using False unfolding bytes_of_encode_authenticated by (simp add: barray_eq_iff)
  qed
  then show ?thesis
    using False by (metis option.exhaust surj_pair)
qed

lemma decode_authenticated_torn:
  assumes cf: "mac_collision_free X k ad"
    and c: "bytes_of c = torn n (bytes_of (encode_authenticated X k ad l r))
                              (bytes_of (encode_authenticated X k ad l0 r0))"
  shows "decode_authenticated X k ad c \<in> {None, Some (l, r), Some (l0, r0)}"
proof (cases "decode_authenticated X k ad c")
  case (Some m)
  then obtain l' r' where m: "m = (l', r')" and c': "c = encode_authenticated X k ad l' r'"
    by (cases m) (simp add: decode_authenticated_iff)
  have hd8: "take 8 (bytes_of c) = level_round l' r'"
    unfolding c' bytes_of_encode_authenticated bytes_of_encode by simp
  show ?thesis
  proof (cases "n \<le> 40")
    case True
    have "drop 40 (bytes_of c) = drop 40 (bytes_of (encode_authenticated X k ad l0 r0))"
      unfolding c torn_def using True by simp
    then have "mac X k ad (level_round l' r') = mac X k ad (level_round l0 r0)"
      unfolding c' by (simp add: bytes_of_encode_authenticated barray_eq_iff)
    then have "level_round l' r' = level_round l0 r0"
      using cf unfolding mac_collision_free_def mac_def by (metis length_level_round)
    then show ?thesis
      using Some m by simp
  next
    case False
    then have "take 8 (bytes_of c) = take 8 (bytes_of (encode_authenticated X k ad l r))"
      unfolding c torn_def by simp
    then have "level_round l' r' = level_round l r"
      unfolding hd8 by (simp add: bytes_of_encode_authenticated bytes_of_encode)
    then show ?thesis
      using Some m by simp
  qed
qed simp

end
