(* ===== verification/Magic_Bytes.thy ===== *)
theory Magic_Bytes
  imports Prelude
begin

text \<open>
  \<open>libs/signer/src/magic_bytes.rs\<close>: which payloads may be signed at all, and where the level, the
  round and the chain id sit in a Tenderbake block, preattestation or attestation. The two field
  readers index the payload; their result is an \<open>option\<close> whose \<open>None\<close> is Rust's out-of-bounds
  panic. Shown: no payload makes them panic, and which bytes they read on success.
\<close>

section \<open>Data\<close>

datatype magic_byte_error =
    EmptyData
  | NotAllowed u8
  | TruncatedData nat nat

datatype magic_byte = MB_Block | MB_PreAttestation | MB_Attestation

text \<open>The \<open>Display\<close> text of the error, as \<open>thiserror\<close> derives it from the attributes.\<close>

fun magic_byte_error_text :: "magic_byte_error \<Rightarrow> string" where
  "magic_byte_error_text EmptyData = ''Cannot sign empty data''"
| "magic_byte_error_text (NotAllowed byte) = ''Magic byte 0x'' @ hex2 byte @ '' not allowed''"
| "magic_byte_error_text (TruncatedData expected actual) =
     ''Truncated data: expected '' @ show_nat expected @ '' bytes, got '' @ show_nat actual"

section \<open>Operations\<close>

definition from_byte :: "u8 \<Rightarrow> magic_byte option" where
  "from_byte b =
     (if b = 0x11 then Some MB_Block
      else if b = 0x12 then Some MB_PreAttestation
      else if b = 0x13 then Some MB_Attestation
      else None)"

definition is_valid :: "u8 \<Rightarrow> bool" where
  "is_valid b \<longleftrightarrow> from_byte b \<noteq> None"

definition all_magic_bytes :: bytes where
  "all_magic_bytes = [0x11, 0x12, 0x13]"

definition check_magic_byte :: "bytes \<Rightarrow> bytes option \<Rightarrow> magic_byte_error + unit" where
  "check_magic_byte data allowed_magic_bytes =
     (case allowed_magic_bytes of None \<Rightarrow> Inr ()
      | Some allowed \<Rightarrow>
          (case data of [] \<Rightarrow> Inl EmptyData
           | b # _ \<Rightarrow> if b \<in> set allowed then Inr () else Inl (NotAllowed b)))"

abbreviation MIN_LENGTH :: nat where
  "MIN_LENGTH \<equiv> 1 + 4 + 4 + 1 + 32 + 8 + 1 + 32"

definition get_level_and_round_for_tenderbake_block ::
    "bytes \<Rightarrow> (magic_byte_error + u32 \<times> u32) option" where
  "get_level_and_round_for_tenderbake_block data =
     (if length data < MIN_LENGTH then Some (Inl EmptyData)
      else case read_u32_at data 5 of None \<Rightarrow> None | Some level \<Rightarrow>
        let fitness_offset = 1 + 4 + 4 + 1 + 32 + 8 + 1 + 32 in
        if length data < fitness_offset + 4
        then Some (Inl (TruncatedData (fitness_offset + 4) (length data)))
        else case read_u32_at data fitness_offset of None \<Rightarrow> None | Some fl \<Rightarrow>
          let fitness_length = unat fl;
              round_offset = fitness_offset + fitness_length in
          if round_offset < 4 \<or> length data < round_offset
          then Some (Inl (TruncatedData (max round_offset 4) (length data)))
          else case read_u32_at data (round_offset - 4) of None \<Rightarrow> None | Some round \<Rightarrow>
            Some (Inr (level, round)))"

definition attestation_level_offset :: "bool \<Rightarrow> nat" where
  "attestation_level_offset is_bls = (if is_bls then 1 + 4 + 32 + 1 else 1 + 4 + 32 + 1 + 2)"

definition get_level_and_round_for_tenderbake_attestation ::
    "bytes \<Rightarrow> bool \<Rightarrow> (magic_byte_error + u32 \<times> u32) option" where
  "get_level_and_round_for_tenderbake_attestation data is_bls =
     (let level_offset = attestation_level_offset is_bls in
      if length data < level_offset + 8
      then Some (Inl (TruncatedData (level_offset + 8) (length data)))
      else case read_u32_at data level_offset of None \<Rightarrow> None | Some level \<Rightarrow>
        case read_u32_at data (level_offset + 4) of None \<Rightarrow> None | Some round \<Rightarrow>
          Some (Inr (level, round)))"

definition get_chain_id_for_tenderbake :: "bytes \<Rightarrow> 4 barray option" where
  "get_chain_id_for_tenderbake data =
     (if length data < 5 then None
      else if 0x11 \<le> data ! 0 \<and> data ! 0 \<le> 0x13 then Some (barray_of (take 4 (drop 1 data)))
      else None)"

section \<open>No payload panics\<close>

lemma read_u32_at_in_range: "i + 3 < length data \<Longrightarrow> \<exists>w. read_u32_at data i = Some w"
  by (simp add: read_u32_at_def)

lemma block_no_panic: "get_level_and_round_for_tenderbake_block data \<noteq> None"
  by (auto simp: get_level_and_round_for_tenderbake_block_def Let_def read_u32_at_def split: option.splits)

lemma attestation_no_panic: "get_level_and_round_for_tenderbake_attestation data is_bls \<noteq> None"
  by (auto simp: get_level_and_round_for_tenderbake_attestation_def Let_def read_u32_at_def
      split: option.splits)

section \<open>Layouts\<close>

text \<open>
  The block layout the reader assumes: 5 bytes of magic byte and chain id, the level, 74 bytes of
  fixed header, then the 4-byte fitness length and what follows it.
\<close>

definition block_payload :: "bytes \<Rightarrow> u32 \<Rightarrow> bytes \<Rightarrow> u32 \<Rightarrow> bytes \<Rightarrow> bytes" where
  "block_payload pre level hdr fitness_length rest =
     pre @ to_be_bytes_u32 level @ hdr @ to_be_bytes_u32 fitness_length @ rest"

lemma from_byte_iff: "is_valid b \<longleftrightarrow> b \<in> set all_magic_bytes"
  by (auto simp: is_valid_def from_byte_def all_magic_bytes_def)

lemma check_magic_byte_ok_iff:
  "check_magic_byte data (Some allowed) = Inr () \<longleftrightarrow> data \<noteq> [] \<and> hd data \<in> set allowed"
  by (auto simp: check_magic_byte_def split: list.splits)

lemma block_fields:
  assumes "length pre = 5" and "length hdr = 74" and "unat fl = length a + 8"
  shows "get_level_and_round_for_tenderbake_block
      (block_payload pre level hdr fl (a @ to_be_bytes_u32 round @ post)) = Some (Inr (level, round))"
proof -
  let ?d = "block_payload pre level hdr fl (a @ to_be_bytes_u32 round @ post)"
  have len: "length ?d = 91 + length a + length post"
    using assms(1,2) by (simp add: block_payload_def)
  have level: "read_u32_at ?d 5 = Some level"
    unfolding block_payload_def by (rule read_u32_at_append [OF assms(1)])
  have fl: "read_u32_at ?d 83 = Some fl"
    using read_u32_at_append [of "pre @ to_be_bytes_u32 level @ hdr" 83 fl "a @ to_be_bytes_u32 round @ post"] assms(1,2)
    by (simp add: block_payload_def)
  have round: "read_u32_at ?d (87 + length a) = Some round"
    using read_u32_at_append [of "pre @ to_be_bytes_u32 level @ hdr @ to_be_bytes_u32 fl @ a" "87 + length a" round post]
      assms(1,2)
    by (simp add: block_payload_def)
  show ?thesis
    using len level fl round assms(3)
    by (simp add: get_level_and_round_for_tenderbake_block_def Let_def add.commute)
qed

lemma attestation_fields:
  assumes "length pre = attestation_level_offset is_bls"
  shows "get_level_and_round_for_tenderbake_attestation
      (pre @ to_be_bytes_u32 level @ to_be_bytes_u32 round @ post) is_bls = Some (Inr (level, round))"
  using read_u32_at_append [OF assms, of level "to_be_bytes_u32 round @ post"]
    read_u32_at_append [of "pre @ to_be_bytes_u32 level" "attestation_level_offset is_bls + 4" round post] assms
  by (simp add: get_level_and_round_for_tenderbake_attestation_def Let_def)

end
