(* ===== verification/Base58check.thy ===== *)
theory Base58check
  imports Crates
begin

text \<open>
  \<open>libs/signer/src/base58check.rs\<close>: the Tezos text encoding of keys and hashes, a prefix and a
  4-byte double-SHA256 checksum around the payload. Shown: decoding inverts encoding, whatever
  decodes carries the prefix and a valid checksum, and distinct payloads have distinct texts.
\<close>

section \<open>Operations\<close>

definition compute_checksum :: "crates \<Rightarrow> bytes \<Rightarrow> 32 barray" where
  "compute_checksum X data =
     (let first_hash = sha256 X data;
          second_hash = sha256 X (bytes_of first_hash)
      in second_hash)"

definition b58_encode :: "crates \<Rightarrow> bytes \<Rightarrow> bytes \<Rightarrow> string" where
  "b58_encode X prefix data =
     (let payload = prefix @ data;
          checksum = compute_checksum X payload
      in bs58_encode X (payload @ take 4 (bytes_of checksum)))"

definition b58_decode :: "crates \<Rightarrow> string \<Rightarrow> bytes \<Rightarrow> string + bytes" where
  "b58_decode X s prefix =
     and_then (map_err (\<lambda>e. ''Base58 decode error: '' @ e) (bs58_decode X s)) (\<lambda>decoded.
       if length decoded < length prefix + 4 then Inl ''Invalid length''
       else if take (length prefix) decoded \<noteq> prefix then Inl ''Invalid prefix''
       else let data_end = length decoded - 4;
                data_with_prefix = take data_end decoded;
                checksum = drop data_end decoded;
                computed_checksum = compute_checksum X data_with_prefix
            in if checksum \<noteq> take 4 (bytes_of computed_checksum) then Inl ''Invalid checksum''
               else Inr (drop (length prefix) (take data_end decoded)))"

section \<open>Round trip and soundness\<close>

lemma b58_decode_encode:
  assumes "bs58_decode X (bs58_encode X (prefix @ data @ take 4 (bytes_of (compute_checksum X (prefix @ data)))))
      = Inr (prefix @ data @ take 4 (bytes_of (compute_checksum X (prefix @ data))))"
  shows "b58_decode X (b58_encode X prefix data) prefix = Inr data"
  using assms by (simp add: b58_decode_def b58_encode_def Let_def)

lemma b58_decode_sound:
  assumes "b58_decode X s prefix = Inr data"
  shows "bs58_decode X s = Inr (prefix @ data @ take 4 (bytes_of (compute_checksum X (prefix @ data))))"
proof -
  from assms obtain d where d: "bs58_decode X s = Inr d" and len: "length prefix + 4 \<le> length d"
    and pre: "take (length prefix) d = prefix"
    and cs: "drop (length d - 4) d = take 4 (bytes_of (compute_checksum X (take (length d - 4) d)))"
    and data: "data = drop (length prefix) (take (length d - 4) d)"
    unfolding b58_decode_def by (auto simp: result_simps Let_def not_less split: if_splits)
  have "take (length prefix) (take (length d - 4) d) = prefix"
    using pre len by (simp add: min_absorb1)
  then have body: "take (length d - 4) d = prefix @ data"
    unfolding data by (metis append_take_drop_id)
  have "d = take (length d - 4) d @ drop (length d - 4) d"
    by simp
  then have "d = prefix @ data @ take 4 (bytes_of (compute_checksum X (prefix @ data)))"
    unfolding cs body by simp
  then show ?thesis
    using d by simp
qed

lemma b58_encode_inj:
  assumes "bs58_lawful X" and "b58_encode X prefix d = b58_encode X prefix d'"
  shows "d = d'"
proof -
  have "b58_decode X (b58_encode X prefix e) prefix = Inr e" for e
    using assms(1) by (intro b58_decode_encode) (simp add: bs58_lawful_def)
  then show ?thesis
    using assms(2) by (metis sum.inject(2))
qed

end
