(* ===== verification/Bls.thy ===== *)
theory Bls
  imports Base58check
begin

text \<open>
  \<open>libs/signer/src/bls.rs\<close>: the key, hash and signature wrappers over \<open>blst\<close>, their byte and text
  forms, signing, verification, proof of possession, key generation, deterministic nonces and the
  watermark MAC key. Shown: byte and text round trips, rejection of every wrong length, that a
  signature verifies under its own key with its own watermark prefix, and that signing and proof of
  possession use distinct domain tags.
\<close>

section \<open>Data\<close>

datatype bls_error =
    InvalidSecretKey string
  | InvalidPublicKey string
  | InvalidSignature string
  | Base58Error string
  | InvalidKeyLength nat nat
  | BlsNonBlsKey
  | BlstError string
  | KeyGeneration string

datatype 'sk secret_key = SecretKey 'sk

datatype 'pk public_key = PublicKey 'pk

datatype 'sg signature = Signature 'sg

datatype public_key_hash = PublicKeyHash (pkh_hash: "20 barray")

definition TZ4_PREFIX :: bytes where
  "TZ4_PREFIX = [0x06, 0xa1, 0xa6]"

definition BLPK_PREFIX :: bytes where
  "BLPK_PREFIX = [0x06, 0x95, 0x87, 0xcc]"

definition BLSK_PREFIX :: bytes where
  "BLSK_PREFIX = [0x03, 0x96, 0xc0, 0x28]"

definition BLSIG_PREFIX :: bytes where
  "BLSIG_PREFIX = [0x28, 0x79, 0x34, 0xcf]"

text \<open>A byte-string literal \<open>b"..."\<close>.\<close>

definition ascii :: "string \<Rightarrow> bytes" where
  "ascii s = map (\<lambda>c. word_of_nat (of_char c)) s"

definition POP_CIPHERSUITE_ID :: bytes where
  "POP_CIPHERSUITE_ID = ascii ''BLS_SIG_BLS12381G2_XMD:SHA-256_SSWU_RO_POP_''"

definition POP_PROVE_CIPHERSUITE_ID :: bytes where
  "POP_PROVE_CIPHERSUITE_ID = ascii ''BLS_POP_BLS12381G2_XMD:SHA-256_SSWU_RO_POP_''"

text \<open>The derived \<open>Debug\<close> text of a \<open>BLST_ERROR\<close>.\<close>

fun blst_debug :: "blst_error \<Rightarrow> string" where
  "blst_debug BLST_SUCCESS = ''BLST_SUCCESS''"
| "blst_debug BLST_BAD_ENCODING = ''BLST_BAD_ENCODING''"
| "blst_debug (BLST_OTHER s) = s"

section \<open>Secret keys\<close>

definition sk_from_bytes :: "('sk, 'pk, 'sg) blst \<Rightarrow> bytes \<Rightarrow> bls_error + 'sk secret_key" where
  "sk_from_bytes B bs =
     (if length bs \<noteq> 32 then Inl (InvalidKeyLength 32 (length bs))
      else case blst_sk_from_bytes B (rev bs) of
          Inr sk \<Rightarrow> Inr (SecretKey sk)
        | Inl BLST_BAD_ENCODING \<Rightarrow> Inl (InvalidSecretKey ''scalar is zero or >= the BLS12-381 curve order r'')
        | Inl e \<Rightarrow> Inl (InvalidSecretKey (blst_debug e)))"

fun sk_to_bytes :: "('sk, 'pk, 'sg) blst \<Rightarrow> 'sk secret_key \<Rightarrow> 32 barray" where
  "sk_to_bytes B (SecretKey sk) = barray_of (rev (bytes_of (blst_sk_to_bytes B sk)))"

fun to_public_key :: "('sk, 'pk, 'sg) blst \<Rightarrow> 'sk secret_key \<Rightarrow> 'pk public_key" where
  "to_public_key B (SecretKey sk) = PublicKey (blst_sk_to_pk B sk)"

definition sk_to_b58check :: "crates \<Rightarrow> ('sk, 'pk, 'sg) blst \<Rightarrow> 'sk secret_key \<Rightarrow> string" where
  "sk_to_b58check X B sk = b58_encode X BLSK_PREFIX (bytes_of (sk_to_bytes B sk))"

definition sk_from_b58check :: "crates \<Rightarrow> ('sk, 'pk, 'sg) blst \<Rightarrow> string \<Rightarrow> bls_error + 'sk secret_key" where
  "sk_from_b58check X B s =
     and_then (map_err Base58Error (b58_decode X s BLSK_PREFIX)) (sk_from_bytes B)"

section \<open>Public keys and their hashes\<close>

definition pk_from_bytes :: "('sk, 'pk, 'sg) blst \<Rightarrow> bytes \<Rightarrow> bls_error + 'pk public_key" where
  "pk_from_bytes B bs =
     (if length bs \<noteq> 48 then Inl (InvalidKeyLength 48 (length bs))
      else and_then (map_err (\<lambda>e. InvalidPublicKey (blst_debug e)) (blst_pk_from_bytes B bs))
             (\<lambda>pk. Inr (PublicKey pk)))"

fun pk_to_bytes :: "('sk, 'pk, 'sg) blst \<Rightarrow> 'pk public_key \<Rightarrow> 48 barray" where
  "pk_to_bytes B (PublicKey pk) = blst_pk_to_bytes B pk"

definition pkh_hash_bytes :: "crates \<Rightarrow> bytes list \<Rightarrow> public_key_hash" where
  "pkh_hash_bytes X data = PublicKeyHash (blake2b_20 X (concat data))"

definition pk_hash :: "crates \<Rightarrow> ('sk, 'pk, 'sg) blst \<Rightarrow> 'pk public_key \<Rightarrow> public_key_hash" where
  "pk_hash X B pk = pkh_hash_bytes X [bytes_of (pk_to_bytes B pk)]"

definition pk_to_b58check :: "crates \<Rightarrow> ('sk, 'pk, 'sg) blst \<Rightarrow> 'pk public_key \<Rightarrow> string" where
  "pk_to_b58check X B pk = b58_encode X BLPK_PREFIX (bytes_of (pk_to_bytes B pk))"

definition pk_from_b58check :: "crates \<Rightarrow> ('sk, 'pk, 'sg) blst \<Rightarrow> string \<Rightarrow> bls_error + 'pk public_key" where
  "pk_from_b58check X B s =
     and_then (map_err Base58Error (b58_decode X s BLPK_PREFIX)) (pk_from_bytes B)"

definition pkh_from_bytes :: "bytes \<Rightarrow> bls_error + public_key_hash" where
  "pkh_from_bytes bs =
     (if length bs \<noteq> 20 then Inl (InvalidKeyLength 20 (length bs))
      else Inr (PublicKeyHash (barray_of bs)))"

abbreviation pkh_to_bytes :: "public_key_hash \<Rightarrow> bytes" where
  "pkh_to_bytes pkh \<equiv> bytes_of (pkh_hash pkh)"

definition pkh_to_b58check :: "crates \<Rightarrow> public_key_hash \<Rightarrow> string" where
  "pkh_to_b58check X pkh = b58_encode X TZ4_PREFIX (pkh_to_bytes pkh)"

definition pkh_from_b58check :: "crates \<Rightarrow> string \<Rightarrow> bls_error + public_key_hash" where
  "pkh_from_b58check X s = and_then (map_err Base58Error (b58_decode X s TZ4_PREFIX)) pkh_from_bytes"

section \<open>Signatures\<close>

definition sig_from_bytes :: "('sk, 'pk, 'sg) blst \<Rightarrow> bytes \<Rightarrow> bls_error + 'sg signature" where
  "sig_from_bytes B bs =
     (if length bs \<noteq> 96 then Inl (InvalidKeyLength 96 (length bs))
      else and_then (map_err (\<lambda>e. InvalidSignature (blst_debug e)) (blst_sig_from_bytes B bs))
             (\<lambda>sg. Inr (Signature sg)))"

fun sig_to_bytes :: "('sk, 'pk, 'sg) blst \<Rightarrow> 'sg signature \<Rightarrow> 96 barray" where
  "sig_to_bytes B (Signature sg) = blst_sig_to_bytes B sg"

definition sig_to_b58check :: "crates \<Rightarrow> ('sk, 'pk, 'sg) blst \<Rightarrow> 'sg signature \<Rightarrow> string" where
  "sig_to_b58check X B sg = b58_encode X BLSIG_PREFIX (bytes_of (sig_to_bytes B sg))"

definition sig_from_b58check :: "crates \<Rightarrow> ('sk, 'pk, 'sg) blst \<Rightarrow> string \<Rightarrow> bls_error + 'sg signature" where
  "sig_from_b58check X B s =
     and_then (map_err Base58Error (b58_decode X s BLSIG_PREFIX)) (sig_from_bytes B)"

text \<open>The message actually signed: the optional watermark in front of the data.\<close>

definition msg_with_watermark :: "bytes \<Rightarrow> bytes option \<Rightarrow> bytes" where
  "msg_with_watermark msg watermark = (case watermark of Some prefix \<Rightarrow> prefix @ msg | None \<Rightarrow> msg)"

fun bls_sign :: "('sk, 'pk, 'sg) blst \<Rightarrow> 'sk secret_key \<Rightarrow> bytes \<Rightarrow> bytes option \<Rightarrow> 'sg signature" where
  "bls_sign B (SecretKey sk) msg watermark =
     Signature (blst_sign B sk (msg_with_watermark msg watermark) POP_CIPHERSUITE_ID [])"

fun bls_verify :: "('sk, 'pk, 'sg) blst \<Rightarrow> 'pk public_key \<Rightarrow> 'sg signature \<Rightarrow> bytes \<Rightarrow> bytes option \<Rightarrow> bool" where
  "bls_verify B (PublicKey pk) (Signature sg) msg watermark \<longleftrightarrow>
     blst_verify B sg True (msg_with_watermark msg watermark) POP_CIPHERSUITE_ID [] pk True = BLST_SUCCESS"

fun pop_prove :: "('sk, 'pk, 'sg) blst \<Rightarrow> 'sk secret_key \<Rightarrow> bytes option \<Rightarrow> 'sg signature" where
  "pop_prove B (SecretKey sk) msg =
     Signature (blst_sign B sk (case msg of Some m \<Rightarrow> m | None \<Rightarrow> []) POP_PROVE_CIPHERSUITE_ID [])"

fun pop_verify :: "('sk, 'pk, 'sg) blst \<Rightarrow> 'pk public_key \<Rightarrow> 'sg signature \<Rightarrow> bytes option \<Rightarrow> bool" where
  "pop_verify B (PublicKey pk) (Signature proof) msg \<longleftrightarrow>
     blst_verify B proof True (case msg of Some m \<Rightarrow> m | None \<Rightarrow> []) POP_PROVE_CIPHERSUITE_ID [] pk True
       = BLST_SUCCESS"

section \<open>Key generation and derived secrets\<close>

text \<open>
  \<open>random\<close> is what the operating system's generator returns when no seed is given (an error text or
  32 bytes).
\<close>

definition generate_key ::
    "crates \<Rightarrow> ('sk, 'pk, 'sg) blst \<Rightarrow> string + 32 barray \<Rightarrow> 32 barray option
      \<Rightarrow> bls_error + public_key_hash \<times> 'pk public_key \<times> 'sk secret_key" where
  "generate_key X B random seed =
     and_then (case seed of Some s \<Rightarrow> Inr s
               | None \<Rightarrow> map_err (\<lambda>e. KeyGeneration (''Random generation failed: '' @ e)) random)
       (\<lambda>seed_bytes.
          and_then (map_err (\<lambda>e. KeyGeneration (blst_debug e)) (blst_key_gen B (bytes_of seed_bytes) []))
            (\<lambda>sk. let sk = SecretKey sk; pk = to_public_key B sk; pkh = pk_hash X B pk
                  in Inr (pkh, pk, sk)))"

definition bls_deterministic_nonce :: "crates \<Rightarrow> ('sk, 'pk, 'sg) blst \<Rightarrow> 'sk secret_key \<Rightarrow> bytes \<Rightarrow> 32 barray" where
  "bls_deterministic_nonce X B sk msg = hmac_sha256 X (bytes_of (sk_to_bytes B sk)) msg"

definition bls_deterministic_nonce_hash :: "crates \<Rightarrow> ('sk, 'pk, 'sg) blst \<Rightarrow> 'sk secret_key \<Rightarrow> bytes \<Rightarrow> 32 barray" where
  "bls_deterministic_nonce_hash X B sk msg =
     blake2b_32 X (bytes_of (bls_deterministic_nonce X B sk msg))"

definition watermark_mac_key :: "crates \<Rightarrow> ('sk, 'pk, 'sg) blst \<Rightarrow> 'sk secret_key \<Rightarrow> 32 barray" where
  "watermark_mac_key X B sk = blake3_keyed X (sk_to_bytes B sk) (ascii ''russignol-watermark-mac-v1'')"

section \<open>Round trips\<close>

lemma sk_from_to_bytes:
  "blst_sk_lawful B \<Longrightarrow> sk_from_bytes B (bytes_of (sk_to_bytes B sk)) = Inr sk"
  by (cases sk) (simp add: sk_from_bytes_def blst_sk_lawful_def)

lemma pkh_from_to_bytes [codec_simps]: "pkh_from_bytes (pkh_to_bytes pkh) = Inr pkh"
  by (cases pkh) (simp add: pkh_from_bytes_def)

lemma pkh_from_bytes_Inr: "pkh_from_bytes bs = Inr pkh \<longleftrightarrow> pkh_to_bytes pkh = bs"
  by (cases pkh) (auto simp: pkh_from_bytes_def barray_eq_iff)

lemma pkh_from_to_b58check:
  "bs58_lawful X \<Longrightarrow> pkh_from_b58check X (pkh_to_b58check X pkh) = Inr pkh"
  by (simp add: pkh_from_b58check_def pkh_to_b58check_def b58_decode_encode bs58_lawful_def codec_simps)

lemma pkh_to_b58check_inj: "bs58_lawful X \<Longrightarrow> pkh_to_b58check X p = pkh_to_b58check X q \<longleftrightarrow> p = q"
  by (metis pkh_from_to_b58check sum.inject(2))

lemma sk_from_to_b58check:
  "bs58_lawful X \<Longrightarrow> blst_sk_lawful B \<Longrightarrow> sk_from_b58check X B (sk_to_b58check X B sk) = Inr sk"
  by (simp add: sk_from_b58check_def sk_to_b58check_def b58_decode_encode bs58_lawful_def sk_from_to_bytes)

lemma bls_verify_sign:
  "blst_sign_lawful B \<Longrightarrow> bls_verify B (to_public_key B sk) (bls_sign B sk msg wm) msg wm"
  by (cases sk) (simp add: blst_sign_lawful_def)

lemma pop_verify_prove:
  "blst_sign_lawful B \<Longrightarrow> pop_verify B (to_public_key B sk) (pop_prove B sk msg) msg"
  by (cases sk) (simp add: blst_sign_lawful_def)

lemma ciphersuites_differ: "POP_CIPHERSUITE_ID \<noteq> POP_PROVE_CIPHERSUITE_ID"
  by (simp add: POP_CIPHERSUITE_ID_def POP_PROVE_CIPHERSUITE_ID_def ascii_def)

lemma generate_key_consistent:
  assumes "generate_key X B random seed = Inr (pkh, pk, sk)"
  shows "pk = to_public_key B sk \<and> pkh = pk_hash X B pk"
  using assms by (auto simp: generate_key_def result_simps Let_def)

end
