(* ===== verification/High_Watermark.thy ===== *)
theory High_Watermark
  imports File_System Watermark_File Magic_Bytes Bls
begin

text \<open>
  \<open>libs/signer/src/high_watermark.rs\<close>: the per-key, per-operation high watermark. Each tracked key
  has three files and three in-memory entries; \<open>disk_ceiling\<close> records a mark already on stable
  storage that lets later signatures skip the disk. The release build is modelled (the read-back of
  \<open>write_watermark\<close> exists under \<open>debug_assertions\<close> only). An array access outside \<open>[T; 3]\<close> is the
  outcome \<open>WmPanic\<close>.
\<close>

section \<open>Data\<close>

datatype chain_id = ChainId (chain_bytes: "32 barray")

datatype watermark_entry = WatermarkEntry (we_level: u32) (we_round: u32)

datatype operation_type = Block | Preattestation | Attestation

datatype watermark_error =
    LevelTooLow u32 u32
  | RoundTooLow u32 u32 u32
  | InvalidData string
  | WmIo io_error
  | WmInternal string
  | NotInitialized string string
  | LargeLevelGap u32 u32 u32 u32
  | ChainMismatch string string
  | WmPanic

record per_key_watermark =
  pk_files :: "path list"
  entries :: "watermark_entry option list"
  disk_ceiling :: "watermark_entry option list"
  disk_entries :: "watermark_entry option list"

record watermark_update =
  wu_pkh :: public_key_hash
  wu_idx :: nat
  wu_level :: u32
  wu_round :: u32
  wu_prev :: "watermark_entry option"

record high_watermark =
  base_dir :: path
  known_pkhs :: "public_key_hash set"
  keys :: "public_key_hash \<rightharpoonup> per_key_watermark"
  mac_keys :: "public_key_hash \<rightharpoonup> 32 barray"
  hw_chain_id :: chain_id

type_synonym hw_state = "high_watermark \<times> fs"

text \<open>Marks are ordered by level, then round: the order in which a key may sign.\<close>

instantiation watermark_entry :: linorder
begin

definition less_eq_watermark_entry :: "watermark_entry \<Rightarrow> watermark_entry \<Rightarrow> bool" where
  "a \<le> b \<longleftrightarrow> we_level a < we_level b \<or> we_level a = we_level b \<and> we_round a \<le> we_round b"

definition less_watermark_entry :: "watermark_entry \<Rightarrow> watermark_entry \<Rightarrow> bool" where
  "a < b \<longleftrightarrow> we_level a < we_level b \<or> we_level a = we_level b \<and> we_round a < we_round b"

instance
  by standard
    (auto simp: less_eq_watermark_entry_def less_watermark_entry_def watermark_entry.expand)

end

lemma WatermarkEntry_le [simp]:
  "WatermarkEntry l r \<le> WatermarkEntry l' r' \<longleftrightarrow> l < l' \<or> l = l' \<and> r \<le> r'"
  by (simp add: less_eq_watermark_entry_def)

lemma WatermarkEntry_less [simp]:
  "WatermarkEntry l r < WatermarkEntry l' r' \<longleftrightarrow> l < l' \<or> l = l' \<and> r < r'"
  by (simp add: less_watermark_entry_def)

section \<open>Chain identifiers and operation types\<close>

definition chain_to_b58check :: "crates \<Rightarrow> chain_id \<Rightarrow> string" where
  "chain_to_b58check X c = bs58_check_encode X ([87, 82, 0] @ take 4 (bytes_of (chain_bytes c)))"

definition chain_from_b58check :: "crates \<Rightarrow> string \<Rightarrow> chain_id option" where
  "chain_from_b58check X s =
     (case bs58_check_decode X s of None \<Rightarrow> None | Some decoded \<Rightarrow>
      if take 3 decoded = [87, 82, 0]
      then let chain = drop 3 decoded in
           if 4 \<le> length chain then Some (ChainId (barray_of (take 4 chain))) else None
      else None)"

definition ALL_OPERATIONS :: "operation_type list" where
  "ALL_OPERATIONS = [Block, Preattestation, Attestation]"

fun op_idx :: "operation_type \<Rightarrow> nat" where
  "op_idx Block = 0"
| "op_idx Preattestation = 1"
| "op_idx Attestation = 2"

definition op_from_magic_byte :: "u8 \<Rightarrow> operation_type option" where
  "op_from_magic_byte magic =
     (if magic = 0x11 then Some Block
      else if magic = 0x12 then Some Preattestation
      else if magic = 0x13 then Some Attestation
      else None)"

section \<open>Loading\<close>

definition load_entry_authenticated ::
    "crates \<Rightarrow> path \<Rightarrow> 32 barray \<Rightarrow> bytes \<Rightarrow> (fs, io_error, watermark_entry option) stateful" where
  "load_entry_authenticated X file mac_key ad =
     bindS (metadata_len file) (\<lambda>len.
       if len \<noteq> AUTH_FILE_SIZE then returnS None
       else bindS (read_exact_at file AUTH_FILE_SIZE) (\<lambda>buf.
         returnS (map_option (\<lambda>(level, round). WatermarkEntry level round)
                    (decode_authenticated X mac_key ad (barray_of buf)))))"

text \<open>The loop over the three file names: open each and load its mark.\<close>

fun load_files ::
    "crates \<Rightarrow> path \<Rightarrow> 32 barray \<Rightarrow> bytes \<Rightarrow> string list
      \<Rightarrow> (fs, io_error, (path \<times> watermark_entry option) list) stateful" where
  "load_files X key_dir mac_key ad [] = returnS []"
| "load_files X key_dir mac_key ad (filename # rest) =
     bindS (open_rw_create (key_dir @ [filename])) (\<lambda>file.
       bindS (load_entry_authenticated X file mac_key ad) (\<lambda>entry.
         bindS (load_files X key_dir mac_key ad rest) (\<lambda>more.
           returnS ((file, entry) # more))))"

definition load_per_key_watermark ::
    "crates \<Rightarrow> path \<Rightarrow> 32 barray \<Rightarrow> bytes \<Rightarrow> (fs, io_error, per_key_watermark) stateful" where
  "load_per_key_watermark X key_dir mac_key ad =
     bindS (create_dir_all key_dir) (\<lambda>_.
       bindS (load_files X key_dir mac_key ad FILENAMES) (\<lambda>loaded.
         returnS \<lparr>pk_files = map fst loaded, entries = map snd loaded,
                   disk_ceiling = [None, None, None], disk_entries = map snd loaded\<rparr>))"

definition key_dir :: "crates \<Rightarrow> path \<Rightarrow> public_key_hash \<Rightarrow> path" where
  "key_dir X base pkh = base @ [pkh_to_b58check X pkh]"

definition mac_key_for ::
    "crates \<Rightarrow> (public_key_hash \<rightharpoonup> 32 barray) \<Rightarrow> public_key_hash \<Rightarrow> io_error + 32 barray" where
  "mac_key_for X mk pkh =
     ok_or (IoError InvalidInput (''no watermark MAC key for '' @ pkh_to_b58check X pkh)) (mk pkh)"

fun load_known_keys ::
    "crates \<Rightarrow> path \<Rightarrow> (public_key_hash \<rightharpoonup> 32 barray) \<Rightarrow> bytes \<Rightarrow> public_key_hash list
      \<Rightarrow> (public_key_hash \<rightharpoonup> per_key_watermark)
      \<Rightarrow> (fs, io_error, public_key_hash \<rightharpoonup> per_key_watermark) stateful" where
  "load_known_keys X base mk ad [] ks = returnS ks"
| "load_known_keys X base mk ad (pkh # pkhs) ks = (\<lambda>f.
     if is_dir (key_dir X base pkh) f
     then case mac_key_for X mk pkh of
            Inl e \<Rightarrow> (Inl e, f)
          | Inr k \<Rightarrow> bindS (load_per_key_watermark X (key_dir X base pkh) k ad)
                      (\<lambda>per_key. load_known_keys X base mk ad pkhs (ks(pkh \<mapsto> per_key))) f
     else load_known_keys X base mk ad pkhs ks f)"

definition hw_new ::
    "crates \<Rightarrow> path \<Rightarrow> public_key_hash list \<Rightarrow> (public_key_hash \<rightharpoonup> 32 barray) \<Rightarrow> chain_id
      \<Rightarrow> (fs, io_error, high_watermark) stateful" where
  "hw_new X base pkhs mk chain =
     bindS (create_dir_all base) (\<lambda>_.
       bindS (load_known_keys X base mk (bytes_of (chain_bytes chain)) pkhs Map.empty) (\<lambda>ks.
         returnS \<lparr>base_dir = base, known_pkhs = set pkhs, keys = ks, mac_keys = mk,
                   hw_chain_id = chain\<rparr>))"

section \<open>Per-key state\<close>

text \<open>A file-system call inside a method: its error becomes \<open>WatermarkError::Io\<close>.\<close>

definition on_fs :: "(fs, io_error, 'a) stateful \<Rightarrow> (hw_state, watermark_error, 'a) stateful" where
  "on_fs m s = (case m (snd s) of (r, f) \<Rightarrow> (map_err WmIo r, (fst s, f)))"

definition put_key :: "public_key_hash \<Rightarrow> per_key_watermark \<Rightarrow> hw_state \<Rightarrow> hw_state" where
  "put_key pkh pk s = ((fst s)\<lparr>keys := (keys (fst s))(pkh \<mapsto> pk)\<rparr>, snd s)"

definition mac_key :: "crates \<Rightarrow> high_watermark \<Rightarrow> public_key_hash \<Rightarrow> watermark_error + 32 barray" where
  "mac_key X h pkh =
     ok_or (NotInitialized (chain_to_b58check X (hw_chain_id h)) (pkh_to_b58check X pkh)) (mac_keys h pkh)"

definition ensure_key :: "crates \<Rightarrow> public_key_hash \<Rightarrow> (hw_state, watermark_error, unit) stateful" where
  "ensure_key X pkh s =
     (let h = fst s; dir = key_dir X (base_dir h) pkh in
      if keys h pkh \<noteq> None then (Inr (), s)
      else if pkh \<notin> known_pkhs h then (Inl (NotInitialized '''' (pkh_to_b58check X pkh)), s)
      else bindS (on_fs (create_dir_all dir)) (\<lambda>_ s.
             case mac_key X (fst s) pkh of
               Inl e \<Rightarrow> (Inl e, s)
             | Inr k \<Rightarrow>
                 bindS (on_fs (load_per_key_watermark X dir k (bytes_of (chain_bytes (hw_chain_id (fst s))))))
                   (\<lambda>per_key s. (Inr (), put_key pkh per_key s)) s) s)"

definition mark_bytes ::
    "crates \<Rightarrow> high_watermark \<Rightarrow> public_key_hash \<Rightarrow> u32 \<Rightarrow> u32 \<Rightarrow> watermark_error + 72 barray" where
  "mark_bytes X h pkh level round =
     and_then (mac_key X h pkh) (\<lambda>k.
       Inr (encode_authenticated X k (bytes_of (chain_bytes (hw_chain_id h))) level round))"

definition per_key_mut ::
    "crates \<Rightarrow> high_watermark \<Rightarrow> public_key_hash \<Rightarrow> watermark_error + per_key_watermark" where
  "per_key_mut X h pkh = ok_or (WmInternal (''Unknown key: '' @ pkh_to_b58check X pkh)) (keys h pkh)"

section \<open>Checking and advancing\<close>

definition check_and_update_parsed ::
    "crates \<Rightarrow> chain_id \<Rightarrow> public_key_hash \<Rightarrow> operation_type \<Rightarrow> u32 \<Rightarrow> u32
      \<Rightarrow> (hw_state, watermark_error, watermark_update option) stateful" where
  "check_and_update_parsed X chain pkh op_type level round =
     bindS (ensure_key X pkh) (\<lambda>_ s.
       case keys (fst s) pkh of None \<Rightarrow> (Inl WmPanic, s) | Some per_key \<Rightarrow>
       let idx = op_idx op_type in
       case entries per_key ! idx of
         None \<Rightarrow> (Inl (NotInitialized (chain_to_b58check X chain) (pkh_to_b58check X pkh)), s)
       | Some current \<Rightarrow>
           if level < we_level current then (Inl (LevelTooLow (we_level current) level), s)
           else if level = we_level current \<and> round \<le> we_round current
           then (Inl (RoundTooLow level (we_round current) round), s)
           else let prev = entries per_key ! idx;
                    per_key' = per_key\<lparr>entries := (entries per_key)[idx := Some (WatermarkEntry level round)]\<rparr>
                in (Inr (Some \<lparr>wu_pkh = pkh, wu_idx = idx, wu_level = level, wu_round = round,
                                wu_prev = prev\<rparr>),
                    put_key pkh per_key' s))"

definition check_and_update ::
    "crates \<Rightarrow> chain_id \<Rightarrow> public_key_hash \<Rightarrow> bytes
      \<Rightarrow> (hw_state, watermark_error, watermark_update option) stateful" where
  "check_and_update X chain pkh data s =
     (case data of [] \<Rightarrow> (Inl (InvalidData ''Empty data''), s)
      | magic_byte # _ \<Rightarrow>
          (case op_from_magic_byte magic_byte of None \<Rightarrow> (Inr None, s)
           | Some op_type \<Rightarrow>
               (case (if magic_byte = 0x11 then get_level_and_round_for_tenderbake_block data
                      else get_level_and_round_for_tenderbake_attestation data True) of
                  None \<Rightarrow> (Inl WmPanic, s)
                | Some (Inl e) \<Rightarrow> (Inl (InvalidData (magic_byte_error_text e)), s)
                | Some (Inr (level, round)) \<Rightarrow> check_and_update_parsed X chain pkh op_type level round s)))"

definition rollback_update :: "watermark_update \<Rightarrow> hw_state \<Rightarrow> hw_state" where
  "rollback_update u s =
     (case keys (fst s) (wu_pkh u) of None \<Rightarrow> s
      | Some per_key \<Rightarrow> put_key (wu_pkh u) (per_key\<lparr>entries := (entries per_key)[wu_idx u := wu_prev u]\<rparr>) s)"

definition ceiling_covers :: "high_watermark \<Rightarrow> watermark_update \<Rightarrow> bool" where
  "ceiling_covers h u \<longleftrightarrow>
     (case keys h (wu_pkh u) of None \<Rightarrow> False
      | Some per_key \<Rightarrow>
          (case disk_ceiling per_key ! wu_idx u of None \<Rightarrow> False
           | Some c \<Rightarrow> we_level c > wu_level u \<or> we_level c = wu_level u \<and> we_round c \<ge> wu_round u))"

section \<open>Persisting\<close>

text \<open>
  The disk half shared by the three writers: \<open>write_all_at\<close>, \<open>sync_data\<close>, then the bookkeeping of
  what is on stable storage.
\<close>

definition persist_mark ::
    "public_key_hash \<Rightarrow> per_key_watermark \<Rightarrow> nat \<Rightarrow> 72 barray \<Rightarrow> watermark_entry option \<Rightarrow> watermark_entry
      \<Rightarrow> (hw_state, watermark_error, unit) stateful" where
  "persist_mark pkh per_key idx buf new_ceiling on_disk =
     bindS (on_fs (write_all_at (pk_files per_key ! idx) (bytes_of buf))) (\<lambda>_.
       bindS (on_fs (sync_data (pk_files per_key ! idx))) (\<lambda>_ s.
         (Inr (), put_key pkh (per_key\<lparr>disk_ceiling := (disk_ceiling per_key)[idx := new_ceiling],
                                        disk_entries := (disk_entries per_key)[idx := Some on_disk]\<rparr>) s)))"

definition rollback_disk_watermark ::
    "crates \<Rightarrow> watermark_update \<Rightarrow> (hw_state, watermark_error, unit) stateful" where
  "rollback_disk_watermark X u s =
     (case wu_prev u of None \<Rightarrow> (Inr (), s)
      | Some prev \<Rightarrow>
          (case mark_bytes X (fst s) (wu_pkh u) (we_level prev) (we_round prev) of Inl e \<Rightarrow> (Inl e, s)
           | Inr buf \<Rightarrow>
             (case per_key_mut X (fst s) (wu_pkh u) of Inl e \<Rightarrow> (Inl e, s)
              | Inr per_key \<Rightarrow>
                  if \<not> wu_idx u < 3 then (Inl WmPanic, s)
                  else persist_mark (wu_pkh u) per_key (wu_idx u) buf None prev s)))"

definition write_watermark :: "crates \<Rightarrow> watermark_update \<Rightarrow> (hw_state, watermark_error, unit) stateful" where
  "write_watermark X u s =
     (case mark_bytes X (fst s) (wu_pkh u) (wu_level u) (wu_round u) of Inl e \<Rightarrow> (Inl e, s)
      | Inr buf \<Rightarrow>
        (case per_key_mut X (fst s) (wu_pkh u) of Inl e \<Rightarrow> (Inl e, s)
         | Inr per_key \<Rightarrow>
             if \<not> wu_idx u < 3 then (Inl WmPanic, s)
             else persist_mark (wu_pkh u) per_key (wu_idx u) buf None
                    (WatermarkEntry (wu_level u) (wu_round u)) s))"

definition write_ceiling ::
    "crates \<Rightarrow> public_key_hash \<Rightarrow> nat \<Rightarrow> u32 \<Rightarrow> (hw_state, watermark_error, unit) stateful" where
  "write_ceiling X pkh idx ceiling_level s =
     (case mark_bytes X (fst s) pkh ceiling_level u32_MAX of Inl e \<Rightarrow> (Inl e, s)
      | Inr buf \<Rightarrow>
        (case per_key_mut X (fst s) pkh of Inl e \<Rightarrow> (Inl e, s)
         | Inr per_key \<Rightarrow>
             if \<not> idx < 3 then (Inl WmPanic, s)
             else if (case entries per_key ! idx of None \<Rightarrow> False | Some e \<Rightarrow> we_level e \<ge> ceiling_level)
             then (Inr (), s)
             else if (case disk_ceiling per_key ! idx of None \<Rightarrow> False | Some c \<Rightarrow> we_level c \<ge> ceiling_level)
             then (Inr (), s)
             else let ceiling_entry = WatermarkEntry ceiling_level u32_MAX
                  in persist_mark pkh per_key idx buf (Some ceiling_entry) ceiling_entry s))"

section \<open>Levels\<close>

text \<open>\<open>filter_map(|e| e.map(|w| w.level)).max()\<close>.\<close>

fun max_level :: "watermark_entry option list \<Rightarrow> u32 option" where
  "max_level [] = None"
| "max_level (None # es) = max_level es"
| "max_level (Some e # es) =
     (case max_level es of None \<Rightarrow> Some (we_level e) | Some m \<Rightarrow> Some (max (we_level e) m))"

definition get_max_level :: "high_watermark \<Rightarrow> public_key_hash \<Rightarrow> u32 option" where
  "get_max_level h pkh = (case keys h pkh of None \<Rightarrow> None | Some per_key \<Rightarrow> max_level (entries per_key))"

definition get_current_level :: "high_watermark \<Rightarrow> chain_id \<Rightarrow> public_key_hash \<Rightarrow> u32 option" where
  "get_current_level h chain pkh = get_max_level h pkh"

definition get_persisted_level :: "high_watermark \<Rightarrow> public_key_hash \<Rightarrow> u32 option" where
  "get_persisted_level h pkh =
     (case keys h pkh of None \<Rightarrow> None | Some per_key \<Rightarrow> max_level (disk_entries per_key))"

definition get_current_levels ::
    "crates \<Rightarrow> high_watermark \<Rightarrow> chain_id \<Rightarrow> public_key_hash \<Rightarrow> watermark_error + u32 \<times> u32 \<times> u32" where
  "get_current_levels X h chain pkh =
     (let not_init = NotInitialized (chain_to_b58check X chain) (pkh_to_b58check X pkh) in
      and_then (ok_or not_init (keys h pkh)) (\<lambda>per_key.
        let get = (\<lambda>idx. ok_or not_init (map_option we_level (entries per_key ! idx)))
        in and_then (get 0) (\<lambda>b. and_then (get 1) (\<lambda>p. and_then (get 2) (\<lambda>a. Inr (b, p, a))))))"

fun write_updates :: "crates \<Rightarrow> watermark_update list \<Rightarrow> (hw_state, watermark_error, unit) stateful" where
  "write_updates X [] = returnS ()"
| "write_updates X (u # us) = bindS (write_watermark X u) (\<lambda>_. write_updates X us)"

definition update_to_level ::
    "crates \<Rightarrow> chain_id \<Rightarrow> public_key_hash \<Rightarrow> u32 \<Rightarrow> (hw_state, watermark_error, unit) stateful" where
  "update_to_level X chain pkh level =
     bindS (ensure_key X pkh) (\<lambda>_ s.
       case keys (fst s) pkh of None \<Rightarrow> (Inl WmPanic, s) | Some per_key \<Rightarrow>
       let entry = WatermarkEntry level 0;
           updates = map (\<lambda>op. \<lparr>wu_pkh = pkh, wu_idx = op_idx op, wu_level = level, wu_round = 0,
                                 wu_prev = entries per_key ! op_idx op\<rparr>) ALL_OPERATIONS;
           per_key' = per_key\<lparr>entries := [Some entry, Some entry, Some entry]\<rparr>
       in write_updates X updates (put_key pkh per_key' s))"

definition seed_floor ::
    "crates \<Rightarrow> chain_id \<Rightarrow> public_key_hash \<Rightarrow> u32 \<Rightarrow> (hw_state, watermark_error, unit) stateful" where
  "seed_floor X chain pkh level =
     bindS (ensure_key X pkh) (\<lambda>_ s.
       if (case get_max_level (fst s) pkh of None \<Rightarrow> False | Some existing \<Rightarrow> existing \<ge> level)
       then (Inr (), s)
       else update_to_level X chain pkh level s)"

fun write_seed_files :: "path \<Rightarrow> bytes \<Rightarrow> string list \<Rightarrow> (fs, io_error, unit) stateful" where
  "write_seed_files dir buf [] = returnS ()"
| "write_seed_files dir buf (filename # rest) =
     bindS (fs_write (dir @ [filename]) buf) (\<lambda>_. write_seed_files dir buf rest)"

definition seed_watermarks ::
    "crates \<Rightarrow> path \<Rightarrow> public_key_hash \<Rightarrow> u32 \<Rightarrow> 32 barray \<Rightarrow> chain_id \<Rightarrow> (fs, io_error, unit) stateful" where
  "seed_watermarks X base pkh level mk chain =
     bindS (create_dir_all (key_dir X base pkh)) (\<lambda>_.
       let buf = encode_authenticated X mk (bytes_of (chain_bytes chain)) level 0
       in write_seed_files (key_dir X base pkh) (bytes_of buf) FILENAMES)"

end
