(* ===== verification/Watermark_Invariant.thy ===== *)
theory Watermark_Invariant
  imports High_Watermark
begin

text \<open>
  The invariant that makes the watermark store safe, and that every operation of
  \<open>high_watermark.rs\<close> keeps it. \<open>good X C L s\<close> reads: the marks of \<open>L\<close> (one per signature that left
  the device) are a lower bound for whatever the in-memory entry and the file of that key and
  operation hold, on stable storage and in the cache; and a recorded \<open>disk_ceiling\<close> is a lower bound
  for the file too. \<open>C\<close> is the part of the tracker that no operation changes.
\<close>

section \<open>What a file says\<close>

definition hw_ad :: "high_watermark \<Rightarrow> bytes" where
  "hw_ad h = bytes_of (chain_bytes (hw_chain_id h))"

definition mark_of :: "crates \<Rightarrow> 32 barray \<Rightarrow> bytes \<Rightarrow> bytes \<Rightarrow> watermark_entry option" where
  "mark_of X k ad c =
     (if length c = AUTH_FILE_SIZE
      then map_option (\<lambda>(l, r). WatermarkEntry l r) (decode_authenticated X k ad (barray_of c))
      else None)"

definition mark_path :: "crates \<Rightarrow> high_watermark \<Rightarrow> public_key_hash \<Rightarrow> nat \<Rightarrow> path" where
  "mark_path X C pkh i = key_dir X (base_dir C) pkh @ [FILENAMES ! i]"

definition at_least :: "crates \<Rightarrow> high_watermark \<Rightarrow> public_key_hash \<Rightarrow> watermark_entry \<Rightarrow> bytes \<Rightarrow> bool" where
  "at_least X C pkh m c \<longleftrightarrow>
     (\<forall>k m'. mac_keys C pkh = Some k \<longrightarrow> mark_of X k (hw_ad C) c = Some m' \<longrightarrow> m \<le> m')"

text \<open>Bytes that no key of the device authenticates: what damage is taken to leave.\<close>

definition harmless :: "crates \<Rightarrow> high_watermark \<Rightarrow> bytes \<Rightarrow> bool" where
  "harmless X C c \<longleftrightarrow> (\<forall>pkh k. mac_keys C pkh = Some k \<longrightarrow> mark_of X k (hw_ad C) c = None)"

definition static :: "high_watermark \<Rightarrow> high_watermark" where
  "static h = h\<lparr>keys := Map.empty\<rparr>"

type_synonym signed_mark = "public_key_hash \<times> nat \<times> watermark_entry"

definition bounded :: "crates \<Rightarrow> high_watermark \<Rightarrow> fs \<Rightarrow> signed_mark \<Rightarrow> bool" where
  "bounded X C f = (\<lambda>(pkh, i, m). holds f (mark_path X C pkh i) (at_least X C pkh m))"

definition wf_pk :: "crates \<Rightarrow> high_watermark \<Rightarrow> public_key_hash \<Rightarrow> per_key_watermark \<Rightarrow> bool" where
  "wf_pk X C pkh pk \<longleftrightarrow>
     mac_keys C pkh \<noteq> None \<and>
     pk_files pk = map (\<lambda>fn. key_dir X (base_dir C) pkh @ [fn]) FILENAMES \<and>
     length (entries pk) = 3 \<and> length (disk_ceiling pk) = 3 \<and> length (disk_entries pk) = 3"

definition key_ok ::
    "crates \<Rightarrow> high_watermark \<Rightarrow> signed_mark set \<Rightarrow> fs \<Rightarrow> public_key_hash \<Rightarrow> per_key_watermark \<Rightarrow> bool" where
  "key_ok X C L f pkh pk \<longleftrightarrow>
     wf_pk X C pkh pk \<and>
     (\<forall>i c. i < 3 \<longrightarrow> disk_ceiling pk ! i = Some c \<longrightarrow> bounded X C f (pkh, i, c)) \<and>
     (\<forall>i m e. (pkh, i, m) \<in> L \<longrightarrow> entries pk ! i = Some e \<longrightarrow> m \<le> e)"

definition good :: "crates \<Rightarrow> high_watermark \<Rightarrow> signed_mark set \<Rightarrow> hw_state \<Rightarrow> bool" where
  "good X C L s \<longleftrightarrow>
     static (fst s) = C \<and>
     damage_ok (snd s) (harmless X C) \<and>
     (\<forall>pkh i m. (pkh, i, m) \<in> L \<longrightarrow> i < 3 \<and> bounded X C (snd s) (pkh, i, m)) \<and>
     (\<forall>pkh pk. keys (fst s) pkh = Some pk \<longrightarrow> key_ok X C L (snd s) pkh pk)"

section \<open>Basic facts\<close>

lemma static_simps [simp]:
  "base_dir (static h) = base_dir h" "known_pkhs (static h) = known_pkhs h"
  "mac_keys (static h) = mac_keys h" "hw_chain_id (static h) = hw_chain_id h"
  "static (h\<lparr>keys := ks\<rparr>) = static h"
  by (simp_all add: static_def)

lemma goodD:
  assumes "good X C L s"
  shows "static (fst s) = C" "damage_ok (snd s) (harmless X C)"
    "(pkh, i, m) \<in> L \<Longrightarrow> i < 3" "(pkh, i, m) \<in> L \<Longrightarrow> bounded X C (snd s) (pkh, i, m)"
    "keys (fst s) pkh = Some pk \<Longrightarrow> key_ok X C L (snd s) pkh pk"
    "base_dir (fst s) = base_dir C" "mac_keys (fst s) = mac_keys C" "hw_chain_id (fst s) = hw_chain_id C"
    "known_pkhs (fst s) = known_pkhs C"
  using assms by (auto simp: good_def)

lemma mark_path_inj:
  assumes "bs58_lawful X" and "i < 3" and "j < 3"
  shows "mark_path X C p i = mark_path X C q j \<longleftrightarrow> p = q \<and> i = j"
  using assms
  by (auto simp: mark_path_def key_dir_def pkh_to_b58check_inj FILENAMES_def less_3_cases)

lemma wf_pk_files: "wf_pk X C pkh pk \<Longrightarrow> i < 3 \<Longrightarrow> pk_files pk ! i = mark_path X C pkh i"
  by (auto simp: wf_pk_def mark_path_def FILENAMES_def less_3_cases)

lemma mark_of_encode [simp]:
  "mark_of X k ad (bytes_of (encode_authenticated X k ad l r)) = Some (WatermarkEntry l r)"
  by (simp add: mark_of_def)

lemma mark_of_Nil [simp]: "mark_of X k ad [] = None"
  by (simp add: mark_of_def)

lemma at_least_Nil [simp]: "at_least X C pkh m []"
  by (simp add: at_least_def)

lemma at_least_mono: "at_least X C pkh m c \<Longrightarrow> m' \<le> m \<Longrightarrow> at_least X C pkh m' c"
  by (meson at_least_def order_trans)

lemma harmless_at_least: "harmless X C c \<Longrightarrow> at_least X C pkh m c"
  by (simp add: harmless_def at_least_def)

lemma damage_at_least: "damage_ok f (harmless X C) \<Longrightarrow> damage_ok f (at_least X C pkh m)"
  by (auto simp: damage_ok_def intro: harmless_at_least)

lemma holds_mono: "holds f p Q \<Longrightarrow> (\<And>c. Q c \<Longrightarrow> R c) \<Longrightarrow> holds f p R"
  by (auto simp: holds_def)

lemma bounded_mono: "bounded X C f (pkh, i, m) \<Longrightarrow> m' \<le> m \<Longrightarrow> bounded X C f (pkh, i, m')"
  unfolding bounded_def by (auto elim!: holds_mono intro: at_least_mono)

text \<open>
  The bytes a mark writer leaves in the file: the encoded record, and after it whatever the file had
  beyond 72 bytes (in which case it does not verify).
\<close>

lemma at_least_written:
  assumes "mac_keys C pkh = Some k" and "m \<le> WatermarkEntry l r"
  shows "at_least X C pkh m (bytes_of (encode_authenticated X k (hw_ad C) l r) @ rest)"
proof (cases rest)
  case Nil
  then show ?thesis
    using assms by (simp add: at_least_def)
next
  case (Cons a list)
  then show ?thesis
    by (simp add: at_least_def mark_of_def)
qed

section \<open>Operations that only read marks\<close>

text \<open>\<open>keeps X C f g\<close>: going from \<open>f\<close> to \<open>g\<close> loses no bound.\<close>

definition keeps :: "crates \<Rightarrow> high_watermark \<Rightarrow> fs \<Rightarrow> fs \<Rightarrow> bool" where
  "keeps X C f g \<longleftrightarrow> outcomes g = outcomes f \<and> (\<forall>b. bounded X C f b \<longrightarrow> bounded X C g b)"

lemma keeps_refl [simp]: "keeps X C f f"
  by (simp add: keeps_def)

lemma keeps_trans: "keeps X C f g \<Longrightarrow> keeps X C g h \<Longrightarrow> keeps X C f h"
  by (simp add: keeps_def)

lemma keeps_ops:
  "keeps X C f (snd (create_dir_all p f))"
  "keeps X C f (snd (metadata_len p f))"
  "keeps X C f (snd (read_exact_at p n f))"
  "keeps X C f (snd (open_rw_create p f))"
  by (auto simp: keeps_def bounded_def intro: holds_open)

lemma keeps_bindS:
  assumes "keeps X C f (snd (m f))"
    and "\<And>x g. m f = (Inr x, g) \<Longrightarrow> keeps X C g (snd (k x g))"
  shows "keeps X C f (snd (bindS m k f))"
proof (cases "m f")
  case (Pair r g)
  then show ?thesis
    using assms by (cases r) (auto simp: bindS_def intro: keeps_trans)
qed

lemma keeps_returnS [simp]: "keeps X C f (snd (returnS x f))"
  by (simp add: returnS_def)

lemma keeps_load_entry: "keeps X C f (snd (load_entry_authenticated X' p k ad f))"
  unfolding load_entry_authenticated_def by (auto intro!: keeps_bindS keeps_ops)

lemma keeps_load_files: "keeps X C f (snd (load_files X' d k ad fns f))"
  by (induction fns arbitrary: f) (auto intro!: keeps_bindS keeps_ops keeps_load_entry)

lemma keeps_load_per_key: "keeps X C f (snd (load_per_key_watermark X' d k ad f))"
  unfolding load_per_key_watermark_def by (auto intro!: keeps_bindS keeps_ops keeps_load_files)

lemma keeps_key_ok: "keeps X C f g \<Longrightarrow> key_ok X C L f pkh pk \<Longrightarrow> key_ok X C L g pkh pk"
  by (auto simp: key_ok_def keeps_def)

lemma keeps_good: "good X C L (h, f) \<Longrightarrow> keeps X C f g \<Longrightarrow> good X C L (h, g)"
  by (auto simp: good_def keeps_def intro: keeps_key_ok [unfolded keeps_def]
      dest: damage_ok_cong [of g f "harmless X C"])

section \<open>What loading reads\<close>

lemma load_entry_reads:
  assumes "load_entry_authenticated X p k ad f = (Inr e, g)"
  shows "e = mark_of X k ad (content p f)"
  using assms
  by (auto simp: load_entry_authenticated_def bindS_def returnS_def metadata_len_def read_exact_at_def
      mark_of_def split: prod.splits sum.splits io_outcome.splits if_splits)

lemma content_bounded:
  assumes "holds f p (at_least X C pkh m)" and "mac_keys C pkh = Some k"
    and "mark_of X k (hw_ad C) (content p f) = Some e"
  shows "m \<le> e"
  using assms by (auto simp: holds_def at_least_def content_def view_def split: option.splits)

lemma load_files_fst: "load_files X d k ad fns f = (Inr loaded, g) \<Longrightarrow> map fst loaded = map (\<lambda>fn. d @ [fn]) fns"
proof (induction fns arbitrary: f loaded g)
  case Nil
  then show ?case
    by (simp add: returnS_def)
next
  case (Cons fn fns)
  then show ?case
    by (fastforce simp: bindS_def returnS_def open_rw_create_def
        split: prod.splits sum.splits io_outcome.splits)
qed

lemma load_files_bounded:
  assumes "load_files X (key_dir X (base_dir C) pkh) k (hw_ad C) fns f = (Inr loaded, g)"
    and "mac_keys C pkh = Some k" and "i < length fns"
    and "holds f (key_dir X (base_dir C) pkh @ [fns ! i]) (at_least X C pkh m)"
    and "snd (loaded ! i) = Some e"
  shows "m \<le> e"
  using assms
proof (induction fns arbitrary: f loaded g i)
  case (Cons fn fns)
  let ?d = "key_dir X (base_dir C) pkh"
  from Cons.prems(1) obtain f1 f2 en more where
    o: "open_rw_create (?d @ [fn]) f = (Inr (?d @ [fn]), f1)"
    and l: "load_entry_authenticated X (?d @ [fn]) k (hw_ad C) f1 = (Inr en, f2)"
    and r: "load_files X ?d k (hw_ad C) fns f2 = (Inr more, g)"
    and loaded: "loaded = (?d @ [fn], en) # more"
    by (auto simp: bindS_def returnS_def open_rw_create_def split: prod.splits sum.splits io_outcome.splits)
  have h1: "holds f1 q (at_least X C pkh m)" if "holds f q (at_least X C pkh m)" for q
    using that holds_open [of f q "at_least X C pkh m" "?d @ [fn]"] o by simp
  have h2: "holds f2 q (at_least X C pkh m)" if "holds f q (at_least X C pkh m)" for q
  proof -
    have "f2 = tick (tick f1) \<or> f2 = tick f1"
      using l by (auto simp: load_entry_authenticated_def bindS_def returnS_def metadata_len_def
          read_exact_at_def split: prod.splits sum.splits io_outcome.splits if_splits)
    then show ?thesis
      using h1 [OF that] by (auto simp: holds_def)
  qed
  show ?case
  proof (cases i)
    case 0
    with Cons.prems(4) have "holds f1 (?d @ [fn]) (at_least X C pkh m)"
      by (simp add: h1)
    then show ?thesis
      using 0 loaded Cons.prems(2,5) load_entry_reads [OF l] by (auto intro: content_bounded)
  next
    case (Suc j)
    then show ?thesis
      using Cons.IH [OF r Cons.prems(2), of j] Cons.prems(3,4,5) loaded h2 by simp
  qed
qed simp

lemma load_per_key_ok:
  assumes load: "load_per_key_watermark X (key_dir X (base_dir C) pkh) k (hw_ad C) f = (Inr pk, g)"
    and k: "mac_keys C pkh = Some k"
    and L: "\<And>i m. (pkh, i, m) \<in> L \<Longrightarrow> i < 3 \<and> bounded X C f (pkh, i, m)"
  shows "key_ok X C L g pkh pk"
proof -
  let ?d = "key_dir X (base_dir C) pkh"
  from load obtain f1 loaded where c: "create_dir_all ?d f = (Inr (), f1)"
    and l: "load_files X ?d k (hw_ad C) FILENAMES f1 = (Inr loaded, g)"
    and pk: "pk = \<lparr>pk_files = map fst loaded, entries = map snd loaded,
                    disk_ceiling = [None, None, None], disk_entries = map snd loaded\<rparr>"
    by (auto simp: load_per_key_watermark_def bindS_def returnS_def split: prod.splits sum.splits)
  have len: "length loaded = 3"
    using arg_cong [OF load_files_fst [OF l], of length] by (simp add: FILENAMES_def)
  have f1: "holds f1 q Q = holds f q Q" for q Q
    using holds_read_ops(1) [of ?d f q Q] c by simp
  have "m \<le> e" if "(pkh, i, m) \<in> L" "map snd loaded ! i = Some e" for i m e
  proof -
    from L [OF that(1)] have i: "i < 3" and b: "holds f1 (?d @ [FILENAMES ! i]) (at_least X C pkh m)"
      by (simp_all add: bounded_def mark_path_def f1)
    show ?thesis
      using load_files_bounded [OF l k _ b] i that(2) len by (simp add: FILENAMES_def)
  qed
  then show ?thesis
    using load_files_fst [OF l] len k by (auto simp: key_ok_def wf_pk_def pk less_3_cases)
qed

section \<open>Tracking a key\<close>

lemma put_key_simps [simp]:
  "snd (put_key pkh pk s) = snd s" "static (fst (put_key pkh pk s)) = static (fst s)"
  "keys (fst (put_key pkh pk s)) = (keys (fst s))(pkh \<mapsto> pk)"
  "mac_keys (fst (put_key pkh pk s)) = mac_keys (fst s)"
  "hw_chain_id (fst (put_key pkh pk s)) = hw_chain_id (fst s)"
  by (simp_all add: put_key_def)

lemma good_put_key: "good X C L s \<Longrightarrow> key_ok X C L (snd s) pkh pk \<Longrightarrow> good X C L (put_key pkh pk s)"
  by (auto simp: good_def)

lemma good_insert:
  assumes "good X C L s" and "i < 3" and "bounded X C (snd s) (pkh, i, m)"
    and "\<And>pk e. keys (fst s) pkh = Some pk \<Longrightarrow> entries pk ! i = Some e \<Longrightarrow> m \<le> e"
  shows "good X C (insert (pkh, i, m) L) s"
  using assms by (auto simp: good_def key_ok_def)

lemma on_fs_simps:
  "on_fs m s = (case m (snd s) of (Inl e, f) \<Rightarrow> (Inl (WmIo e), (fst s, f)) | (Inr x, f) \<Rightarrow> (Inr x, (fst s, f)))"
  by (auto simp: on_fs_def split: prod.splits sum.splits)

lemma ensure_key_known [simp]: "keys (fst s) pkh = Some pk \<Longrightarrow> ensure_key X pkh s = (Inr (), s)"
  by (simp add: ensure_key_def Let_def)

lemma ensure_key_load_good:
  assumes g: "good X C L (h, f)" and k: "mac_keys C pkh = Some k"
    and run: "bindS (on_fs (load_per_key_watermark X (key_dir X (base_dir C) pkh) k (hw_ad C)))
        (\<lambda>per_key s. (Inr (), put_key pkh per_key s)) (h, f) = (r, s')"
  shows "good X C L s' \<and> (is_ok r \<longrightarrow> keys (fst s') pkh \<noteq> None)"
proof (cases "load_per_key_watermark X (key_dir X (base_dir C) pkh) k (hw_ad C) f")
  case (Pair q g')
  have keep: "good X C L (h, g')"
    using keeps_good [OF g keeps_load_per_key [of X C f X "key_dir X (base_dir C) pkh" k "hw_ad C"]] Pair
    by simp
  show ?thesis
  proof (cases q)
    case (Inl e)
    then show ?thesis
      using run keep Pair by (auto simp: bindS_def on_fs_simps)
  next
    case (Inr pk)
    have ok: "key_ok X C L g' pkh pk"
      by (rule load_per_key_ok [OF _ k]) (use Pair Inr goodD(3,4) [OF g] in auto)
    have "s' = put_key pkh pk (h, g')"
      using run Inr Pair by (auto simp: bindS_def on_fs_simps)
    then show ?thesis
      using good_put_key [OF keep, of pkh pk] ok by simp
  qed
qed

lemma ensure_key_good:
  assumes g: "good X C L s" and run: "ensure_key X pkh s = (r, s')"
  shows "good X C L s' \<and> (is_ok r \<longrightarrow> keys (fst s') pkh \<noteq> None)"
proof (cases "keys (fst s) pkh = None \<and> pkh \<in> known_pkhs (fst s)")
  case False
  then show ?thesis
    using assms by (auto simp: ensure_key_def Let_def split: if_splits)
next
  case True
  obtain h f where s: "s = (h, f)"
    by (cases s)
  let ?d = "key_dir X (base_dir h) pkh"
  obtain q f1 where c: "create_dir_all ?d f = (q, f1)"
    by (cases "create_dir_all ?d f")
  have g1: "good X C L (h, f1)"
    using keeps_good [OF g [unfolded s] keeps_ops(1) [of X C f ?d]] c by simp
  note st = goodD(6-8) [OF g1, simplified]
  show ?thesis
  proof (cases q)
    case (Inl e)
    then show ?thesis
      using run True g1 c by (auto simp: ensure_key_def Let_def bindS_def on_fs_simps s)
  next
    case Inr
    show ?thesis
    proof (cases "mac_keys h pkh")
      case None
      then show ?thesis
        using run True Inr g1 c by (auto simp: ensure_key_def Let_def bindS_def on_fs_simps s mac_key_def)
    next
      case (Some k)
      have "bindS (on_fs (load_per_key_watermark X (key_dir X (base_dir C) pkh) k (hw_ad C)))
        (\<lambda>per_key s. (Inr (), put_key pkh per_key s)) (h, f1) = (r, s')"
        using run True Inr c Some st
        by (simp add: ensure_key_def Let_def s mac_key_def hw_ad_def)
          (simp add: bindS_def on_fs_simps)
      then show ?thesis
        using ensure_key_load_good [OF g1 _ ] Some st by simp
    qed
  qed
qed

section \<open>Accepting a mark\<close>

definition upd_mark :: "watermark_update \<Rightarrow> watermark_entry" where
  "upd_mark u = WatermarkEntry (wu_level u) (wu_round u)"

text \<open>
  The state between a successful check and its persist: the entry has advanced to the update's mark,
  which exceeds the previous entry, and every signed mark of that key and operation is at most the
  previous entry.
\<close>

definition advanced :: "signed_mark set \<Rightarrow> hw_state \<Rightarrow> watermark_update \<Rightarrow> bool" where
  "advanced L s u \<longleftrightarrow>
     wu_idx u < 3 \<and>
     (\<exists>pk prev. keys (fst s) (wu_pkh u) = Some pk \<and> entries pk ! wu_idx u = Some (upd_mark u) \<and>
        wu_prev u = Some prev \<and> prev < upd_mark u \<and>
        (\<forall>m. (wu_pkh u, wu_idx u, m) \<in> L \<longrightarrow> m \<le> prev))"

lemma op_idx_less [simp]: "op_idx op < 3"
  by (cases op) auto

lemma check_parsed_tracked:
  assumes g: "good X C L s" and key: "keys (fst s) pkh = Some pk" and e: "entries pk ! op_idx op = Some e"
    and lt: "e < WatermarkEntry l r"
    and run: "check_and_update_parsed X chain pkh op l r s = (res, s')"
  shows "\<exists>u. res = Inr (Some u) \<and> wu_pkh u = pkh \<and> wu_idx u = op_idx op \<and> upd_mark u = WatermarkEntry l r \<and>
    good X C L s' \<and> advanced L s' u"
proof -
  let ?pk = "pk\<lparr>entries := (entries pk)[op_idx op := Some (WatermarkEntry l r)]\<rparr>"
  let ?u = "\<lparr>wu_pkh = pkh, wu_idx = op_idx op, wu_level = l, wu_round = r, wu_prev = Some e\<rparr>"
  have ok: "key_ok X C L (snd s) pkh pk"
    using goodD(5) [OF g key] .
  then have len: "op_idx op < length (entries pk)"
    by (simp add: key_ok_def wf_pk_def)
  have below: "m \<le> e" if "(pkh, op_idx op, m) \<in> L" for m
    using ok that e by (auto simp: key_ok_def)
  have "res = Inr (Some ?u) \<and> s' = put_key pkh ?pk s"
    using run key e lt
    by (cases e) (auto simp: check_and_update_parsed_def bindS_def Let_def split: if_splits)
  moreover have "key_ok X C L (snd s) pkh ?pk"
    using ok len lt below by (fastforce simp: key_ok_def wf_pk_def nth_list_update)
  ultimately show ?thesis
    using good_put_key [OF g, of pkh ?pk] len e below lt by (auto simp: advanced_def upd_mark_def)
qed

lemma check_parsed_refused:
  assumes key: "keys (fst s) pkh = Some pk"
    and no: "\<not> (\<exists>e. entries pk ! op_idx op = Some e \<and> e < WatermarkEntry l r)"
  shows "snd (check_and_update_parsed X chain pkh op l r s) = s \<and>
    \<not> is_ok (fst (check_and_update_parsed X chain pkh op l r s))"
proof (cases "entries pk ! op_idx op")
  case None
  then show ?thesis
    using key by (simp add: check_and_update_parsed_def bindS_def Let_def)
next
  case (Some e)
  then show ?thesis
    using key no by (cases e) (auto simp: check_and_update_parsed_def bindS_def Let_def)
qed

lemma check_parsed_untracked:
  assumes "keys (fst s) pkh = None"
  shows "check_and_update_parsed X chain pkh op l r s =
    (case ensure_key X pkh s of (Inl e, s1) \<Rightarrow> (Inl e, s1)
     | (Inr _, s1) \<Rightarrow> if keys (fst s1) pkh = None then (Inl WmPanic, s1)
        else check_and_update_parsed X chain pkh op l r s1)"
  by (auto simp: check_and_update_parsed_def bindS_def split: prod.splits sum.splits option.splits)

lemma check_parsed_good:
  assumes g: "good X C L s" and run: "check_and_update_parsed X chain pkh op l r s = (res, s')"
  shows "good X C L s' \<and> res \<noteq> Inr None \<and>
    (\<forall>u. res = Inr (Some u) \<longrightarrow> wu_pkh u = pkh \<and> wu_idx u = op_idx op \<and> upd_mark u = WatermarkEntry l r \<and>
       advanced L s' u)"
proof -
  have *: "?thesis" if g: "good X C L t" and key: "keys (fst t) pkh = Some pk"
    and run: "check_and_update_parsed X chain pkh op l r t = (res, s')" for t pk
  proof (cases "\<exists>e. entries pk ! op_idx op = Some e \<and> e < WatermarkEntry l r")
    case True
    then show ?thesis
      using check_parsed_tracked [OF g key _ _ run] by fastforce
  next
    case False
    then show ?thesis
      using check_parsed_refused [OF key False, of X chain] run g by (auto simp: result_simps)
  qed
  show ?thesis
  proof (cases "keys (fst s) pkh")
    case (Some pk)
    then show ?thesis
      using * [OF g _ run] by blast
  next
    case None
    obtain q s1 where e: "ensure_key X pkh s = (q, s1)"
      by (cases "ensure_key X pkh s")
    note eg = ensure_key_good [OF g e]
    show ?thesis
    proof (cases q)
      case (Inl err)
      then show ?thesis
        using run eg by (auto simp: check_parsed_untracked [OF None] e)
    next
      case (Inr x)
      then obtain pk where "keys (fst s1) pkh = Some pk"
        using eg by auto
      moreover from this have "check_and_update_parsed X chain pkh op l r s1 = (res, s')"
        using run Inr by (simp add: check_parsed_untracked [OF None] e)
      ultimately show ?thesis
        using * [of s1] eg by blast
    qed
  qed
qed

text \<open>The two entry points agree: a parsed payload goes through the same check.\<close>

lemma check_and_update_good:
  assumes g: "good X C L s" and run: "check_and_update X chain pkh data s = (res, s')"
  shows "good X C L s' \<and> (\<forall>u. res = Inr (Some u) \<longrightarrow> wu_pkh u = pkh \<and> advanced L s' u)"
proof (cases data)
  case Nil
  then show ?thesis
    using assms by (auto simp: check_and_update_def)
next
  case (Cons b bs)
  show ?thesis
  proof (cases "\<exists>op l r. check_and_update X chain pkh data s = check_and_update_parsed X chain pkh op l r s")
    case True
    then show ?thesis
      using check_parsed_good [OF g] run by fastforce
  next
    case False
    then have "check_and_update_parsed X chain pkh op l r s \<noteq> (res, s')" for op l r
      using run by metis
    then have "s' = s \<and> (\<forall>u. res \<noteq> Inr (Some u))"
      using run Cons
      by (auto simp: check_and_update_def split: option.splits sum.splits if_splits prod.splits)
    then show ?thesis
      using g by auto
  qed
qed

section \<open>Persisting a mark\<close>

lemma sync_keeps_bounded: "bounded X C f b \<Longrightarrow> bounded X C (snd (sync_data p f)) b"
  by (cases b) (metis (no_types, lifting) bounded_def case_prod_conv holds_sync holds_sync_other)

lemma write_keeps_bounded:
  assumes X: "bs58_lawful X" and d: "damage_ok f (harmless X C)" and k: "mac_keys C pkh = Some k"
    and i: "i < 3" and j: "j < 3" and b: "bounded X C f (q, j, m)"
    and le: "q = pkh \<Longrightarrow> j = i \<Longrightarrow> m \<le> WatermarkEntry l r"
  shows "bounded X C (snd (write_all_at (mark_path X C pkh i)
           (bytes_of (encode_authenticated X k (hw_ad C) l r)) f)) (q, j, m)"
proof (cases "q = pkh \<and> j = i")
  case True
  then have "holds f (mark_path X C pkh i) (at_least X C pkh m)" and "m \<le> WatermarkEntry l r"
    using b le by (simp_all add: bounded_def)
  then have "holds (snd (write_all_at (mark_path X C pkh i)
      (bytes_of (encode_authenticated X k (hw_ad C) l r)) f)) (mark_path X C pkh i) (at_least X C pkh m)"
    using k d by (intro holds_write) (auto intro: at_least_written damage_at_least)
  then show ?thesis
    using True by (simp add: bounded_def)
next
  case False
  then have "mark_path X C pkh i \<noteq> mark_path X C q j"
    using mark_path_inj [OF X i j] by auto
  then show ?thesis
    using b by (simp add: bounded_def holds_write_other)
qed

lemma persist_written:
  assumes "write_all_at p (bytes_of (encode_authenticated X k (hw_ad C) l r)) f = (Inr (), f1)"
    and "sync_data p f1 = (Inr (), f2)" and "mac_keys C pkh = Some k" and "p = mark_path X C pkh i"
  shows "bounded X C f2 (pkh, i, WatermarkEntry l r)"
  using write_sync_exact [OF assms(1,2)] assms(3,4)
  by (simp add: bounded_def holds_def at_least_written)

lemma good_fs_change:
  assumes g: "good X C L (h, f)" and out: "outcomes g = outcomes f"
    and b: "\<And>q j m. j < 3 \<Longrightarrow> bounded X C f (q, j, m) \<Longrightarrow> (q = pkh \<Longrightarrow> j = i \<Longrightarrow> m \<le> M) \<Longrightarrow>
      bounded X C g (q, j, m)"
    and above: "\<And>m. (pkh, i, m) \<in> L \<Longrightarrow> m \<le> M"
    and ceil: "\<And>pk c. keys h pkh = Some pk \<Longrightarrow> disk_ceiling pk ! i = Some c \<Longrightarrow> c \<le> M"
  shows "good X C L (h, g)"
proof -
  have "key_ok X C L g q pk" if q: "keys h q = Some pk" for q pk
  proof -
    have ok: "key_ok X C L f q pk"
      using goodD(5) [OF g, of q pk] q by simp
    have "bounded X C g (q, j, c)" if "j < 3" "disk_ceiling pk ! j = Some c" for j c
      by (rule b [OF that(1)]) (use ok that q ceil in \<open>auto simp: key_ok_def\<close>)
    then show ?thesis
      using ok by (auto simp: key_ok_def)
  qed
  moreover have "bounded X C g (q, j, m)" if "(q, j, m) \<in> L" for q j m
    using b [of j q m] goodD(3,4) [OF g that] above that by auto
  ultimately show ?thesis
    using g out by (auto simp: good_def damage_ok_def)
qed

definition persisted ::
    "crates \<Rightarrow> high_watermark \<Rightarrow> signed_mark set \<Rightarrow> public_key_hash \<Rightarrow> per_key_watermark \<Rightarrow> nat \<Rightarrow>
      watermark_entry \<Rightarrow> hw_state \<Rightarrow> watermark_error + unit \<Rightarrow> hw_state \<Rightarrow> bool" where
  "persisted X C L pkh pk i m s res s' \<longleftrightarrow>
     good X C L s' \<and> (is_ok res \<longrightarrow> bounded X C (snd s') (pkh, i, m)) \<and>
     (\<forall>q. q \<noteq> pkh \<longrightarrow> keys (fst s') q = keys (fst s) q) \<and>
     (\<exists>pk'. keys (fst s') pkh = Some pk' \<and> entries pk' = entries pk \<and>
        (\<forall>j. j \<noteq> i \<longrightarrow> disk_ceiling pk' ! j = disk_ceiling pk ! j) \<and>
        disk_ceiling pk' ! i \<in> {disk_ceiling pk ! i, None, Some m})"

text \<open>
  One write-and-sync of the mark \<open>(l, r)\<close> of a tracked key, above everything signed and above the
  recorded ceiling, keeps the invariant whether or not the disk fails; if it succeeds the file is
  bounded by the new mark.
\<close>

lemma persist_mark_good:
  assumes X: "bs58_lawful X" and g: "good X C L s" and key: "keys (fst s) pkh = Some pk" and i: "i < 3"
    and k: "mac_keys C pkh = Some k"
    and above: "\<And>m. (pkh, i, m) \<in> L \<Longrightarrow> m \<le> WatermarkEntry l r"
    and ceil: "\<And>c. disk_ceiling pk ! i = Some c \<Longrightarrow> c \<le> WatermarkEntry l r"
    and nc: "nc = None \<or> nc = Some (WatermarkEntry l r)"
    and run: "persist_mark pkh pk i (encode_authenticated X k (hw_ad C) l r) nc od s = (res, s')"
  shows "persisted X C L pkh pk i (WatermarkEntry l r) s res s'"
proof -
  obtain h f where s: "s = (h, f)"
    by (cases s)
  let ?p = "mark_path X C pkh i" and ?buf = "bytes_of (encode_authenticated X k (hw_ad C) l r)"
  have ok: "key_ok X C L f pkh pk"
    using goodD(5) [OF g key] s by simp
  have wf: "wf_pk X C pkh pk" and files: "pk_files pk ! i = ?p"
    using ok i wf_pk_files by (auto simp: key_ok_def)
  obtain rw f1 where w: "write_all_at ?p ?buf f = (rw, f1)"
    by (cases "write_all_at ?p ?buf f")
  obtain rs f2 where y: "sync_data ?p f1 = (rs, f2)"
    by (cases "sync_data ?p f1")
  have d: "damage_ok f (harmless X C)"
    using goodD(2) [OF g] s by simp
  have out: "outcomes f1 = outcomes f" "outcomes f2 = outcomes f"
    using outcomes_ops(5) [of ?p ?buf f] outcomes_ops(6) [of ?p f1] w y by simp_all
  have b1: "bounded X C f1 (q, j, m)" if "j < 3" "bounded X C f (q, j, m)"
    "q = pkh \<Longrightarrow> j = i \<Longrightarrow> m \<le> WatermarkEntry l r" for q j m
    using write_keeps_bounded [OF X d k i that] w by simp
  have b2: "bounded X C f2 b" if "bounded X C f1 b" for b
    using sync_keeps_bounded [OF that, of ?p] y by simp
  have cl: "c \<le> WatermarkEntry l r" if "keys h pkh = Some pk'" "disk_ceiling pk' ! i = Some c" for pk' c
    using that key ceil s by simp
  have g1: "good X C L (h, f1)"
    by (rule good_fs_change [OF g [unfolded s] out(1) b1 above cl])
  have g2: "good X C L (h, f2)"
    by (rule good_fs_change [OF g [unfolded s] out(2) b2 [OF b1] above cl])
  show ?thesis
  proof (cases rw)
    case (Inl e)
    then show ?thesis
      using run g1 w key by (auto simp: persist_mark_def bindS_def on_fs_simps files s persisted_def)
  next
    case (Inr x)
    show ?thesis
    proof (cases rs)
      case (Inl e)
      then show ?thesis
        using run g2 w y key Inr by (auto simp: persist_mark_def bindS_def on_fs_simps files s persisted_def)
    next
      case rs: (Inr x')
      let ?pk = "pk\<lparr>disk_ceiling := (disk_ceiling pk)[i := nc], disk_entries := (disk_entries pk)[i := Some od]\<rparr>"
      have s': "res = Inr ()" "s' = put_key pkh ?pk (h, f2)"
        using run w y Inr rs by (auto simp: persist_mark_def bindS_def on_fs_simps files s)
      have b: "bounded X C f2 (pkh, i, WatermarkEntry l r)"
        by (rule persist_written [OF _ _ k]) (use w y Inr rs in auto)
      have ok2: "key_ok X C L f2 pkh pk"
        using goodD(5) [OF g2, of pkh pk] key s by simp
      have "key_ok X C L f2 pkh ?pk"
        using ok2 nc b i by (auto simp: key_ok_def wf_pk_def nth_list_update split: if_splits)
      then show ?thesis
        using good_put_key [OF g2, of pkh ?pk] s' b wf i nc by (auto simp: s wf_pk_def nth_list_update persisted_def)
    qed
  qed
qed

section \<open>The three writers and the roll back\<close>

lemma mac_key_tracked:
  assumes "good X C L s" and "keys (fst s) pkh = Some pk"
  shows "\<exists>k. mac_keys C pkh = Some k \<and>
    (\<forall>l r. mark_bytes X (fst s) pkh l r = Inr (encode_authenticated X k (hw_ad C) l r))"
  using goodD(5) [OF assms] goodD(7,8) [OF assms(1)]
  by (auto simp: key_ok_def wf_pk_def mark_bytes_def mac_key_def hw_ad_def)

lemma write_watermark_good:
  assumes X: "bs58_lawful X" and g: "good X C L s" and key: "keys (fst s) (wu_pkh u) = Some pk"
    and i: "wu_idx u < 3" and above: "\<And>m. (wu_pkh u, wu_idx u, m) \<in> L \<Longrightarrow> m \<le> upd_mark u"
    and ceil: "\<And>c. disk_ceiling pk ! wu_idx u = Some c \<Longrightarrow> c \<le> upd_mark u"
    and run: "write_watermark X u s = (res, s')"
  shows "persisted X C L (wu_pkh u) pk (wu_idx u) (upd_mark u) s res s'"
proof -
  obtain k where k: "mac_keys C (wu_pkh u) = Some k"
    and mb: "\<And>l r. mark_bytes X (fst s) (wu_pkh u) l r = Inr (encode_authenticated X k (hw_ad C) l r)"
    using mac_key_tracked [OF g key] by blast
  from run key i have "persist_mark (wu_pkh u) pk (wu_idx u)
      (encode_authenticated X k (hw_ad C) (wu_level u) (wu_round u)) None (upd_mark u) s = (res, s')"
    by (simp add: write_watermark_def mb per_key_mut_def upd_mark_def)
  then show ?thesis
    using persist_mark_good [OF X g key i k above [unfolded upd_mark_def] ceil [unfolded upd_mark_def],
        where nc = None]
    by (simp add: upd_mark_def)
qed

lemma rollback_update_good:
  assumes g: "good X C L s" and a: "advanced L s u"
  shows "good X C L (rollback_update u s)"
proof -
  from a obtain pk prev where key: "keys (fst s) (wu_pkh u) = Some pk" and prev: "wu_prev u = Some prev"
    and below: "\<And>m. (wu_pkh u, wu_idx u, m) \<in> L \<Longrightarrow> m \<le> prev" and i: "wu_idx u < 3"
    by (auto simp: advanced_def)
  have "key_ok X C L (snd s) (wu_pkh u) (pk\<lparr>entries := (entries pk)[wu_idx u := wu_prev u]\<rparr>)"
    using goodD(5) [OF g key] below i prev
    by (fastforce simp: key_ok_def wf_pk_def nth_list_update split: if_splits)
  then show ?thesis
    using good_put_key [OF g] key by (simp add: rollback_update_def)
qed

lemma ceiling_covers_bounded:
  assumes g: "good X C L s" and i: "wu_idx u < 3" and cov: "ceiling_covers (fst s) u"
  shows "bounded X C (snd s) (wu_pkh u, wu_idx u, upd_mark u)"
proof -
  from cov obtain pk c where key: "keys (fst s) (wu_pkh u) = Some pk"
    and c: "disk_ceiling pk ! wu_idx u = Some c" and le: "upd_mark u \<le> c"
    by (auto simp: ceiling_covers_def upd_mark_def less_eq_watermark_entry_def split: option.splits)
  have "bounded X C (snd s) (wu_pkh u, wu_idx u, c)"
    using goodD(5) [OF g key] c i by (auto simp: key_ok_def)
  then show ?thesis
    using le by (rule bounded_mono)
qed

lemma not_ceiling_covers:
  assumes "\<not> ceiling_covers h u" and "keys h (wu_pkh u) = Some pk"
    and "disk_ceiling pk ! wu_idx u = Some c"
  shows "c < upd_mark u"
  using assms by (cases c) (auto simp: ceiling_covers_def upd_mark_def)

lemma write_ceiling_good:
  assumes X: "bs58_lawful X" and g: "good X C L s"
    and ready: "\<And>pk. keys (fst s) pkh = Some pk \<Longrightarrow> i < 3 \<Longrightarrow> entries pk ! i \<noteq> None"
    and run: "write_ceiling X pkh i cl s = (res, s')"
  shows "good X C L s'"
proof (cases "keys (fst s) pkh")
  case None
  then show ?thesis
    using run g by (auto simp: write_ceiling_def per_key_mut_def split: sum.splits)
next
  case (Some pk)
  obtain k where k: "mac_keys C pkh = Some k"
    and mb: "\<And>l r. mark_bytes X (fst s) pkh l r = Inr (encode_authenticated X k (hw_ad C) l r)"
    using mac_key_tracked [OF g Some] by blast
  show ?thesis
  proof (cases "s' = s")
    case False
    then have i: "i < 3" and e: "\<And>e. entries pk ! i = Some e \<Longrightarrow> we_level e < cl"
      and c: "\<And>c. disk_ceiling pk ! i = Some c \<Longrightarrow> we_level c < cl"
      and p: "persist_mark pkh pk i (encode_authenticated X k (hw_ad C) cl u32_MAX)
        (Some (WatermarkEntry cl u32_MAX)) (WatermarkEntry cl u32_MAX) s = (res, s')"
      using run Some
      by (auto simp: write_ceiling_def per_key_mut_def mb Let_def split: if_splits option.splits)
    obtain en where en: "entries pk ! i = Some en"
      using ready [OF Some i] by auto
    have "m \<le> WatermarkEntry cl u32_MAX" if "(pkh, i, m) \<in> L" for m
    proof -
      have "m \<le> en"
        using goodD(5) [OF g Some] that en by (auto simp: key_ok_def)
      also have "en \<le> WatermarkEntry cl u32_MAX"
        using e [OF en] by (simp add: less_eq_watermark_entry_def)
      finally show ?thesis .
    qed
    then have "persisted X C L pkh pk i (WatermarkEntry cl u32_MAX) s res s'"
      by (rule persist_mark_good [OF X g Some i k _ _ _ p])
        (use c in \<open>auto simp: less_eq_watermark_entry_def\<close>)
    then show ?thesis
      by (simp add: persisted_def)
  qed (use g in simp)
qed

section \<open>Raising every mark of a key\<close>

text \<open>
  What \<open>update_to_level\<close> relies on but does not check: nothing was signed, and nothing is recorded as
  being on disk, above the level it is told to move to.
\<close>

definition raise_ok :: "signed_mark set \<Rightarrow> hw_state \<Rightarrow> public_key_hash \<Rightarrow> watermark_entry \<Rightarrow> bool" where
  "raise_ok L s pkh m \<longleftrightarrow>
     (\<forall>i m'. (pkh, i, m') \<in> L \<longrightarrow> m' \<le> m) \<and>
     (\<forall>pk i c. keys (fst s) pkh = Some pk \<longrightarrow> i < 3 \<longrightarrow> disk_ceiling pk ! i = Some c \<longrightarrow> c \<le> m)"

lemma load_per_key_no_ceiling:
  "load_per_key_watermark X d k ad f = (Inr pk, g) \<Longrightarrow> disk_ceiling pk = [None, None, None]"
  by (auto simp: load_per_key_watermark_def bindS_def returnS_def split: prod.splits sum.splits)

lemma ensure_key_raise_ok:
  assumes "raise_ok L s pkh m" and "ensure_key X pkh s = (r, s')"
  shows "raise_ok L s' pkh m"
  using assms
  by (fastforce simp: ensure_key_def Let_def raise_ok_def bindS_def on_fs_simps less_3_cases
      dest: load_per_key_no_ceiling split: if_splits prod.splits sum.splits)

lemma persisted_raise_ok:
  assumes p: "persisted X C L pkh pk i m s q s1" and r: "raise_ok L s pkh m" and pk: "keys (fst s) pkh = Some pk"
  shows "raise_ok L s1 pkh m"
proof -
  from p obtain pk' where pk': "keys (fst s1) pkh = Some pk'"
    and other: "\<And>j. j \<noteq> i \<Longrightarrow> disk_ceiling pk' ! j = disk_ceiling pk ! j"
    and at: "disk_ceiling pk' ! i \<in> {disk_ceiling pk ! i, None, Some m}"
    by (auto simp: persisted_def)
  have "c \<le> m" if "j < 3" "disk_ceiling pk' ! j = Some c" for j c
    using r pk that other [of j] at by (cases "j = i") (auto simp: raise_ok_def)
  then show ?thesis
    using r pk' by (simp add: raise_ok_def)
qed

lemma write_updates_good:
  assumes X: "bs58_lawful X" and g: "good X C L s" and r: "raise_ok L s pkh m"
    and us: "\<And>u. u \<in> set us \<Longrightarrow> wu_pkh u = pkh \<and> wu_idx u < 3 \<and> upd_mark u = m"
    and key: "keys (fst s) pkh \<noteq> None"
    and run: "write_updates X us s = (res, s')"
  shows "good X C L s'"
  using g r us key run
proof (induction us arbitrary: s)
  case Nil
  then show ?case
    by (simp add: returnS_def)
next
  case (Cons u us)
  obtain pk where pk: "keys (fst s) pkh = Some pk"
    using Cons.prems(4) by auto
  have u: "wu_pkh u = pkh" "wu_idx u < 3" "upd_mark u = m"
    using Cons.prems(3) by simp_all
  obtain q s1 where w: "write_watermark X u s = (q, s1)"
    by (cases "write_watermark X u s")
  have p: "persisted X C L pkh pk (wu_idx u) m s q s1"
    using write_watermark_good [OF X Cons.prems(1), of u pk q s1] Cons.prems(2) pk u w
    by (auto simp: raise_ok_def)
  then have s1: "good X C L s1" "raise_ok L s1 pkh m" "keys (fst s1) pkh \<noteq> None"
    using persisted_raise_ok [OF p Cons.prems(2) pk] by (auto simp: persisted_def)
  show ?case
  proof (cases q)
    case (Inl e)
    then show ?thesis
      using Cons.prems(5) w s1 by (simp add: bindS_def)
  next
    case (Inr x)
    then show ?thesis
      using Cons.IH [OF s1(1,2)] Cons.prems(3,5) w s1(3) by (simp add: bindS_def)
  qed
qed

lemma update_to_level_good:
  assumes X: "bs58_lawful X" and g: "good X C L s" and r: "raise_ok L s pkh (WatermarkEntry level 0)"
    and run: "update_to_level X chain pkh level s = (res, s')"
  shows "good X C L s'"
proof -
  obtain q s1 where e: "ensure_key X pkh s = (q, s1)"
    by (cases "ensure_key X pkh s")
  note eg = ensure_key_good [OF g e] and er = ensure_key_raise_ok [OF r e]
  show ?thesis
  proof (cases q)
    case (Inl err)
    then show ?thesis
      using run eg e by (simp add: update_to_level_def bindS_def)
  next
    case (Inr x)
    then obtain pk where pk: "keys (fst s1) pkh = Some pk"
      using eg by auto
    let ?e = "WatermarkEntry level 0"
    let ?pk = "pk\<lparr>entries := [Some ?e, Some ?e, Some ?e]\<rparr>"
    let ?us = "map (\<lambda>op. \<lparr>wu_pkh = pkh, wu_idx = op_idx op, wu_level = level, wu_round = 0,
                          wu_prev = entries pk ! op_idx op\<rparr>) ALL_OPERATIONS"
    have run': "write_updates X ?us (put_key pkh ?pk s1) = (res, s')"
      using run e Inr pk by (simp add: update_to_level_def bindS_def Let_def)
    have "key_ok X C L (snd s1) pkh ?pk"
      using goodD(5) [OF _ pk, of X C L] eg er goodD(3) [of X C L s1]
      by (fastforce simp: key_ok_def wf_pk_def raise_ok_def less_3_cases)
    then have "good X C L (put_key pkh ?pk s1)"
      using good_put_key eg by blast
    moreover have "raise_ok L (put_key pkh ?pk s1) pkh ?e"
      using er pk by (simp add: raise_ok_def)
    ultimately show ?thesis
      by (rule write_updates_good [OF X _ _ _ _ run']) (auto simp: upd_mark_def)
  qed
qed

lemma seed_floor_good:
  assumes X: "bs58_lawful X" and g: "good X C L s" and r: "raise_ok L s pkh (WatermarkEntry level 0)"
    and run: "seed_floor X chain pkh level s = (res, s')"
  shows "good X C L s'"
proof -
  obtain q s1 where e: "ensure_key X pkh s = (q, s1)"
    by (cases "ensure_key X pkh s")
  note eg = ensure_key_good [OF g e] and er = ensure_key_raise_ok [OF r e]
  show ?thesis
    using run eg er e update_to_level_good [OF X, of C L s1 pkh level chain res s']
    by (auto simp: seed_floor_def bindS_def split: sum.splits if_splits)
qed

section \<open>Crash and restart\<close>

text \<open>A power cut or a write-back leaves, per file, the old content, the new content, or damage.\<close>

lemma power_cut_bounded:
  assumes "bounded X C f b" and "\<And>p c. res p = Damaged c \<Longrightarrow> harmless X C c"
  shows "bounded X C (power_cut res f) b"
  using assms by (auto simp: bounded_def split: prod.splits intro!: holds_power_cut harmless_at_least)

lemma writeback_good:
  assumes "good X C L (h, f)" and "\<And>c. r = Damaged c \<Longrightarrow> harmless X C c"
  shows "good X C L (h, writeback p r f)"
proof (rule keeps_good [OF assms(1)])
  show "keeps X C f (writeback p r f)"
    using assms(2) by (auto simp: keeps_def bounded_def intro!: holds_writeback harmless_at_least)
qed

definition stored :: "crates \<Rightarrow> high_watermark \<Rightarrow> signed_mark set \<Rightarrow> fs \<Rightarrow> bool" where
  "stored X C L f \<longleftrightarrow> damage_ok f (harmless X C) \<and> (\<forall>pkh i m. (pkh, i, m) \<in> L \<longrightarrow> i < 3 \<and> bounded X C f (pkh, i, m))"

lemma good_stored: "good X C L s \<Longrightarrow> stored X C L (snd s)"
  by (auto simp: good_def stored_def)

lemma stored_keeps: "stored X C L f \<Longrightarrow> keeps X C f g \<Longrightarrow> stored X C L g"
  by (auto simp: stored_def keeps_def dest: damage_ok_cong [of g f "harmless X C"])

lemma stored_power_cut:
  assumes "stored X C L f" and "\<And>p c. res p = Damaged c \<Longrightarrow> harmless X C c"
  shows "stored X C L (power_cut res f)"
  using assms power_cut_bounded [of X C f _ res] damage_ok_cong [of "power_cut res f" f "harmless X C"]
  by (auto simp: stored_def)

lemma load_known_keys_ok:
  assumes "load_known_keys X (base_dir C) (mac_keys C) (hw_ad C) pkhs ks f = (res, g)"
    and "stored X C L f" and "\<And>pkh pk. ks pkh = Some pk \<Longrightarrow> key_ok X C L f pkh pk"
  shows "stored X C L g \<and> (\<forall>ks'. res = Inr ks' \<longrightarrow> (\<forall>pkh pk. ks' pkh = Some pk \<longrightarrow> key_ok X C L g pkh pk))"
  using assms
proof (induction pkhs arbitrary: ks f)
  case Nil
  then show ?case
    by (auto simp: returnS_def)
next
  case (Cons pkh pkhs)
  let ?d = "key_dir X (base_dir C) pkh"
  show ?case
  proof (cases "is_dir ?d f \<and> mac_keys C pkh \<noteq> None")
    case False
    then show ?thesis
      using Cons.prems Cons.IH [of ks f] by (auto simp: mac_key_for_def split: if_splits)
  next
    case True
    then obtain k where k: "mac_keys C pkh = Some k"
      by auto
    obtain q f1 where l: "load_per_key_watermark X ?d k (hw_ad C) f = (q, f1)"
      by (cases "load_per_key_watermark X ?d k (hw_ad C) f")
    have kp: "keeps X C f f1"
      using keeps_load_per_key [of X C f X ?d k "hw_ad C"] l by simp
    have st: "stored X C L f1"
      by (rule stored_keeps [OF Cons.prems(2) kp])
    show ?thesis
    proof (cases q)
      case (Inl e)
      then show ?thesis
        using Cons.prems(1) True l k st by (auto simp: mac_key_for_def bindS_def)
    next
      case (Inr pk)
      have "key_ok X C L f1 pkh pk"
        by (rule load_per_key_ok [OF _ k]) (use l Inr Cons.prems(2) in \<open>auto simp: stored_def\<close>)
      then have "\<And>q pk'. (ks(pkh \<mapsto> pk)) q = Some pk' \<Longrightarrow> key_ok X C L f1 q pk'"
        using Cons.prems(3) keeps_key_ok [OF kp] by (auto split: if_splits)
      moreover have "load_known_keys X (base_dir C) (mac_keys C) (hw_ad C) pkhs (ks(pkh \<mapsto> pk)) f1 = (res, g)"
        using Cons.prems(1) True k l Inr by (auto simp: mac_key_for_def bindS_def)
      ultimately show ?thesis
        using Cons.IH [OF _ st] by blast
    qed
  qed
qed

lemma hw_new_good:
  assumes run: "hw_new X (base_dir C) pkhs (mac_keys C) (hw_chain_id C) f = (res, g)"
    and st: "stored X C L f" and C: "known_pkhs C = set pkhs" "keys C = Map.empty"
  shows "stored X C L g \<and> (\<forall>h. res = Inr h \<longrightarrow> good X C L (h, g))"
proof -
  obtain q f1 where c: "create_dir_all (base_dir C) f = (q, f1)"
    by (cases "create_dir_all (base_dir C) f")
  have st1: "stored X C L f1"
    using stored_keeps [OF st keeps_ops(1) [of X C f "base_dir C"]] c by simp
  obtain q2 f2 where l: "load_known_keys X (base_dir C) (mac_keys C) (hw_ad C) pkhs Map.empty f1 = (q2, f2)"
    by (cases "load_known_keys X (base_dir C) (mac_keys C) (hw_ad C) pkhs Map.empty f1")
  have ks: "stored X C L f2 \<and> (\<forall>ks'. q2 = Inr ks' \<longrightarrow> (\<forall>pkh pk. ks' pkh = Some pk \<longrightarrow> key_ok X C L f2 pkh pk))"
    by (rule load_known_keys_ok [OF l st1]) simp
  show ?thesis
    using run c l st1 ks C
    by (auto simp: hw_new_def bindS_def returnS_def hw_ad_def good_def stored_def static_def
        split: sum.splits)
qed

end
