(* ===== verification/Signer_Core.thy ===== *)
theory Signer_Core
  imports Bls Magic_Bytes
begin

text \<open>
  \<open>libs/signer/src/signer.rs\<close>: a key pair with its hash (\<open>Unencrypted\<close>) and the wrapper that checks
  magic bytes first (\<open>Handler\<close>). Shown: the only signing error is an old signature version, so a
  request without a version is always signed; a handler signs exactly the payloads its allow list
  admits; every constructor keeps key, public key and hash consistent; proofs and signatures verify.
\<close>

section \<open>Data\<close>

datatype signer_error =
    SeBls bls_error
  | SeMagicByte magic_byte_error
  | SigningFailed string
  | NonBlsKey

datatype signature_version = V0 | V1 | V2

record ('sk, 'pk) unencrypted =
  un_secret_key :: "'sk secret_key"
  un_public_key :: "'pk public_key"
  un_public_key_hash :: public_key_hash

record ('sk, 'pk) handler =
  h_signer :: "('sk, 'pk) unencrypted"
  h_allowed_magic_bytes :: "bytes option"

fun bls_error_text :: "bls_error \<Rightarrow> string" where
  "bls_error_text (InvalidSecretKey s) = ''Invalid secret key: '' @ s"
| "bls_error_text (InvalidPublicKey s) = ''Invalid public key: '' @ s"
| "bls_error_text (InvalidSignature s) = ''Invalid signature: '' @ s"
| "bls_error_text (Base58Error s) = ''Base58 encoding error: '' @ s"
| "bls_error_text (InvalidKeyLength e a) =
     ''Invalid key length: expected '' @ show_nat e @ '', got '' @ show_nat a"
| "bls_error_text BlsNonBlsKey = ''Proof of possession can only be requested for BLS keys''"
| "bls_error_text (BlstError s) = ''BLST error: '' @ s"
| "bls_error_text (KeyGeneration s) = ''Key generation error: '' @ s"

fun signer_error_text :: "signer_error \<Rightarrow> string" where
  "signer_error_text (SeBls e) = ''BLS error: '' @ bls_error_text e"
| "signer_error_text (SeMagicByte e) = ''Magic byte error: '' @ magic_byte_error_text e"
| "signer_error_text (SigningFailed s) = ''Signing failed: '' @ s"
| "signer_error_text NonBlsKey = ''Proof of possession can only be requested for BLS keys''"

section \<open>The unencrypted signer\<close>

definition unencrypted_new ::
    "crates \<Rightarrow> ('sk, 'pk, 'sg) blst \<Rightarrow> 'sk secret_key \<Rightarrow> ('sk, 'pk) unencrypted" where
  "unencrypted_new X B sk =
     (let public_key = to_public_key B sk; public_key_hash = pk_hash X B public_key
      in \<lparr>un_secret_key = sk, un_public_key = public_key, un_public_key_hash = public_key_hash\<rparr>)"

definition unencrypted_from_b58check ::
    "crates \<Rightarrow> ('sk, 'pk, 'sg) blst \<Rightarrow> string \<Rightarrow> signer_error + ('sk, 'pk) unencrypted" where
  "unencrypted_from_b58check X B sk_b58 =
     and_then (map_err SeBls (sk_from_b58check X B sk_b58)) (\<lambda>sk. Inr (unencrypted_new X B sk))"

definition unencrypted_generate ::
    "crates \<Rightarrow> ('sk, 'pk, 'sg) blst \<Rightarrow> string + 32 barray \<Rightarrow> 32 barray option
      \<Rightarrow> signer_error + ('sk, 'pk) unencrypted" where
  "unencrypted_generate X B random seed =
     and_then (map_err SeBls (generate_key X B random seed))
       (\<lambda>(pkh, pk, sk). Inr \<lparr>un_secret_key = sk, un_public_key = pk, un_public_key_hash = pkh\<rparr>)"

definition unencrypted_sign ::
    "('sk, 'pk, 'sg) blst \<Rightarrow> ('sk, 'pk) unencrypted \<Rightarrow> bytes \<Rightarrow> bytes option \<Rightarrow> signature_version option
      \<Rightarrow> signer_error + 'sg signature" where
  "unencrypted_sign B u data watermark version =
     (case version of
        Some V0 \<Rightarrow> Inl (SigningFailed ''BLS12-381 not supported in Signature version 0'')
      | Some V1 \<Rightarrow> Inl (SigningFailed ''BLS12-381 not supported in Signature version 1'')
      | Some V2 \<Rightarrow> Inr (bls_sign B (un_secret_key u) data watermark)
      | None \<Rightarrow> Inr (bls_sign B (un_secret_key u) data watermark))"

definition unencrypted_prove_possession ::
    "('sk, 'pk, 'sg) blst \<Rightarrow> ('sk, 'pk) unencrypted \<Rightarrow> 'pk public_key option \<Rightarrow> signer_error + 'sg signature" where
  "unencrypted_prove_possession B u override_pk =
     (let msg_to_sign = (case override_pk of Some pk \<Rightarrow> bytes_of (pk_to_bytes B pk)
                         | None \<Rightarrow> bytes_of (pk_to_bytes B (un_public_key u)))
      in Inr (pop_prove B (un_secret_key u) (Some msg_to_sign)))"

definition unencrypted_nonce ::
    "crates \<Rightarrow> ('sk, 'pk, 'sg) blst \<Rightarrow> ('sk, 'pk) unencrypted \<Rightarrow> bytes \<Rightarrow> 32 barray" where
  "unencrypted_nonce X B u data = bls_deterministic_nonce X B (un_secret_key u) data"

definition unencrypted_nonce_hash ::
    "crates \<Rightarrow> ('sk, 'pk, 'sg) blst \<Rightarrow> ('sk, 'pk) unencrypted \<Rightarrow> bytes \<Rightarrow> 32 barray" where
  "unencrypted_nonce_hash X B u data = bls_deterministic_nonce_hash X B (un_secret_key u) data"

definition supports_deterministic_nonces :: "('sk, 'pk) unencrypted \<Rightarrow> bool" where
  "supports_deterministic_nonces u \<longleftrightarrow> True"

section \<open>The checking handler\<close>

definition handler_new :: "('sk, 'pk) unencrypted \<Rightarrow> bytes option \<Rightarrow> ('sk, 'pk) handler" where
  "handler_new u allowed = \<lparr>h_signer = u, h_allowed_magic_bytes = allowed\<rparr>"

definition handler_from_b58check ::
    "crates \<Rightarrow> ('sk, 'pk, 'sg) blst \<Rightarrow> string \<Rightarrow> bytes option \<Rightarrow> signer_error + ('sk, 'pk) handler" where
  "handler_from_b58check X B sk_b58 allowed =
     and_then (unencrypted_from_b58check X B sk_b58) (\<lambda>u. Inr (handler_new u allowed))"

definition handler_new_tenderbake_only :: "('sk, 'pk) unencrypted \<Rightarrow> ('sk, 'pk) handler" where
  "handler_new_tenderbake_only u = handler_new u (Some all_magic_bytes)"

definition handler_sign ::
    "('sk, 'pk, 'sg) blst \<Rightarrow> ('sk, 'pk) handler \<Rightarrow> bytes \<Rightarrow> bytes option \<Rightarrow> signature_version option
      \<Rightarrow> signer_error + 'sg signature" where
  "handler_sign B h data watermark version =
     and_then (map_err SeMagicByte (check_magic_byte data (h_allowed_magic_bytes h)))
       (\<lambda>_. unencrypted_sign B (h_signer h) data watermark version)"

definition handler_prove_possession ::
    "('sk, 'pk, 'sg) blst \<Rightarrow> ('sk, 'pk) handler \<Rightarrow> 'pk public_key option \<Rightarrow> signer_error + 'sg signature" where
  "handler_prove_possession B h override_pk = unencrypted_prove_possession B (h_signer h) override_pk"

section \<open>Behaviour\<close>

text \<open>The three parts of a signer belong together.\<close>

definition consistent :: "crates \<Rightarrow> ('sk, 'pk, 'sg) blst \<Rightarrow> ('sk, 'pk) unencrypted \<Rightarrow> bool" where
  "consistent X B u \<longleftrightarrow>
     un_public_key u = to_public_key B (un_secret_key u) \<and> un_public_key_hash u = pk_hash X B (un_public_key u)"

lemma consistent_new [simp]: "consistent X B (unencrypted_new X B sk)"
  by (simp add: consistent_def unencrypted_new_def Let_def)

lemma consistent_from_b58check: "unencrypted_from_b58check X B s = Inr u \<Longrightarrow> consistent X B u"
  by (auto simp: unencrypted_from_b58check_def result_simps)

lemma consistent_generate: "unencrypted_generate X B random seed = Inr u \<Longrightarrow> consistent X B u"
  by (auto simp: unencrypted_generate_def result_simps consistent_def dest: generate_key_consistent)

lemma unencrypted_from_to_b58check:
  "bs58_lawful X \<Longrightarrow> blst_sk_lawful B \<Longrightarrow>
     unencrypted_from_b58check X B (sk_to_b58check X B sk) = Inr (unencrypted_new X B sk)"
  by (simp add: unencrypted_from_b58check_def sk_from_to_b58check)

lemma unencrypted_sign_None [simp]:
  "unencrypted_sign B u data wm None = Inr (bls_sign B (un_secret_key u) data wm)"
  by (simp add: unencrypted_sign_def)

lemma unencrypted_sign_verifies:
  assumes "blst_sign_lawful B" and "consistent X B u" and "unencrypted_sign B u data wm version = Inr sg"
  shows "bls_verify B (un_public_key u) sg data wm"
  using assms bls_verify_sign [OF assms(1), of "un_secret_key u" data wm]
  by (auto simp: unencrypted_sign_def consistent_def split: option.splits signature_version.splits)

lemma prove_possession_verifies:
  assumes "blst_sign_lawful B" and "consistent X B u" and "unencrypted_prove_possession B u None = Inr sg"
  shows "pop_verify B (un_public_key u) sg (Some (bytes_of (pk_to_bytes B (un_public_key u))))"
  using assms pop_verify_prove [OF assms(1), of "un_secret_key u"]
  by (auto simp: unencrypted_prove_possession_def consistent_def Let_def)

lemma handler_sign_iff:
  "is_ok (handler_sign B (handler_new u (Some allowed)) data wm version) \<longleftrightarrow>
     data \<noteq> [] \<and> hd data \<in> set allowed \<and> version \<notin> {Some V0, Some V1}"
  by (cases "check_magic_byte data (Some allowed)")
    (use check_magic_byte_ok_iff [of data allowed] in
      \<open>auto simp: handler_sign_def handler_new_def unencrypted_sign_def
        split: option.splits signature_version.splits\<close>)

end
