(* ===== verification/Utf8.thy ===== *)
theory Utf8
  imports Prelude
begin

text \<open>
  \<open>String::from_utf8_lossy\<close>: a Rust \<open>String\<close> is the list of its UTF-8 bytes; every maximal invalid
  part of the input becomes the replacement character U+FFFD.
\<close>

definition REPLACEMENT :: bytes where
  "REPLACEMENT = [0xEF, 0xBF, 0xBD]"

abbreviation byte_in :: "u8 \<Rightarrow> u8 \<Rightarrow> u8 \<Rightarrow> bool" where
  "byte_in lo hi b \<equiv> lo \<le> b \<and> b \<le> hi"

definition second_of_3 :: "u8 \<Rightarrow> u8 \<Rightarrow> bool" where
  "second_of_3 b c \<longleftrightarrow>
     (if b = 0xE0 then byte_in 0xA0 0xBF c else if b = 0xED then byte_in 0x80 0x9F c else byte_in 0x80 0xBF c)"

definition second_of_4 :: "u8 \<Rightarrow> u8 \<Rightarrow> bool" where
  "second_of_4 b c \<longleftrightarrow>
     (if b = 0xF0 then byte_in 0x90 0xBF c else if b = 0xF4 then byte_in 0x80 0x8F c else byte_in 0x80 0xBF c)"

text \<open>How many of the following bytes extend the sequence started by a lead byte.\<close>

definition continuation :: "u8 \<Rightarrow> bytes \<Rightarrow> nat" where
  "continuation b bs =
     (let second = (if b < 0xE0 then byte_in 0x80 0xBF else if b < 0xF0 then second_of_3 b else second_of_4 b)
      in case bs of [] \<Rightarrow> 0 | c # cs \<Rightarrow> if second c then Suc (length (takeWhile (byte_in 0x80 0xBF) cs)) else 0)"

definition extra_bytes :: "u8 \<Rightarrow> nat option" where
  "extra_bytes b =
     (if b < 0x80 then Some 0
      else if byte_in 0xC2 0xDF b then Some 1
      else if byte_in 0xE0 0xEF b then Some 2
      else if byte_in 0xF0 0xF4 b then Some 3
      else None)"

function from_utf8_lossy :: "bytes \<Rightarrow> bytes" where
  "from_utf8_lossy [] = []"
| "from_utf8_lossy (b # bs) =
     (case extra_bytes b of
        None \<Rightarrow> REPLACEMENT @ from_utf8_lossy bs
      | Some n \<Rightarrow>
          if n \<le> continuation b bs then (b # take n bs) @ from_utf8_lossy (drop n bs)
          else REPLACEMENT @ from_utf8_lossy (drop (continuation b bs) bs))"
  by pat_completeness auto
termination
  by (relation "measure length") auto

definition text_of :: "bytes \<Rightarrow> string" where
  "text_of bs = map (\<lambda>b. char_of (unat b)) bs"

text \<open>ASCII text is passed through unchanged.\<close>

lemma from_utf8_lossy_ascii: "(\<forall>b \<in> set bs. b < 0x80) \<Longrightarrow> from_utf8_lossy bs = bs"
  by (induction bs) (auto simp: extra_bytes_def)

text \<open>An output byte below 128 in front is the input's first byte.\<close>

lemma from_utf8_lossy_Cons_ascii:
  assumes "from_utf8_lossy (b # bs) = c # cs" and "c < 0x80"
  shows "b = c \<and> from_utf8_lossy bs = cs"
proof -
  have "b < 0x80"
    using assms by (auto simp: REPLACEMENT_def extra_bytes_def split: option.splits if_splits)
  then show ?thesis
    using assms by (simp add: extra_bytes_def)
qed

end
