(* ===== verification/Protocol.thy ===== *)
theory Protocol
  imports Signer_Core File_System Utf8
begin

text \<open>
  \<open>libs/signer/src/protocol.rs\<close>: the binary request and response encodings. An encoder yields the
  bytes it writes or an error; a decoder is a state transformer on the bytes the cursor has left.
  Shown: every field codec decodes what it wrote and leaves the rest of the input alone (hence is
  prefix free), requests and responses round trip within the documented size limits, and which
  inputs are refused.
\<close>

section \<open>Data\<close>

datatype proto_error =
    UnknownTag u8
  | InvalidFormat string
  | MessageTooShort nat nat
  | PkhDecodeError string
  | PkDecodeError string
  | SignatureDecodeError string
  | PrIo io_error
  | DataTooLarge nat nat

type_synonym versioned_pkh = "public_key_hash \<times> u8"

datatype ('pk, 'sg) signer_request =
    ReqSign versioned_pkh bytes "'sg signature option"
  | ReqPublicKey public_key_hash
  | ReqAuthorizedKeys
  | ReqDeterministicNonce versioned_pkh bytes "'sg signature option"
  | ReqDeterministicNonceHash versioned_pkh bytes "'sg signature option"
  | ReqSupportsDeterministicNonces public_key_hash
  | ReqKnownKeys
  | ReqBlsProve public_key_hash "'pk public_key option"

fun request_tag :: "('pk, 'sg) signer_request \<Rightarrow> u8" where
  "request_tag (ReqSign _ _ _) = 0x00"
| "request_tag (ReqPublicKey _) = 0x01"
| "request_tag ReqAuthorizedKeys = 0x02"
| "request_tag (ReqDeterministicNonce _ _ _) = 0x03"
| "request_tag (ReqDeterministicNonceHash _ _ _) = 0x04"
| "request_tag (ReqSupportsDeterministicNonces _) = 0x05"
| "request_tag ReqKnownKeys = 0x06"
| "request_tag (ReqBlsProve _ _) = 0x07"

datatype ('pk, 'sg) signer_response =
    RespSignature "'sg signature"
  | RespPublicKey "'pk public_key"
  | RespAuthorizedKeys "public_key_hash list option"
  | RespNonce "32 barray"
  | RespNonceHash "32 barray"
  | RespBool bool
  | RespKnownKeys "public_key_hash list"
  | RespError string

fun response_tag :: "('pk, 'sg) signer_response \<Rightarrow> u8" where
  "response_tag (RespSignature _) = 0x00"
| "response_tag (RespPublicKey _) = 0x01"
| "response_tag (RespAuthorizedKeys _) = 0x02"
| "response_tag (RespNonce _) = 0x03"
| "response_tag (RespNonceHash _) = 0x04"
| "response_tag (RespBool _) = 0x05"
| "response_tag (RespKnownKeys _) = 0x06"
| "response_tag (RespError _) = 0xFF"

fun proto_error_text :: "proto_error \<Rightarrow> string" where
  "proto_error_text (UnknownTag t) = ''Unknown request tag: 0x'' @ hex2 t"
| "proto_error_text (InvalidFormat s) = ''Invalid message format: '' @ s"
| "proto_error_text (MessageTooShort e a) =
     ''Message too short: expected at least '' @ show_nat e @ '', got '' @ show_nat a"
| "proto_error_text (PkhDecodeError s) = ''Failed to decode public key hash: '' @ s"
| "proto_error_text (PkDecodeError s) = ''Failed to decode public key: '' @ s"
| "proto_error_text (SignatureDecodeError s) = ''Failed to decode signature: '' @ s"
| "proto_error_text (PrIo e) = ''IO error: '' @ io_error_text e"
| "proto_error_text (DataTooLarge sz mx) =
     ''Data payload too large: size '' @ show_nat sz @ '' exceeds maximum '' @ show_nat mx"

definition MAX_DATA_LEN :: nat where
  "MAX_DATA_LEN = 65535"

section \<open>Primitives\<close>

type_synonym 'a reader = "(bytes, proto_error, 'a) stateful"

text \<open>\<open>Cursor::read_exact\<close>.\<close>

definition cursor_read_exact :: "nat \<Rightarrow> bytes reader" where
  "cursor_read_exact n cur =
     (if n \<le> length cur then (Inr (take n cur), drop n cur)
      else (Inl (PrIo (IoError UnexpectedEof ''failed to fill whole buffer'')), []))"

definition read_u8 :: "u8 reader" where
  "read_u8 = bindS (cursor_read_exact 1) (\<lambda>buf. returnS (buf ! 0))"

definition read_u32_be :: "u32 reader" where
  "read_u32_be =
     bindS (cursor_read_exact 4) (\<lambda>buf. returnS (from_be_bytes_u32 (buf ! 0) (buf ! 1) (buf ! 2) (buf ! 3)))"

text \<open>Two writes in a row, each of which may fail.\<close>

definition write_seq :: "proto_error + bytes \<Rightarrow> proto_error + bytes \<Rightarrow> proto_error + bytes" where
  "write_seq a b = and_then a (\<lambda>x. and_then b (\<lambda>y. Inr (x @ y)))"

definition u32_try_from :: "nat \<Rightarrow> string \<Rightarrow> proto_error + u32" where
  "u32_try_from n msg = (if n < 2 ^ 32 then Inr (word_of_nat n) else Inl (InvalidFormat msg))"

section \<open>Fields\<close>

definition encode_raw_pkh :: "public_key_hash \<Rightarrow> proto_error + bytes" where
  "encode_raw_pkh pkh = Inr (3 # pkh_to_bytes pkh)"

definition decode_raw_pkh :: "public_key_hash reader" where
  "decode_raw_pkh =
     bindS read_u8 (\<lambda>tag.
       if tag = 0x03
       then bindS (cursor_read_exact 20) (\<lambda>bs cur.
              (map_err (\<lambda>e. PkhDecodeError (bls_error_text e)) (pkh_from_bytes bs), cur))
       else failS (InvalidFormat (''Unsupported PKH encoding tag: 0x'' @ hex2 tag @
              ''. Only BLS (tag 3) is supported.'')))"

definition encode_versioned_pkh :: "versioned_pkh \<Rightarrow> proto_error + bytes" where
  "encode_versioned_pkh p = write_seq (Inr [3]) (write_seq (encode_raw_pkh (fst p)) (Inr [snd p]))"

definition decode_versioned_pkh :: "versioned_pkh reader" where
  "decode_versioned_pkh =
     bindS read_u8 (\<lambda>outer_tag.
       if outer_tag \<noteq> 3
       then failS (InvalidFormat (''Unsupported versioned PKH tag: 0x'' @ hex2 outer_tag @
              ''. Only BLS (tag 3) is supported.''))
       else bindS decode_raw_pkh (\<lambda>pkh. bindS read_u8 (\<lambda>version. returnS (pkh, version))))"

definition encode_pk :: "('sk, 'pk, 'sg) blst \<Rightarrow> 'pk public_key \<Rightarrow> proto_error + bytes" where
  "encode_pk B pk = Inr (3 # bytes_of (pk_to_bytes B pk))"

definition decode_pk :: "('sk, 'pk, 'sg) blst \<Rightarrow> 'pk public_key reader" where
  "decode_pk B =
     bindS read_u8 (\<lambda>tag.
       if tag \<noteq> 3
       then failS (InvalidFormat (''Unsupported PK encoding tag: 0x'' @ hex2 tag @
              ''. Only BLS (tag 3) is supported.''))
       else bindS (cursor_read_exact 48) (\<lambda>bs cur.
              (map_err (\<lambda>e. PkDecodeError (bls_error_text e)) (pk_from_bytes B bs), cur)))"

definition encode_signature :: "('sk, 'pk, 'sg) blst \<Rightarrow> 'sg signature \<Rightarrow> proto_error + bytes" where
  "encode_signature B sg = Inr (bytes_of (sig_to_bytes B sg))"

definition decode_signature :: "('sk, 'pk, 'sg) blst \<Rightarrow> 'sg signature reader" where
  "decode_signature B =
     bindS (cursor_read_exact 96) (\<lambda>bs cur.
       (map_err (\<lambda>e. SignatureDecodeError (bls_error_text e)) (sig_from_bytes B bs), cur))"

definition encode_bytes :: "bytes \<Rightarrow> proto_error + bytes" where
  "encode_bytes data =
     and_then (u32_try_from (length data) ''Data length exceeds u32::MAX'')
       (\<lambda>len. Inr (to_be_bytes_u32 len @ data))"

definition decode_bytes :: "bytes reader" where
  "decode_bytes =
     bindS read_u32_be (\<lambda>len32.
       let len = unat len32 in
       if MAX_DATA_LEN < len then failS (DataTooLarge len MAX_DATA_LEN)
       else cursor_read_exact len)"

definition encode_option_signature ::
    "('sk, 'pk, 'sg) blst \<Rightarrow> 'sg signature option \<Rightarrow> proto_error + bytes" where
  "encode_option_signature B sg =
     (case sg of Some s \<Rightarrow> write_seq (Inr [0xFF]) (encode_signature B s) | None \<Rightarrow> Inr [])"

text \<open>Reads one byte if there is one: at the end of the input the field is absent.\<close>

definition decode_option_signature :: "('sk, 'pk, 'sg) blst \<Rightarrow> 'sg signature option reader" where
  "decode_option_signature B cur =
     (case cur of [] \<Rightarrow> (Inr None, [])
      | b # rest \<Rightarrow>
          if b = 0xFF then bindS (decode_signature B) (\<lambda>s. returnS (Some s)) rest
          else (Inl (InvalidFormat (''Invalid option tag: 0x'' @ hex2 b)), rest))"

definition encode_option_pk :: "('sk, 'pk, 'sg) blst \<Rightarrow> 'pk public_key option \<Rightarrow> proto_error + bytes" where
  "encode_option_pk B pk =
     (case pk of Some p \<Rightarrow> write_seq (Inr [0xFF]) (encode_pk B p) | None \<Rightarrow> Inr [0x00])"

definition decode_option_pk :: "('sk, 'pk, 'sg) blst \<Rightarrow> 'pk public_key option reader" where
  "decode_option_pk B =
     bindS read_u8 (\<lambda>tag.
       if tag = 0xFF then bindS (decode_pk B) (\<lambda>p. returnS (Some p))
       else if tag = 0x00 then returnS None
       else failS (InvalidFormat (''Invalid option tag: 0x'' @ hex2 tag)))"

fun encode_pkhs :: "public_key_hash list \<Rightarrow> proto_error + bytes" where
  "encode_pkhs [] = Inr []"
| "encode_pkhs (pkh # pkhs) = write_seq (encode_raw_pkh pkh) (encode_pkhs pkhs)"

definition encode_pkh_list :: "public_key_hash list \<Rightarrow> proto_error + bytes" where
  "encode_pkh_list list =
     and_then (u32_try_from (length list * (1 + 20)) ''List byte size exceeds u32::MAX'')
       (\<lambda>len. write_seq (Inr (to_be_bytes_u32 len)) (encode_pkhs list))"

text \<open>The loop \<open>while bytes_read < len_bytes\<close>, each round reading one 21-byte entry.\<close>

function decode_pkhs :: "nat \<Rightarrow> nat \<Rightarrow> public_key_hash list reader" where
  "decode_pkhs len_bytes bytes_read =
     (if bytes_read < len_bytes
      then bindS decode_raw_pkh (\<lambda>pkh.
             bindS (decode_pkhs len_bytes (bytes_read + 21)) (\<lambda>pkhs. returnS (pkh # pkhs)))
      else returnS [])"
  by pat_completeness auto
termination
  by (relation "measure (\<lambda>(len_bytes, bytes_read). len_bytes - bytes_read)") auto

declare decode_pkhs.simps [simp del]

definition decode_pkh_list :: "public_key_hash list reader" where
  "decode_pkh_list = bindS read_u32_be (\<lambda>len_bytes. decode_pkhs (unat len_bytes) 0)"

definition decode_option_pkh_list :: "public_key_hash list option reader" where
  "decode_option_pkh_list =
     bindS read_u8 (\<lambda>tag.
       if tag = 0xFF then bindS decode_pkh_list (\<lambda>l. returnS (Some l))
       else if tag = 0x00 then returnS None
       else failS (InvalidFormat (''Invalid option tag: 0x'' @ hex2 tag)))"

section \<open>Requests\<close>

fun encode_request_body :: "('sk, 'pk, 'sg) blst \<Rightarrow> ('pk, 'sg) signer_request \<Rightarrow> proto_error + bytes" where
  "encode_request_body B (ReqSign pkh data sg) =
     write_seq (encode_versioned_pkh pkh) (write_seq (encode_bytes data) (encode_option_signature B sg))"
| "encode_request_body B (ReqDeterministicNonce pkh data sg) =
     write_seq (encode_versioned_pkh pkh) (write_seq (encode_bytes data) (encode_option_signature B sg))"
| "encode_request_body B (ReqDeterministicNonceHash pkh data sg) =
     write_seq (encode_versioned_pkh pkh) (write_seq (encode_bytes data) (encode_option_signature B sg))"
| "encode_request_body B (ReqPublicKey pkh) = encode_raw_pkh pkh"
| "encode_request_body B (ReqSupportsDeterministicNonces pkh) = encode_raw_pkh pkh"
| "encode_request_body B ReqAuthorizedKeys = Inr []"
| "encode_request_body B ReqKnownKeys = Inr []"
| "encode_request_body B (ReqBlsProve pkh override_pk) =
     write_seq (encode_raw_pkh pkh) (encode_option_pk B override_pk)"

definition encode_request :: "('sk, 'pk, 'sg) blst \<Rightarrow> ('pk, 'sg) signer_request \<Rightarrow> proto_error + bytes" where
  "encode_request B req = write_seq (Inr [request_tag req]) (encode_request_body B req)"

text \<open>The three request kinds that carry a versioned hash, a payload and an optional signature.\<close>

definition decode_signed_fields ::
    "('sk, 'pk, 'sg) blst \<Rightarrow> (versioned_pkh \<Rightarrow> bytes \<Rightarrow> 'sg signature option \<Rightarrow> ('pk, 'sg) signer_request)
      \<Rightarrow> ('pk, 'sg) signer_request reader" where
  "decode_signed_fields B mk =
     bindS decode_versioned_pkh (\<lambda>pkh.
       bindS decode_bytes (\<lambda>data.
         bindS (decode_option_signature B) (\<lambda>sg. returnS (mk pkh data sg))))"

definition request_reader :: "('sk, 'pk, 'sg) blst \<Rightarrow> ('pk, 'sg) signer_request reader" where
  "request_reader B =
     bindS read_u8 (\<lambda>tag.
       if tag = 0x00 then decode_signed_fields B ReqSign
       else if tag = 0x01 then bindS decode_raw_pkh (\<lambda>pkh. returnS (ReqPublicKey pkh))
       else if tag = 0x02 then returnS ReqAuthorizedKeys
       else if tag = 0x03 then decode_signed_fields B ReqDeterministicNonce
       else if tag = 0x04 then decode_signed_fields B ReqDeterministicNonceHash
       else if tag = 0x05 then bindS decode_raw_pkh (\<lambda>pkh. returnS (ReqSupportsDeterministicNonces pkh))
       else if tag = 0x06 then returnS ReqKnownKeys
       else if tag = 0x07
       then bindS decode_raw_pkh (\<lambda>pkh.
              bindS (decode_option_pk B) (\<lambda>override_pk. returnS (ReqBlsProve pkh override_pk)))
       else failS (UnknownTag tag))"

definition decode_request ::
    "('sk, 'pk, 'sg) blst \<Rightarrow> bytes \<Rightarrow> proto_error + ('pk, 'sg) signer_request" where
  "decode_request B data = fst (request_reader B data)"

section \<open>Responses\<close>

fun encode_response ::
    "crates \<Rightarrow> ('sk, 'pk, 'sg) blst \<Rightarrow> ('pk, 'sg) signer_response \<Rightarrow> proto_error + bytes" where
  "encode_response X B (RespError msg) =
     and_then (map_err (\<lambda>e. InvalidFormat (''BSON serialization error: '' @ e)) (bson_generic_error X msg))
       (\<lambda>bson_bytes.
          and_then (u32_try_from (length bson_bytes) ''BSON error message too large'')
            (\<lambda>item_len. let total_len = item_len + 4
                        in Inr ([0x01] @ to_be_bytes_u32 total_len @ to_be_bytes_u32 item_len @ bson_bytes)))"
| "encode_response X B (RespSignature sg) = write_seq (Inr [0x00]) (encode_signature B sg)"
| "encode_response X B (RespPublicKey pk) = write_seq (Inr [0x00]) (encode_pk B pk)"
| "encode_response X B (RespAuthorizedKeys ks) =
     write_seq (Inr [0x00])
       (case ks of None \<Rightarrow> Inr [0x00] | Some list \<Rightarrow> write_seq (Inr [0x01]) (encode_pkh_list list))"
| "encode_response X B (RespNonce nonce) = Inr (0x00 # bytes_of nonce)"
| "encode_response X B (RespNonceHash hash) = Inr (0x00 # bytes_of hash)"
| "encode_response X B (RespBool b) = Inr [0x00, if b then 0xFF else 0x00]"
| "encode_response X B (RespKnownKeys ks) = write_seq (Inr [0x00]) (encode_pkh_list ks)"

text \<open>The loop over the items of an error trace; it stops at the first item that does not fit.\<close>

function trace_messages :: "crates \<Rightarrow> bytes \<Rightarrow> string list" where
  "trace_messages X cur =
     (if length cur < 4 then []
      else let item_len = unat (from_be_bytes_u32 (cur ! 0) (cur ! 1) (cur ! 2) (cur ! 3));
               rest = drop 4 cur
           in if length rest < item_len then []
              else let json_bytes = take item_len rest;
                       msgs = (case bson_error_field X json_bytes of
                                 Some (Some msg) \<Rightarrow> [msg]
                               | Some None \<Rightarrow> []
                               | None \<Rightarrow> (case json_error_field X json_bytes of Some msg \<Rightarrow> [msg] | None \<Rightarrow> []))
                   in msgs @ trace_messages X (drop item_len rest))"
  by pat_completeness auto
termination
  by (relation "measure (\<lambda>(X, cur). length cur)") auto

declare trace_messages.simps [simp del]

fun join_text :: "string \<Rightarrow> string list \<Rightarrow> string" where
  "join_text sep [] = []"
| "join_text sep [s] = s"
| "join_text sep (s # t # ts) = s @ sep @ join_text sep (t # ts)"

definition decode_error_payload :: "crates \<Rightarrow> ('pk, 'sg) signer_response reader" where
  "decode_error_payload X =
     bindS decode_bytes (\<lambda>trace_bytes.
       let error_msgs = trace_messages X trace_bytes;
           full_msg = (if error_msgs = [] then text_of (from_utf8_lossy trace_bytes)
                       else join_text ''; '' error_msgs)
       in returnS (RespError full_msg))"

fun decode_ok_payload ::
    "('sk, 'pk, 'sg) blst \<Rightarrow> ('pk, 'sg) signer_request \<Rightarrow> ('pk, 'sg) signer_response reader" where
  "decode_ok_payload B (ReqSign _ _ _) = bindS (decode_signature B) (\<lambda>sg. returnS (RespSignature sg))"
| "decode_ok_payload B (ReqBlsProve _ _) = bindS (decode_signature B) (\<lambda>sg. returnS (RespSignature sg))"
| "decode_ok_payload B (ReqPublicKey _) = bindS (decode_pk B) (\<lambda>pk. returnS (RespPublicKey pk))"
| "decode_ok_payload B ReqAuthorizedKeys =
     bindS decode_option_pkh_list (\<lambda>ks. returnS (RespAuthorizedKeys ks))"
| "decode_ok_payload B (ReqDeterministicNonce _ _ _) =
     bindS (cursor_read_exact 32) (\<lambda>nonce. returnS (RespNonce (barray_of nonce)))"
| "decode_ok_payload B (ReqDeterministicNonceHash _ _ _) =
     bindS (cursor_read_exact 32) (\<lambda>hash. returnS (RespNonceHash (barray_of hash)))"
| "decode_ok_payload B (ReqSupportsDeterministicNonces _) =
     bindS read_u8 (\<lambda>b. returnS (RespBool (b \<noteq> 0x00)))"
| "decode_ok_payload B ReqKnownKeys = bindS decode_pkh_list (\<lambda>ks. returnS (RespKnownKeys ks))"

definition decode_response ::
    "crates \<Rightarrow> ('sk, 'pk, 'sg) blst \<Rightarrow> bytes \<Rightarrow> ('pk, 'sg) signer_request
      \<Rightarrow> proto_error + ('pk, 'sg) signer_response" where
  "decode_response X B data request =
     fst (bindS read_u8 (\<lambda>result_tag.
            if result_tag = 0x01 then decode_error_payload X
            else if result_tag = 0x00 then decode_ok_payload B request
            else failS (InvalidFormat (''Invalid Result tag: 0x'' @ hex2 result_tag))) data)"

section \<open>Field codecs\<close>

text \<open>
  What a field codec promises: on the values it supports it writes some bytes, and reading them back
  yields the value and exactly the input that follows.
\<close>

locale wire_codec =
  fixes enc :: "'a \<Rightarrow> proto_error + bytes"
    and dec :: "'a reader"
    and supported :: "'a \<Rightarrow> bool"
  assumes enc_ok: "supported x \<Longrightarrow> \<exists>bs. enc x = Inr bs"
    and dec_enc: "supported x \<Longrightarrow> enc x = Inr bs \<Longrightarrow> dec (bs @ rest) = (Inr x, rest)"
begin

lemma prefix_free:
  assumes "supported x" and "supported y" and "enc x = Inr bs" and "enc y = Inr (bs @ bs')"
  shows "x = y \<and> bs' = []"
  using dec_enc [OF assms(1,3), of bs'] dec_enc [OF assms(2,4), of "[]"] by simp

lemma read_then:
  assumes "supported x" and "enc x = Inr bs"
  shows "bindS dec f (bs @ rest) = f x rest"
  using dec_enc [OF assms] by (simp add: bindS_def)

lemma read_then_end:
  assumes "supported x" and "enc x = Inr bs"
  shows "bindS dec f bs = f x []"
  using read_then [OF assms, of f "[]"] by simp

end

lemma cursor_read_exact_append [codec_simps]:
  "length a = n \<Longrightarrow> cursor_read_exact n (a @ rest) = (Inr a, rest)"
  by (simp add: cursor_read_exact_def)

lemma cursor_read_exact_all [codec_simps]: "length a = n \<Longrightarrow> cursor_read_exact n a = (Inr a, [])"
  by (simp add: cursor_read_exact_def)

lemma read_u8_Cons [codec_simps]: "read_u8 (b # rest) = (Inr b, rest)"
  by (simp add: read_u8_def bindS_def cursor_read_exact_def returnS_def)

lemma read_u32_be_append [codec_simps]: "read_u32_be (to_be_bytes_u32 w @ rest) = (Inr w, rest)"
  by (simp add: read_u32_be_def bindS_def cursor_read_exact_append returnS_def)
    (simp add: to_be_bytes_u32_def be_simps)

lemma read_u8_then [codec_simps]: "bindS read_u8 f (b # rest) = f b rest"
  by (simp add: bindS_def read_u8_Cons)

lemma read_u32_be_then [codec_simps]: "bindS read_u32_be f (to_be_bytes_u32 w @ rest) = f w rest"
  by (simp add: bindS_def read_u32_be_append)

lemma write_seq_Inr [codec_simps]:
  "write_seq a b = Inr z \<longleftrightarrow> (\<exists>x y. a = Inr x \<and> b = Inr y \<and> z = x @ y)"
  by (auto simp: write_seq_def result_simps)

lemma write_seq_Inr_Inr [simp]: "write_seq (Inr x) (Inr y) = Inr (x @ y)"
  by (simp add: write_seq_def)

interpretation raw_pkh: wire_codec encode_raw_pkh decode_raw_pkh "\<lambda>_. True"
  by unfold_locales
    (auto simp: encode_raw_pkh_def decode_raw_pkh_def bindS_def codec_simps)

interpretation versioned_pkh: wire_codec encode_versioned_pkh decode_versioned_pkh "\<lambda>_. True"
  by unfold_locales
    (auto simp: encode_versioned_pkh_def encode_raw_pkh_def decode_versioned_pkh_def decode_raw_pkh_def bindS_def
      codec_simps returnS_def)

interpretation pk: wire_codec "encode_pk B" "decode_pk B" "\<lambda>_. blst_pk_lawful B"
  for B :: "('sk, 'pk, 'sg) blst"
proof
  fix x :: "'pk public_key" and bs rest
  assume "blst_pk_lawful B" and "encode_pk B x = Inr bs"
  then show "decode_pk B (bs @ rest) = (Inr x, rest)"
    by (cases x) (auto simp: encode_pk_def decode_pk_def bindS_def codec_simps pk_from_bytes_def blst_pk_lawful_def)
qed (simp add: encode_pk_def)

interpretation sg: wire_codec "encode_signature B" "decode_signature B" "\<lambda>_. blst_sig_lawful B"
  for B :: "('sk, 'pk, 'sg) blst"
proof
  fix x :: "'sg signature" and bs rest
  assume "blst_sig_lawful B" and "encode_signature B x = Inr bs"
  then show "decode_signature B (bs @ rest) = (Inr x, rest)"
    by (cases x)
      (auto simp: encode_signature_def decode_signature_def bindS_def codec_simps sig_from_bytes_def blst_sig_lawful_def)
qed (simp add: encode_signature_def)

interpretation option_pk: wire_codec "encode_option_pk B" "decode_option_pk B" "\<lambda>_. blst_pk_lawful B"
  for B :: "('sk, 'pk, 'sg) blst"
proof
  fix x :: "'pk public_key option" and bs rest
  assume "blst_pk_lawful B" and "encode_option_pk B x = Inr bs"
  then show "decode_option_pk B (bs @ rest) = (Inr x, rest)"
    by (cases x)
      (auto simp: encode_option_pk_def decode_option_pk_def codec_simps returnS_def pk.read_then)
qed (auto simp: encode_option_pk_def encode_pk_def split: option.splits)

interpretation data: wire_codec encode_bytes decode_bytes "\<lambda>d. length d \<le> MAX_DATA_LEN"
proof
  fix x bs rest :: bytes
  assume len: "length x \<le> MAX_DATA_LEN" and enc: "encode_bytes x = Inr bs"
  have "unat (word_of_nat (length x) :: u32) = length x"
    using len by (intro unat_u32_of_nat) (simp add: MAX_DATA_LEN_def)
  then show "decode_bytes (bs @ rest) = (Inr x, rest)"
    using len enc
    by (auto simp: encode_bytes_def decode_bytes_def u32_try_from_def bindS_def codec_simps Let_def split: if_splits)
qed (auto simp: encode_bytes_def u32_try_from_def MAX_DATA_LEN_def)


text \<open>The trailing signature is a codec at the end of the input only.\<close>

lemma decode_option_signature_encode:
  assumes "blst_sig_lawful B" and "encode_option_signature B x = Inr bs"
  shows "decode_option_signature B bs = (Inr x, [])"
  using assms
  by (cases x)
    (auto simp: encode_option_signature_def decode_option_signature_def codec_simps returnS_def sg.read_then_end)

lemma encode_option_signature_ok: "\<exists>bs. encode_option_signature B x = Inr bs"
  by (cases x) (auto simp: encode_option_signature_def encode_signature_def)

text \<open>Lists of hashes.\<close>

lemma encode_pkhs_ok: "\<exists>bs. encode_pkhs l = Inr bs \<and> length bs = 21 * length l"
  by (induction l) (auto simp: encode_raw_pkh_def)

lemma decode_pkhs_encode:
  assumes "encode_pkhs l = Inr bs" and "n = r + 21 * length l"
  shows "decode_pkhs n r (bs @ rest) = (Inr l, rest)"
  using assms
proof (induction l arbitrary: bs r)
  case Nil
  then show ?case
    by (simp add: decode_pkhs.simps returnS_def)
next
  case (Cons p l)
  from Cons.prems(1) obtain b c where b: "encode_raw_pkh p = Inr b" and c: "encode_pkhs l = Inr c"
    and bs: "bs = b @ c"
    by (auto simp: codec_simps)
  have "decode_pkhs n (r + 21) (c @ rest) = (Inr l, rest)"
    using Cons.IH [OF c, of "r + 21"] Cons.prems(2) by simp
  then show ?case
    using Cons.prems(2) bs
    by (subst decode_pkhs.simps) (simp add: raw_pkh.read_then [OF TrueI b] bindS_eqI1 returnS_def)
qed

interpretation pkh_list: wire_codec encode_pkh_list decode_pkh_list "\<lambda>l. 21 * length l < 2 ^ 32"
proof
  fix l bs rest
  assume len: "21 * length l < 2 ^ 32" and enc: "encode_pkh_list l = Inr bs"
  from enc len obtain c where c: "encode_pkhs l = Inr c"
    and bs: "bs = to_be_bytes_u32 (word_of_nat (length l * 21)) @ c"
    by (auto simp: encode_pkh_list_def u32_try_from_def codec_simps split: if_splits)
  have "unat (word_of_nat (length l * 21) :: u32) = 0 + 21 * length l"
    using len by (simp add: unat_u32_of_nat mult.commute del: of_nat_mult)
  then show "decode_pkh_list (bs @ rest) = (Inr l, rest)"
    using decode_pkhs_encode [OF c, of _ 0] by (simp add: decode_pkh_list_def bs codec_simps)
next
  fix l :: "public_key_hash list"
  assume "21 * length l < 2 ^ 32"
  then show "\<exists>bs. encode_pkh_list l = Inr bs"
    using encode_pkhs_ok [of l] by (auto simp: encode_pkh_list_def u32_try_from_def)
qed

section \<open>Messages\<close>

fun request_fits :: "('pk, 'sg) signer_request \<Rightarrow> bool" where
  "request_fits (ReqSign _ data _) \<longleftrightarrow> length data \<le> MAX_DATA_LEN"
| "request_fits (ReqDeterministicNonce _ data _) \<longleftrightarrow> length data \<le> MAX_DATA_LEN"
| "request_fits (ReqDeterministicNonceHash _ data _) \<longleftrightarrow> length data \<le> MAX_DATA_LEN"
| "request_fits _ \<longleftrightarrow> True"

lemma signed_fields_encode:
  assumes "length data \<le> MAX_DATA_LEN" and "blst_sig_lawful B"
    and "write_seq (encode_versioned_pkh pkh) (write_seq (encode_bytes data) (encode_option_signature B sg)) = Inr bs"
  shows "decode_signed_fields B mk bs = (Inr (mk pkh data sg), [])"
proof -
  from assms(3) obtain a b c where enc: "encode_versioned_pkh pkh = Inr a" "encode_bytes data = Inr b"
      "encode_option_signature B sg = Inr c" and bs: "bs = a @ b @ c"
    by (auto simp: codec_simps)
  show ?thesis
    by (simp add: decode_signed_fields_def bs returnS_def versioned_pkh.read_then [OF TrueI enc(1)]
        data.read_then [OF assms(1) enc(2)] bindS_eqI1 decode_option_signature_encode [OF assms(2) enc(3)])
qed

lemma signed_fields_ok:
  assumes "length data \<le> MAX_DATA_LEN"
  shows "\<exists>bs. write_seq (encode_versioned_pkh pkh) (write_seq (encode_bytes data) (encode_option_signature B sg)) = Inr bs"
  using versioned_pkh.enc_ok [OF TrueI, of pkh] data.enc_ok [OF assms] encode_option_signature_ok [of B sg]
  by auto

lemma encode_request_ok: "request_fits req \<Longrightarrow> \<exists>bs. encode_request B req = Inr bs"
  unfolding encode_request_def
  by (cases req)
    (auto simp: signed_fields_ok encode_raw_pkh_def encode_option_pk_def encode_pk_def codec_simps split: option.splits
      dest!: signed_fields_ok)

lemma decode_request_encode:
  assumes "request_fits req" and "blst_pk_lawful B" and "blst_sig_lawful B" and "encode_request B req = Inr bs"
  shows "decode_request B bs = Inr req"
proof -
  from assms(4) obtain body where body: "encode_request_body B req = Inr body" and bs: "bs = request_tag req # body"
    by (auto simp: encode_request_def codec_simps)
  show ?thesis
  proof (cases req)
    case (ReqBlsProve pkh opk)
    then obtain a b where "encode_raw_pkh pkh = Inr a" "encode_option_pk B opk = Inr b" "body = a @ b"
      using body by (auto simp: codec_simps)
    then show ?thesis
      using ReqBlsProve assms(2) bs
      by (simp add: decode_request_def request_reader_def codec_simps raw_pkh.read_then option_pk.read_then_end returnS_def)
  qed (use assms body bs in \<open>simp_all add: decode_request_def request_reader_def codec_simps
      signed_fields_encode raw_pkh.read_then_end returnS_def\<close>)
qed

text \<open>
  The response a client expects after a request. The encoding of \<open>AuthorizedKeys(Some(..))\<close> is not
  among them: its tag is \<open>0x01\<close>, which \<open>decode_option_pkh_list\<close> refuses.
\<close>

fun answers :: "('pk, 'sg) signer_request \<Rightarrow> ('pk, 'sg) signer_response \<Rightarrow> bool" where
  "answers (ReqSign _ _ _) resp \<longleftrightarrow> (case resp of RespSignature _ \<Rightarrow> True | _ \<Rightarrow> False)"
| "answers (ReqBlsProve _ _) resp \<longleftrightarrow> (case resp of RespSignature _ \<Rightarrow> True | _ \<Rightarrow> False)"
| "answers (ReqPublicKey _) resp \<longleftrightarrow> (case resp of RespPublicKey _ \<Rightarrow> True | _ \<Rightarrow> False)"
| "answers ReqAuthorizedKeys resp \<longleftrightarrow> resp = RespAuthorizedKeys None"
| "answers (ReqDeterministicNonce _ _ _) resp \<longleftrightarrow> (case resp of RespNonce _ \<Rightarrow> True | _ \<Rightarrow> False)"
| "answers (ReqDeterministicNonceHash _ _ _) resp \<longleftrightarrow> (case resp of RespNonceHash _ \<Rightarrow> True | _ \<Rightarrow> False)"
| "answers (ReqSupportsDeterministicNonces _) resp \<longleftrightarrow> (case resp of RespBool _ \<Rightarrow> True | _ \<Rightarrow> False)"
| "answers ReqKnownKeys resp \<longleftrightarrow> (case resp of RespKnownKeys l \<Rightarrow> 21 * length l < 2 ^ 32 | _ \<Rightarrow> False)"

lemma decode_ok_payload_encode:
  assumes "answers req resp" and "blst_pk_lawful B" and "blst_sig_lawful B"
    and "encode_response X B resp = Inr bs"
  shows "\<exists>body. bs = 0x00 # body \<and> fst (decode_ok_payload B req body) = Inr resp"
  using assms
  by (cases req)
    (auto simp: codec_simps returnS_def sg.read_then_end pk.read_then_end pkh_list.read_then_end
      decode_option_pkh_list_def bindS_eqI1 split: signer_response.splits)

lemma decode_response_encode:
  assumes "answers req resp" and "blst_pk_lawful B" and "blst_sig_lawful B"
    and "encode_response X B resp = Inr bs"
  shows "decode_response X B bs req = Inr resp"
  using decode_ok_payload_encode [OF assms] by (auto simp: decode_response_def codec_simps)

lemma trace_messages_single:
  assumes "length b < 2 ^ 32" and "bson_error_field X b = Some (Some msg)"
  shows "trace_messages X (to_be_bytes_u32 (word_of_nat (length b)) @ b) = [msg]"
proof -
  let ?w = "word_of_nat (length b) :: u32"
  have w: "unat (from_be_bytes_u32 ((to_be_bytes_u32 ?w @ b) ! 0) ((to_be_bytes_u32 ?w @ b) ! 1)
      ((to_be_bytes_u32 ?w @ b) ! 2) ((to_be_bytes_u32 ?w @ b) ! 3)) = length b"
    using assms(1) by (simp add: to_be_bytes_u32_def be_simps unat_u32_of_nat)
  show ?thesis
    using assms(2) by (subst trace_messages.simps) (simp add: w [unfolded One_nat_def] Let_def trace_messages.simps [of X "[]"])
qed

lemma decode_error_encode:
  fixes B :: "('sk, 'pk, 'sg) blst"
  assumes "bson_lawful X" and "bson_generic_error X msg = Inr b" and "length b + 4 \<le> MAX_DATA_LEN"
    and "encode_response X B (RespError msg) = Inr bs"
  shows "decode_response X B bs req = Inr (RespError msg)"
proof -
  let ?w = "word_of_nat (length b) :: u32"
  have small: "length b < 2 ^ 32"
    using assms(3) by (simp add: MAX_DATA_LEN_def)
  have "?w + 4 = word_of_nat (length (to_be_bytes_u32 ?w @ b))"
    by (simp add: add.commute)
  then have bs: "bs = 0x01 # to_be_bytes_u32 (word_of_nat (length (to_be_bytes_u32 ?w @ b))) @ to_be_bytes_u32 ?w @ b"
    using assms(2,4) small by (auto simp: u32_try_from_def Let_def add.commute)
  have enc: "encode_bytes (to_be_bytes_u32 ?w @ b) =
      Inr (to_be_bytes_u32 (word_of_nat (length (to_be_bytes_u32 ?w @ b))) @ to_be_bytes_u32 ?w @ b)"
    using assms(3) by (simp add: encode_bytes_def u32_try_from_def MAX_DATA_LEN_def)
  have fits: "length (to_be_bytes_u32 ?w @ b) \<le> MAX_DATA_LEN"
    using assms(3) by simp
  have "trace_messages X (to_be_bytes_u32 ?w @ b) = [msg]"
    using trace_messages_single [OF small] assms(1,2) by (simp add: bson_lawful_def)
  then have "decode_error_payload X (tl bs) = (Inr (RespError msg :: ('pk, 'sg) signer_response), [])"
    unfolding decode_error_payload_def bs list.sel data.read_then_end [OF fits enc]
    by (simp add: returnS_def)
  then show ?thesis
    by (simp add: decode_response_def codec_simps bs)
qed

lemma authorized_keys_refused:
  assumes "encode_response X B (RespAuthorizedKeys (Some l)) = Inr bs"
  shows "decode_response X B bs ReqAuthorizedKeys = Inl (InvalidFormat ''Invalid option tag: 0x01'')"
  using assms
  by (auto simp: codec_simps decode_response_def decode_option_pkh_list_def bindS_def failS_def hex2_def hex_digit_def char_of_eq_iff)

text \<open>Limits and refusals.\<close>

lemma decode_bytes_limit: "decode_bytes cur = (Inr d, rest) \<Longrightarrow> length d \<le> MAX_DATA_LEN"
  by (auto simp: decode_bytes_def bindS_def Let_def cursor_read_exact_def failS_def split: prod.splits sum.splits if_splits)

lemma decode_request_tag:
  assumes "decode_request B bs = Inr req"
  shows "bs \<noteq> [] \<and> request_tag req = hd bs \<and> request_fits req"
proof (cases bs)
  case Nil
  then show ?thesis
    using assms by (simp add: decode_request_def request_reader_def read_u8_def bindS_def cursor_read_exact_def)
next
  case (Cons t body)
  have signed: "\<exists>pkh data sg. req = mk pkh data sg \<and> length data \<le> MAX_DATA_LEN"
    if "fst (decode_signed_fields B mk body) = Inr req" for mk
    using that decode_bytes_limit
    by (fastforce simp: decode_signed_fields_def bindS_def returnS_def split: prod.splits sum.splits)
  show ?thesis
    using assms Cons
    by (auto simp: decode_request_def request_reader_def codec_simps bindS_def returnS_def failS_def
        split: if_splits prod.splits sum.splits dest!: signed)
qed

end
