(* ===== verification/Key_Role.thy ===== *)
theory Key_Role
  imports Prelude
begin

text \<open>
  \<open>libs/signer/src/key_role.rs\<close>: the two roles a device key can have, their order and their aliases.
  Shown: the position of a role in \<open>ALL\<close> is its index, and an alias names at most one role.
\<close>

datatype key_role = Consensus | Companion

definition KEY_ROLE_ALL :: "key_role list" where
  "KEY_ROLE_ALL = [Consensus, Companion]"

definition KEY_ROLE_COUNT :: nat where
  "KEY_ROLE_COUNT = 2"

fun role_index :: "key_role \<Rightarrow> nat" where
  "role_index Consensus = 0"
| "role_index Companion = 1"

definition map_all :: "(key_role \<Rightarrow> 'a) \<Rightarrow> 'a list" where
  "map_all f = map (\<lambda>i. f (KEY_ROLE_ALL ! i)) [0..<KEY_ROLE_COUNT]"

fun device_alias :: "key_role \<Rightarrow> string" where
  "device_alias Consensus = ''consensus''"
| "device_alias Companion = ''companion''"

definition from_device_alias :: "string \<Rightarrow> key_role option" where
  "from_device_alias alias = List.find (\<lambda>role. device_alias role = alias) KEY_ROLE_ALL"

lemma role_index_less [simp]: "role_index role < KEY_ROLE_COUNT"
  by (cases role) (auto simp: KEY_ROLE_COUNT_def)

lemma all_at_role_index: "KEY_ROLE_ALL ! role_index role = role"
  by (cases role) (auto simp: KEY_ROLE_ALL_def)

lemma map_all_nth: "map_all f ! role_index role = f role" and length_map_all: "length (map_all f) = KEY_ROLE_COUNT"
  using all_at_role_index [of role] by (auto simp: map_all_def)

lemma device_alias_inj: "device_alias a = device_alias b \<longleftrightarrow> a = b"
  by (cases a; cases b) auto

lemma from_device_alias_iff: "from_device_alias alias = Some role \<longleftrightarrow> alias = device_alias role"
  by (cases role) (auto simp: from_device_alias_def KEY_ROLE_ALL_def)

end
