(* ===== verification/Text.thy ===== *)
theory Text
  imports Utf8 Bls
begin

text \<open>
  The operations of \<open>str\<close> the device code uses on file contents: trimming white space and parsing an
  unsigned number, with the round trip of printing and parsing. A \<open>string\<close> is the list of its UTF-8
  bytes.
\<close>

section \<open>Trimming\<close>

text \<open>The characters with the property \<open>White_Space\<close>, as the bytes of their encoding.\<close>

definition white_space :: "string list" where
  "white_space =
     map (\<lambda>n. [char_of n]) [9, 10, 11, 12, 13, 32 :: nat] @
     map text_of ([[0xC2, 0x85], [0xC2, 0xA0], [0xE1, 0x9A, 0x80]] @
       map (\<lambda>i. [0xE2, 0x80, i]) [0x80, 0x81, 0x82, 0x83, 0x84, 0x85, 0x86, 0x87, 0x88, 0x89, 0x8A, 0xA8, 0xA9, 0xAF] @
       [[0xE2, 0x81, 0x9F], [0xE3, 0x80, 0x80]])"

text \<open>Removes prefixes out of a list, as long as one fits; \<open>None\<close> when none does.\<close>

fun strip_one :: "string list \<Rightarrow> string \<Rightarrow> string option" where
  "strip_one [] s = None"
| "strip_one (w # ws) s =
     (if w \<noteq> [] \<and> take (length w) s = w then Some (drop (length w) s) else strip_one ws s)"

lemma strip_one_less: "strip_one ws s = Some t \<Longrightarrow> length t < length s"
  by (induction ws) (auto split: if_splits intro!: diff_less)

function strip_all :: "string list \<Rightarrow> string \<Rightarrow> string" where
  "strip_all ws s = (case strip_one ws s of None \<Rightarrow> s | Some t \<Rightarrow> strip_all ws t)"
  by pat_completeness auto
termination
  by (relation "measure (\<lambda>(ws, s). length s)") (auto dest: strip_one_less)

declare strip_all.simps [simp del]

definition trim :: "string \<Rightarrow> string" where
  "trim s = rev (strip_all (map rev white_space) (rev (strip_all white_space s)))"

section \<open>Numbers\<close>

definition digit_of :: "char \<Rightarrow> nat option" where
  "digit_of c = (let n = of_char c :: nat in if 48 \<le> n \<and> n \<le> 57 then Some (n - 48) else None)"

fun parse_digits :: "nat \<Rightarrow> nat \<Rightarrow> string \<Rightarrow> nat option" where
  "parse_digits bound acc [] = Some acc"
| "parse_digits bound acc (c # cs) =
     (case digit_of c of None \<Rightarrow> None
      | Some d \<Rightarrow> if acc * 10 + d < bound then parse_digits bound (acc * 10 + d) cs else None)"

text \<open>\<open>str::parse::<u32>\<close>: an optional plus sign, at least one digit, no overflow.\<close>

definition parse_unsigned :: "nat \<Rightarrow> string \<Rightarrow> nat option" where
  "parse_unsigned bound s =
     (case s of [] \<Rightarrow> None
      | c # cs \<Rightarrow>
          if c = CHR ''+'' then (if cs = [] then None else parse_digits bound 0 cs)
          else parse_digits bound 0 s)"

definition parse_u32 :: "string \<Rightarrow> u32 option" where
  "parse_u32 s = map_option word_of_nat (parse_unsigned (2 ^ 32) s)"

section \<open>Printing and parsing\<close>

lemma digit_of_char [simp]: "d < 10 \<Longrightarrow> digit_of (char_of (48 + d)) = Some d"
  by (simp add: digit_of_def Let_def)

lemma parse_digits_append:
  "parse_digits bound acc (s @ t) =
     (case parse_digits bound acc s of None \<Rightarrow> None | Some n \<Rightarrow> parse_digits bound n t)"
  by (induction s arbitrary: acc) (auto split: option.splits)

lemma parse_digits_show: "n < bound \<Longrightarrow> parse_digits bound 0 (show_nat n) = Some n"
proof (induction n rule: less_induct)
  case (less n)
  show ?case
  proof (cases "n < 10")
    case True
    then show ?thesis
      using less.prems by (subst show_nat.simps) simp
  next
    case False
    then have "parse_digits bound 0 (show_nat (n div 10)) = Some (n div 10)"
      using less.prems by (intro less.IH) auto
    then show ?thesis
      using False less.prems by (subst show_nat.simps) (simp add: parse_digits_append)
  qed
qed

lemma show_nat_digits: "c \<in> set (show_nat n) \<Longrightarrow> 48 \<le> (of_char c :: nat) \<and> of_char c \<le> (57 :: nat)"
proof (induction n rule: less_induct)
  case (less n)
  have "show_nat n = (if n < 10 then [char_of (48 + n)] else show_nat (n div 10) @ [char_of (48 + n mod 10)])"
    by (rule show_nat.simps)
  then show ?case
    using less.prems less.IH [of "n div 10"] by (auto split: if_splits)
qed

lemma show_nat_not_empty [simp]: "show_nat n \<noteq> []"
  by (subst show_nat.simps) simp

lemma parse_u32_show: "parse_u32 (show_nat (unat (n :: u32))) = Some n"
proof -
  obtain c cs where s: "show_nat (unat n) = c # cs"
    by (cases "show_nat (unat n)") auto
  then have "c \<noteq> CHR ''+''"
    using show_nat_digits [of c "unat n"] by auto
  moreover have "unat n < 2 ^ 32"
    using unsigned_less [of n, where 'a = nat] by simp
  ultimately have "parse_unsigned (2 ^ 32) (show_nat (unat n)) = Some (unat n)"
    using parse_digits_show [of "unat n" "2 ^ 32"] by (simp add: s parse_unsigned_def)
  then show ?thesis
    by (simp add: parse_u32_def)
qed

text \<open>A text without white space at either end is its own trimmed form.\<close>

lemma strip_all_id: "strip_one ws s = None \<Longrightarrow> strip_all ws s = s"
  by (subst strip_all.simps) simp

lemma strip_one_None:
  "\<forall>w \<in> set ws. w \<noteq> [] \<longrightarrow> hd w \<noteq> c \<Longrightarrow> strip_one ws (c # s) = None"
  by (induction ws) (auto simp: neq_Nil_conv)

lemma trim_show_nat [simp]: "trim (show_nat n) = show_nat n"
proof -
  have ends: "strip_one ws s = None"
    if "s \<noteq> []" "\<forall>w \<in> set ws. w \<noteq> [] \<longrightarrow> digit_of (hd w) = None" "digit_of (hd s) \<noteq> None" for ws s
    using that by (cases s) (auto intro!: strip_one_None)
  have digits: "digit_of c \<noteq> None" if "c \<in> set (show_nat n)" for c
    using show_nat_digits [OF that] by (simp add: digit_of_def Let_def)
  have "strip_one white_space (show_nat n) = None"
    using digits [of "hd (show_nat n)"]
    by (intro ends) (auto simp: white_space_def text_of_def digit_of_def Let_def)
  moreover have "strip_one (map rev white_space) (rev (show_nat n)) = None"
    using digits [of "last (show_nat n)"]
    by (intro ends) (auto simp: white_space_def text_of_def digit_of_def Let_def hd_rev)
  ultimately show ?thesis
    by (simp add: trim_def strip_all_id)
qed

section \<open>Lines and fields\<close>

text \<open>\<open>str::lines\<close>: split at newlines, without a final carriage return.\<close>

fun split_lines :: "string \<Rightarrow> string \<Rightarrow> string list" where
  "split_lines acc [] = (if acc = [] then [] else [rev acc])"
| "split_lines acc (c # cs) =
     (if c = CHR 0x0A
      then rev (if acc \<noteq> [] \<and> hd acc = CHR 0x0D then tl acc else acc) # split_lines [] cs
      else split_lines (c # acc) cs)"

definition lines_of :: "string \<Rightarrow> string list" where
  "lines_of s = split_lines [] s"

text \<open>\<open>str::split_whitespace\<close>.\<close>

function fields_from :: "string \<Rightarrow> string \<Rightarrow> string list" where
  "fields_from acc s =
     (case strip_one white_space s of
        Some t \<Rightarrow> (if acc = [] then fields_from [] t else rev acc # fields_from [] t)
      | None \<Rightarrow> (case s of [] \<Rightarrow> (if acc = [] then [] else [rev acc]) | c # cs \<Rightarrow> fields_from (c # acc) cs))"
  by pat_completeness auto
termination
  by (relation "measure (\<lambda>(acc, s). length s)") (auto dest: strip_one_less)

declare fields_from.simps [simp del]

definition split_whitespace :: "string \<Rightarrow> string list" where
  "split_whitespace s = fields_from [] s"

text \<open>\<open>str::strip_prefix\<close>.\<close>

definition strip_prefix :: "string \<Rightarrow> string \<Rightarrow> string option" where
  "strip_prefix p s = (if take (length p) s = p then Some (drop (length p) s) else None)"

text \<open>\<open>str::eq_ignore_ascii_case\<close>.\<close>

definition to_ascii_lowercase :: "char \<Rightarrow> char" where
  "to_ascii_lowercase c =
     (let n = of_char c :: nat in if 65 \<le> n \<and> n \<le> 90 then char_of (n + 32) else c)"

definition eq_ignore_ascii_case :: "string \<Rightarrow> string \<Rightarrow> bool" where
  "eq_ignore_ascii_case a b \<longleftrightarrow> map to_ascii_lowercase a = map to_ascii_lowercase b"

text \<open>The value of a hexadecimal digit.\<close>

definition hex_value :: "char \<Rightarrow> nat option" where
  "hex_value c =
     (let n = of_char c in
      if 48 \<le> n \<and> n \<le> 57 then Some (n - 48)
      else if 65 \<le> n \<and> n \<le> 70 then Some (n - 55)
      else if 97 \<le> n \<and> n \<le> 102 then Some (n - 87)
      else None)"

text \<open>\<open>str::split_once\<close> and \<open>str::split\<close> at a character.\<close>

definition split_once :: "char \<Rightarrow> string \<Rightarrow> (string \<times> string) option" where
  "split_once c s =
     (if c \<in> set s then Some (takeWhile (\<lambda>d. d \<noteq> c) s, tl (dropWhile (\<lambda>d. d \<noteq> c) s)) else None)"

fun split_at_char :: "char \<Rightarrow> string \<Rightarrow> string \<Rightarrow> string list" where
  "split_at_char c acc [] = [rev acc]"
| "split_at_char c acc (d # s) = (if d = c then rev acc # split_at_char c [] s else split_at_char c (d # acc) s)"

definition split_char :: "char \<Rightarrow> string \<Rightarrow> string list" where
  "split_char c s = split_at_char c [] s"

lemma split_once_append: "c \<notin> set s \<Longrightarrow> split_once c (s @ c # t) = Some (s, t)"
  by (simp add: split_once_def takeWhile_append dropWhile_append)

lemma split_at_char_none: "c \<notin> set s \<Longrightarrow> split_at_char c acc s = [rev acc @ s]"
  by (induction c acc s rule: split_at_char.induct) auto

lemma split_at_char_append:
  "c \<notin> set s \<Longrightarrow> split_at_char c acc (s @ c # t) = (rev acc @ s) # split_at_char c [] t"
  by (induction s arbitrary: acc) auto

text \<open>Fields of a line of printable characters and blanks.\<close>

lemma strip_one_append:
  "strip_one (ws @ vs) s = (case strip_one ws s of None \<Rightarrow> strip_one vs s | Some t \<Rightarrow> Some t)"
  by (induction ws) auto

lemma strip_blank [simp]: "strip_one white_space (CHR '' '' # s) = Some s"
proof -
  have "strip_one (map (\<lambda>n. [char_of n]) [9, 10, 11, 12, 13, 32 :: nat]) (CHR '' '' # s) = Some s"
    by (simp add: char_of_def bit_0)
  then show ?thesis
    by (simp only: white_space_def strip_one_append option.case)
qed

lemma strip_printable:
  assumes "0x21 \<le> (of_char c :: nat)" and "(of_char c :: nat) < 0x7F"
  shows "strip_one white_space (c # s) = None"
proof (rule strip_one_None, intro ballI impI)
  fix w assume "w \<in> set white_space" "w \<noteq> []"
  moreover have "(of_char (hd w) :: nat) < 0x21 \<or> 0x7F < (of_char (hd w) :: nat)" if "w \<in> set white_space"
    using that by (auto simp: white_space_def text_of_def)
  ultimately show "hd w \<noteq> c"
    using assms by auto
qed

lemma strip_end [simp]: "strip_one ws [] = None"
  by (induction ws) auto

lemma fields_steps:
  "fields_from acc [] = (if acc = [] then [] else [rev acc])"
  "fields_from acc (CHR '' '' # s) = (if acc = [] then fields_from [] s else rev acc # fields_from [] s)"
  "0x21 \<le> (of_char c :: nat) \<Longrightarrow> (of_char c :: nat) < 0x7F \<Longrightarrow> fields_from acc (c # s) = fields_from (c # acc) s"
  by (subst fields_from.simps, simp add: strip_printable)+

end
