(* ===== verification/Key_Manager.thy ===== *)
theory Key_Manager
  imports Signer_Core Key_Role Text "HOL-Library.AList" "HOL-Library.List_Lexorder" "HOL-Library.Char_ord"
    "HOL-Library.Multiset"
begin

text \<open>
  \<open>KeyManager\<close> of \<open>libs/signer/src/server.rs\<close>. The two hash maps are association lists whose order
  stands for the unspecified iteration order. Shown: lookups after insertion, that \<open>list_keys\<close> lists
  every signer once with the role keys first, and that the iteration order cannot reach the result.
\<close>

section \<open>Data and operations\<close>

record ('sk, 'pk) key_manager =
  signers :: "(public_key_hash \<times> ('sk, 'pk) unencrypted) list"
  key_names :: "(public_key_hash \<times> string) list"

definition km_new :: "('sk, 'pk) key_manager" where
  "km_new = \<lparr>signers = [], key_names = []\<rparr>"

definition add_signer ::
    "public_key_hash \<Rightarrow> ('sk, 'pk) unencrypted \<Rightarrow> string \<Rightarrow> ('sk, 'pk) key_manager \<Rightarrow> ('sk, 'pk) key_manager" where
  "add_signer pkh signer name km =
     km\<lparr>signers := AList.update pkh signer (signers km), key_names := AList.update pkh name (key_names km)\<rparr>"

definition get_key_name :: "('sk, 'pk) key_manager \<Rightarrow> public_key_hash \<Rightarrow> string option" where
  "get_key_name km pkh = map_of (key_names km) pkh"

text \<open>\<open>Iterator::min_by_key\<close>: the first of the least elements.\<close>

fun min_by_key :: "('a \<Rightarrow> 'k::linorder) \<Rightarrow> 'a list \<Rightarrow> 'a option" where
  "min_by_key f [] = None"
| "min_by_key f (x # xs) =
     (case min_by_key f xs of None \<Rightarrow> Some x | Some y \<Rightarrow> if f x \<le> f y then Some x else Some y)"

definition role_key :: "crates \<Rightarrow> ('sk, 'pk) key_manager \<Rightarrow> key_role \<Rightarrow> public_key_hash option" where
  "role_key X km role =
     min_by_key (pkh_to_b58check X)
       (map fst (filter (\<lambda>(_, name). eq_ignore_ascii_case name (device_alias role)) (key_names km)))"

definition role_keys :: "crates \<Rightarrow> ('sk, 'pk) key_manager \<Rightarrow> public_key_hash list" where
  "role_keys X km = List.map_filter (role_key X km) KEY_ROLE_ALL"

definition list_keys :: "crates \<Rightarrow> ('sk, 'pk) key_manager \<Rightarrow> public_key_hash list" where
  "list_keys X km =
     (let ks = role_keys X km;
          extras = filter (\<lambda>pkh. pkh \<notin> set ks) (map fst (signers km))
      in ks @ sort_key (pkh_to_b58check X) extras)"

section \<open>Well-formed managers\<close>

definition km_wf :: "('sk, 'pk) key_manager \<Rightarrow> bool" where
  "km_wf km \<longleftrightarrow>
     distinct (map fst (signers km)) \<and> distinct (map fst (key_names km)) \<and>
     fst ` set (key_names km) = fst ` set (signers km)"

lemma km_wf_new [simp]: "km_wf km_new"
  by (simp add: km_wf_def km_new_def)

lemma fst_set_update: "fst ` set (AList.update k v al) = insert k (fst ` set al)"
  using dom_update [of k v al] by (simp add: dom_map_of_conv_image_fst)

lemma km_wf_add_signer: "km_wf km \<Longrightarrow> km_wf (add_signer pkh signer name km)"
  by (simp add: km_wf_def add_signer_def distinct_update fst_set_update)

lemma get_after_add:
  "map_of (signers (add_signer pkh signer name km)) q = (if q = pkh then Some signer else map_of (signers km) q)"
  "get_key_name (add_signer pkh signer name km) q = (if q = pkh then Some name else get_key_name km q)"
  by (simp_all add: add_signer_def get_key_name_def update_conv)

section \<open>The least element\<close>

lemma min_by_key_None [simp]: "min_by_key f xs = None \<longleftrightarrow> xs = []"
  by (induction xs) (auto split: option.splits)

lemma min_by_key_SomeD: "min_by_key f xs = Some x \<Longrightarrow> x \<in> set xs \<and> (\<forall>y \<in> set xs. f x \<le> f y)"
proof (induction xs arbitrary: x)
  case (Cons a xs)
  then show ?case
    by (cases "min_by_key f xs") (auto split: if_splits intro: order_trans)
qed simp

lemma min_by_key_cong:
  assumes "set xs = set ys" and "inj_on f (set xs)"
  shows "min_by_key f xs = min_by_key f ys"
proof (cases "min_by_key f xs")
  case None
  then show ?thesis
    using assms by (metis min_by_key_None set_empty)
next
  case (Some x)
  then obtain y where y: "min_by_key f ys = Some y"
    using assms by (metis min_by_key_None not_Some_eq set_empty)
  have "x \<in> set xs" "y \<in> set xs" "f x = f y"
    using min_by_key_SomeD [OF Some] min_by_key_SomeD [OF y] assms(1) by (auto intro: antisym)
  then show ?thesis
    using Some y assms(2) by (simp add: inj_onD)
qed

section \<open>Listing\<close>

lemma inj_b58: "bs58_lawful X \<Longrightarrow> inj_on (pkh_to_b58check X) A"
  by (simp add: inj_on_def pkh_to_b58check_inj)

lemma role_key_SomeD:
  assumes "role_key X km role = Some pkh"
  shows "\<exists>name. (pkh, name) \<in> set (key_names km) \<and> eq_ignore_ascii_case name (device_alias role)"
  using min_by_key_SomeD [OF assms [unfolded role_key_def]] by auto

lemma lowercase_alias [simp]: "map to_ascii_lowercase (device_alias role) = device_alias role"
  by (cases role) (simp_all add: to_ascii_lowercase_def)

lemma aliases_differ_ascii_case:
  "eq_ignore_ascii_case name (device_alias a) \<Longrightarrow> eq_ignore_ascii_case name (device_alias b) \<Longrightarrow> a = b"
  by (simp add: eq_ignore_ascii_case_def device_alias_inj)

lemma role_key_inj:
  assumes "km_wf km" and "role_key X km a = Some pkh" and "role_key X km b = Some pkh"
  shows "a = b"
proof -
  from assms(2,3) obtain n m where "(pkh, n) \<in> set (key_names km)" "eq_ignore_ascii_case n (device_alias a)"
      "(pkh, m) \<in> set (key_names km)" "eq_ignore_ascii_case m (device_alias b)"
    by (blast dest: role_key_SomeD)
  moreover from this have "n = m"
    using assms(1) by (meson km_wf_def eq_key_imp_eq_value)
  ultimately show ?thesis
    by (blast intro: aliases_differ_ascii_case)
qed

lemma distinct_role_keys: "km_wf km \<Longrightarrow> distinct (role_keys X km)"
  using role_key_inj [of km X Consensus _ Companion]
  by (fastforce simp: role_keys_def KEY_ROLE_ALL_def map_filter_simps split: option.splits)

lemma set_role_keys: "km_wf km \<Longrightarrow> set (role_keys X km) \<subseteq> fst ` set (signers km)"
proof
  fix pkh
  assume wf: "km_wf km" and "pkh \<in> set (role_keys X km)"
  then obtain role where "role_key X km role = Some pkh"
    by (auto simp: role_keys_def KEY_ROLE_ALL_def map_filter_simps split: option.splits)
  then have "pkh \<in> fst ` set (key_names km)"
    using role_key_SomeD by force
  then show "pkh \<in> fst ` set (signers km)"
    using wf by (simp add: km_wf_def)
qed

text \<open>The host utility's expectation: consensus first, companion second.\<close>

lemma list_keys_role_order:
  assumes "role_key X km Consensus = Some c" and "role_key X km Companion = Some p"
  shows "list_keys X km ! 0 = c \<and> list_keys X km ! 1 = p"
  using assms by (simp add: list_keys_def role_keys_def KEY_ROLE_ALL_def map_filter_simps)

lemma list_keys_each_once:
  assumes "km_wf km"
  shows "distinct (list_keys X km) \<and> set (list_keys X km) = fst ` set (signers km)"
  using assms distinct_role_keys [OF assms, of X] set_role_keys [OF assms, of X]
  by (auto simp: list_keys_def Let_def km_wf_def)

lemma list_keys_order_irrelevant:
  assumes X: "bs58_lawful X" and wf: "km_wf km" "km_wf km'"
    and same: "map_of (signers km) = map_of (signers km')" "map_of (key_names km) = map_of (key_names km')"
  shows "list_keys X km = list_keys X km'"
proof -
  have sets: "set (signers km) = set (signers km')" "set (key_names km) = set (key_names km')"
    using wf same by (simp_all add: km_wf_def map_of_inject_set [symmetric])
  have "role_key X km = role_key X km'"
    unfolding role_key_def by (intro ext min_by_key_cong inj_b58 X) (simp add: sets)
  then have ks: "role_keys X km = role_keys X km'"
    by (simp add: role_keys_def)
  let ?ex = "\<lambda>m. filter (\<lambda>pkh. pkh \<notin> set (role_keys X km')) (map fst (signers m))"
  have "mset (?ex km) = mset (?ex km')"
    using wf sets by (subst set_eq_iff_mset_eq_distinct [symmetric]) (auto simp: km_wf_def)
  then have "sort_key (pkh_to_b58check X) (?ex km) = sort_key (pkh_to_b58check X) (?ex km')"
    using inj_b58 [OF X] by (intro sort_key_inj_key_eq) simp_all
  then show ?thesis
    by (simp add: list_keys_def ks)
qed

end
