(* ===== verification/Signing_Activity.thy ===== *)
theory Signing_Activity
  imports Key_Role
begin

text \<open>
  \<open>libs/signer/src/signing_activity.rs\<close>: what the status page shows about past signatures. Times are
  integers (nanoseconds since the epoch), durations naturals. Shown: the five-slot ring refines the
  abstract list of the last five events, oldest first.
\<close>

section \<open>Data\<close>

datatype activity_op = ActBlock | ActPreAttestation | ActAttestation

definition activity_op_from_magic_byte :: "u8 \<Rightarrow> activity_op option" where
  "activity_op_from_magic_byte magic =
     (if magic = 0x11 then Some ActBlock
      else if magic = 0x12 then Some ActPreAttestation
      else if magic = 0x13 then Some ActAttestation
      else None)"

fun activity_op_as_str :: "activity_op \<Rightarrow> string" where
  "activity_op_as_str ActBlock = ''signed''"
| "activity_op_as_str ActPreAttestation = ''pre-attested''"
| "activity_op_as_str ActAttestation = ''attested''"

definition extract_chain_id :: "bytes \<Rightarrow> 4 barray option" where
  "extract_chain_id data =
     (if 5 \<le> length data \<and> data ! 0 = 0x11 then Some (barray_of [data ! 1, data ! 2, data ! 3, data ! 4])
      else None)"

record signature_activity =
  sa_level :: "u32 option"
  sa_timestamp :: int
  sa_duration :: "nat option"
  sa_operation_type :: "activity_op option"
  sa_data_size :: "nat option"

record signing_event =
  ev_role :: key_role
  ev_activity :: signature_activity

record signing_event_ring =
  ring_events :: "signing_event option list"
  ring_head :: u8
  ring_len :: u8

record signing_activity =
  sa_last :: "signature_activity option list"
  sa_chain_id :: "4 barray option"
  recent_events :: signing_event_ring
  total_signatures :: u64

section \<open>Operations\<close>

definition ring_default :: signing_event_ring where
  "ring_default = \<lparr>ring_events = replicate 5 None, ring_head = 0, ring_len = 0\<rparr>"

definition ring_push :: "signing_event_ring \<Rightarrow> signing_event \<Rightarrow> signing_event_ring" where
  "ring_push r event =
     r\<lparr>ring_events := (ring_events r)[unat (ring_head r) mod 5 := Some event],
       ring_head := (ring_head r + 1) mod 5,
       ring_len := (if ring_len r < 5 then ring_len r + 1 else ring_len r)\<rparr>"

definition ring_iter :: "signing_event_ring \<Rightarrow> signing_event list" where
  "ring_iter r =
     (let len = unat (ring_len r); head = unat (ring_head r)
      in List.map_filter (\<lambda>i. ring_events r ! ((head + 5 - len + i) mod 5)) [0..<len])"

definition activity_default :: signing_activity where
  "activity_default =
     \<lparr>sa_last = [None, None], sa_chain_id = None, recent_events = ring_default, total_signatures = 0\<rparr>"

definition activity_last :: "signing_activity \<Rightarrow> key_role \<Rightarrow> signature_activity option" where
  "activity_last a role = sa_last a ! role_index role"

definition set_last :: "signing_activity \<Rightarrow> key_role \<Rightarrow> signature_activity \<Rightarrow> signing_activity" where
  "set_last a role act = a\<lparr>sa_last := (sa_last a)[role_index role := Some act]\<rparr>"

text \<open>\<open>now\<close> is the value of \<open>SystemTime::now()\<close>; a timestamp in the future does not count.\<close>

definition has_recent_activity :: "int \<Rightarrow> signing_activity \<Rightarrow> nat \<Rightarrow> bool" where
  "has_recent_activity now a seconds \<longleftrightarrow>
     (\<exists>role \<in> set KEY_ROLE_ALL. case activity_last a role of None \<Rightarrow> False
        | Some act \<Rightarrow> sa_timestamp act \<le> now \<and> nat ((now - sa_timestamp act) div 1000000000) < seconds)"

section \<open>The ring as a bounded log\<close>

text \<open>The contract: a log that keeps the newest \<open>cap\<close> items, oldest first.\<close>

locale bounded_log =
  fixes cap :: nat
    and empty :: 'r
    and push :: "'r \<Rightarrow> 'e \<Rightarrow> 'r"
    and iter :: "'r \<Rightarrow> 'e list"
    and wf :: "'r \<Rightarrow> bool"
  assumes wf_empty: "wf empty"
    and wf_push: "wf r \<Longrightarrow> wf (push r e)"
    and iter_empty: "iter empty = []"
    and iter_push: "wf r \<Longrightarrow> iter (push r e) = drop (Suc (length (iter r)) - cap) (iter r @ [e])"
begin

lemma wf_pushes: "wf (foldl push empty es)"
  by (induction es rule: rev_induct) (auto simp: wf_empty wf_push)

lemma iter_pushes: "iter (foldl push empty es) = drop (length es - cap) es"
proof (induction es rule: rev_induct)
  case (snoc e es)
  have "iter (push (foldl push empty es) e) =
      drop (Suc (length (drop (length es - cap) es)) - cap) (drop (length es - cap) es @ [e])"
    by (simp add: iter_push wf_pushes snoc.IH)
  also have "\<dots> = drop (length (es @ [e]) - cap) (es @ [e])"
    by (cases "length es < cap") (auto simp: Suc_diff_le)
  finally show ?case
    by simp
qed (simp add: iter_empty)

end

definition ring_wf :: "signing_event_ring \<Rightarrow> bool" where
  "ring_wf r \<longleftrightarrow>
     length (ring_events r) = 5 \<and> ring_head r < 5 \<and> ring_len r \<le> 5 \<and>
     (\<forall>i < unat (ring_len r). ring_events r ! ((unat (ring_head r) + 5 - unat (ring_len r) + i) mod 5) \<noteq> None)"

text \<open>The slot of the \<open>i\<close>-th oldest event, and what a push does to the slots.\<close>

definition slot :: "signing_event_ring \<Rightarrow> nat \<Rightarrow> nat" where
  "slot r i = (unat (ring_head r) + 5 - unat (ring_len r) + i) mod 5"

lemma ring_wf_nat:
  "ring_wf r \<longleftrightarrow> length (ring_events r) = 5 \<and> unat (ring_head r) < 5 \<and> unat (ring_len r) \<le> 5 \<and>
     (\<forall>i < unat (ring_len r). ring_events r ! slot r i \<noteq> None)"
  by (simp add: ring_wf_def slot_def word_less_nat_alt word_le_nat_alt)

lemma ring_iter_map:
  "ring_wf r \<Longrightarrow> ring_iter r = map (\<lambda>i. the (ring_events r ! slot r i)) [0..<unat (ring_len r)]"
  by (auto simp: ring_iter_def ring_wf_nat Let_def map_filter_def slot_def filter_id_conv [THEN iffD2])

lemma ring_push_nat:
  assumes "ring_wf r"
  shows "unat (ring_head (ring_push r ev)) = Suc (unat (ring_head r)) mod 5"
    and "unat (ring_len (ring_push r ev)) = min 5 (Suc (unat (ring_len r)))"
proof -
  have h: "unat (ring_head r) < 5" and n: "unat (ring_len r) \<le> 5"
    using assms by (simp_all add: ring_wf_nat)
  from h have "unat (ring_head r + 1) = Suc (unat (ring_head r))"
    by (simp add: unat_word_ariths)
  then show "unat (ring_head (ring_push r ev)) = Suc (unat (ring_head r)) mod 5"
    by (simp add: ring_push_def unat_mod)
  show "unat (ring_len (ring_push r ev)) = min 5 (Suc (unat (ring_len r)))"
    using n by (auto simp: ring_push_def word_less_nat_alt unat_word_ariths)
qed

lemma turn: "(h :: nat) < 5 \<Longrightarrow> 1 \<le> d \<Longrightarrow> d \<le> 5 \<Longrightarrow> (h + d) mod 5 = h \<longleftrightarrow> d = 5"
  by (cases "h + d < 5") (auto simp: le_mod_geq)

lemma push_slot:
  assumes "ring_wf r" and "i < unat (ring_len (ring_push r ev))"
  shows "ring_events (ring_push r ev) ! slot (ring_push r ev) i =
    (if i = unat (ring_len (ring_push r ev)) - 1 then Some ev
     else ring_events r ! slot r (if unat (ring_len r) = 5 then Suc i else i))"
proof -
  define h n where "h = unat (ring_head r)" and "n = unat (ring_len r)"
  have hn: "h < 5" "n \<le> 5" "length (ring_events r) = 5"
    using assms(1) by (simp_all add: ring_wf_nat h_def n_def)
  have i: "i < min 5 (Suc n)"
    using assms by (simp add: ring_push_nat n_def)
  have slot': "slot (ring_push r ev) i = (h + 1 + (5 - min 5 (Suc n)) + i) mod 5"
  proof -
    have "slot (ring_push r ev) i = (Suc h mod 5 + (5 - min 5 (Suc n)) + i) mod 5"
      unfolding slot_def ring_push_nat [OF assms(1)] h_def [symmetric] n_def [symmetric]
      by (rule arg_cong [of _ _ "\<lambda>x. x mod 5"]) simp
    then show ?thesis
      by (simp only: mod_add_left_eq add.assoc Suc_eq_plus1)
  qed
  have new: "(h + 1 + (5 - min 5 (Suc n)) + i) mod 5 = h \<longleftrightarrow> i = min 5 (Suc n) - 1"
    using turn [OF hn(1), of "1 + (5 - min 5 (Suc n)) + i"] i by (auto simp: add.assoc)
  have old: "(h + 1 + (5 - min 5 (Suc n)) + i) mod 5 = slot r (if n = 5 then Suc i else i)"
    unfolding slot_def h_def [symmetric] n_def [symmetric]
    by (rule arg_cong [of _ _ "\<lambda>x. x mod 5"]) (use hn(2) in \<open>auto simp: min_def\<close>)
  show ?thesis
    using hn new old unfolding slot' ring_push_nat(2) [OF assms(1)] n_def [symmetric]
    by (cases "n = 5") (auto simp: ring_push_def h_def [symmetric] nth_list_update)
qed

lemma ring_wf_push:
  assumes "ring_wf r"
  shows "ring_wf (ring_push r ev)"
proof -
  have "ring_events (ring_push r ev) ! slot (ring_push r ev) i \<noteq> None"
    if "i < unat (ring_len (ring_push r ev))" for i
    using push_slot [OF assms that] that assms by (auto simp: ring_push_nat ring_wf_nat split: if_splits)
  moreover have "length (ring_events (ring_push r ev)) = 5"
    using assms by (simp add: ring_push_def ring_wf_nat)
  ultimately show ?thesis
    using assms ring_push_nat [OF assms, of ev] unfolding ring_wf_nat [of "ring_push r ev"] by simp
qed

lemma ring_iter_push:
  assumes "ring_wf r"
  shows "ring_iter (ring_push r ev) = drop (Suc (length (ring_iter r)) - 5) (ring_iter r @ [ev])"
proof (rule nth_equalityI)
  have n: "unat (ring_len r) \<le> 5"
    using assms by (simp add: ring_wf_nat)
  then show "length (ring_iter (ring_push r ev)) = length (drop (Suc (length (ring_iter r)) - 5) (ring_iter r @ [ev]))"
    using assms by (auto simp: ring_iter_map ring_wf_push ring_push_nat)
  fix i
  assume "i < length (ring_iter (ring_push r ev))"
  then have i: "i < unat (ring_len (ring_push r ev))"
    by (simp add: ring_iter_map [OF ring_wf_push [OF assms]])
  then show "ring_iter (ring_push r ev) ! i = drop (Suc (length (ring_iter r)) - 5) (ring_iter r @ [ev]) ! i"
    using n assms push_slot [OF assms i]
    by (auto simp: ring_iter_map ring_wf_push ring_push_nat nth_append split: if_splits)
qed

interpretation ring: bounded_log 5 ring_default ring_push ring_iter ring_wf
proof unfold_locales
  show "ring_wf ring_default" "ring_iter ring_default = []"
    by (simp_all add: ring_wf_def ring_iter_def ring_default_def map_filter_simps)
qed (simp_all only: ring_wf_push ring_iter_push)

end
