(* ===== verification/Server.thy ===== *)
theory Server
  imports Protocol Key_Manager High_Watermark Signing_Activity
begin

text \<open>
  \<open>RequestHandler\<close> of \<open>libs/signer/src/server.rs\<close>. The handler's fields and what it reaches through
  them (the watermark tracker, the disk, the threads it spawns, the callbacks it invokes) are one
  record \<open>world\<close>; callbacks are recorded in a trace in the order they fire. \<open>handle_sign\<close> is cut at
  the boundaries of its lock scopes: the prechecks under the read lock, the critical section under
  the write lock, and what follows. A Rust panic is the error \<open>SvPanic\<close>: the release profile aborts
  the process on panic, so it is never turned into a response.
\<close>

section \<open>Data\<close>

datatype server_error =
    SvIo io_error
  | SvProtocol proto_error
  | SvSigner signer_error
  | SvWatermark watermark_error
  | SvMagicByte magic_byte_error
  | SvTimeout
  | KeyNotFound string
  | AuthRequired
  | NotAuthorized string
  | MessageTooLarge nat
  | SvInternal string
  | SvPanic

text \<open>A lock with its poison flag.\<close>

datatype 'a lock = Lock (poisoned: bool) (guarded: 'a)

definition poison_error :: server_error where
  "poison_error = SvInternal ''Lock poisoned: poisoned lock: another task failed inside''"

datatype ui_event =
    EvUnknownKey public_key_hash
  | EvWatermarkError public_key_hash chain_id watermark_error
  | EvLargeGap public_key_hash chain_id u32 u32
  | EvMissingWatermark public_key_hash chain_id u32
  | EvSigningNotify
  | EvPreSign
  | EvPostSign

record ('sk, 'pk) request_handler =
  rh_keys :: "('sk, 'pk) key_manager lock"
  rh_watermark :: "high_watermark lock option"
  provisioned_chain_id :: "chain_id option"
  allowed_magic_bytes :: "bytes option"
  allow_list_known_keys :: bool
  allow_prove_possession :: bool
  rh_signing_activity :: "signing_activity lock option"
  watermark_error_callback :: bool
  signing_notify_callback :: bool
  large_gap_callback :: bool
  missing_watermark_callback :: bool
  unknown_key_callback :: bool
  blocks_per_cycle :: "u32 option"
  pre_sign_callback :: bool
  post_sign_callback :: bool
  unknown_alias_reported :: bool
  activity_poison_reported :: bool

text \<open>A spawned ceiling thread: the arguments its \<open>write_ceiling\<close> will be called with.\<close>

type_synonym ceiling_task = "public_key_hash \<times> nat \<times> u32"

record ('sk, 'pk) world =
  w_handler :: "('sk, 'pk) request_handler"
  w_fs :: fs
  w_tasks :: "ceiling_task list"
  w_trace :: "ui_event list"

type_synonym ('sk, 'pk, 'a) handling = "(('sk, 'pk) world, server_error, 'a) stateful"

definition LARGE_GAP_CYCLES :: u32 where
  "LARGE_GAP_CYCLES = 4"

definition rh_new ::
    "('sk, 'pk) key_manager lock \<Rightarrow> high_watermark lock option \<Rightarrow> bytes option \<Rightarrow> bool \<Rightarrow> bool
      \<Rightarrow> ('sk, 'pk) request_handler" where
  "rh_new ks wm allowed allow_list allow_prove =
     \<lparr>rh_keys = ks, rh_watermark = wm,
      provisioned_chain_id = map_option (\<lambda>l. hw_chain_id (guarded l)) wm,
      allowed_magic_bytes = allowed, allow_list_known_keys = allow_list,
      allow_prove_possession = allow_prove, rh_signing_activity = None,
      watermark_error_callback = False, signing_notify_callback = False, large_gap_callback = False,
      missing_watermark_callback = False, unknown_key_callback = False, blocks_per_cycle = None,
      pre_sign_callback = False, post_sign_callback = False, unknown_alias_reported = False,
      activity_poison_reported = False\<rparr>"

definition with_signing_activity ::
    "signing_activity lock \<Rightarrow> ('sk, 'pk) request_handler \<Rightarrow> ('sk, 'pk) request_handler" where
  "with_signing_activity a rh = rh\<lparr>rh_signing_activity := Some a\<rparr>"

definition with_large_gap_callback ::
    "u32 \<Rightarrow> ('sk, 'pk) request_handler \<Rightarrow> ('sk, 'pk) request_handler" where
  "with_large_gap_callback bpc rh = rh\<lparr>large_gap_callback := True, blocks_per_cycle := Some bpc\<rparr>"

definition with_watermark_error_callback :: "('sk, 'pk) request_handler \<Rightarrow> ('sk, 'pk) request_handler" where
  "with_watermark_error_callback rh = rh\<lparr>watermark_error_callback := True\<rparr>"

definition with_signing_notify :: "('sk, 'pk) request_handler \<Rightarrow> ('sk, 'pk) request_handler" where
  "with_signing_notify rh = rh\<lparr>signing_notify_callback := True\<rparr>"

definition with_watermark_missing_callback :: "('sk, 'pk) request_handler \<Rightarrow> ('sk, 'pk) request_handler" where
  "with_watermark_missing_callback rh = rh\<lparr>missing_watermark_callback := True\<rparr>"

definition with_unknown_key_callback :: "('sk, 'pk) request_handler \<Rightarrow> ('sk, 'pk) request_handler" where
  "with_unknown_key_callback rh = rh\<lparr>unknown_key_callback := True\<rparr>"

definition with_pre_sign_callback :: "('sk, 'pk) request_handler \<Rightarrow> ('sk, 'pk) request_handler" where
  "with_pre_sign_callback rh = rh\<lparr>pre_sign_callback := True\<rparr>"

definition with_post_sign_callback :: "('sk, 'pk) request_handler \<Rightarrow> ('sk, 'pk) request_handler" where
  "with_post_sign_callback rh = rh\<lparr>post_sign_callback := True\<rparr>"

section \<open>Callbacks\<close>

text \<open>\<open>if let Some(ref callback) = .. { callback(..) }\<close>.\<close>

definition fire :: "bool \<Rightarrow> ui_event \<Rightarrow> ('sk, 'pk) world \<Rightarrow> ('sk, 'pk) world" where
  "fire installed ev w = (if installed then w\<lparr>w_trace := w_trace w @ [ev]\<rparr> else w)"

definition notify_request_received :: "('sk, 'pk) world \<Rightarrow> ('sk, 'pk) world" where
  "notify_request_received w = fire (pre_sign_callback (w_handler w)) EvPreSign w"

definition notify_request_complete :: "('sk, 'pk) world \<Rightarrow> ('sk, 'pk) world" where
  "notify_request_complete w = fire (post_sign_callback (w_handler w)) EvPostSign w"

section \<open>Resolving keys\<close>

definition get_signer ::
    "crates \<Rightarrow> ('sk, 'pk) key_manager \<Rightarrow> public_key_hash \<Rightarrow> server_error + ('sk, 'pk) unencrypted" where
  "get_signer X km pkh = ok_or (KeyNotFound (pkh_to_b58check X pkh)) (map_of (signers km) pkh)"

text \<open>
  \<open>str::to_lowercase\<close> on the bytes of an alias: ASCII letters only. The result is compared with two
  ASCII aliases that no non-ASCII letter lowercases into.
\<close>

definition to_lowercase :: "string \<Rightarrow> string" where
  "to_lowercase = map to_ascii_lowercase"

definition resolve_signer ::
    "crates \<Rightarrow> public_key_hash \<Rightarrow> ('sk, 'pk, ('sk, 'pk) unencrypted \<times> string) handling" where
  "resolve_signer X pkh w =
     (case rh_keys (w_handler w) of Lock p km \<Rightarrow>
        if p then (Inl poison_error, w)
        else case get_signer X km pkh of
            Inr signer \<Rightarrow>
              (Inr (signer, to_lowercase (case get_key_name km pkh of Some n \<Rightarrow> n | None \<Rightarrow> [])), w)
          | Inl e \<Rightarrow> (Inl e, fire (unknown_key_callback (w_handler w)) (EvUnknownKey pkh) w))"

definition get_signer_or_alert :: "crates \<Rightarrow> public_key_hash \<Rightarrow> ('sk, 'pk, ('sk, 'pk) unencrypted) handling" where
  "get_signer_or_alert X pkh = bindS (resolve_signer X pkh) (\<lambda>(signer, _). returnS signer)"

section \<open>Parsing the payload\<close>

record parsed_sign_payload =
  ps_chain_id :: "chain_id option"
  ps_op_type :: "operation_type option"
  ps_level :: "u32 option"
  ps_round :: "u32 option"

definition parsed_default :: parsed_sign_payload where
  "parsed_default = \<lparr>ps_chain_id = None, ps_op_type = None, ps_level = None, ps_round = None\<rparr>"

text \<open>\<open>None\<close> is a panic of one of the two field readers.\<close>

definition parse_sign_payload :: "bytes \<Rightarrow> parsed_sign_payload option" where
  "parse_sign_payload data =
     (case data of [] \<Rightarrow> Some parsed_default
      | magic # _ \<Rightarrow>
          let chain_id = map_option (\<lambda>b. ChainId (barray_of (bytes_of b))) (get_chain_id_for_tenderbake data);
              op_type = op_from_magic_byte magic;
              fields = (if magic = 0x11 then map_option ok (get_level_and_round_for_tenderbake_block data)
                        else if magic = 0x12 \<or> magic = 0x13
                        then map_option ok (get_level_and_round_for_tenderbake_attestation data True)
                        else Some None)
          in case fields of None \<Rightarrow> None
             | Some lr \<Rightarrow> Some \<lparr>ps_chain_id = chain_id, ps_op_type = op_type,
                                 ps_level = map_option fst lr, ps_round = map_option snd lr\<rparr>)"

section \<open>Signing: before the write lock\<close>

definition check_chain ::
    "crates \<Rightarrow> public_key_hash \<Rightarrow> parsed_sign_payload \<Rightarrow> ('sk, 'pk, unit) handling" where
  "check_chain X pkh parsed w =
     (case (ps_chain_id parsed, provisioned_chain_id (w_handler w)) of
        (Some op_chain, Some provisioned) \<Rightarrow>
          if op_chain \<noteq> provisioned
          then let err = ChainMismatch (chain_to_b58check X provisioned) (chain_to_b58check X op_chain)
               in (Inl (SvWatermark err),
                   fire (watermark_error_callback (w_handler w)) (EvWatermarkError pkh op_chain err) w)
          else (Inr (), w)
      | _ \<Rightarrow> (Inr (), w))"

definition gap_checked :: "('sk, 'pk) request_handler \<Rightarrow> bool" where
  "gap_checked rh \<longleftrightarrow>
     large_gap_callback rh \<and> (case blocks_per_cycle rh of None \<Rightarrow> False | Some bpc \<Rightarrow> bpc > 0)"

definition precheck_level ::
    "crates \<Rightarrow> chain_id \<Rightarrow> public_key_hash \<Rightarrow> u32 \<Rightarrow> u32 option \<Rightarrow> ('sk, 'pk, unit) handling" where
  "precheck_level X chain pkh requested_level current w =
     (let rh = w_handler w in
      case current of
        None \<Rightarrow>
          if missing_watermark_callback rh
          then (Inl (SvWatermark (NotInitialized (chain_to_b58check X chain) (pkh_to_b58check X pkh))),
                fire True (EvMissingWatermark pkh chain requested_level) w)
          else (Inr (), w)
      | Some current_level \<Rightarrow>
          if gap_checked rh
          then let bpc = (case blocks_per_cycle rh of None \<Rightarrow> 0 | Some b \<Rightarrow> b);
                   gap = saturating_sub_u32 requested_level current_level;
                   threshold = LARGE_GAP_CYCLES * bpc
               in if gap > threshold
                  then (Inl (SvWatermark (LargeLevelGap current_level requested_level gap (gap div bpc))),
                        fire True (EvLargeGap pkh chain current_level requested_level) w)
                  else (Inr (), w)
          else (Inr (), w))"

definition precheck_watermark ::
    "crates \<Rightarrow> public_key_hash \<Rightarrow> parsed_sign_payload \<Rightarrow> ('sk, 'pk, unit) handling" where
  "precheck_watermark X pkh parsed w =
     (let rh = w_handler w in
      case (ps_chain_id parsed, rh_watermark rh, ps_level parsed) of
        (Some chain, Some lk, Some requested_level) \<Rightarrow>
          if gap_checked rh \<or> missing_watermark_callback rh
          then if poisoned lk then (Inl poison_error, w)
               else precheck_level X chain pkh requested_level (get_current_level (guarded lk) chain pkh) w
          else (Inr (), w)
      | _ \<Rightarrow> (Inr (), w))"

section \<open>Signing: under the write lock\<close>

datatype 'sg locked_outcome =
    LkRefused watermark_error
  | LkUnwatermarked
  | LkDone watermark_update "signer_error + 'sg signature" "watermark_error + unit"

definition check_update ::
    "crates \<Rightarrow> chain_id \<Rightarrow> public_key_hash \<Rightarrow> parsed_sign_payload \<Rightarrow> bytes
      \<Rightarrow> (hw_state, watermark_error, watermark_update option) stateful" where
  "check_update X chain pkh parsed data =
     (case (ps_op_type parsed, ps_level parsed, ps_round parsed) of
        (Some op_type, Some level, Some round) \<Rightarrow> check_and_update_parsed X chain pkh op_type level round
      | _ \<Rightarrow> check_and_update X chain pkh data)"

text \<open>
  The signature is computed while the mark is written; the two share no state. If either fails the
  mark is rolled back, on disk too when only the signature failed.
\<close>

definition commit_update ::
    "crates \<Rightarrow> watermark_update \<Rightarrow> signer_error + 'sg signature \<Rightarrow> hw_state
      \<Rightarrow> (watermark_error + unit) \<times> hw_state" where
  "commit_update X u sign_result s =
     (case (if ceiling_covers (fst s) u then (Inr (), s) else write_watermark X u s) of
        (write_result, s1) \<Rightarrow>
          if \<not> is_ok sign_result \<or> \<not> is_ok write_result
          then let s2 = rollback_update u s1
               in (write_result,
                   if \<not> is_ok sign_result \<and> is_ok write_result then snd (rollback_disk_watermark X u s2) else s2)
          else (write_result, s1))"

definition locked_sign ::
    "crates \<Rightarrow> ('sk, 'pk, 'sg) blst \<Rightarrow> ('sk, 'pk) unencrypted \<Rightarrow> chain_id \<Rightarrow> public_key_hash
      \<Rightarrow> parsed_sign_payload \<Rightarrow> bytes \<Rightarrow> hw_state \<Rightarrow> 'sg locked_outcome \<times> hw_state" where
  "locked_sign X B signer chain pkh parsed data s =
     (case check_update X chain pkh parsed data s of
        (Inl e, s1) \<Rightarrow> (LkRefused e, s1)
      | (Inr None, s1) \<Rightarrow> (LkUnwatermarked, s1)
      | (Inr (Some u), s1) \<Rightarrow>
          let sign_result = unencrypted_sign B signer data None None
          in case commit_update X u sign_result s1 of
               (write_result, s2) \<Rightarrow> (LkDone u sign_result write_result, s2))"

definition spawn_ceiling :: "watermark_update \<Rightarrow> ('sk, 'pk) world \<Rightarrow> ('sk, 'pk) world" where
  "spawn_ceiling u w =
     (case checked_add_u32 (wu_level u) 1 of None \<Rightarrow> w
      | Some ceil_level \<Rightarrow> w\<lparr>w_tasks := w_tasks w @ [(wu_pkh u, wu_idx u, ceil_level)]\<rparr>)"

text \<open>What follows once the lock is released.\<close>

fun after_locked ::
    "('sk, 'pk, 'sg) blst \<Rightarrow> ('sk, 'pk) unencrypted \<Rightarrow> chain_id \<Rightarrow> public_key_hash \<Rightarrow> bytes
      \<Rightarrow> 'sg locked_outcome \<Rightarrow> ('sk, 'pk, 'sg signature) handling" where
  "after_locked B signer chain pkh data (LkRefused e) w =
     (if e = WmPanic then (Inl SvPanic, w)
      else (Inl (SvWatermark e), fire (watermark_error_callback (w_handler w)) (EvWatermarkError pkh chain e) w))"
| "after_locked B signer chain pkh data LkUnwatermarked w =
     (map_err SvSigner (unencrypted_sign B signer data None None), w)"
| "after_locked B signer chain pkh data (LkDone u sign_result write_result) w =
     (case write_result of Inl e \<Rightarrow> (Inl (if e = WmPanic then SvPanic else SvWatermark e), w)
      | Inr _ \<Rightarrow>
          (case sign_result of Inl e \<Rightarrow> (Inl (SvSigner e), w)
           | Inr sg \<Rightarrow> (Inr sg, spawn_ceiling u w)))"

definition put_watermark :: "hw_state \<Rightarrow> ('sk, 'pk) world \<Rightarrow> ('sk, 'pk) world" where
  "put_watermark s w =
     w\<lparr>w_handler := (w_handler w)\<lparr>rh_watermark := Some (Lock False (fst s))\<rparr>, w_fs := snd s\<rparr>"

definition sign_with_watermark ::
    "crates \<Rightarrow> ('sk, 'pk, 'sg) blst \<Rightarrow> ('sk, 'pk) unencrypted \<Rightarrow> public_key_hash \<Rightarrow> parsed_sign_payload \<Rightarrow> bytes
      \<Rightarrow> ('sk, 'pk, 'sg signature) handling" where
  "sign_with_watermark X B signer pkh parsed data w =
     (case (ps_chain_id parsed, rh_watermark (w_handler w)) of
        (Some chain, Some lk) \<Rightarrow>
          if poisoned lk then (Inl poison_error, w)
          else (case locked_sign X B signer chain pkh parsed data (guarded lk, w_fs w) of
                  (out, s) \<Rightarrow> after_locked B signer chain pkh data out (put_watermark s w))
      | _ \<Rightarrow> (map_err SvSigner (unencrypted_sign B signer data None None), w))"

section \<open>Signing: after the signature\<close>

definition put_activity ::
    "signing_activity \<Rightarrow> ('sk, 'pk) world \<Rightarrow> ('sk, 'pk) world" where
  "put_activity a w = w\<lparr>w_handler := (w_handler w)\<lparr>rh_signing_activity := Some (Lock False a)\<rparr>\<rparr>"

definition record_event :: "key_role \<Rightarrow> signature_activity \<Rightarrow> signing_activity \<Rightarrow> signing_activity" where
  "record_event role act a =
     (let a1 = set_last a role act
      in a1\<lparr>recent_events := ring_push (recent_events a1) \<lparr>ev_role = role, ev_activity = act\<rparr>,
            total_signatures := total_signatures a1 + 1\<rparr>)"

text \<open>
  Records the signature if the alias is a role alias; the boolean is \<open>activity_recorded\<close>. \<open>now\<close> and
  \<open>elapsed\<close> are the clock readings.
\<close>

definition record_activity ::
    "int \<Rightarrow> nat \<Rightarrow> string \<Rightarrow> parsed_sign_payload \<Rightarrow> bytes \<Rightarrow> ('sk, 'pk) world \<Rightarrow> bool \<times> ('sk, 'pk) world" where
  "record_activity now elapsed key_name parsed data w =
     (case rh_signing_activity (w_handler w) of None \<Rightarrow> (False, w)
      | Some (Lock p activity) \<Rightarrow>
          if p then (False, w\<lparr>w_handler := (w_handler w)\<lparr>activity_poison_reported := True\<rparr>\<rparr>)
          else
            let operation_type = (case data of [] \<Rightarrow> None | magic # _ \<Rightarrow> activity_op_from_magic_byte magic);
                sig_activity = \<lparr>sa_level = ps_level parsed, sa_timestamp = now, sa_duration = Some elapsed,
                                 sa_operation_type = operation_type, sa_data_size = Some (length data)\<rparr>
            in case from_device_alias key_name of
                 Some role \<Rightarrow> (True, put_activity (record_event role sig_activity activity) w)
               | None \<Rightarrow> (False, w\<lparr>w_handler := (w_handler w)\<lparr>unknown_alias_reported := True\<rparr>\<rparr>))"

definition finish_sign ::
    "int \<Rightarrow> nat \<Rightarrow> string \<Rightarrow> parsed_sign_payload \<Rightarrow> bytes \<Rightarrow> 'sg signature
      \<Rightarrow> ('sk, 'pk, ('pk, 'sg) signer_response \<times> chain_id option) handling" where
  "finish_sign now elapsed key_name parsed data sg w =
     (case record_activity now elapsed key_name parsed data w of
        (activity_recorded, w1) \<Rightarrow>
          (Inr (RespSignature sg, ps_chain_id parsed),
           fire (signing_notify_callback (w_handler w1) \<and>
                 (rh_signing_activity (w_handler w1) = None \<or> activity_recorded)) EvSigningNotify w1))"

section \<open>The handlers\<close>

definition handle_sign ::
    "crates \<Rightarrow> ('sk, 'pk, 'sg) blst \<Rightarrow> int \<Rightarrow> nat \<Rightarrow> versioned_pkh \<Rightarrow> bytes
      \<Rightarrow> ('sk, 'pk, ('pk, 'sg) signer_response \<times> chain_id option) handling" where
  "handle_sign X B now elapsed pkh_and_version data w =
     (let pkh = fst pkh_and_version in
      case (case allowed_magic_bytes (w_handler w) of None \<Rightarrow> Inr ()
            | Some allowed \<Rightarrow> check_magic_byte data (Some allowed)) of
        Inl e \<Rightarrow> (Inl (SvMagicByte e), w)
      | Inr _ \<Rightarrow>
          bindS (resolve_signer X pkh) (\<lambda>(signer, key_name).
            case parse_sign_payload data of None \<Rightarrow> failS SvPanic
            | Some parsed \<Rightarrow>
                bindS (check_chain X pkh parsed) (\<lambda>_.
                  bindS (precheck_watermark X pkh parsed) (\<lambda>_.
                    bindS (sign_with_watermark X B signer pkh parsed data) (\<lambda>sg.
                      finish_sign now elapsed key_name parsed data sg)))) w)"

definition handle_public_key :: "crates \<Rightarrow> public_key_hash \<Rightarrow> ('sk, 'pk, ('pk, 'sg) signer_response) handling" where
  "handle_public_key X pkh =
     bindS (get_signer_or_alert X pkh) (\<lambda>signer. returnS (RespPublicKey (un_public_key signer)))"

definition handle_authorized_keys :: "('pk, 'sg) signer_response" where
  "handle_authorized_keys = RespAuthorizedKeys None"

definition handle_deterministic_nonce ::
    "crates \<Rightarrow> ('sk, 'pk, 'sg) blst \<Rightarrow> public_key_hash \<Rightarrow> bytes \<Rightarrow> ('sk, 'pk, ('pk, 'sg) signer_response) handling" where
  "handle_deterministic_nonce X B pkh data =
     bindS (get_signer_or_alert X pkh) (\<lambda>signer.
       let handler = handler_new signer None
       in returnS (RespNonce (unencrypted_nonce X B (h_signer handler) data)))"

definition handle_deterministic_nonce_hash ::
    "crates \<Rightarrow> ('sk, 'pk, 'sg) blst \<Rightarrow> public_key_hash \<Rightarrow> bytes \<Rightarrow> ('sk, 'pk, ('pk, 'sg) signer_response) handling" where
  "handle_deterministic_nonce_hash X B pkh data =
     bindS (get_signer_or_alert X pkh) (\<lambda>signer.
       let handler = handler_new signer None
       in returnS (RespNonceHash (unencrypted_nonce_hash X B (h_signer handler) data)))"

definition handle_supports_deterministic_nonces ::
    "crates \<Rightarrow> public_key_hash \<Rightarrow> ('sk, 'pk, ('pk, 'sg) signer_response) handling" where
  "handle_supports_deterministic_nonces X pkh =
     bindS (get_signer_or_alert X pkh) (\<lambda>_. returnS (RespBool True))"

definition handle_known_keys :: "crates \<Rightarrow> ('sk, 'pk, ('pk, 'sg) signer_response) handling" where
  "handle_known_keys X w =
     (if \<not> allow_list_known_keys (w_handler w)
      then (Inl (NotAuthorized
              ''Listing known keys is not authorized. Use --allow-list-known-keys to enable.''), w)
      else case rh_keys (w_handler w) of Lock p km \<Rightarrow>
        if p then (Inl poison_error, w) else (Inr (RespKnownKeys (list_keys X km)), w))"

definition handle_bls_prove ::
    "crates \<Rightarrow> ('sk, 'pk, 'sg) blst \<Rightarrow> public_key_hash \<Rightarrow> 'pk public_key option
      \<Rightarrow> ('sk, 'pk, ('pk, 'sg) signer_response) handling" where
  "handle_bls_prove X B pkh override_pk w =
     (if \<not> allow_prove_possession (w_handler w)
      then (Inl (NotAuthorized
              ''Proof of possession is not authorized. Use --allow-to-prove-possession to enable.''), w)
      else bindS (get_signer_or_alert X pkh) (\<lambda>signer w.
             (and_then (map_err SvSigner (handler_prove_possession B (handler_new signer None) override_pk))
                (\<lambda>proof. Inr (RespSignature proof)), w)) w)"

text \<open>The responses without a chain id.\<close>

definition no_chain ::
    "('sk, 'pk, ('pk, 'sg) signer_response) handling
      \<Rightarrow> ('sk, 'pk, ('pk, 'sg) signer_response \<times> chain_id option) handling" where
  "no_chain h = bindS h (\<lambda>resp. returnS (resp, None))"

fun handle_request ::
    "crates \<Rightarrow> ('sk, 'pk, 'sg) blst \<Rightarrow> int \<Rightarrow> nat \<Rightarrow> ('pk, 'sg) signer_request
      \<Rightarrow> ('sk, 'pk, ('pk, 'sg) signer_response \<times> chain_id option) handling" where
  "handle_request X B now elapsed (ReqSign pkh data _) = handle_sign X B now elapsed pkh data"
| "handle_request X B now elapsed (ReqPublicKey pkh) = no_chain (handle_public_key X pkh)"
| "handle_request X B now elapsed ReqAuthorizedKeys = returnS (handle_authorized_keys, None)"
| "handle_request X B now elapsed (ReqDeterministicNonce pkh data _) =
     no_chain (handle_deterministic_nonce X B (fst pkh) data)"
| "handle_request X B now elapsed (ReqDeterministicNonceHash pkh data _) =
     no_chain (handle_deterministic_nonce_hash X B (fst pkh) data)"
| "handle_request X B now elapsed (ReqSupportsDeterministicNonces pkh) =
     no_chain (handle_supports_deterministic_nonces X pkh)"
| "handle_request X B now elapsed ReqKnownKeys = no_chain (handle_known_keys X)"
| "handle_request X B now elapsed (ReqBlsProve pkh override_pk) =
     no_chain (handle_bls_prove X B pkh override_pk)"

section \<open>The delayed ceiling thread\<close>

definition run_ceiling_task :: "crates \<Rightarrow> ceiling_task \<Rightarrow> ('sk, 'pk) world \<Rightarrow> ('sk, 'pk) world" where
  "run_ceiling_task X task w =
     (case (task, rh_watermark (w_handler w)) of
        ((pkh, idx, level), Some (Lock False h)) \<Rightarrow>
          (case write_ceiling X pkh idx level (h, w_fs w) of
             (r, s) \<Rightarrow> fire (is_ok r \<and> signing_notify_callback (w_handler w)) EvSigningNotify (put_watermark s w))
      | _ \<Rightarrow> w)"

section \<open>Error texts\<close>

fun watermark_error_text :: "watermark_error \<Rightarrow> string" where
  "watermark_error_text (LevelTooLow current requested) =
     ''Level too low: requested '' @ show_nat (unat requested) @ '', current high watermark '' @ show_nat (unat current)"
| "watermark_error_text (RoundTooLow level current requested) =
     ''Round too low at level '' @ show_nat (unat level) @ '': requested '' @ show_nat (unat requested) @
     '', current high watermark '' @ show_nat (unat current)"
| "watermark_error_text (InvalidData s) = ''Invalid data: '' @ s"
| "watermark_error_text (WmIo e) = ''IO error: '' @ io_error_text e"
| "watermark_error_text (WmInternal s) = ''Internal error: '' @ s"
| "watermark_error_text (NotInitialized chain pkh) =
     ''Watermark not initialized for chain '' @ chain @ '', key '' @ pkh @
     ''. Configure watermarks before signing.''"
| "watermark_error_text (LargeLevelGap current requested gap cycles) =
     ''Large level gap: '' @ show_nat (unat gap) @ '' blocks (~'' @ show_nat (unat cycles) @
     '' cycles). Current: '' @ show_nat (unat current) @ '', requested: '' @ show_nat (unat requested)"
| "watermark_error_text (ChainMismatch expected got) =
     ''Chain mismatch: provisioned for '' @ expected @ '', operation for '' @ got"
| "watermark_error_text WmPanic = []"

fun server_error_text :: "server_error \<Rightarrow> string" where
  "server_error_text (SvIo e) = ''IO error: '' @ io_error_text e"
| "server_error_text (SvProtocol e) = ''Protocol error: '' @ proto_error_text e"
| "server_error_text (SvSigner e) = ''Signer error: '' @ signer_error_text e"
| "server_error_text (SvWatermark e) = ''Watermark error: '' @ watermark_error_text e"
| "server_error_text (SvMagicByte e) = ''Magic byte error: '' @ magic_byte_error_text e"
| "server_error_text SvTimeout = ''Connection timeout''"
| "server_error_text (KeyNotFound s) = ''Key not found: '' @ s"
| "server_error_text AuthRequired = ''Authentication required''"
| "server_error_text (NotAuthorized s) = ''Operation not authorized: '' @ s"
| "server_error_text (MessageTooLarge n) = ''Message too large: '' @ show_nat n @ '' bytes''"
| "server_error_text (SvInternal s) = ''Internal server error: '' @ s"
| "server_error_text SvPanic = []"

end
