(* ===== verification/Sign_Safety.thy ===== *)
theory Sign_Safety
  imports Watermark_Invariant Server
begin

text \<open>
  The critical section of \<open>handle_sign\<close> and the invariant of the watermark store: the section keeps
  the invariant on every branch, and if it lets a signature out, the signature's mark joins the
  signed marks and is above every earlier mark of that key and operation. Also: a mark that exists
  in memory never disappears, which is what a delayed ceiling thread relies on.
\<close>

section \<open>The mark a signature carries\<close>

fun issued :: "'sg locked_outcome \<Rightarrow> signed_mark list" where
  "issued (LkDone u (Inr _) (Inr _)) = [(wu_pkh u, wu_idx u, upd_mark u)]"
| "issued _ = []"

text \<open>May the second mark be signed after the first? Only marks of one key and operation compete.\<close>

fun precedes :: "signed_mark \<Rightarrow> signed_mark \<Rightarrow> bool" where
  "precedes (p, i, m) (q, j, n) \<longleftrightarrow> (p = q \<and> i = j \<longrightarrow> m < n)"

section \<open>Committing an update\<close>

lemma persisted_advanced:
  assumes "persisted X C L (wu_pkh u) pk (wu_idx u) m s r s'" and "advanced L s u"
    and "keys (fst s) (wu_pkh u) = Some pk"
  shows "advanced L s' u"
  using assms by (auto simp: persisted_def advanced_def)

lemma advanced_insert:
  assumes g: "good X C L s" and a: "advanced L s u" and b: "bounded X C (snd s) (wu_pkh u, wu_idx u, upd_mark u)"
  shows "good X C (insert (wu_pkh u, wu_idx u, upd_mark u) L) s"
  by (rule good_insert [OF g]) (use a b in \<open>auto simp: advanced_def\<close>)

lemma advanced_precedes:
  assumes "advanced L s u" and "n \<in> L"
  shows "precedes n (wu_pkh u, wu_idx u, upd_mark u)"
  using assms by (cases n) (auto simp: advanced_def)

lemma commit_update_good:
  assumes X: "bs58_lawful X" and g: "good X C L s" and a: "advanced L s u"
    and run: "commit_update X u (Inr sg) s = (wr, s')"
  shows "good X C L s' \<and> (is_ok wr \<longrightarrow> good X C (insert (wu_pkh u, wu_idx u, upd_mark u) L) s')"
proof (cases "ceiling_covers (fst s) u")
  case True
  then show ?thesis
    using run g a advanced_insert [OF g a ceiling_covers_bounded [OF g _ True]]
    by (auto simp: commit_update_def advanced_def)
next
  case False
  from a obtain pk prev where key: "keys (fst s) (wu_pkh u) = Some pk" and i: "wu_idx u < 3"
    and prev: "prev < upd_mark u" "\<And>m. (wu_pkh u, wu_idx u, m) \<in> L \<Longrightarrow> m \<le> prev"
    by (auto simp: advanced_def)
  obtain r s1 where w: "write_watermark X u s = (r, s1)"
    by (cases "write_watermark X u s")
  have p: "persisted X C L (wu_pkh u) pk (wu_idx u) (upd_mark u) s r s1"
  proof (rule write_watermark_good [OF X g key i _ _ w])
    show "m \<le> upd_mark u" if "(wu_pkh u, wu_idx u, m) \<in> L" for m
      using prev(2) [OF that] prev(1) by simp
    show "c \<le> upd_mark u" if "disk_ceiling pk ! wu_idx u = Some c" for c
      using not_ceiling_covers [OF False key that] by simp
  qed
  have a1: "advanced L s1 u" and g1: "good X C L s1"
    using persisted_advanced [OF p a key] p by (simp_all add: persisted_def)
  show ?thesis
    using run False w p advanced_insert [OF g1 a1] rollback_update_good [OF g1 a1] g1
    by (auto simp: commit_update_def persisted_def Let_def result_simps split: if_splits)
qed

section \<open>The critical section\<close>

lemma check_update_good:
  assumes "good X C L s" and "check_update X chain pkh parsed data s = (res, s')"
  shows "good X C L s' \<and> (\<forall>u. res = Inr (Some u) \<longrightarrow> wu_pkh u = pkh \<and> advanced L s' u)"
proof (cases "\<exists>op l r. ps_op_type parsed = Some op \<and> ps_level parsed = Some l \<and> ps_round parsed = Some r")
  case True
  then obtain op l r where "check_and_update_parsed X chain pkh op l r s = (res, s')"
    using assms(2) by (auto simp: check_update_def)
  from check_parsed_good [OF assms(1) this] show ?thesis
    by auto
next
  case False
  then have "check_and_update X chain pkh data s = (res, s')"
    using assms(2) by (auto simp: check_update_def split: option.splits)
  from check_and_update_good [OF assms(1) this] show ?thesis
    by auto
qed

lemma locked_sign_good:
  assumes X: "bs58_lawful X" and g: "good X C L s"
    and run: "locked_sign X B signer chain pkh parsed data s = (out, s')"
  shows "good X C (set (issued out) \<union> L) s' \<and> (\<forall>m \<in> set (issued out). \<forall>n \<in> L. precedes n m)"
proof -
  obtain r s1 where c: "check_update X chain pkh parsed data s = (r, s1)"
    by (cases "check_update X chain pkh parsed data s")
  note cg = check_update_good [OF g c]
  consider e where "r = Inl e" | "r = Inr None" | u where "r = Inr (Some u)"
    by (metis not_Some_eq sum.exhaust)
  then show ?thesis
  proof cases
    case (3 u)
    then have a: "advanced L s1 u" and g1: "good X C L s1"
      using cg by auto
    let ?sg = "bls_sign B (un_secret_key signer) data None"
    obtain wr s2 where w: "commit_update X u (Inr ?sg) s1 = (wr, s2)"
      by (cases "commit_update X u (Inr ?sg) s1")
    have out: "out = LkDone u (Inr ?sg) wr" "s' = s2"
      using run c 3 w by (auto simp: locked_sign_def)
    show ?thesis
      using commit_update_good [OF X g1 a w] advanced_precedes [OF a] out
      by (cases wr) (auto simp del: precedes.simps)
  qed (use run c cg in \<open>auto simp: locked_sign_def\<close>)
qed

lemma set_issued_LkDone: "m \<in> set (issued (LkDone u sr wr)) \<Longrightarrow> m = (wu_pkh u, wu_idx u, upd_mark u)"
  by (cases "(u, sr, wr)" rule: prod_cases3; cases sr; cases wr) auto

text \<open>A signature leaves the section only for the mark the payload was parsed to.\<close>

lemma locked_sign_issues:
  assumes "good X C L s" and "ps_op_type parsed = Some op" "ps_level parsed = Some l" "ps_round parsed = Some r"
    and "locked_sign X B signer chain pkh parsed data s = (out, s')"
  shows "out \<noteq> LkUnwatermarked \<and> set (issued out) \<subseteq> {(pkh, op_idx op, WatermarkEntry l r)}"
proof -
  obtain q s1 where c: "check_and_update_parsed X chain pkh op l r s = (q, s1)"
    by (cases "check_and_update_parsed X chain pkh op l r s")
  show ?thesis
    using assms(2-5) check_parsed_good [OF assms(1) c] c
    by (auto simp: locked_sign_def check_update_def Let_def split: sum.splits option.splits prod.splits
        dest!: set_issued_LkDone)
qed

section \<open>Marks in memory stay\<close>

definition ready :: "hw_state \<Rightarrow> public_key_hash \<Rightarrow> nat \<Rightarrow> bool" where
  "ready s pkh i \<longleftrightarrow> (\<exists>pk e. keys (fst s) pkh = Some pk \<and> i < length (entries pk) \<and> entries pk ! i = Some e)"

definition keeps_ready :: "hw_state \<Rightarrow> hw_state \<Rightarrow> bool" where
  "keeps_ready s s' \<longleftrightarrow> (\<forall>pkh i. ready s pkh i \<longrightarrow> ready s' pkh i)"

lemma keeps_ready_refl [simp]: "keeps_ready s s"
  by (simp add: keeps_ready_def)

lemma keeps_ready_trans: "keeps_ready s t \<Longrightarrow> keeps_ready t u \<Longrightarrow> keeps_ready s u"
  by (simp add: keeps_ready_def)

lemma keeps_ready_keys: "keys (fst s') = keys (fst s) \<Longrightarrow> keeps_ready s s'"
  by (simp add: keeps_ready_def ready_def)

lemma keeps_ready_new_key: "keys (fst s) pkh = None \<Longrightarrow> keeps_ready s (put_key pkh pk s)"
  by (auto simp: keeps_ready_def ready_def)

lemma keeps_ready_put_key:
  assumes "keys (fst s) pkh = Some pk" and "length (entries pk') = length (entries pk)"
    and "\<And>i. i < length (entries pk) \<Longrightarrow> entries pk ! i \<noteq> None \<Longrightarrow> entries pk' ! i \<noteq> None"
  shows "keeps_ready s (put_key pkh pk' s)"
  unfolding keeps_ready_def
proof (intro allI impI)
  fix q i
  assume "ready s q i"
  then show "ready (put_key pkh pk' s) q i"
    using assms by (cases "q = pkh") (fastforce simp: ready_def)+
qed

lemma keeps_ready_bindS:
  assumes "keeps_ready s (snd (m s))" and "\<And>x t. m s = (Inr x, t) \<Longrightarrow> keeps_ready t (snd (f x t))"
  shows "keeps_ready s (snd (bindS m f s))"
proof -
  obtain r t where "m s = (r, t)"
    by (cases "m s") simp
  then show ?thesis
    using assms by (cases r) (auto simp: bindS_def intro: keeps_ready_trans)
qed

lemma keys_on_fs: "keys (fst (snd (on_fs m s))) = keys (fst s)"
  by (simp add: on_fs_def split: prod.splits)

lemma keys_on_fsD: "on_fs m s = (r, t) \<Longrightarrow> keys (fst t) = keys (fst s)"
  using keys_on_fs [of m s] by simp

lemma update_Some_stays: "xs ! i = Some v \<Longrightarrow> i < length xs \<Longrightarrow> \<exists>w. xs[j := Some y] ! i = Some w"
  by (cases "i = j") auto

lemma keeps_ready_set_entry:
  assumes "keys (fst s) pkh = Some pk"
  shows "keeps_ready s (put_key pkh (pk\<lparr>entries := (entries pk)[j := Some y]\<rparr>) s)"
  by (rule keeps_ready_put_key [OF assms]) (auto intro: update_Some_stays)

lemma keeps_ready_on_fs: "keeps_ready s (snd (on_fs m s))"
  by (rule keeps_ready_keys) (simp add: keys_on_fs)

lemma ensure_key_keeps_ready: "keeps_ready s (snd (ensure_key X pkh s))"
proof (cases "keys (fst s) pkh = None \<and> pkh \<in> known_pkhs (fst s)")
  case True
  have load: "keeps_ready t (snd (bindS (on_fs m) (\<lambda>pk t. (Inr (), put_key pkh pk t)) t))"
    if "keys (fst t) pkh = None" for t and m :: "(fs, io_error, per_key_watermark) stateful"
    using that by (intro keeps_ready_bindS keeps_ready_on_fs) (simp add: keys_on_fsD keeps_ready_new_key)
  show ?thesis
    using True unfolding ensure_key_def Let_def
    by (auto intro!: keeps_ready_bindS keeps_ready_on_fs load split: sum.splits dest!: keys_on_fsD)
qed (auto simp: ensure_key_def Let_def)

lemma check_parsed_keeps_ready: "keeps_ready s (snd (check_and_update_parsed X chain pkh op l r s))"
  unfolding check_and_update_parsed_def Let_def
  by (rule keeps_ready_bindS [OF ensure_key_keeps_ready])
    (auto split: option.splits intro!: keeps_ready_set_entry)

lemma check_update_keeps_ready: "keeps_ready s (snd (check_update X chain pkh parsed data s))"
  unfolding check_update_def check_and_update_def
  by (auto split: option.splits list.splits sum.splits prod.splits intro: check_parsed_keeps_ready)

lemma persist_mark_keeps_ready:
  assumes "keys (fst s) pkh = Some pk"
  shows "keeps_ready s (snd (persist_mark pkh pk i buf nc od s))"
proof -
  have "keeps_ready t (snd (Inr (), put_key pkh (pk\<lparr>disk_ceiling := c, disk_entries := d\<rparr>) t))"
    if "keys (fst t) pkh = Some pk" for t c d
    using that by (auto intro!: keeps_ready_put_key)
  then show ?thesis
    unfolding persist_mark_def using assms
    by (intro keeps_ready_bindS keeps_ready_on_fs) (simp add: keys_on_fsD)
qed

lemma write_watermark_keeps_ready: "keeps_ready s (snd (write_watermark X u s))"
  unfolding write_watermark_def per_key_mut_def
  by (cases "keys (fst s) (wu_pkh u)") (auto split: sum.splits intro: persist_mark_keeps_ready)

lemma write_ceiling_keeps_ready: "keeps_ready s (snd (write_ceiling X pkh i cl s))"
  unfolding write_ceiling_def per_key_mut_def Let_def
  by (cases "keys (fst s) pkh") (auto split: sum.splits option.splits intro: persist_mark_keeps_ready)

lemma rollback_keeps_ready: "wu_prev u \<noteq> None \<Longrightarrow> keeps_ready s (rollback_update u s)"
  unfolding rollback_update_def
  by (auto split: option.splits intro!: keeps_ready_set_entry)

lemma commit_keeps_ready:
  assumes "wu_prev u \<noteq> None"
  shows "keeps_ready s (snd (commit_update X u (Inr sg) s))"
  using write_watermark_keeps_ready [of s X u] rollback_keeps_ready [OF assms]
  by (auto simp: commit_update_def Let_def split: prod.splits intro: keeps_ready_trans)

lemma write_updates_keeps_ready: "keeps_ready s (snd (write_updates X us s))"
  by (induction us arbitrary: s)
    (auto simp: returnS_def intro!: keeps_ready_bindS write_watermark_keeps_ready)

lemma update_to_level_keeps_ready:
  assumes "good X C L s"
  shows "keeps_ready s (snd (update_to_level X chain pkh level s))"
  unfolding update_to_level_def
proof (rule keeps_ready_bindS [OF ensure_key_keeps_ready])
  fix x t
  assume e: "ensure_key X pkh s = (Inr x, t)"
  have g: "good X C L t"
    using ensure_key_good [OF assms e] by simp
  have put: "keeps_ready t (put_key pkh (pk\<lparr>entries := [Some a, Some b, Some c]\<rparr>) t)"
    if "keys (fst t) pkh = Some pk" for pk a b c
    using goodD(5) [OF g that] by (intro keeps_ready_put_key [OF that]) (auto simp: key_ok_def wf_pk_def less_3_cases)
  show "keeps_ready t (snd (case keys (fst t) pkh of None \<Rightarrow> (Inl WmPanic, t) | Some per_key \<Rightarrow>
       let entry = WatermarkEntry level 0;
           updates = map (\<lambda>op. \<lparr>wu_pkh = pkh, wu_idx = op_idx op, wu_level = level, wu_round = 0,
                                 wu_prev = entries per_key ! op_idx op\<rparr>) ALL_OPERATIONS;
           per_key' = per_key\<lparr>entries := [Some entry, Some entry, Some entry]\<rparr>
       in write_updates X updates (put_key pkh per_key' t)))"
    by (auto simp: Let_def split: option.splits intro: keeps_ready_trans [OF put write_updates_keeps_ready])
qed

lemma seed_floor_keeps_ready:
  assumes "good X C L s"
  shows "keeps_ready s (snd (seed_floor X chain pkh level s))"
  unfolding seed_floor_def
proof (rule keeps_ready_bindS [OF ensure_key_keeps_ready])
  fix x t
  assume "ensure_key X pkh s = (Inr x, t)"
  from ensure_key_good [OF assms this] have "good X C L t"
    by simp
  from update_to_level_keeps_ready [OF this]
  show "keeps_ready t (snd (if case get_max_level (fst t) pkh of None \<Rightarrow> False | Some existing \<Rightarrow> level \<le> existing
      then (Inr (), t) else update_to_level X chain pkh level t))"
    by simp
qed

lemma locked_sign_keeps_ready:
  assumes "good X C L s" and "locked_sign X B signer chain pkh parsed data s = (out, s')"
  shows "keeps_ready s s' \<and> (\<forall>(p, i, m) \<in> set (issued out). ready s' p i)"
proof -
  obtain r s1 where c: "check_update X chain pkh parsed data s = (r, s1)"
    by (cases "check_update X chain pkh parsed data s")
  have k1: "keeps_ready s s1"
    using check_update_keeps_ready [of s X chain pkh parsed data] c by simp
  consider e where "r = Inl e" | "r = Inr None" | u where "r = Inr (Some u)"
    by (metis not_Some_eq sum.exhaust)
  then show ?thesis
  proof cases
    case (3 u)
    then have a: "advanced L s1 u" and g1: "good X C L s1"
      using check_update_good [OF assms(1) c] by auto
    then have r1: "ready s1 (wu_pkh u) (wu_idx u)" and prev: "wu_prev u \<noteq> None"
      using goodD(5) [OF g1] by (fastforce simp: advanced_def ready_def key_ok_def wf_pk_def)+
    let ?sg = "bls_sign B (un_secret_key signer) data None"
    have "keeps_ready s1 s'"
      using assms(2) c 3 commit_keeps_ready [OF prev, of s1 X ?sg]
      by (auto simp: locked_sign_def Let_def split: prod.splits)
    moreover have "out = LkDone u (Inr ?sg) (fst (commit_update X u (Inr ?sg) s1))"
      using assms(2) c 3 by (auto simp: locked_sign_def Let_def split: prod.splits)
    ultimately show ?thesis
      using k1 r1 by (auto intro: keeps_ready_trans dest!: set_issued_LkDone simp: keeps_ready_def)
  qed (use assms(2) c k1 in \<open>auto simp: locked_sign_def\<close>)
qed

end
