(* ===== verification/Device.thy ===== *)
theory Device
  imports Sign_Safety
begin

text \<open>
  The device as a transition system over the watermark tracker and its disk. A step is one lock
  scope of the running signer (the critical section of a sign request, a delayed ceiling thread, a
  confirmed level update, a seed), an act of the environment (write-back, corruption of a file, loss
  of power, an abort of the process) or a boot. Requests run concurrently, but every change of the
  tracker is under its write lock, so every interleaving of requests is a sequence of these steps.
  The state carries the log of the marks of all signatures that left the device. Shown: per key and
  operation that log is strictly increasing, across I/O errors, crashes and reboots.
\<close>

section \<open>Monotone logs\<close>

text \<open>
  The contract of a system that logs monotonically: an invariant that every step keeps, and a step
  appends at most one item, which may follow everything already logged.
\<close>

locale monotone_log =
  fixes init :: "'s \<Rightarrow> bool"
    and step :: "'s \<Rightarrow> 's \<Rightarrow> bool"
    and log :: "'s \<Rightarrow> 'm list"
    and inv :: "'s \<Rightarrow> bool"
    and before :: "'m \<Rightarrow> 'm \<Rightarrow> bool"
  assumes init_inv: "init s \<Longrightarrow> inv s \<and> log s = []"
    and step_inv: "inv s \<Longrightarrow> step s s' \<Longrightarrow> inv s'"
    and step_log: "inv s \<Longrightarrow> step s s' \<Longrightarrow>
      log s' = log s \<or> (\<exists>m. log s' = log s @ [m] \<and> (\<forall>n \<in> set (log s). before n m))"
begin

lemma reachable_inv:
  assumes "step\<^sup>*\<^sup>* s s'" and "init s"
  shows "inv s' \<and> sorted_wrt before (log s')"
  using assms
proof (induction rule: rtranclp_induct)
  case base
  then show ?case
    using init_inv by simp
next
  case (step t u)
  then show ?case
    using step_inv [of t u] step_log [of t u] by (auto simp: sorted_wrt_snoc)
qed

lemma log_grows:
  assumes "step\<^sup>*\<^sup>* s s'" and "inv s"
  shows "inv s' \<and> (\<exists>out. log s' = log s @ out)"
  using assms
proof (induction rule: rtranclp_induct)
  case (step t u)
  then obtain out where "inv t" "log t = log s @ out"
    by auto
  then show ?case
    using step_inv [of t u] step_log [of t u] step.hyps(2) by auto
qed simp

end

section \<open>The device\<close>

datatype power = Down fs | Up hw_state "ceiling_task list"

type_synonym device = "power \<times> signed_mark list"

fun new_tasks :: "'sg locked_outcome \<Rightarrow> ceiling_task list" where
  "new_tasks (LkDone u (Inr _) (Inr _)) =
     (case checked_add_u32 (wu_level u) 1 of None \<Rightarrow> [] | Some l \<Rightarrow> [(wu_pkh u, wu_idx u, l)])"
| "new_tasks _ = []"

text \<open>A file's bytes replaced by other bytes.\<close>

definition corrupt :: "path \<Rightarrow> bytes \<Rightarrow> fs \<Rightarrow> fs" where
  "corrupt p c f = f\<lparr>stable := (stable f)(p \<mapsto> c), cache := (cache f)(p := None)\<rparr>"

text \<open>
  \<open>C\<close> holds what a boot reads from the configuration: base directory, MAC keys and chain id;
  \<open>pkhs\<close> are the configured keys. The level of an update or a seed comes from the operator or the
  host; \<open>raise_ok\<close> is what the code relies on without checking it: the level is not below what was
  signed. Damage leaves bytes that no key of the device authenticates.
\<close>

inductive device_step ::
    "crates \<Rightarrow> ('sk, 'pk, 'sg) blst \<Rightarrow> high_watermark \<Rightarrow> public_key_hash list \<Rightarrow> device \<Rightarrow> device \<Rightarrow> bool"
  for X B C pkhs where
  sign: "locked_sign X B signer chain pkh parsed data s = (out, s') \<Longrightarrow>
    device_step X B C pkhs (Up s ts, log) (Up s' (ts @ new_tasks out), log @ issued out)"
| ceiling: "(pkh, i, l) \<in> set ts \<Longrightarrow> write_ceiling X pkh i l s = (r, s') \<Longrightarrow>
    device_step X B C pkhs (Up s ts, log) (Up s' (remove1 (pkh, i, l) ts), log)"
| update: "raise_ok (set log) s pkh (WatermarkEntry level 0) \<Longrightarrow>
    update_to_level X chain pkh level s = (r, s') \<Longrightarrow>
    device_step X B C pkhs (Up s ts, log) (Up s' ts, log)"
| seed: "raise_ok (set log) s pkh (WatermarkEntry level 0) \<Longrightarrow>
    seed_floor X chain pkh level s = (r, s') \<Longrightarrow>
    device_step X B C pkhs (Up s ts, log) (Up s' ts, log)"
| write_back: "(\<And>c. r = Damaged c \<Longrightarrow> harmless X C c) \<Longrightarrow>
    device_step X B C pkhs (Up (h, f) ts, log) (Up (h, writeback p r f) ts, log)"
| corruption: "harmless X C c \<Longrightarrow>
    device_step X B C pkhs (Up (h, f) ts, log) (Up (h, corrupt p c f) ts, log)"
| offline_corruption: "harmless X C c \<Longrightarrow>
    device_step X B C pkhs (Down f, log) (Down (corrupt p c f), log)"
| power_loss: "(\<And>p c. res p = Damaged c \<Longrightarrow> harmless X C c) \<Longrightarrow>
    device_step X B C pkhs (Up (h, f) ts, log) (Down (power_cut res f), log)"
| abort: "device_step X B C pkhs (Up (h, f) ts, log) (Down f, log)"
| boot: "hw_new X (base_dir C) pkhs (mac_keys C) (hw_chain_id C) f = (Inr h, g) \<Longrightarrow>
    device_step X B C pkhs (Down f, log) (Up (h, g) [], log)"
| boot_failure: "hw_new X (base_dir C) pkhs (mac_keys C) (hw_chain_id C) f = (Inl e, g) \<Longrightarrow>
    device_step X B C pkhs (Down f, log) (Down g, log)"

inductive_cases device_stepE: "device_step X B C pkhs d d'"

text \<open>A configuration as it is read at boot, and a device that has not signed yet.\<close>

definition configured :: "crates \<Rightarrow> high_watermark \<Rightarrow> public_key_hash list \<Rightarrow> bool" where
  "configured X C pkhs \<longleftrightarrow> bs58_lawful X \<and> known_pkhs C = set pkhs \<and> keys C = Map.empty"

definition device_init :: "crates \<Rightarrow> high_watermark \<Rightarrow> public_key_hash list \<Rightarrow> device \<Rightarrow> bool" where
  "device_init X C pkhs d \<longleftrightarrow>
     configured X C pkhs \<and> (\<exists>f. d = (Down f, []) \<and> damage_ok f (harmless X C))"

definition tasks_ready :: "hw_state \<Rightarrow> ceiling_task list \<Rightarrow> bool" where
  "tasks_ready s ts \<longleftrightarrow> (\<forall>(pkh, i, l) \<in> set ts. ready s pkh i)"

fun device_inv :: "crates \<Rightarrow> high_watermark \<Rightarrow> public_key_hash list \<Rightarrow> device \<Rightarrow> bool" where
  "device_inv X C pkhs (Down f, log) \<longleftrightarrow> configured X C pkhs \<and> stored X C (set log) f"
| "device_inv X C pkhs (Up s ts, log) \<longleftrightarrow>
     configured X C pkhs \<and> good X C (set log) s \<and> tasks_ready s ts"

section \<open>Every step keeps the invariant\<close>

lemma tasks_ready_mono: "tasks_ready s ts \<Longrightarrow> keeps_ready s s' \<Longrightarrow> tasks_ready s' ts"
  by (auto simp: tasks_ready_def keeps_ready_def)

lemma tasks_ready_remove1: "tasks_ready s ts \<Longrightarrow> tasks_ready s (remove1 t ts)"
  using set_remove1_subset [of t ts] by (auto simp: tasks_ready_def)

lemma tasks_ready_fs: "tasks_ready (h, f) ts = tasks_ready (h, g) ts"
  by (simp add: tasks_ready_def ready_def)

lemma new_tasks_issued: "(p, i, l) \<in> set (new_tasks out) \<Longrightarrow> \<exists>m. (p, i, m) \<in> set (issued out)"
  by (induction out rule: new_tasks.induct) (auto split: option.splits)

lemma issued_single: "issued out = [] \<or> (\<exists>m. issued out = [m])"
  by (induction out rule: issued.induct) auto

lemma keeps_corrupt: "harmless X C c \<Longrightarrow> keeps X C f (corrupt p c f)"
  by (auto simp: keeps_def bounded_def holds_def corrupt_def harmless_at_least)

lemma sign_inv:
  assumes inv: "device_inv X C pkhs (Up s ts, log)"
    and run: "locked_sign X B signer chain pkh parsed data s = (out, s')"
  shows "device_inv X C pkhs (Up s' (ts @ new_tasks out), log @ issued out)"
    and "\<forall>m \<in> set (issued out). \<forall>n \<in> set log. precedes n m"
proof -
  have X: "bs58_lawful X" and g: "good X C (set log) s" and t: "tasks_ready s ts" and cf: "configured X C pkhs"
    using inv by (simp_all add: configured_def)
  note lg = locked_sign_good [OF X g run] and lr = locked_sign_keeps_ready [OF g run]
  have "tasks_ready s' (ts @ new_tasks out)"
    using tasks_ready_mono [OF t] lr by (fastforce simp: tasks_ready_def dest: new_tasks_issued)
  then show "device_inv X C pkhs (Up s' (ts @ new_tasks out), log @ issued out)"
    using lg cf by (simp add: Un_commute)
  show "\<forall>m \<in> set (issued out). \<forall>n \<in> set log. precedes n m"
    using lg by simp
qed

lemma ceiling_inv:
  assumes inv: "device_inv X C pkhs (Up s ts, log)" and t: "(pkh, i, l) \<in> set ts"
    and run: "write_ceiling X pkh i l s = (r, s')"
  shows "device_inv X C pkhs (Up s' (remove1 (pkh, i, l) ts), log)"
proof -
  have X: "bs58_lawful X" and g: "good X C (set log) s" and rd: "tasks_ready s ts" and cf: "configured X C pkhs"
    using inv by (simp_all add: configured_def)
  have "good X C (set log) s'"
    by (rule write_ceiling_good [OF X g _ run]) (use rd t in \<open>auto simp: tasks_ready_def ready_def\<close>)
  moreover have "tasks_ready s' ts"
    using tasks_ready_mono [OF rd] write_ceiling_keeps_ready [of s X pkh i l] run by simp
  ultimately show ?thesis
    using cf tasks_ready_remove1 by simp
qed

lemma update_inv:
  assumes inv: "device_inv X C pkhs (Up s ts, log)" and r: "raise_ok (set log) s pkh (WatermarkEntry level 0)"
    and run: "update_to_level X chain pkh level s = (q, s') \<or> seed_floor X chain pkh level s = (q, s')"
  shows "device_inv X C pkhs (Up s' ts, log)"
proof -
  have X: "bs58_lawful X" and g: "good X C (set log) s" and rd: "tasks_ready s ts" and cf: "configured X C pkhs"
    using inv by (simp_all add: configured_def)
  have "good X C (set log) s'"
    using run update_to_level_good [OF X g r] seed_floor_good [OF X g r] by blast
  moreover have "keeps_ready s s'"
    using run update_to_level_keeps_ready [OF g, of chain pkh level] seed_floor_keeps_ready [OF g, of chain pkh level]
    by auto
  ultimately show ?thesis
    using cf tasks_ready_mono [OF rd] by simp
qed

lemma device_step_inv:
  assumes "device_inv X C pkhs d" and "device_step X B C pkhs d d'"
  shows "device_inv X C pkhs d'"
  using assms(2,1)
proof cases
  case (write_back r h f ts log p)
  then show ?thesis
    using assms(1) writeback_good [of X C "set log" h f r p] tasks_ready_fs [of h f ts] by auto
next
  case (corruption c h f ts log p)
  then show ?thesis
    using assms(1) keeps_good [of X C "set log" h f "corrupt p c f"] keeps_corrupt [of X C c f p]
      tasks_ready_fs [of h f ts]
    by auto
next
  case (offline_corruption c f log p)
  then show ?thesis
    using assms(1) stored_keeps keeps_corrupt by auto
next
  case (power_loss res h f ts log)
  then show ?thesis
    using assms(1) stored_power_cut [of X C "set log" f res] good_stored [of X C "set log" "(h, f)"] by auto
next
  case (abort h f ts log)
  then show ?thesis
    using assms(1) good_stored [of X C "set log" "(h, f)"] by auto
next
  case (boot f h g log)
  then show ?thesis
    using assms(1) hw_new_good [OF boot(3), of "set log"] by (auto simp: configured_def tasks_ready_def)
next
  case (boot_failure f e g log)
  then show ?thesis
    using assms(1) hw_new_good [OF boot_failure(3), of "set log"] by (auto simp: configured_def)
next
  case (sign signer chain pkh parsed data s out s' ts log)
  then show ?thesis
    using sign_inv(1) [OF assms(1) [unfolded sign(1)] sign(3)] by simp
next
  case (ceiling pkh i l ts s r s' log)
  then show ?thesis
    using ceiling_inv [OF assms(1) [unfolded ceiling(1)] ceiling(3,4)] by simp
next
  case (update log s pkh level chain r s' ts)
  then show ?thesis
    using update_inv [OF assms(1) [unfolded update(1)] update(3), of chain r s'] by simp
next
  case (seed log s pkh level chain r s' ts)
  then show ?thesis
    using update_inv [OF assms(1) [unfolded seed(1)] seed(3), of chain r s'] by simp
qed

lemma device_step_log:
  assumes "device_inv X C pkhs d" and "device_step X B C pkhs d d'"
  shows "snd d' = snd d \<or> (\<exists>m. snd d' = snd d @ [m] \<and> (\<forall>n \<in> set (snd d). precedes n m))"
  using assms(2)
proof cases
  case (sign signer chain pkh parsed data s out s' ts log)
  then show ?thesis
    using sign_inv(2) [OF assms(1) [unfolded sign(1)] sign(3)] issued_single [of out]
    by (auto simp del: precedes.simps)
qed auto

lemma device_init_inv: "device_init X C pkhs d \<Longrightarrow> device_inv X C pkhs d \<and> snd d = []"
  by (auto simp: device_init_def stored_def)

interpretation device: monotone_log "device_init X C pkhs" "device_step X B C pkhs" snd "device_inv X C pkhs" precedes
  for X C pkhs and B :: "('sk, 'pk, 'sg) blst"
  by unfold_locales (use device_init_inv device_step_inv device_step_log in blast)+

end
