(* ===== verification/Request_Handling.thy ===== *)
theory Request_Handling
  imports Device
begin

text \<open>
  What \<open>handle_request\<close> does to the tracker, the disk and the caller: \<open>handle_sign\<close> runs at most one
  critical section and otherwise leaves tracker, disk and tasks alone; every other request leaves
  them alone; a signature is returned only for a held key, an allowed magic byte, the provisioned
  chain and, for a consensus payload, a mark the critical section logged; no request panics.
\<close>

section \<open>Frame\<close>

definition core :: "('sk, 'pk) world \<Rightarrow> high_watermark lock option \<times> fs \<times> ceiling_task list" where
  "core w = (rh_watermark (w_handler w), w_fs w, w_tasks w)"

lemma core_fire [simp]: "core (fire b ev w) = core w" "w_handler (fire b ev w) = w_handler w"
  by (simp_all add: core_def fire_def)

lemma resolve_signer_frame: "resolve_signer X pkh w = (r, w') \<Longrightarrow> core w' = core w \<and> w_handler w' = w_handler w"
  by (auto simp: resolve_signer_def split: lock.splits if_splits sum.splits)

lemma check_chain_frame: "check_chain X pkh parsed w = (r, w') \<Longrightarrow> core w' = core w \<and> w_handler w' = w_handler w"
  by (auto simp: check_chain_def Let_def split: option.splits if_splits)

lemma precheck_frame:
  "precheck_watermark X pkh parsed w = (r, w') \<Longrightarrow> core w' = core w \<and> w_handler w' = w_handler w"
  by (auto simp: precheck_watermark_def precheck_level_def Let_def split: option.splits if_splits)

lemma record_activity_frame: "record_activity now el n parsed data w = (b, w') \<Longrightarrow> core w' = core w"
  by (auto simp: record_activity_def core_def put_activity_def Let_def split: option.splits lock.splits if_splits)

lemma finish_sign_frame:
  assumes "finish_sign now el n parsed data sg w = (r, w')"
  shows "r = Inr (RespSignature sg, ps_chain_id parsed) \<and> core w' = core w"
  using assms by (auto simp: finish_sign_def split: prod.splits dest: record_activity_frame)

lemma get_signer_or_alert_frame: "get_signer_or_alert X pkh w = (r, w') \<Longrightarrow> core w' = core w"
  by (auto simp: get_signer_or_alert_def bindS_def returnS_def split: prod.splits sum.splits dest: resolve_signer_frame)

lemmas request_frames = resolve_signer_frame check_chain_frame precheck_frame finish_sign_frame
  get_signer_or_alert_frame

text \<open>Only a sign request can touch the tracker.\<close>

lemma other_requests_frame:
  assumes "handle_request X B now el req w = (r, w')" and "\<And>p d s. req \<noteq> ReqSign p d s"
  shows "core w' = core w"
  using assms
  by (cases req)
    (auto simp: no_chain_def handle_public_key_def handle_deterministic_nonce_def handle_deterministic_nonce_hash_def
      handle_supports_deterministic_nonces_def handle_known_keys_def handle_bls_prove_def bindS_def returnS_def Let_def
      split: prod.splits sum.splits if_splits lock.splits dest!: get_signer_or_alert_frame)

section \<open>The critical section inside the handler\<close>

lemma core_put_watermark [simp]: "core (put_watermark s w) = (Some (Lock False (fst s)), snd s, w_tasks w)"
  by (simp add: core_def put_watermark_def)

lemma after_locked_core:
  assumes "after_locked B signer chain pkh data out w = (r, w')"
  shows "core w' = (fst (core w), fst (snd (core w)), snd (snd (core w)) @ new_tasks out)"
  using assms
  by (induction out rule: new_tasks.induct)
    (auto simp: spawn_ceiling_def core_def fire_def split: if_splits option.splits sum.splits)

lemma after_locked_ok:
  assumes "after_locked B signer chain pkh data out w = (Inr sg, w')"
  shows "out = LkUnwatermarked \<or> issued out \<noteq> []"
  using assms by (induction out rule: issued.induct) (auto split: if_splits sum.splits)

text \<open>
  \<open>handle_sign\<close> runs at most one critical section: either tracker, disk and tasks are as before, or
  they are what one critical section, run on them, left.
\<close>

definition section_ran ::
    "crates \<Rightarrow> ('sk, 'pk, 'sg) blst \<Rightarrow> public_key_hash \<Rightarrow> bytes \<Rightarrow> 'sg locked_outcome
      \<Rightarrow> ('sk, 'pk) world \<Rightarrow> ('sk, 'pk) world \<Rightarrow> bool" where
  "section_ran X B pkh data out w w' \<longleftrightarrow>
     (\<exists>signer chain parsed h s'.
        rh_watermark (w_handler w) = Some (Lock False h) \<and> parse_sign_payload data = Some parsed \<and>
        ps_chain_id parsed = Some chain \<and>
        (provisioned_chain_id (w_handler w) = None \<or> provisioned_chain_id (w_handler w) = Some chain) \<and>
        locked_sign X B signer chain pkh parsed data (h, w_fs w) = (out, s') \<and>
        core w' = (Some (Lock False (fst s')), snd s', w_tasks w @ new_tasks out))"

lemma sign_with_watermark_core:
  assumes "sign_with_watermark X B signer pkh parsed data w = (r, w')" and "parse_sign_payload data = Some parsed"
    and "provisioned_chain_id (w_handler w) = None \<or> ps_chain_id parsed = None \<or>
      provisioned_chain_id (w_handler w) = ps_chain_id parsed"
  shows "core w' = core w \<and> (is_ok r \<longrightarrow> ps_chain_id parsed = None \<or> rh_watermark (w_handler w) = None) \<or>
    (\<exists>out. section_ran X B pkh data out w w' \<and> (is_ok r \<longrightarrow> out = LkUnwatermarked \<or> issued out \<noteq> []))"
proof (cases "\<exists>chain h. ps_chain_id parsed = Some chain \<and> rh_watermark (w_handler w) = Some (Lock False h)")
  case False
  then have "poisoned lk" if "ps_chain_id parsed = Some chain" "rh_watermark (w_handler w) = Some lk" for chain lk
    using that by (cases lk) auto
  then show ?thesis
    using assms(1) by (auto simp: sign_with_watermark_def split: option.splits if_splits)
next
  case True
  then obtain chain h where ch: "ps_chain_id parsed = Some chain" "rh_watermark (w_handler w) = Some (Lock False h)"
    by blast
  obtain out s' where l: "locked_sign X B signer chain pkh parsed data (h, w_fs w) = (out, s')"
    by (cases "locked_sign X B signer chain pkh parsed data (h, w_fs w)")
  have a: "after_locked B signer chain pkh data out (put_watermark s' w) = (r, w')"
    using assms(1) ch l by (simp add: sign_with_watermark_def)
  have "section_ran X B pkh data out w w'"
    using after_locked_core [OF a] ch l assms(2,3) by (auto simp: section_ran_def)
  moreover have "is_ok r \<longrightarrow> out = LkUnwatermarked \<or> issued out \<noteq> []"
    using after_locked_ok [of B signer chain pkh data out] a by (cases r) auto
  ultimately show ?thesis
    by blast
qed

section \<open>Payloads\<close>

lemma parse_sign_payload_total: "\<exists>parsed. parse_sign_payload data = Some parsed"
  using block_no_panic [of data] attestation_no_panic [of data True]
  by (auto simp: parse_sign_payload_def Let_def split: list.splits)

lemma block_level_length:
  "get_level_and_round_for_tenderbake_block data = Some (Inr lr) \<Longrightarrow> 83 \<le> length data"
  by (auto simp: get_level_and_round_for_tenderbake_block_def split: if_splits)

lemma attestation_level_length:
  "get_level_and_round_for_tenderbake_attestation data True = Some (Inr lr) \<Longrightarrow> 46 \<le> length data"
  by (auto simp: get_level_and_round_for_tenderbake_attestation_def attestation_level_offset_def Let_def split: if_splits)

lemma magic_range: "(b :: u8) \<in> {0x11, 0x12, 0x13} \<Longrightarrow> 0x11 \<le> b \<and> b \<le> 0x13"
  by auto

text \<open>A payload with a level has an operation type, a round and a chain id.\<close>

lemma parsed_level_complete:
  assumes "parse_sign_payload data = Some parsed" and "ps_level parsed = Some l"
  shows "\<exists>op r chain. ps_op_type parsed = Some op \<and> ps_round parsed = Some r \<and> ps_chain_id parsed = Some chain"
proof (cases data)
  case Nil
  then show ?thesis
    using assms by (auto simp: parse_sign_payload_def parsed_default_def)
next
  case (Cons magic rest)
  have m: "magic \<in> {0x11, 0x12, 0x13}" and len: "46 \<le> length data"
    using assms Cons block_level_length [of data] attestation_level_length [of data]
    by (auto simp: parse_sign_payload_def Let_def result_simps split: if_splits option.splits)
  then have "get_chain_id_for_tenderbake data \<noteq> None"
    using Cons magic_range [OF m] by (auto simp: get_chain_id_for_tenderbake_def)
  then show ?thesis
    using assms Cons m by (auto simp: parse_sign_payload_def Let_def op_from_magic_byte_def split: if_splits option.splits)
qed

section \<open>\<open>handle_sign\<close>\<close>

lemma resolve_signer_ok:
  assumes "resolve_signer X pkh w = (Inr (signer, name), w')"
  shows "w' = w \<and> (\<exists>km. rh_keys (w_handler w) = Lock False km \<and> map_of (signers km) pkh = Some signer \<and>
    name = to_lowercase (case get_key_name km pkh of Some n \<Rightarrow> n | None \<Rightarrow> []))"
  using assms by (auto simp: resolve_signer_def get_signer_def result_simps split: lock.splits if_splits sum.splits)

lemma check_chain_ok:
  assumes "check_chain X pkh parsed w = (Inr (), w')"
  shows "w' = w \<and> (provisioned_chain_id (w_handler w) = None \<or> ps_chain_id parsed = None \<or>
    provisioned_chain_id (w_handler w) = ps_chain_id parsed)"
  using assms by (auto simp: check_chain_def Let_def split: option.splits if_splits)

lemma precheck_ok: "precheck_watermark X pkh parsed w = (Inr (), w') \<Longrightarrow> w' = w"
  by (auto simp: precheck_watermark_def precheck_level_def Let_def split: option.splits if_splits)

definition magic_ok :: "('sk, 'pk) world \<Rightarrow> bytes \<Rightarrow> bool" where
  "magic_ok w data \<longleftrightarrow>
     (case allowed_magic_bytes (w_handler w) of None \<Rightarrow> True
      | Some allowed \<Rightarrow> data \<noteq> [] \<and> hd data \<in> set allowed)"

text \<open>The handler once the key is resolved.\<close>

lemma handle_sign_unfold:
  "handle_sign X B now el pv data w =
     (if magic_ok w data
      then bindS (resolve_signer X (fst pv)) (\<lambda>(signer, key_name).
             case parse_sign_payload data of None \<Rightarrow> failS SvPanic
             | Some parsed \<Rightarrow>
                 bindS (check_chain X (fst pv) parsed) (\<lambda>_.
                   bindS (precheck_watermark X (fst pv) parsed) (\<lambda>_.
                     bindS (sign_with_watermark X B signer (fst pv) parsed data)
                       (finish_sign now el key_name parsed data)))) w
      else (case check_magic_byte data (allowed_magic_bytes (w_handler w)) of
              Inl e \<Rightarrow> (Inl (SvMagicByte e), w) | Inr _ \<Rightarrow> (Inl SvPanic, w)))"
  by (cases data) (auto simp: handle_sign_def magic_ok_def check_magic_byte_def Let_def split: option.splits)

text \<open>Where a sign request ends: refused before the section, or the section ran.\<close>

lemma handle_sign_runs:
  assumes run: "handle_sign X B now el pv data w = (r, w')"
  shows "core w' = core w \<and> \<not> is_ok r \<or>
    (\<exists>signer name parsed. magic_ok w data \<and>
       resolve_signer X (fst pv) w = (Inr (signer, name), w) \<and>
       parse_sign_payload data = Some parsed \<and> check_chain X (fst pv) parsed w = (Inr (), w) \<and>
       precheck_watermark X (fst pv) parsed w = (Inr (), w) \<and>
       bindS (sign_with_watermark X B signer (fst pv) parsed data) (finish_sign now el name parsed data) w = (r, w'))"
proof -
  let ?pkh = "fst pv"
  obtain parsed where parsed: "parse_sign_payload data = Some parsed"
    using parse_sign_payload_total by blast
  obtain q w1 where rs: "resolve_signer X ?pkh w = (q, w1)"
    by fastforce
  show ?thesis
  proof (cases "magic_ok w data \<and> (\<exists>signer name. q = Inr (signer, name))")
    case False
    then have "\<not> magic_ok w data \<or> (\<exists>e. q = Inl e)"
      by (metis sum.exhaust surj_pair)
    then show ?thesis
      using run rs resolve_signer_frame [OF rs]
      by (auto simp: handle_sign_unfold bindS_def split: sum.splits if_splits)
  next
    case True
    then obtain signer name where q: "q = Inr (signer, name)" and w1: "w1 = w" and m: "magic_ok w data"
      using rs resolve_signer_ok by blast
    have h: "handle_sign X B now el pv data w =
        bindS (check_chain X ?pkh parsed) (\<lambda>_. bindS (precheck_watermark X ?pkh parsed) (\<lambda>_.
          bindS (sign_with_watermark X B signer ?pkh parsed data) (finish_sign now el name parsed data))) w"
      using m rs q w1 parsed by (simp add: handle_sign_unfold bindS_eqI1)
    obtain c w2 where cc: "check_chain X ?pkh parsed w = (c, w2)"
      by fastforce
    obtain p w3 where pc: "precheck_watermark X ?pkh parsed w = (p, w3)"
      by fastforce
    show ?thesis
    proof (cases "c = Inr () \<and> p = Inr ()")
      case True
      then show ?thesis
        using run h m rs q w1 parsed cc pc check_chain_ok precheck_ok by (fastforce simp: bindS_eqI1)
    next
      case False
      then show ?thesis
        using run h cc pc check_chain_frame [OF cc] precheck_frame [OF pc] check_chain_ok [of X ?pkh parsed w w2]
        by (cases c; cases p) (auto simp: bindS_eqI1 bindS_eqI2)
    qed
  qed
qed

section \<open>The handler and the device\<close>

lemma finish_then_core:
  assumes "bindS (sign_with_watermark X B signer pkh parsed data) (finish_sign now el name parsed data) w = (r, w')"
  shows "\<exists>r1 w1. sign_with_watermark X B signer pkh parsed data w = (r1, w1) \<and> core w' = core w1 \<and>
    (case r1 of Inl e \<Rightarrow> r = Inl e | Inr sg \<Rightarrow> r = Inr (RespSignature sg, ps_chain_id parsed))"
  using assms by (auto simp: bindS_def split: prod.splits sum.splits dest: finish_sign_frame)

lemma section_ran_core: "section_ran X B pkh data out w w1 \<Longrightarrow> core w' = core w1 \<Longrightarrow> section_ran X B pkh data out w w'"
  by (auto simp: section_ran_def)

lemma handle_sign_section:
  assumes "handle_sign X B now el pv data w = (r, w')"
  shows "core w' = core w \<and>
      (is_ok r \<longrightarrow> (\<exists>p. parse_sign_payload data = Some p \<and> ps_chain_id p = None) \<or> rh_watermark (w_handler w) = None) \<or>
    (\<exists>out. section_ran X B (fst pv) data out w w' \<and> (is_ok r \<longrightarrow> out = LkUnwatermarked \<or> issued out \<noteq> []))"
  using handle_sign_runs [OF assms]
proof
  assume "\<exists>signer name parsed. magic_ok w data \<and>
       resolve_signer X (fst pv) w = (Inr (signer, name), w) \<and>
       parse_sign_payload data = Some parsed \<and> check_chain X (fst pv) parsed w = (Inr (), w) \<and>
       precheck_watermark X (fst pv) parsed w = (Inr (), w) \<and>
       bindS (sign_with_watermark X B signer (fst pv) parsed data) (finish_sign now el name parsed data) w = (r, w')"
  then obtain signer name parsed r1 w1 where parsed: "parse_sign_payload data = Some parsed"
    and cc: "check_chain X (fst pv) parsed w = (Inr (), w)"
    and sw: "sign_with_watermark X B signer (fst pv) parsed data w = (r1, w1)" and core: "core w' = core w1"
    and r: "case r1 of Inl e \<Rightarrow> r = Inl e | Inr sg \<Rightarrow> r = Inr (RespSignature sg, ps_chain_id parsed)"
    using finish_then_core by metis
  have ok: "is_ok r \<longleftrightarrow> is_ok r1"
    using r by (auto split: sum.splits)
  show ?thesis
    using sign_with_watermark_core [OF sw parsed] check_chain_ok [OF cc] core parsed section_ran_core [OF _ core]
    unfolding ok by metis
qed auto

lemma section_ran_step:
  assumes "section_ran X B pkh data out w w'" and "rh_watermark (w_handler w) = Some (Lock p h)"
  shows "\<exists>h'. rh_watermark (w_handler w') = Some (Lock False h') \<and>
    device_step X B C pkhs (Up (h, w_fs w) (w_tasks w), log)
      (Up (h', w_fs w') (w_tasks w'), log @ issued out)"
  using assms by (fastforce simp: section_ran_def core_def intro: device_step.sign)

text \<open>Every request is at most one step of the device.\<close>

lemma handle_request_step:
  assumes run: "handle_request X B now el req w = (r, w')" and wm: "rh_watermark (w_handler w) = Some (Lock p h)"
  shows "\<exists>p' h' out. rh_watermark (w_handler w') = Some (Lock p' h') \<and>
    (device_step X B C pkhs)\<^sup>=\<^sup>= (Up (h, w_fs w) (w_tasks w), log) (Up (h', w_fs w') (w_tasks w'), log @ out)"
proof -
  have same: ?thesis if "core w' = core w"
    using that wm by (intro exI [of _ p] exI [of _ h] exI [of _ "[]"]) (auto simp: core_def)
  show ?thesis
  proof (cases "core w' = core w")
    case False
    then obtain pv data sg where "req = ReqSign pv data sg"
      using other_requests_frame [OF run] by blast
    then have "\<exists>out. section_ran X B (fst pv) data out w w'"
      using run False handle_sign_section [of X B now el pv data w r w'] by auto
    then show ?thesis
      using section_ran_step [OF _ wm, of X B] by blast
  qed (use same in blast)
qed

text \<open>A returned consensus signature is logged, with the mark of its payload.\<close>

lemma handle_sign_logged:
  assumes run: "handle_sign X B now el pv data w = (Inr (resp, ch), w')"
    and wm: "rh_watermark (w_handler w) = Some (Lock p h)"
    and inv: "device_inv X C pkhs (Up (h, w_fs w) (w_tasks w), log)"
    and parsed: "parse_sign_payload data = Some parsed" "ps_level parsed = Some l"
      "ps_op_type parsed = Some op" "ps_round parsed = Some r"
  shows "\<exists>h'. rh_watermark (w_handler w') = Some (Lock False h') \<and>
    device_step X B C pkhs (Up (h, w_fs w) (w_tasks w), log)
      (Up (h', w_fs w') (w_tasks w'), log @ [(fst pv, op_idx op, WatermarkEntry l r)])"
proof -
  have "ps_chain_id parsed \<noteq> None"
    using parsed_level_complete [OF parsed(1,2)] by auto
  then obtain out where sec: "section_ran X B (fst pv) data out w w'"
    and ok: "out = LkUnwatermarked \<or> issued out \<noteq> []"
    using handle_sign_section [OF run] parsed(1) wm by auto
  then obtain signer chain s' where l: "locked_sign X B signer chain (fst pv) parsed data (h, w_fs w) = (out, s')"
    using wm parsed(1) by (auto simp: section_ran_def)
  have "out \<noteq> LkUnwatermarked \<and> set (issued out) \<subseteq> {(fst pv, op_idx op, WatermarkEntry l r)}"
    by (rule locked_sign_issues [OF _ parsed(3,2,4) l, of C "set log"]) (use inv in simp)
  then have "issued out = [(fst pv, op_idx op, WatermarkEntry l r)]"
    using ok issued_single [of out] by auto
  then show ?thesis
    using section_ran_step [OF sec wm, of C pkhs log] by simp
qed

section \<open>What a returned signature is\<close>

lemma after_locked_signature:
  assumes "after_locked B signer chain pkh data out w = (Inr sg, w')"
    and "locked_sign X B signer chain pkh parsed data s = (out, s')"
  shows "sg = bls_sign B (un_secret_key signer) data None"
  using assms
  by (cases out) (auto simp: locked_sign_def Let_def split: prod.splits sum.splits option.splits if_splits)

lemma sign_with_watermark_signature:
  assumes "sign_with_watermark X B signer pkh parsed data w = (Inr sg, w')"
  shows "sg = bls_sign B (un_secret_key signer) data None"
  using assms after_locked_signature
  by (fastforce simp: sign_with_watermark_def split: option.splits if_splits prod.splits)

lemma handle_sign_ok:
  assumes "handle_sign X B now el pv data w = (Inr (resp, ch), w')"
  shows "\<exists>km signer. magic_ok w data \<and> rh_keys (w_handler w) = Lock False km \<and>
    map_of (signers km) (fst pv) = Some signer \<and>
    resp = RespSignature (bls_sign B (un_secret_key signer) data None) \<and>
    (provisioned_chain_id (w_handler w) = None \<or> ch = None \<or> provisioned_chain_id (w_handler w) = ch)"
proof -
  from handle_sign_runs [OF assms] obtain signer name parsed where m: "magic_ok w data"
    and rs: "resolve_signer X (fst pv) w = (Inr (signer, name), w)"
    and cc: "check_chain X (fst pv) parsed w = (Inr (), w)"
    and sw: "bindS (sign_with_watermark X B signer (fst pv) parsed data) (finish_sign now el name parsed data) w
      = (Inr (resp, ch), w')"
    by auto
  from sw obtain sg w1 where "sign_with_watermark X B signer (fst pv) parsed data w = (Inr sg, w1)"
    and "resp = RespSignature sg" and "ch = ps_chain_id parsed"
    by (auto simp: bindS_Inr_iff dest: finish_sign_frame)
  then show ?thesis
    using m resolve_signer_ok [OF rs] check_chain_ok [OF cc] sign_with_watermark_signature by blast
qed

section \<open>No request panics\<close>

lemma ok_or_Inl_iff: "ok_or e m = Inl e' \<longleftrightarrow> m = None \<and> e' = e"
  by (cases m) auto

lemma and_then_Inl_iff: "and_then m f = Inl e \<longleftrightarrow> m = Inl e \<or> (\<exists>x. m = Inr x \<and> f x = Inl e)"
  by (cases m) auto

lemma ensure_key_no_panic: "fst (ensure_key X pkh s) \<noteq> Inl WmPanic"
  by (auto simp: ensure_key_def Let_def bindS_def on_fs_simps mac_key_def ok_or_Inl_iff
      split: prod.splits sum.splits if_splits)

lemma check_parsed_no_panic:
  assumes "good X C L s"
  shows "fst (check_and_update_parsed X chain pkh op l r s) \<noteq> Inl WmPanic"
proof -
  obtain q s1 where e: "ensure_key X pkh s = (q, s1)"
    by (cases "ensure_key X pkh s")
  show ?thesis
    using ensure_key_good [OF assms e] ensure_key_no_panic [of X pkh s] e
    by (auto simp: check_and_update_parsed_def bindS_def Let_def split: sum.splits option.splits)
qed

lemma check_update_no_panic:
  assumes "good X C L s"
  shows "fst (check_update X chain pkh parsed data s) \<noteq> Inl WmPanic"
  using check_parsed_no_panic [OF assms] block_no_panic [of data] attestation_no_panic [of data True]
  by (auto simp: check_update_def check_and_update_def split: option.splits list.splits sum.splits if_splits)

lemma persist_mark_no_panic: "fst (persist_mark pkh pk i buf nc od s) \<noteq> Inl WmPanic"
  by (auto simp: persist_mark_def bindS_def on_fs_simps split: prod.splits sum.splits)

lemma write_watermark_no_panic: "wu_idx u < 3 \<Longrightarrow> fst (write_watermark X u s) \<noteq> Inl WmPanic"
  by (auto simp: write_watermark_def mark_bytes_def mac_key_def per_key_mut_def result_simps ok_or_Inl_iff
      and_then_Inl_iff persist_mark_no_panic split: sum.splits)

lemma locked_sign_no_panic:
  assumes "good X C L s" and "locked_sign X B signer chain pkh parsed data s = (out, s')"
  shows "out \<noteq> LkRefused WmPanic \<and> (\<forall>u sr. out \<noteq> LkDone u sr (Inl WmPanic))"
proof -
  obtain q s1 where c: "check_update X chain pkh parsed data s = (q, s1)"
    by (cases "check_update X chain pkh parsed data s")
  have idx: "wu_idx u < 3" if "q = Inr (Some u)" for u
    using check_update_good [OF assms(1) c] that by (auto simp: advanced_def)
  show ?thesis
    using assms(2) c check_update_no_panic [OF assms(1), of chain pkh parsed data] idx
      arg_cong [of "write_watermark X _ s1" _ fst] write_watermark_no_panic [of _ X s1]
    by (fastforce simp: locked_sign_def commit_update_def Let_def split: sum.splits option.splits prod.splits if_splits)
qed

lemma after_locked_no_panic:
  assumes "out \<noteq> LkRefused WmPanic" and "\<And>u sr. out \<noteq> LkDone u sr (Inl WmPanic)"
  shows "fst (after_locked B signer chain pkh data out w) \<noteq> Inl SvPanic"
  using assms by (cases out) (auto split: sum.splits)

text \<open>The tracker, if there is one, is in a state the device can be in.\<close>

definition tracker_ok :: "crates \<Rightarrow> high_watermark \<Rightarrow> ('sk, 'pk) world \<Rightarrow> bool" where
  "tracker_ok X C w \<longleftrightarrow>
     (\<forall>p h. rh_watermark (w_handler w) = Some (Lock p h) \<longrightarrow> (\<exists>L. good X C L (h, w_fs w)))"

lemma sign_with_watermark_no_panic:
  assumes "tracker_ok X C w"
  shows "fst (sign_with_watermark X B signer pkh parsed data w) \<noteq> Inl SvPanic"
proof (cases "\<exists>chain h. ps_chain_id parsed = Some chain \<and> rh_watermark (w_handler w) = Some (Lock False h)")
  case False
  then have "poisoned lk" if "ps_chain_id parsed = Some chain" "rh_watermark (w_handler w) = Some lk" for chain lk
    using that by (cases lk) auto
  then show ?thesis
    by (auto simp: sign_with_watermark_def poison_error_def split: option.splits)
next
  case True
  then obtain chain h where ch: "ps_chain_id parsed = Some chain" "rh_watermark (w_handler w) = Some (Lock False h)"
    by blast
  then obtain L where g: "good X C L (h, w_fs w)"
    using assms unfolding tracker_ok_def by blast
  obtain out s' where l: "locked_sign X B signer chain pkh parsed data (h, w_fs w) = (out, s')"
    by (cases "locked_sign X B signer chain pkh parsed data (h, w_fs w)")
  show ?thesis
    using after_locked_no_panic [of out B signer chain pkh data] locked_sign_no_panic [OF g l] ch l
    by (simp add: sign_with_watermark_def)
qed

lemma handle_sign_no_panic:
  assumes "tracker_ok X C w"
  shows "fst (handle_sign X B now el pv data w) \<noteq> Inl SvPanic"
proof
  assume panic: "fst (handle_sign X B now el pv data w) = Inl SvPanic"
  then obtain w' where run: "handle_sign X B now el pv data w = (Inl SvPanic, w')"
    by (metis prod.collapse)
  obtain parsed where parsed: "parse_sign_payload data = Some parsed"
    using parse_sign_payload_total by blast
  have pre: "fst (resolve_signer X (fst pv) w) \<noteq> Inl SvPanic" "fst (check_chain X (fst pv) parsed w) \<noteq> Inl SvPanic"
    "fst (precheck_watermark X (fst pv) parsed w) \<noteq> Inl SvPanic"
    by (auto simp: resolve_signer_def get_signer_def ok_or_Inl_iff check_chain_def precheck_watermark_def
        precheck_level_def poison_error_def Let_def split: lock.splits sum.splits option.splits)
  have magic: "check_magic_byte data (allowed_magic_bytes (w_handler w)) \<noteq> Inr ()" if "\<not> magic_ok w data"
    using that check_magic_byte_ok_iff [of data] by (auto simp: magic_ok_def split: option.splits)
  have m: "magic_ok w data"
    using run magic by (auto simp: handle_sign_unfold split: if_splits sum.splits)
  obtain signer name where rs: "resolve_signer X (fst pv) w = (Inr (signer, name), w)"
    using run m pre(1) resolve_signer_ok [of X "fst pv" w]
    by (cases "resolve_signer X (fst pv) w"; cases "fst (resolve_signer X (fst pv) w)")
      (auto simp: handle_sign_unfold bindS_def)
  have cc: "check_chain X (fst pv) parsed w = (Inr (), w)"
    using run m rs parsed pre(2) check_chain_ok [of X "fst pv" parsed w]
    by (cases "check_chain X (fst pv) parsed w"; cases "fst (check_chain X (fst pv) parsed w)")
      (auto simp: handle_sign_unfold bindS_def)
  have pc: "precheck_watermark X (fst pv) parsed w = (Inr (), w)"
    using run m rs parsed cc pre(3) precheck_ok [of X "fst pv" parsed w]
    by (cases "precheck_watermark X (fst pv) parsed w"; cases "fst (precheck_watermark X (fst pv) parsed w)")
      (auto simp: handle_sign_unfold bindS_def)
  show False
    using run m rs parsed cc pc sign_with_watermark_no_panic [OF assms, of B signer "fst pv" parsed data]
    by (auto simp: handle_sign_unfold bindS_def finish_sign_def split: sum.splits prod.splits)
qed

lemma get_signer_or_alert_no_panic: "fst (get_signer_or_alert X pkh w) \<noteq> Inl SvPanic"
  by (auto simp: get_signer_or_alert_def resolve_signer_def get_signer_def ok_or_Inl_iff poison_error_def bindS_def
      returnS_def split: lock.splits sum.splits prod.splits)

lemma handle_request_no_panic:
  assumes "tracker_ok X C w"
  shows "fst (handle_request X B now el req w) \<noteq> Inl SvPanic"
  using handle_sign_no_panic [OF assms, of B now el] get_signer_or_alert_no_panic [of X _ w]
  by (cases req)
    (auto simp: no_chain_def handle_public_key_def handle_deterministic_nonce_def handle_deterministic_nonce_hash_def
      handle_supports_deterministic_nonces_def handle_known_keys_def handle_bls_prove_def handler_prove_possession_def
      unencrypted_prove_possession_def bindS_def returnS_def Let_def poison_error_def
      split: prod.splits sum.splits if_splits lock.splits dest: arg_cong [of _ _ fst])

end
