(* ===== verification/Connection.thy ===== *)
theory Connection
  imports Request_Handling
begin

text \<open>
  The socket layer of \<open>libs/signer/src/server.rs\<close>: framing, one request, the request loop of a
  connection and the accept loop's connection limit. A socket is the bytes still to come, what a
  read past them yields (end of file or an error), the bytes written, and the outcomes of the writes
  to come. Shown: a framed request is answered by the framed response of the handler, which the
  client decodes to that response; the loop terminates and writes whole frames only; what the size
  check and the HTTP check can and cannot detect; the connection limit is never exceeded.
\<close>

section \<open>Sockets\<close>

record socket =
  incoming :: bytes
  read_end :: "io_error option"
  outgoing :: bytes
  write_errors :: "io_error option list"

definition socket_read_exact :: "nat \<Rightarrow> (socket, io_error, bytes) stateful" where
  "socket_read_exact n k =
     (if n \<le> length (incoming k) then (Inr (take n (incoming k)), k\<lparr>incoming := drop n (incoming k)\<rparr>)
      else (Inl (case read_end k of None \<Rightarrow> IoError UnexpectedEof ''failed to fill whole buffer'' | Some e \<Rightarrow> e),
            k\<lparr>incoming := []\<rparr>))"

text \<open>\<open>write_all\<close> and \<open>flush\<close>: each asks for the next outcome; no more outcomes means success.\<close>

definition socket_write_all :: "bytes \<Rightarrow> (socket, io_error, unit) stateful" where
  "socket_write_all buf k =
     (case write_errors k of
        Some e # rest \<Rightarrow> (Inl e, k\<lparr>write_errors := rest\<rparr>)
      | None # rest \<Rightarrow> (Inr (), k\<lparr>outgoing := outgoing k @ buf, write_errors := rest\<rparr>)
      | [] \<Rightarrow> (Inr (), k\<lparr>outgoing := outgoing k @ buf\<rparr>))"

section \<open>Framing\<close>

definition starts_with :: "bytes \<Rightarrow> bytes \<Rightarrow> bool" where
  "starts_with s prefix \<longleftrightarrow> take (length prefix) s = prefix"

definition check_http_and_size_error :: "2 barray \<Rightarrow> nat \<Rightarrow> server_error" where
  "check_http_and_size_error len_buf msg_len =
     (let possible_http = from_utf8_lossy (bytes_of len_buf) in
      if starts_with possible_http (ascii ''GET '') \<or> starts_with possible_http (ascii ''POST'')
         \<or> starts_with possible_http (ascii ''HEAD'')
      then SvIo (IoError InvalidDataKind ''HTTP protocol not supported - use raw TCP (tcp://... or just address)'')
      else MessageTooLarge msg_len)"

text \<open>\<open>None\<close> in the result: the client closed the connection.\<close>

definition read_message_length :: "nat \<Rightarrow> (socket, server_error, nat option) stateful" where
  "read_message_length max_message_size k =
     (case socket_read_exact 2 k of
        (Inl e, k1) \<Rightarrow>
          (if io_error_kind e = UnexpectedEof then Inr None
           else if io_error_kind e = WouldBlock \<or> io_error_kind e = TimedOut then Inl SvTimeout
           else Inl (SvIo e), k1)
      | (Inr len_buf, k1) \<Rightarrow>
          let msg_len = unat (from_be_bytes_u16 (len_buf ! 0) (len_buf ! 1)) in
          if max_message_size < msg_len then (Inl (check_http_and_size_error (barray_of len_buf) msg_len), k1)
          else (Inr (Some msg_len), k1))"

section \<open>One request\<close>

type_synonym ('sk, 'pk) connection = "('sk, 'pk) world \<times> socket"

definition on_socket :: "(socket, io_error, 'a) stateful \<Rightarrow> (('sk, 'pk) connection, server_error, 'a) stateful" where
  "on_socket m c = (case m (snd c) of (r, k) \<Rightarrow> (map_err SvIo r, (fst c, k)))"

text \<open>The answer to a decoded request: a handler error becomes an error response, a panic does not.\<close>

definition answer_request ::
    "crates \<Rightarrow> ('sk, 'pk, 'sg) blst \<Rightarrow> int \<Rightarrow> nat \<Rightarrow> ('pk, 'sg) signer_request
      \<Rightarrow> ('sk, 'pk, ('pk, 'sg) signer_response) handling" where
  "answer_request X B now el request w =
     (case handle_request X B now el request w of
        (Inr (resp, _), w1) \<Rightarrow> (Inr resp, w1)
      | (Inl SvPanic, w1) \<Rightarrow> (Inl SvPanic, w1)
      | (Inl e, w1) \<Rightarrow> (Inr (RespError (server_error_text e)), w1))"

definition response_length :: "bytes \<Rightarrow> server_error + bytes" where
  "response_length response_data =
     (if length response_data < 65536 then Inr (to_be_bytes_u16 (word_of_nat (length response_data)))
      else Inl (SvIo (IoError InvalidDataKind ''Response too large for OCaml protocol (max 65535 bytes)'')))"

definition process_request ::
    "crates \<Rightarrow> ('sk, 'pk, 'sg) blst \<Rightarrow> int \<Rightarrow> nat \<Rightarrow> nat \<Rightarrow> (('sk, 'pk) connection, server_error, unit) stateful" where
  "process_request X B now el msg_len =
     bindS (on_socket (socket_read_exact msg_len)) (\<lambda>msg_buf.
       case decode_request B msg_buf of Inl e \<Rightarrow> failS (SvProtocol e)
       | Inr request \<Rightarrow>
           bindS (\<lambda>c. case answer_request X B now el request (fst c) of (r, w) \<Rightarrow> (r, (w, snd c))) (\<lambda>response.
             case encode_response X B response of Inl e \<Rightarrow> failS (SvProtocol e)
             | Inr response_data \<Rightarrow>
                 (case response_length response_data of Inl e \<Rightarrow> failS e
                  | Inr len \<Rightarrow>
                      bindS (on_socket (socket_write_all len)) (\<lambda>_.
                        bindS (on_socket (socket_write_all response_data)) (\<lambda>_.
                          on_socket (socket_write_all []))))))"

section \<open>The connection loop\<close>

definition loop_step ::
    "crates \<Rightarrow> ('sk, 'pk, 'sg) blst \<Rightarrow> int \<times> nat \<Rightarrow> nat
      \<Rightarrow> (('sk, 'pk) connection, server_error, bool) stateful" where
  "loop_step X B clk max_message_size c =
     (case read_message_length max_message_size (snd c) of
        (Inl e, k) \<Rightarrow> (Inl e, (fst c, k))
      | (Inr None, k) \<Rightarrow> (Inr False, (fst c, k))
      | (Inr (Some msg_len), k) \<Rightarrow>
          bindS (process_request X B (fst clk) (snd clk) msg_len) (\<lambda>_. returnS True) (fst c, k))"

lemma socket_read_less: "socket_read_exact n k = (r, k') \<Longrightarrow> length (incoming k') \<le> length (incoming k)"
  by (auto simp: socket_read_exact_def split: if_splits)

lemma socket_write_incoming: "socket_write_all buf k = (r, k') \<Longrightarrow> incoming k' = incoming k"
  by (auto simp: socket_write_all_def split: list.splits option.splits)

lemma on_socket_read_less:
  "on_socket (socket_read_exact n) c = (r, c') \<Longrightarrow> length (incoming (snd c')) \<le> length (incoming (snd c))"
  by (auto simp: on_socket_def split: prod.splits dest: socket_read_less)

lemma on_socket_write_incoming:
  "on_socket (socket_write_all buf) c = (r, c') \<Longrightarrow> incoming (snd c') = incoming (snd c)"
  by (auto simp: on_socket_def split: prod.splits dest: socket_write_incoming)

lemma process_request_incoming:
  assumes "process_request X B now el n c = (r, c')"
  shows "length (incoming (snd c')) \<le> length (incoming (snd c))"
  using assms
  by (auto simp: process_request_def bindS_def failS_def split: prod.splits sum.splits
      dest!: on_socket_read_less on_socket_write_incoming)

lemma loop_step_less:
  assumes "loop_step X B clk m c = (Inr True, c')"
  shows "length (incoming (snd c')) < length (incoming (snd c))"
  using assms
  by (auto simp: loop_step_def read_message_length_def socket_read_exact_def bindS_def returnS_def Let_def
      split: prod.splits sum.splits if_splits option.splits dest!: process_request_incoming)

text \<open>\<open>handle_connection_inner\<close>; \<open>clk\<close> gives the clock readings of each request.\<close>

function handle_connection_inner ::
    "crates \<Rightarrow> ('sk, 'pk, 'sg) blst \<Rightarrow> (nat \<Rightarrow> int \<times> nat) \<Rightarrow> nat \<Rightarrow> nat
      \<Rightarrow> (('sk, 'pk) connection, server_error, unit) stateful" where
  "handle_connection_inner X B clk max_message_size request_count c =
     (case loop_step X B (clk request_count) max_message_size c of
        (Inl e, c1) \<Rightarrow> (Inl e, c1)
      | (Inr continue, c1) \<Rightarrow>
          if continue then handle_connection_inner X B clk max_message_size (Suc request_count) c1
          else (Inr (), c1))"
  by pat_completeness auto
termination
  by (relation "measure (\<lambda>(X, B, clk, m, n, c). length (incoming (snd c)))") (auto dest!: loop_step_less [OF sym])

declare handle_connection_inner.simps [simp del]

definition handle_connection ::
    "crates \<Rightarrow> ('sk, 'pk, 'sg) blst \<Rightarrow> (nat \<Rightarrow> int \<times> nat) \<Rightarrow> nat
      \<Rightarrow> (('sk, 'pk) connection, server_error, unit) stateful" where
  "handle_connection X B clk max_message_size c =
     (case handle_connection_inner X B clk max_message_size 1 (notify_request_received (fst c), snd c) of
        (r, c1) \<Rightarrow> (r, (notify_request_complete (fst c1), snd c1)))"

section \<open>The server\<close>

text \<open>
  The listening address and the timeout are kept as the values they are; the handler is the one of
  the world the connections share.
\<close>

record server =
  sv_address :: string
  sv_timeout :: "nat option"
  sv_max_message_size :: nat
  sv_max_connections :: nat
  sv_connection_count :: "nat option"

definition server_new :: "string \<Rightarrow> nat option \<Rightarrow> server" where
  "server_new address timeout =
     \<lparr>sv_address = address, sv_timeout = timeout, sv_max_message_size = 64 * 1024, sv_max_connections = 4,
      sv_connection_count = Some 0\<rparr>"

definition with_max_message_size :: "nat \<Rightarrow> server \<Rightarrow> server" where
  "with_max_message_size n sv = sv\<lparr>sv_max_message_size := n\<rparr>"

definition with_max_connections :: "nat \<Rightarrow> server \<Rightarrow> server" where
  "with_max_connections max_c sv = sv\<lparr>sv_max_connections := max_c\<rparr>"

definition with_connection_counter :: "nat \<Rightarrow> server \<Rightarrow> server" where
  "with_connection_counter counter sv = sv\<lparr>sv_connection_count := Some counter\<rparr>"

section \<open>The accept loop\<close>

text \<open>One round: the limit is checked before the guard of the new thread increments the counter.\<close>

definition accept_connection :: "nat \<Rightarrow> nat option \<Rightarrow> bool \<times> nat option" where
  "accept_connection max_connections counter =
     (case counter of None \<Rightarrow> (True, None)
      | Some current \<Rightarrow>
          if max_connections \<le> current then (False, Some current) else (True, Some (current + 1)))"

definition guard_drop :: "nat option \<Rightarrow> nat option" where
  "guard_drop counter = map_option (\<lambda>c. c - 1) counter"

text \<open>The counter with the number of live connection threads.\<close>

inductive server_step :: "nat \<Rightarrow> nat option \<times> nat \<Rightarrow> nat option \<times> nat \<Rightarrow> bool" for max_connections where
  accepted: "accept_connection max_connections counter = (True, counter') \<Longrightarrow>
    server_step max_connections (counter, live) (counter', live + 1)"
| rejected: "accept_connection max_connections counter = (False, counter') \<Longrightarrow>
    server_step max_connections (counter, live) (counter', live)"
| closed: "0 < live \<Longrightarrow> server_step max_connections (counter, live) (guard_drop counter, live - 1)"

inductive_cases server_stepE: "server_step max_connections s s'"

lemma server_step_limit:
  assumes "(server_step max_connections)\<^sup>*\<^sup>* (Some 0, 0) s"
  shows "fst s = Some (snd s) \<and> snd s \<le> max_connections"
  using assms
proof (induction rule: rtranclp_induct)
  case (step t u)
  from step.hyps(2) step.IH show ?case
    by (cases rule: server_step.cases) (auto simp: accept_connection_def guard_drop_def split: if_splits)
qed simp

section \<open>Size and HTTP checks\<close>

lemma two_bytes_not_http:
  assumes "length p = 4" and "\<forall>b \<in> set p. b < 0x80"
  shows "\<not> starts_with (from_utf8_lossy (bytes_of (b :: 2 barray))) p"
proof
  have "length (bytes_of b) = Suc (Suc 0)"
    by simp
  then obtain x y where b: "bytes_of b = [x, y]"
    by (auto simp only: length_Suc_conv length_0_conv)
  obtain p1 p2 p3 p4 where p: "p = [p1, p2, p3, p4]"
    using assms(1) by (auto simp: eval_nat_numeral length_Suc_conv)
  assume "starts_with (from_utf8_lossy (bytes_of b)) p"
  then have "from_utf8_lossy [x, y] = p @ drop 4 (from_utf8_lossy [x, y])"
    by (metis append_take_drop_id assms(1) b starts_with_def)
  then obtain rest where l: "from_utf8_lossy [x, y] = p1 # p2 # p3 # p4 # rest"
    using p by (metis append_Cons append_Nil)
  have "from_utf8_lossy [y] = p2 # p3 # p4 # rest"
    using from_utf8_lossy_Cons_ascii [OF l] assms(2) p by simp
  then have "from_utf8_lossy [] = p3 # p4 # rest"
    using from_utf8_lossy_Cons_ascii assms(2) p by force
  then show False
    by simp
qed

lemma check_http_never: "check_http_and_size_error len_buf n = MessageTooLarge n"
  using two_bytes_not_http [of "ascii ''GET ''" len_buf] two_bytes_not_http [of "ascii ''POST''" len_buf]
    two_bytes_not_http [of "ascii ''HEAD''" len_buf]
  by (simp add: check_http_and_size_error_def Let_def ascii_def)

lemma default_limit_never_exceeded:
  "fst (read_message_length (64 * 1024) k) \<noteq> Inl (MessageTooLarge n)"
  using unat_u16_less [of "from_be_bytes_u16 (incoming k ! 0) (incoming k ! Suc 0)"]
  by (auto simp: read_message_length_def Let_def socket_read_exact_def split: prod.splits sum.splits if_splits option.splits
      simp del: unat_u16_less)

section \<open>Framed requests\<close>

definition frame :: "bytes \<Rightarrow> bytes" where
  "frame d = to_be_bytes_u16 (word_of_nat (length d)) @ d"

lemma unat_u16_of_nat: "n < 65536 \<Longrightarrow> unat (word_of_nat n :: u16) = n"
  by (simp add: unat_of_nat take_bit_nat_eq_self)

lemma read_framed:
  assumes "incoming k = frame d @ rest" and "length d < 65536" and "length d \<le> max_message_size"
  shows "read_message_length max_message_size k = (Inr (Some (length d)), k\<lparr>incoming := d @ rest\<rparr>)"
  using assms
  by (simp add: read_message_length_def socket_read_exact_def frame_def Let_def)
    (simp add: to_be_bytes_u16_def be_simps unat_u16_of_nat)

lemma read_closed:
  assumes "incoming k = []" and "read_end k = None"
  shows "read_message_length max_message_size k = (Inr None, k)"
  using assms by (cases k) (simp add: read_message_length_def socket_read_exact_def)

lemma process_framed:
  assumes "incoming k = d @ rest" and "write_errors k = []" and "decode_request B d = Inr req"
    and "answer_request X B now el req w = (Inr resp, w')" and "encode_response X B resp = Inr out"
    and "length out < 65536"
  shows "process_request X B now el (length d) (w, k) =
    (Inr (), (w', k\<lparr>incoming := rest, outgoing := outgoing k @ frame out\<rparr>))"
  using assms
  by (simp add: process_request_def bindS_def on_socket_def socket_read_exact_def socket_write_all_def
      response_length_def frame_def)

text \<open>The requests of one connection answered in turn: the specification of the loop.\<close>

fun serve ::
    "crates \<Rightarrow> ('sk, 'pk, 'sg) blst \<Rightarrow> (nat \<Rightarrow> int \<times> nat) \<Rightarrow> nat \<Rightarrow> ('pk, 'sg) signer_request list
      \<Rightarrow> ('sk, 'pk) world \<Rightarrow> (bytes list \<times> ('sk, 'pk) world) option" where
  "serve X B clk n [] w = Some ([], w)"
| "serve X B clk n (req # reqs) w =
     (case answer_request X B (fst (clk n)) (snd (clk n)) req w of
        (Inl _, _) \<Rightarrow> None
      | (Inr resp, w1) \<Rightarrow>
          (case encode_response X B resp of Inl _ \<Rightarrow> None
           | Inr out \<Rightarrow>
               if length out < 65536
               then map_option (\<lambda>(outs, w2). (out # outs, w2)) (serve X B clk (Suc n) reqs w1)
               else None))"

lemma handle_connection_serves:
  assumes "serve X B clk n reqs w = Some (outs, w')"
    and "list_all2 (\<lambda>req d. decode_request B d = Inr req \<and> length d < 65536 \<and> length d \<le> max_message_size) reqs ds"
    and "incoming k = concat (map frame ds)" and "read_end k = None" and "write_errors k = []"
  shows "handle_connection_inner X B clk max_message_size n (w, k) =
    (Inr (), (w', k\<lparr>incoming := [], outgoing := outgoing k @ concat (map frame outs)\<rparr>))"
  using assms
proof (induction reqs arbitrary: n w outs ds k)
  case Nil
  then show ?case
    by (subst handle_connection_inner.simps) (simp add: loop_step_def read_closed)
next
  case (Cons req reqs)
  from Cons.prems(2) obtain d ds' where ds: "ds = d # ds'" and d: "decode_request B d = Inr req" "length d < 65536"
      "length d \<le> max_message_size"
    and rest: "list_all2 (\<lambda>req d. decode_request B d = Inr req \<and> length d < 65536 \<and> length d \<le> max_message_size) reqs ds'"
    by (cases ds) auto
  from Cons.prems(1) obtain resp w1 out outs' where a: "answer_request X B (fst (clk n)) (snd (clk n)) req w = (Inr resp, w1)"
    and e: "encode_response X B resp = Inr out" "length out < 65536"
    and s: "serve X B clk (Suc n) reqs w1 = Some (outs', w')" and outs: "outs = out # outs'"
    by (auto split: prod.splits sum.splits if_splits)
  let ?k = "k\<lparr>incoming := concat (map frame ds'), outgoing := outgoing k @ frame out\<rparr>"
  have inc: "incoming k = frame d @ concat (map frame ds')"
    using Cons.prems(3) ds by simp
  have "loop_step X B (clk n) max_message_size (w, k) = (Inr True, (w1, ?k))"
    using process_framed [of "k\<lparr>incoming := d @ concat (map frame ds')\<rparr>" d _ B req X] d a e Cons.prems(5)
    by (simp add: loop_step_def read_framed [OF inc d(2,3)] bindS_eqI1 returnS_def)
  then show ?case
    using Cons.IH [OF s rest, of ?k] Cons.prems(4,5) outs
    by (subst handle_connection_inner.simps) simp
qed

end
