(* ===== verification/Signing_Behaviour.thy ===== *)
theory Signing_Behaviour
  imports Request_Handling
begin

text \<open>
  What the signing path does in each situation: it makes progress when the mark is new and the disk
  works, needs no disk under a ceiling, restores the old mark when the write fails, refuses what it
  already signed, and alerts the operator exactly when the code says so.
\<close>

section \<open>Progress\<close>

text \<open>The next two disk operations of the tracker succeed.\<close>

definition disk_works :: "fs \<Rightarrow> bool" where
  "disk_works f \<longleftrightarrow> outcomes f (clock f) = IoOk \<and> outcomes f (Suc (clock f)) = IoOk"

lemma persist_mark_works:
  "disk_works (snd s) \<Longrightarrow> is_ok (fst (persist_mark pkh pk i buf nc od s))"
  by (simp add: disk_works_def persist_mark_def bindS_def on_fs_simps write_all_at_def sync_data_def next_outcome_def
      Let_def)

lemma write_watermark_works:
  assumes "good X C L s" and "keys (fst s) (wu_pkh u) \<noteq> None" and "wu_idx u < 3" and "disk_works (snd s)"
  shows "is_ok (fst (write_watermark X u s))"
proof -
  obtain pk where pk: "keys (fst s) (wu_pkh u) = Some pk"
    using assms(2) by auto
  obtain k where "\<And>l r. mark_bytes X (fst s) (wu_pkh u) l r = Inr (encode_authenticated X k (hw_ad C) l r)"
    using mac_key_tracked [OF assms(1) pk] by blast
  then show ?thesis
    using pk assms(3,4) by (simp add: write_watermark_def per_key_mut_def persist_mark_works)
qed

lemma locked_sign_progress:
  assumes g: "good X C L s" and key: "keys (fst s) pkh = Some pk"
    and parsed: "ps_op_type parsed = Some op" "ps_level parsed = Some l" "ps_round parsed = Some r"
    and e: "entries pk ! op_idx op = Some e" and lt: "e < WatermarkEntry l r" and disk: "disk_works (snd s)"
    and run: "locked_sign X B signer chain pkh parsed data s = (out, s')"
  shows "issued out = [(pkh, op_idx op, WatermarkEntry l r)]"
proof -
  obtain res s1 where c: "check_and_update_parsed X chain pkh op l r s = (res, s1)"
    by (cases "check_and_update_parsed X chain pkh op l r s")
  obtain u where u: "res = Inr (Some u)" "wu_pkh u = pkh" "wu_idx u = op_idx op" "upd_mark u = WatermarkEntry l r"
    and g1: "good X C L s1" and a: "advanced L s1 u"
    using check_parsed_tracked [OF g key e lt c] by blast
  have fs: "snd s1 = snd s"
    using c key e by (auto simp: check_and_update_parsed_def bindS_def Let_def split: if_splits)
  have "keys (fst s1) (wu_pkh u) \<noteq> None" and "wu_idx u < 3"
    using a by (auto simp: advanced_def)
  from write_watermark_works [OF g1 this] disk fs
  have w: "is_ok (fst (write_watermark X u s1))"
    by simp
  let ?sg = "bls_sign B (un_secret_key signer) data None"
  have "is_ok (fst (commit_update X u (Inr ?sg) s1))"
    using w by (auto simp: commit_update_def Let_def split: prod.splits)
  then obtain s2 where "commit_update X u (Inr ?sg) s1 = (Inr (), s2)"
    by (metis (full_types) is_ok_iff old.unit.exhaust prod.collapse)
  then show ?thesis
    using run c u parsed by (auto simp: locked_sign_def check_update_def)
qed

text \<open>Under a ceiling the section performs no disk operation at all.\<close>

lemma locked_sign_ceiling:
  assumes key: "keys (fst s) pkh = Some pk"
    and parsed: "ps_op_type parsed = Some op" "ps_level parsed = Some l" "ps_round parsed = Some r"
    and e: "entries pk ! op_idx op = Some e" and lt: "e < WatermarkEntry l r"
    and c: "disk_ceiling pk ! op_idx op = Some c" and le: "WatermarkEntry l r \<le> c"
    and run: "locked_sign X B signer chain pkh parsed data s = (out, s')"
  shows "snd s' = snd s \<and> issued out = [(pkh, op_idx op, WatermarkEntry l r)]"
proof -
  let ?u = "\<lparr>wu_pkh = pkh, wu_idx = op_idx op, wu_level = l, wu_round = r, wu_prev = Some e\<rparr>"
  let ?s = "put_key pkh (pk\<lparr>entries := (entries pk)[op_idx op := Some (WatermarkEntry l r)]\<rparr>) s"
  have "check_and_update_parsed X chain pkh op l r s = (Inr (Some ?u), ?s)"
    using key e lt by (cases e) (auto simp: check_and_update_parsed_def bindS_def Let_def)
  moreover have "ceiling_covers (fst ?s) ?u"
    using c le by (cases c) (auto simp: ceiling_covers_def)
  ultimately show ?thesis
    using run parsed by (auto simp: locked_sign_def check_update_def commit_update_def upd_mark_def)
qed

section \<open>Refusal\<close>

text \<open>A mark that was signed, or one below it, is refused, whatever happened since.\<close>

lemma locked_sign_replay:
  assumes g: "good X C L s" and m: "(pkh, op_idx op, m) \<in> L" and le: "WatermarkEntry l r \<le> m"
    and parsed: "ps_op_type parsed = Some op" "ps_level parsed = Some l" "ps_round parsed = Some r"
    and run: "locked_sign X B signer chain pkh parsed data s = (out, s')"
  shows "\<exists>e. out = LkRefused e"
proof -
  obtain res s1 where c: "check_and_update_parsed X chain pkh op l r s = (res, s1)"
    by (cases "check_and_update_parsed X chain pkh op l r s")
  note cg = check_parsed_good [OF g c]
  have "\<not> (\<exists>u. res = Inr (Some u))"
  proof
    assume "\<exists>u. res = Inr (Some u)"
    then obtain u where u: "wu_pkh u = pkh" "wu_idx u = op_idx op" "upd_mark u = WatermarkEntry l r" "advanced L s1 u"
      using cg by blast
    then have "m < WatermarkEntry l r"
      using m unfolding advanced_def by (metis (no_types, lifting) order_le_less_trans)
    then show False
      using le by simp
  qed
  moreover have "res \<noteq> Inr None"
    using cg by blast
  ultimately obtain e where "res = Inl e"
    by (metis not_None_eq sum.exhaust)
  then show ?thesis
    using run c parsed by (auto simp: locked_sign_def check_update_def)
qed

text \<open>
  When the mark cannot be persisted no signature is returned and the in-memory entry is the old one,
  so the same request can be retried.
\<close>

lemma write_watermark_failed: "write_watermark X u s = (Inl e, s') \<Longrightarrow> fst s' = fst s"
  by (auto simp: write_watermark_def persist_mark_def bindS_def on_fs_simps split: if_splits sum.splits prod.splits)

lemma locked_sign_write_failure:
  assumes key: "keys (fst s) pkh = Some pk"
    and parsed: "ps_op_type parsed = Some op" "ps_level parsed = Some l" "ps_round parsed = Some r"
    and run: "locked_sign X B signer chain pkh parsed data s = (LkDone u sr (Inl e), s')"
  shows "\<exists>pk'. keys (fst s') pkh = Some pk' \<and> entries pk' = entries pk"
proof -
  obtain res s1 where c: "check_and_update_parsed X chain pkh op l r s = (res, s1)"
    by (cases "check_and_update_parsed X chain pkh op l r s")
  have res: "res = Inr (Some u)"
    using run c parsed by (auto simp: locked_sign_def check_update_def Let_def split: sum.splits option.splits prod.splits)
  have ok: "\<exists>e. entries pk ! op_idx op = Some e \<and> e < WatermarkEntry l r"
    using check_parsed_refused [OF key, of op l r X chain] c res by auto
  then obtain e0 where e0: "entries pk ! op_idx op = Some e0" "e0 < WatermarkEntry l r"
    by blast
  have u: "u = \<lparr>wu_pkh = pkh, wu_idx = op_idx op, wu_level = l, wu_round = r, wu_prev = Some e0\<rparr>"
    and s1: "s1 = put_key pkh (pk\<lparr>entries := (entries pk)[op_idx op := Some (WatermarkEntry l r)]\<rparr>) s"
    using c res key e0 by (cases e0; auto simp: check_and_update_parsed_def bindS_def Let_def split: if_splits)+
  obtain s2 where w: "write_watermark X u s1 = (Inl e, s2)" and s': "s' = rollback_update u s2"
    using run c parsed res
    by (auto simp: locked_sign_def check_update_def commit_update_def Let_def split: if_splits prod.splits)
  then show ?thesis
    using write_watermark_failed [OF w] s1 u list_update_id [of "entries pk" "op_idx op"] e0(1)
    by (simp add: rollback_update_def put_key_def)
qed

section \<open>Alerts before the section\<close>

text \<open>A key the device does not hold: refused, the operator alerted, nothing else touched.\<close>

lemma handle_sign_unknown_key:
  assumes "rh_keys (w_handler w) = Lock False km" and "map_of (signers km) (fst pv) = None" and "magic_ok w data"
  shows "handle_sign X B now el pv data w =
    (Inl (KeyNotFound (pkh_to_b58check X (fst pv))),
     fire (unknown_key_callback (w_handler w)) (EvUnknownKey (fst pv)) w)"
  using assms by (simp add: handle_sign_unfold bindS_def resolve_signer_def get_signer_def)

text \<open>The key a request names, if it gets as far as looking it up.\<close>

fun names_key :: "('sk, 'pk) world \<Rightarrow> ('pk, 'sg) signer_request \<Rightarrow> public_key_hash option" where
  "names_key w (ReqSign pv data _) = (if magic_ok w data then Some (fst pv) else None)"
| "names_key w (ReqPublicKey pkh) = Some pkh"
| "names_key w ReqAuthorizedKeys = None"
| "names_key w (ReqDeterministicNonce pv _ _) = Some (fst pv)"
| "names_key w (ReqDeterministicNonceHash pv _ _) = Some (fst pv)"
| "names_key w (ReqSupportsDeterministicNonces pkh) = Some pkh"
| "names_key w ReqKnownKeys = None"
| "names_key w (ReqBlsProve pkh _) = (if allow_prove_possession (w_handler w) then Some pkh else None)"

lemma get_signer_or_alert_unknown:
  assumes "rh_keys (w_handler w) = Lock False km" and "map_of (signers km) pkh = None"
  shows "get_signer_or_alert X pkh w =
    (Inl (KeyNotFound (pkh_to_b58check X pkh)), fire (unknown_key_callback (w_handler w)) (EvUnknownKey pkh) w)"
  using assms by (simp add: get_signer_or_alert_def bindS_def resolve_signer_def get_signer_def)

lemma handle_request_unknown_key:
  assumes "rh_keys (w_handler w) = Lock False km" and "names_key w req = Some pkh" and "map_of (signers km) pkh = None"
  shows "handle_request X B now el req w =
    (Inl (KeyNotFound (pkh_to_b58check X pkh)), fire (unknown_key_callback (w_handler w)) (EvUnknownKey pkh) w)"
  using assms(2) get_signer_or_alert_unknown [OF assms(1,3), of X] handle_sign_unknown_key [OF assms(1)] assms(3)
  by (cases req)
    (auto simp: no_chain_def bindS_def handle_public_key_def handle_deterministic_nonce_def
      handle_deterministic_nonce_hash_def handle_supports_deterministic_nonces_def handle_bls_prove_def split: if_splits)

text \<open>A foreign chain: refused without looking at the tracker.\<close>

lemma handle_sign_foreign_chain:
  assumes "rh_keys (w_handler w) = Lock False km" and "map_of (signers km) (fst pv) = Some signer" and "magic_ok w data"
    and "parse_sign_payload data = Some parsed" and "ps_chain_id parsed = Some chain"
    and "provisioned_chain_id (w_handler w) = Some own" and "chain \<noteq> own"
  shows "handle_sign X B now el pv data w =
    (let err = ChainMismatch (chain_to_b58check X own) (chain_to_b58check X chain)
     in (Inl (SvWatermark err), fire (watermark_error_callback (w_handler w)) (EvWatermarkError (fst pv) chain err) w))"
  using assms
  by (simp add: handle_sign_unfold bindS_def resolve_signer_def get_signer_def check_chain_def Let_def)

text \<open>
  The gap check refuses exactly the levels more than \<open>4 * blocks_per_cycle\<close> above the highest mark,
  as long as that product fits 32 bits.
\<close>

lemma unat_gap_threshold: "4 * unat bpc < 2 ^ 32 \<Longrightarrow> unat (LARGE_GAP_CYCLES * bpc) = 4 * unat bpc"
  by (simp add: LARGE_GAP_CYCLES_def unat_word_ariths)

lemma precheck_level_gap:
  assumes "large_gap_callback (w_handler w)" and "blocks_per_cycle (w_handler w) = Some bpc" and "0 < bpc"
    and "4 * unat bpc < 2 ^ 32"
  shows "precheck_level X chain pkh requested (Some current) w =
    (if unat current + 4 * unat bpc < unat requested
     then (Inl (SvWatermark (LargeLevelGap current requested (requested - current) ((requested - current) div bpc))),
           fire True (EvLargeGap pkh chain current requested) w)
     else (Inr (), w))"
proof -
  have "saturating_sub_u32 requested current > LARGE_GAP_CYCLES * bpc \<longleftrightarrow>
      unat current + 4 * unat bpc < unat requested"
    using assms(4) by (auto simp: word_less_nat_alt unat_gap_threshold unat_saturating_sub_u32)
  moreover have "saturating_sub_u32 requested current = requested - current"
    if "unat current + 4 * unat bpc < unat requested"
    using that by (auto simp: saturating_sub_u32_def word_less_nat_alt)
  ultimately show ?thesis
    using assms by (simp add: precheck_level_def gap_checked_def Let_def)
qed

section \<open>Level updates\<close>

lemma persist_mark_entries:
  assumes "persist_mark pkh pk i buf nc od s = (r, s')" and "keys (fst s) pkh = Some pk"
  shows "\<exists>pk'. keys (fst s') pkh = Some pk' \<and> entries pk' = entries pk"
  using assms by (auto simp: persist_mark_def bindS_def on_fs_simps split: prod.splits sum.splits)

lemma write_watermark_entries:
  assumes "write_watermark X u s = (r, s')" and "keys (fst s) (wu_pkh u) = Some pk"
  shows "\<exists>pk'. keys (fst s') (wu_pkh u) = Some pk' \<and> entries pk' = entries pk"
  using assms persist_mark_entries [of "wu_pkh u" pk "wu_idx u"]
  by (auto simp: write_watermark_def per_key_mut_def split: sum.splits if_splits)

lemma write_updates_entries:
  assumes "write_updates X us s = (r, s')" and "keys (fst s) pkh = Some pk" and "\<forall>u \<in> set us. wu_pkh u = pkh"
  shows "\<exists>pk'. keys (fst s') pkh = Some pk' \<and> entries pk' = entries pk"
  using assms
proof (induction us arbitrary: s pk)
  case (Cons u us)
  obtain q s1 where w: "write_watermark X u s = (q, s1)"
    by (cases "write_watermark X u s")
  then obtain pk1 where pk1: "keys (fst s1) pkh = Some pk1" "entries pk1 = entries pk"
    using write_watermark_entries [OF w] Cons.prems by auto
  show ?case
    using Cons.prems(1,3) w pk1 Cons.IH [of s1 pk1] by (cases q) (auto simp: bindS_def)
qed (simp add: returnS_def)

text \<open>
  \<open>update_to_level\<close> overwrites all three marks with the given level, whether it is above or below
  them: it has no guard of its own.
\<close>

lemma update_to_level_overwrites:
  assumes "update_to_level X chain pkh level s = (r, s')" and "keys (fst s) pkh = Some pk"
  shows "\<exists>pk'. keys (fst s') pkh = Some pk' \<and>
    entries pk' = [Some (WatermarkEntry level 0), Some (WatermarkEntry level 0), Some (WatermarkEntry level 0)]"
proof -
  let ?e = "WatermarkEntry level 0"
  let ?pk = "pk\<lparr>entries := [Some ?e, Some ?e, Some ?e]\<rparr>"
  let ?us = "map (\<lambda>op. \<lparr>wu_pkh = pkh, wu_idx = op_idx op, wu_level = level, wu_round = 0,
                        wu_prev = entries pk ! op_idx op\<rparr>) ALL_OPERATIONS"
  have "write_updates X ?us (put_key pkh ?pk s) = (r, s')"
    using assms by (simp add: update_to_level_def bindS_def Let_def)
  from write_updates_entries [OF this, of pkh ?pk] show ?thesis
    by simp
qed

text \<open>\<open>seed_floor\<close> has one: a key whose highest level is at least the seed is left alone.\<close>

lemma seed_floor_never_lowers:
  assumes "keys (fst s) pkh = Some pk" and "get_max_level (fst s) pkh = Some m" and "level \<le> m"
  shows "seed_floor X chain pkh level s = (Inr (), s)"
  using assms by (simp add: seed_floor_def bindS_def)

section \<open>The oracle of the disk never changes\<close>

definition same_oracle :: "hw_state \<Rightarrow> hw_state \<Rightarrow> bool" where
  "same_oracle s s' \<longleftrightarrow> outcomes (snd s') = outcomes (snd s)"

lemma same_oracle_bindS:
  assumes "same_oracle s (snd (m s))" and "\<And>x t. m s = (Inr x, t) \<Longrightarrow> same_oracle t (snd (f x t))"
  shows "same_oracle s (snd (bindS m f s))"
proof -
  obtain r t where "m s = (r, t)"
    by (cases "m s") simp
  then show ?thesis
    using assms by (cases r) (auto simp: bindS_def same_oracle_def)
qed

lemma same_oracle_refl [simp]: "same_oracle s s" "same_oracle s (put_key pkh pk s)"
  by (simp_all add: same_oracle_def)

lemma same_oracle_put_key [simp]: "same_oracle (put_key pkh pk s) t = same_oracle s t"
  by (simp add: same_oracle_def)

lemma same_oracle_on_fs: "(\<And>f. outcomes (snd (m f)) = outcomes f) \<Longrightarrow> same_oracle s (snd (on_fs m s))"
  by (auto simp: same_oracle_def on_fs_def split: prod.splits) (metis snd_conv)

lemma outcomes_load_per_key: "outcomes (snd (load_per_key_watermark X d k ad f)) = outcomes f"
  using keeps_load_per_key [of undefined undefined f X d k ad] by (simp add: keeps_def)

lemma same_oracle_ensure_key: "same_oracle s (snd (ensure_key X pkh s))"
  unfolding ensure_key_def Let_def
  by (auto intro!: same_oracle_bindS same_oracle_on_fs outcomes_load_per_key split: sum.splits)

lemma same_oracle_write_watermark: "same_oracle s (snd (write_watermark X u s))"
  unfolding write_watermark_def persist_mark_def
  by (auto intro!: same_oracle_bindS same_oracle_on_fs split: sum.splits)

lemma same_oracle_update_to_level: "same_oracle s (snd (update_to_level X chain pkh level s))"
proof -
  have "same_oracle t (snd (write_updates X us t))" for us t
    by (induction us arbitrary: t) (auto simp: returnS_def intro!: same_oracle_bindS same_oracle_write_watermark)
  from this [of "put_key pkh pk t" for pk t] show ?thesis
    unfolding update_to_level_def
    by (auto simp: Let_def intro!: same_oracle_bindS same_oracle_ensure_key split: option.splits)
qed

lemma outcomes_seed_floor: "outcomes (snd (snd (seed_floor X chain pkh level s))) = outcomes (snd s)"
proof -
  have "same_oracle s (snd (seed_floor X chain pkh level s))"
    unfolding seed_floor_def
    by (auto intro!: same_oracle_bindS same_oracle_ensure_key same_oracle_update_to_level)
  then show ?thesis
    by (simp add: same_oracle_def)
qed

lemma keeps_load_known_keys: "keeps X' C f (snd (load_known_keys X base mk ad pkhs ks f))"
  by (induction pkhs arbitrary: ks f)
    (auto intro!: keeps_bindS keeps_load_per_key split: sum.splits)

lemma outcomes_hw_new: "outcomes (snd (hw_new X base pkhs mk chain f)) = outcomes f"
proof -
  have "keeps X' C f (snd (hw_new X base pkhs mk chain f))" for X' C
    unfolding hw_new_def by (auto intro!: keeps_bindS keeps_ops keeps_load_known_keys)
  then show ?thesis
    by (simp add: keeps_def)
qed

end
