(* ===== verification/Samples.thy ===== *)
theory Samples
  imports Connection Signing_Behaviour
begin

text \<open>
  Concrete inputs at which the hypotheses of the properties hold: one key, one chain, an empty disk,
  and a short history of the device (boot, seed, a block signature) evaluated on the model.
\<close>

definition sample_sk :: "32 barray secret_key" where
  "sample_sk = SecretKey (barray_of [7])"

definition sample_signer :: "(32 barray, 48 barray) unencrypted" where
  "sample_signer = unencrypted_new sample_crates sample_blst sample_sk"

definition sample_pkh :: public_key_hash where
  "sample_pkh = PublicKeyHash (barray_of [7])"

definition sample_chain :: chain_id where
  "sample_chain = ChainId (barray_of [1, 2, 3, 4])"

definition sample_config :: high_watermark where
  "sample_config =
     \<lparr>base_dir = [], known_pkhs = {sample_pkh}, keys = Map.empty,
      mac_keys = [sample_pkh \<mapsto> barray_of [9]],
      hw_chain_id = sample_chain\<rparr>"

definition sample_fs :: fs where
  "sample_fs = \<lparr>stable = Map.empty, cache = Map.empty, dirs = {}, outcomes = (\<lambda>_. IoOk), clock = 0\<rparr>"

definition sample_boot :: "(io_error + high_watermark) \<times> fs" where
  "sample_boot =
     hw_new sample_crates (base_dir sample_config) [sample_pkh] (mac_keys sample_config) (hw_chain_id sample_config)
       sample_fs"

definition sample_booted :: hw_state where
  "sample_booted = (case sample_boot of (Inr h, f) \<Rightarrow> (h, f) | (Inl _, f) \<Rightarrow> (sample_config, f))"

definition sample_seeded :: hw_state where
  "sample_seeded = snd (seed_floor sample_crates sample_chain sample_pkh 5 sample_booted)"

text \<open>A block payload of level 6 and round 0.\<close>

definition sample_block :: bytes where
  "sample_block = block_payload (0x11 # [1, 2, 3, 4]) 6 (replicate 74 0) 8 (replicate 8 0)"

definition sample_parsed :: parsed_sign_payload where
  "sample_parsed =
     (case parse_sign_payload sample_block of Some p \<Rightarrow> p | None \<Rightarrow> parsed_default)"

definition sample_locked :: "96 barray locked_outcome \<times> hw_state" where
  "sample_locked =
     locked_sign sample_crates sample_blst sample_signer sample_chain sample_pkh sample_parsed sample_block sample_seeded"

section \<open>Evaluation\<close>

lemma sample_boot_ok: "is_ok (fst sample_boot)" and sample_booted_untracked: "keys (fst sample_booted) sample_pkh = None"
  by code_simp+

lemma sample_parsed_eq: "parse_sign_payload sample_block = Some sample_parsed"
  and sample_parsed_level: "ps_level sample_parsed = Some 6"
  and sample_parsed_op: "ps_op_type sample_parsed = Some Block"
  and sample_parsed_round: "ps_round sample_parsed = Some 0"
  and sample_parsed_chain: "ps_chain_id sample_parsed = Some sample_chain"
  by code_simp+

lemmas sample_parsed = sample_parsed_eq sample_parsed_level sample_parsed_op sample_parsed_round sample_parsed_chain

definition sample_tracked :: hw_state where
  "sample_tracked = snd (ensure_key sample_crates sample_pkh sample_booted)"

lemma sample_ensure_ok: "is_ok (fst (ensure_key sample_crates sample_pkh sample_booted))"
  and sample_unmarked: "get_max_level (fst sample_tracked) sample_pkh = None"
  by code_simp+

lemma sample_seeded_update: "sample_seeded = snd (update_to_level sample_crates sample_chain sample_pkh 5 sample_tracked)"
proof -
  have "ensure_key sample_crates sample_pkh sample_booted = (Inr (), sample_tracked)"
    using sample_ensure_ok unfolding sample_tracked_def is_ok_iff by (metis old.unit.exhaust prod.collapse)
  then show ?thesis
    by (simp add: sample_seeded_def seed_floor_def bindS_eqI1 sample_unmarked)
qed

section \<open>A history\<close>

abbreviation sample_step :: "device \<Rightarrow> device \<Rightarrow> bool" where
  "sample_step \<equiv> device_step sample_crates sample_blst sample_config [sample_pkh]"

lemma sample_init: "device_init sample_crates sample_config [sample_pkh] (Down sample_fs, [])"
  by (simp add: device_init_def configured_def sample_config_def damage_ok_def sample_fs_def)

lemma sample_step_boot: "sample_step (Down sample_fs, []) (Up sample_booted [], [])"
proof -
  obtain h f where "sample_boot = (Inr h, f)"
    using sample_boot_ok by (metis is_ok_iff prod.collapse)
  then show ?thesis
    using device_step.boot [of sample_crates sample_config "[sample_pkh]" sample_fs h f]
    by (simp add: sample_booted_def sample_boot_def)
qed

lemma sample_step_seed: "sample_step (Up sample_booted [], []) (Up sample_seeded [], [])"
proof (rule device_step.seed)
  show "raise_ok (set []) sample_booted sample_pkh (WatermarkEntry 5 0)"
    by (simp add: raise_ok_def sample_booted_untracked)
  show "seed_floor sample_crates sample_chain sample_pkh 5 sample_booted =
      (fst (seed_floor sample_crates sample_chain sample_pkh 5 sample_booted), sample_seeded)"
    by (simp add: sample_seeded_def)
qed

lemma sample_reaches_seeded: "sample_step\<^sup>*\<^sup>* (Down sample_fs, []) (Up sample_seeded [], [])"
  using sample_step_boot sample_step_seed by (meson converse_rtranclp_into_rtranclp r_into_rtranclp)

lemma sample_seeded_inv: "device_inv sample_crates sample_config [sample_pkh] (Up sample_seeded [], [])"
  using device.reachable_inv [OF sample_reaches_seeded sample_init] by simp

lemma sample_seeded_good: "good sample_crates sample_config {} sample_seeded"
  using sample_seeded_inv by simp

lemma sample_seeded_entries:
  "\<exists>pk. keys (fst sample_seeded) sample_pkh = Some pk \<and>
     entries pk = [Some (WatermarkEntry 5 0), Some (WatermarkEntry 5 0), Some (WatermarkEntry 5 0)]"
proof -
  have "good sample_crates sample_config {} sample_booted"
    using device.reachable_inv [OF r_into_rtranclp [of sample_step, OF sample_step_boot] sample_init] by simp
  then have "keys (fst sample_tracked) sample_pkh \<noteq> None"
    using ensure_key_good [of sample_crates sample_config "{}" sample_booted sample_pkh] sample_ensure_ok
    by (metis prod.collapse sample_tracked_def)
  then show ?thesis
    using update_to_level_overwrites [OF prod.collapse [symmetric], of sample_tracked sample_pkh]
    by (auto simp: sample_seeded_update)
qed

lemma sample_seeded_disk: "disk_works (snd sample_seeded)"
proof -
  have "outcomes (snd sample_booted) = outcomes sample_fs"
    using outcomes_hw_new [of sample_crates "base_dir sample_config" "[sample_pkh]" "mac_keys sample_config"
        "hw_chain_id sample_config" sample_fs]
    by (auto simp: sample_booted_def sample_boot_def split: prod.splits sum.splits)
  then show ?thesis
    by (simp add: disk_works_def sample_seeded_def outcomes_seed_floor sample_fs_def)
qed

lemma sample_locked_issued: "issued (fst sample_locked) = [(sample_pkh, 0, WatermarkEntry 6 0)]"
proof -
  obtain pk where pk: "keys (fst sample_seeded) sample_pkh = Some pk" "entries pk ! op_idx Block = Some (WatermarkEntry 5 0)"
    using sample_seeded_entries by auto
  show ?thesis
    using locked_sign_progress [OF sample_seeded_good pk(1) sample_parsed(3,2,4) pk(2) _ sample_seeded_disk
        prod.collapse [symmetric], of sample_blst sample_signer sample_chain sample_block]
    by (simp add: sample_locked_def)
qed

definition sample_signed :: device where
  "sample_signed =
     (Up (snd sample_locked) (new_tasks (fst sample_locked)), [(sample_pkh, 0, WatermarkEntry 6 0)])"

lemma sample_step_sign: "sample_step (Up sample_seeded [], []) sample_signed"
proof -
  have "locked_sign sample_crates sample_blst sample_signer sample_chain sample_pkh sample_parsed sample_block
      sample_seeded = (fst sample_locked, snd sample_locked)"
    by (simp add: sample_locked_def)
  from device_step.sign [OF this, of sample_config "[sample_pkh]" "[]" "[]"] show ?thesis
    by (simp add: sample_signed_def sample_locked_issued)
qed

lemma sample_reaches_signed: "sample_step\<^sup>*\<^sup>* (Down sample_fs, []) sample_signed"
  using sample_reaches_seeded sample_step_sign by (rule rtranclp.rtrancl_into_rtrancl)

section \<open>The same history as a handler sees it\<close>

definition sample_km :: "(32 barray, 48 barray) key_manager" where
  "sample_km = add_signer sample_pkh sample_signer ''consensus'' km_new"

definition sample_world :: "(32 barray, 48 barray) world" where
  "sample_world =
     \<lparr>w_handler = rh_new (Lock False sample_km) (Some (Lock False (fst sample_seeded))) (Some all_magic_bytes) True True,
      w_fs = snd sample_seeded, w_tasks = [], w_trace = []\<rparr>"

lemma sample_world_simps [simp]:
  "rh_watermark (w_handler sample_world) = Some (Lock False (fst sample_seeded))"
  "w_fs sample_world = snd sample_seeded" "w_tasks sample_world = []"
  "rh_keys (w_handler sample_world) = Lock False sample_km"
  "provisioned_chain_id (w_handler sample_world) = Some sample_chain"
  "allowed_magic_bytes (w_handler sample_world) = Some all_magic_bytes"
  using goodD(8) [OF sample_seeded_good] by (simp_all add: sample_world_def rh_new_def sample_config_def)

lemma sample_signer_held: "map_of (signers sample_km) sample_pkh = Some sample_signer"
  by (simp add: sample_km_def get_after_add)

lemma sample_magic: "magic_ok sample_world sample_block"
  by (simp add: magic_ok_def sample_block_def block_payload_def all_magic_bytes_def)

lemma sample_handle_ok:
  "is_ok (fst (handle_sign sample_crates sample_blst now el (sample_pkh, v) sample_block sample_world))"
proof -
  obtain u sg where out: "fst sample_locked = LkDone u (Inr sg) (Inr ())"
    using sample_locked_issued by (cases "fst sample_locked" rule: issued.cases) auto
  have "sign_with_watermark sample_crates sample_blst sample_signer sample_pkh sample_parsed sample_block sample_world
      = (Inr sg, spawn_ceiling u (put_watermark (snd sample_locked) sample_world))"
    using out by (auto simp: sign_with_watermark_def sample_parsed sample_locked_def split: prod.splits)
  moreover have "precheck_watermark sample_crates sample_pkh sample_parsed sample_world = (Inr (), sample_world)"
    by (simp add: precheck_watermark_def sample_parsed gap_checked_def sample_world_def rh_new_def)
  moreover have "check_chain sample_crates sample_pkh sample_parsed sample_world = (Inr (), sample_world)"
    by (simp add: check_chain_def sample_parsed)
  moreover obtain name where "resolve_signer sample_crates sample_pkh sample_world = (Inr (sample_signer, name), sample_world)"
    by (simp add: resolve_signer_def get_signer_def sample_signer_held)
  ultimately show ?thesis
    by (simp add: handle_sign_unfold sample_magic sample_parsed bindS_eqI1 finish_sign_def split: prod.splits)
qed

section \<open>A tracker with a ceiling, and one whose disk fails\<close>

definition sample_ceiling_pk :: per_key_watermark where
  "sample_ceiling_pk =
     \<lparr>pk_files = map (\<lambda>fn. key_dir sample_crates [] sample_pkh @ [fn]) FILENAMES,
      entries = [Some (WatermarkEntry 5 0), None, None],
      disk_ceiling = [Some (WatermarkEntry 6 u32_MAX), None, None],
      disk_entries = [Some (WatermarkEntry 6 u32_MAX), None, None]\<rparr>"

definition sample_ceiling_state :: hw_state where
  "sample_ceiling_state = (sample_config\<lparr>keys := [sample_pkh \<mapsto> sample_ceiling_pk]\<rparr>, sample_fs)"

definition sample_failing_state :: hw_state where
  "sample_failing_state =
     (sample_config\<lparr>keys := [sample_pkh \<mapsto> sample_ceiling_pk\<lparr>disk_ceiling := [None, None, None]\<rparr>]\<rparr>,
      sample_fs\<lparr>outcomes := (\<lambda>_. IoFail (IoError OtherKind ''disk'') Kept)\<rparr>)"

lemma sample_failing_eval:
  "(case fst (locked_sign sample_crates sample_blst sample_signer sample_chain sample_pkh sample_parsed sample_block
      sample_failing_state) of LkDone u (Inr sg) (Inl e) \<Rightarrow> True | _ \<Rightarrow> False)"
  by code_simp

lemma sample_pkh_signer: "un_public_key_hash sample_signer = sample_pkh"
  by code_simp

text \<open>Crates whose keyed hash is the key itself: marks of different keys never collide.\<close>

definition sample_keyed_crates :: crates where
  "sample_keyed_crates = sample_crates\<lparr>blake3_keyed := (\<lambda>k m. k)\<rparr>"

end
