(* ===== verification/Key_Blob.thy ===== *)
theory Key_Blob
  imports Bls Utf8 File_System
begin

text \<open>
  The encrypted key blob of \<open>libs/crypto/src/lib.rs\<close>: a version byte, the salt, the nonce and the
  AES-256-GCM ciphertext, under a key derived from the PIN with scrypt. scrypt and AES-GCM are
  parameters; salt and nonce come from the random generator and are arguments.
\<close>

section \<open>The ciphers\<close>

record ciphers =
  scrypt :: "bytes \<Rightarrow> bytes \<Rightarrow> string + 32 barray"
  aes_gcm_encrypt :: "32 barray \<Rightarrow> 12 barray \<Rightarrow> bytes \<Rightarrow> string + bytes"
  aes_gcm_decrypt :: "32 barray \<Rightarrow> 12 barray \<Rightarrow> bytes \<Rightarrow> string + bytes"

text \<open>
  Authenticated encryption: what was encrypted decrypts under the same key and nonce and under no
  other key; distinct PINs give distinct keys for a salt.
\<close>

definition aead_lawful :: "ciphers \<Rightarrow> bool" where
  "aead_lawful C \<longleftrightarrow>
     (\<forall>k n m c. aes_gcm_encrypt C k n m = Inr c \<longrightarrow>
        aes_gcm_decrypt C k n c = Inr m \<and> (\<forall>k'. k' \<noteq> k \<longrightarrow> \<not> is_ok (aes_gcm_decrypt C k' n c)))"

definition kdf_injective :: "ciphers \<Rightarrow> bool" where
  "kdf_injective C \<longleftrightarrow>
     (\<forall>pin pin' salt k. scrypt C pin salt = Inr k \<longrightarrow> scrypt C pin' salt = Inr k \<longrightarrow> pin = pin')"

section \<open>The format\<close>

abbreviation FORMAT_V2 :: u8 where
  "FORMAT_V2 \<equiv> 0x02"

abbreviation LEGACY_SALT_LEN :: u8 where
  "LEGACY_SALT_LEN \<equiv> 22"

abbreviation V2_SALT_LEN :: nat where
  "V2_SALT_LEN \<equiv> 16"

abbreviation NONCE_LEN :: nat where
  "NONCE_LEN \<equiv> 12"

datatype blob_format = V1Legacy | V2Format

definition derive_key :: "ciphers \<Rightarrow> bytes \<Rightarrow> bytes \<Rightarrow> io_error + 32 barray" where
  "derive_key C password salt =
     map_err (\<lambda>e. IoError OtherKind (''Scrypt key derivation failed: '' @ e)) (scrypt C password salt)"

text \<open>A key of 32 bytes is what AES-256 takes, so its initialisation does not fail.\<close>

definition blob_encrypt :: "ciphers \<Rightarrow> 16 barray \<Rightarrow> 12 barray \<Rightarrow> bytes \<Rightarrow> string \<Rightarrow> io_error + bytes" where
  "blob_encrypt C salt nonce password plaintext =
     and_then (derive_key C password (bytes_of salt)) (\<lambda>key.
       and_then (map_err (\<lambda>e. IoError InvalidDataKind (''Encryption failed: '' @ e))
                  (aes_gcm_encrypt C key nonce (ascii plaintext))) (\<lambda>ciphertext.
         Inr (FORMAT_V2 # bytes_of salt @ bytes_of nonce @ ciphertext)))"

definition split_salt :: "bytes \<Rightarrow> io_error + bytes \<times> blob_format \<times> bytes" where
  "split_salt encrypted =
     (case encrypted of [] \<Rightarrow> Inl (IoError InvalidDataKind ''Encrypted data is empty'')
      | version_byte # _ \<Rightarrow>
          if version_byte = LEGACY_SALT_LEN
          then let salt_end = 1 + unat LEGACY_SALT_LEN in
               if length encrypted < salt_end
               then Inl (IoError InvalidDataKind ''Encrypted data too short for legacy salt'')
               else Inr (drop 1 (take salt_end encrypted), V1Legacy, drop salt_end encrypted)
          else if version_byte = FORMAT_V2
          then let salt_end = 1 + V2_SALT_LEN in
               if length encrypted < salt_end
               then Inl (IoError InvalidDataKind ''Encrypted data too short for v2 salt'')
               else Inr (drop 1 (take salt_end encrypted), V2Format, drop salt_end encrypted)
          else Inl (IoError InvalidDataKind ''unknown format version''))"

text \<open>\<open>String::from_utf8\<close>: valid exactly if the lossy conversion has nothing to replace.\<close>

definition from_utf8 :: "bytes \<Rightarrow> string option" where
  "from_utf8 bs = (if from_utf8_lossy bs = bs then Some (text_of bs) else None)"

definition decrypt_with_format :: "ciphers \<Rightarrow> bytes \<Rightarrow> bytes \<Rightarrow> io_error + string \<times> blob_format" where
  "decrypt_with_format C password encrypted =
     and_then (split_salt encrypted) (\<lambda>(salt, format, after_salt).
       if length after_salt < NONCE_LEN then Inl (IoError InvalidDataKind ''Encrypted data too short for nonce'')
       else
         let nonce = barray_of (take NONCE_LEN after_salt); ciphertext = drop NONCE_LEN after_salt in
         and_then (derive_key C password salt) (\<lambda>key.
           and_then (map_err (\<lambda>e. IoError InvalidDataKind (''Decryption failed (wrong PIN?): '' @ e))
                      (aes_gcm_decrypt C key nonce ciphertext)) (\<lambda>plaintext.
             and_then (ok_or (IoError InvalidDataKind ''Decrypted data is not valid UTF-8'') (from_utf8 plaintext))
               (\<lambda>text. Inr (text, format)))))"

definition blob_decrypt :: "ciphers \<Rightarrow> bytes \<Rightarrow> bytes \<Rightarrow> io_error + string" where
  "blob_decrypt C password encrypted =
     and_then (decrypt_with_format C password encrypted) (\<lambda>(plaintext, _). Inr plaintext)"

section \<open>Round trip\<close>

definition valid_text :: "string \<Rightarrow> bool" where
  "valid_text s \<longleftrightarrow> from_utf8_lossy (ascii s) = ascii s"

lemma text_of_ascii [simp]: "text_of (ascii s) = s"
  by (simp add: text_of_def ascii_def comp_def unat_of_nat take_bit_nat_eq_self map_idI)

lemma split_salt_v2:
  "split_salt (FORMAT_V2 # bytes_of (salt :: 16 barray) @ rest) = Inr (bytes_of salt, V2Format, rest)"
  by (simp add: split_salt_def Let_def)

lemma blob_encryptD:
  assumes "blob_encrypt C salt nonce pin text = Inr blob"
  obtains key c where "scrypt C pin (bytes_of salt) = Inr key" "aes_gcm_encrypt C key nonce (ascii text) = Inr c"
    "blob = FORMAT_V2 # bytes_of salt @ bytes_of nonce @ c"
  using assms by (auto simp: blob_encrypt_def derive_key_def result_simps)

lemma decrypt_v2_layout:
  "decrypt_with_format C pin (FORMAT_V2 # bytes_of (salt :: 16 barray) @ bytes_of (nonce :: 12 barray) @ c) =
     and_then (derive_key C pin (bytes_of salt)) (\<lambda>key.
       and_then (map_err (\<lambda>e. IoError InvalidDataKind (''Decryption failed (wrong PIN?): '' @ e))
                  (aes_gcm_decrypt C key nonce c)) (\<lambda>plaintext.
         and_then (ok_or (IoError InvalidDataKind ''Decrypted data is not valid UTF-8'') (from_utf8 plaintext))
           (\<lambda>text. Inr (text, V2Format))))"
  by (simp add: decrypt_with_format_def split_salt_v2 Let_def)

lemma blob_round_trip:
  assumes "aead_lawful C" and "valid_text text" and "blob_encrypt C salt nonce pin text = Inr blob"
  shows "decrypt_with_format C pin blob = Inr (text, V2Format)"
proof -
  obtain key c where k: "scrypt C pin (bytes_of salt) = Inr key" "aes_gcm_encrypt C key nonce (ascii text) = Inr c"
    and b: "blob = FORMAT_V2 # bytes_of salt @ bytes_of nonce @ c"
    using assms(3) by (rule blob_encryptD)
  have "aes_gcm_decrypt C key nonce c = Inr (ascii text)"
    using assms(1) k(2) unfolding aead_lawful_def by blast
  then show ?thesis
    using assms(2) k(1) by (simp add: b decrypt_v2_layout derive_key_def from_utf8_def valid_text_def)
qed

lemma blob_wrong_pin:
  assumes "aead_lawful C" and "kdf_injective C" and "blob_encrypt C salt nonce pin text = Inr blob" and "pin' \<noteq> pin"
  shows "\<not> is_ok (decrypt_with_format C pin' blob)"
proof -
  obtain key c where k: "scrypt C pin (bytes_of salt) = Inr key" "aes_gcm_encrypt C key nonce (ascii text) = Inr c"
    and b: "blob = FORMAT_V2 # bytes_of salt @ bytes_of nonce @ c"
    using assms(3) by (rule blob_encryptD)
  have "\<not> is_ok (aes_gcm_decrypt C key' nonce c)" if "scrypt C pin' (bytes_of salt) = Inr key'" for key'
  proof -
    have "key' \<noteq> key"
      using assms(2,4) that k(1) unfolding kdf_injective_def by metis
    then show ?thesis
      using assms(1) k(2) unfolding aead_lawful_def by blast
  qed
  then show ?thesis
    by (auto simp: b decrypt_v2_layout derive_key_def result_simps)
qed

section \<open>A lawful instance\<close>

text \<open>A derivation that keeps the PIN, and a cipher that carries the key in front of the text.\<close>

definition sample_ciphers :: ciphers where
  "sample_ciphers =
     \<lparr>scrypt = (\<lambda>pin salt. if length pin \<le> 31
                 then Inr (barray_of (pin @ replicate (31 - length pin) 255 @ [word_of_nat (length pin)]))
                 else Inl ''pin too long''),
      aes_gcm_encrypt = (\<lambda>k n m. Inr (bytes_of k @ m)),
      aes_gcm_decrypt = (\<lambda>k n c. if take 32 c = bytes_of k then Inr (drop 32 c) else Inl ''aead::Error'')\<rparr>"

lemma sample_aead [simp]: "aead_lawful sample_ciphers"
  by (auto simp: aead_lawful_def sample_ciphers_def bytes_of_inject)

lemma sample_kdf [simp]: "kdf_injective sample_ciphers"
proof -
  have inj: "pin = pin'" if len: "length pin \<le> 31" "length pin' \<le> 31"
    and eq: "pin @ replicate (31 - length pin) 255 @ [word_of_nat (length pin)] =
      pin' @ replicate (31 - length pin') 255 @ [word_of_nat (length pin')]" for pin pin' :: bytes
  proof -
    have "unat (word_of_nat (length pin) :: u8) = unat (word_of_nat (length pin') :: u8)"
      using arg_cong [OF eq, of last] by simp
    then have "length pin = length pin'"
      using len by (simp add: unat_of_nat take_bit_nat_eq_self)
    then show ?thesis
      using eq by simp
  qed
  have len: "length (pin @ replicate (31 - length pin) 255 @ [x]) = 32" if "length pin \<le> 31" for pin and x :: u8
    using that by simp
  show ?thesis
    unfolding kdf_injective_def
  proof (intro allI impI)
    fix pin pin' salt k
    assume k: "scrypt sample_ciphers pin salt = Inr k" "scrypt sample_ciphers pin' salt = Inr k"
    then have l: "length pin \<le> 31" "length pin' \<le> 31"
      by (simp_all add: sample_ciphers_def split: if_splits)
    with k have eq: "bytes_of (barray_of (pin @ replicate (31 - length pin) 255 @ [word_of_nat (length pin)]) :: 32 barray) =
        bytes_of (barray_of (pin' @ replicate (31 - length pin') 255 @ [word_of_nat (length pin')]) :: 32 barray)"
      by (simp add: sample_ciphers_def)
    show "pin = pin'"
      by (rule inj [OF l]) (use eq l in simp)
  qed
qed

end
