(* ===== verification/Key_Migration.thy ===== *)
theory Key_Migration
  imports Key_Blob Text
begin

text \<open>
  \<open>rpi-signer/src/tezos_encrypt.rs\<close>: unlocking the key file with the PIN and moving it from the legacy
  format to the current one over two boots. The keys partition is a set of files together with the
  states a power cut may bring back: every state since the directory was last synced, in each of them
  the files whose content was never synced holding anything. Every operation asks an oracle for its
  outcome; a failed one may still have taken effect. Shown: whatever PINs are entered, whatever
  operations fail and wherever power is lost, the keys stay readable with the right PIN; an unlock
  returns the keys or fails; the migration ends in the current format.
\<close>

section \<open>The keys partition\<close>

record keys_dir =
  kd_files :: "path \<rightharpoonup> bytes"
  kd_past :: "(path \<rightharpoonup> bytes) list"
  kd_dirty :: "path list"
  kd_outcomes :: "nat \<Rightarrow> io_outcome"
  kd_clock :: nat

type_synonym 'a keys_io = "(keys_dir, io_error, 'a) stateful"

definition kd_now :: "keys_dir \<Rightarrow> io_outcome" where
  "kd_now d = kd_outcomes d (kd_clock d)"

definition kd_tick :: "keys_dir \<Rightarrow> keys_dir" where
  "kd_tick d = d\<lparr>kd_clock := Suc (kd_clock d)\<rparr>"

text \<open>A change of the directory: the old states remain possible until it is synced.\<close>

definition kd_change :: "(path \<rightharpoonup> bytes) \<Rightarrow> keys_dir \<Rightarrow> keys_dir" where
  "kd_change m d = d\<lparr>kd_files := m, kd_past := m # kd_past d\<rparr>"

definition kd_exists :: "path \<Rightarrow> keys_dir \<Rightarrow> bool" where
  "kd_exists p d \<longleftrightarrow> kd_files d p \<noteq> None"

definition kd_read :: "path \<Rightarrow> bytes keys_io" where
  "kd_read p d =
     (case kd_now d of
        IoFail e _ \<Rightarrow> (Inl e, kd_tick d)
      | IoOk \<Rightarrow>
          (case kd_files d p of
             None \<Rightarrow> (Inl (IoError NotFound ''No such file or directory (os error 2)''), kd_tick d)
           | Some c \<Rightarrow> (Inr c, kd_tick d)))"

text \<open>\<open>fs::remove_file\<close> and \<open>fs::rename\<close>; a failure with residue \<open>Kept\<close> had no effect.\<close>

definition kd_remove :: "path \<Rightarrow> unit keys_io" where
  "kd_remove p d =
     (case kd_files d p of
        None \<Rightarrow> (Inl (IoError NotFound ''No such file or directory (os error 2)''), kd_tick d)
      | Some _ \<Rightarrow>
          (case kd_now d of
             IoOk \<Rightarrow> (Inr (), kd_change ((kd_files d)(p := None)) (kd_tick d))
           | IoFail e Kept \<Rightarrow> (Inl e, kd_tick d)
           | IoFail e _ \<Rightarrow> (Inl e, kd_change ((kd_files d)(p := None)) (kd_tick d))))"

definition moved :: "path \<Rightarrow> path \<Rightarrow> (path \<rightharpoonup> bytes) \<Rightarrow> (path \<rightharpoonup> bytes)" where
  "moved a b m = m(b := m a, a := None)"

definition kd_rename :: "path \<Rightarrow> path \<Rightarrow> unit keys_io" where
  "kd_rename a b d =
     (case kd_files d a of
        None \<Rightarrow> (Inl (IoError NotFound ''No such file or directory (os error 2)''), kd_tick d)
      | Some _ \<Rightarrow>
          (case kd_now d of
             IoOk \<Rightarrow> (Inr (), kd_change (moved a b (kd_files d)) (kd_tick d))
           | IoFail e Kept \<Rightarrow> (Inl e, kd_tick d)
           | IoFail e _ \<Rightarrow> (Inl e, kd_change (moved a b (kd_files d)) (kd_tick d))))"

text \<open>\<open>File::create\<close>, \<open>write_all\<close> and \<open>sync_all\<close> on a file, and \<open>sync_all\<close> on its directory.\<close>

definition kd_create :: "path \<Rightarrow> unit keys_io" where
  "kd_create p d =
     (case kd_now d of
        IoFail e Kept \<Rightarrow> (Inl e, kd_tick d)
      | IoFail e _ \<Rightarrow> (Inl e, kd_change ((kd_files d)(p \<mapsto> [])) ((kd_tick d)\<lparr>kd_dirty := p # kd_dirty d\<rparr>))
      | IoOk \<Rightarrow> (Inr (), kd_change ((kd_files d)(p \<mapsto> [])) ((kd_tick d)\<lparr>kd_dirty := p # kd_dirty d\<rparr>)))"

definition kd_write_all :: "path \<Rightarrow> bytes \<Rightarrow> unit keys_io" where
  "kd_write_all p data d =
     (case kd_now d of
        IoOk \<Rightarrow> (Inr (), kd_change ((kd_files d)(p \<mapsto> data)) (kd_tick d))
      | IoFail e r \<Rightarrow> (Inl e, kd_change ((kd_files d)(p := after_residue r (kd_files d p) data)) (kd_tick d)))"

definition kd_sync_all :: "path \<Rightarrow> unit keys_io" where
  "kd_sync_all p d =
     (case kd_now d of
        IoOk \<Rightarrow> (Inr (), (kd_tick d)\<lparr>kd_dirty := removeAll p (kd_dirty d)\<rparr>)
      | IoFail e r \<Rightarrow> (Inl e, kd_tick d))"

definition kd_sync_dir :: "keys_dir \<Rightarrow> keys_dir" where
  "kd_sync_dir d = (case kd_now d of IoOk \<Rightarrow> (kd_tick d)\<lparr>kd_past := [kd_files d]\<rparr> | IoFail e r \<Rightarrow> kd_tick d)"

text \<open>Power is lost: one of the possible states comes back, unsynced files holding \<open>junk\<close>.\<close>

definition kd_power_cut :: "nat \<Rightarrow> (path \<Rightarrow> bytes option) \<Rightarrow> keys_dir \<Rightarrow> keys_dir" where
  "kd_power_cut i junk d =
     (let m = (\<lambda>p. if p \<in> set (kd_dirty d) then junk p else (kd_past d ! (i mod length (kd_past d))) p)
      in d\<lparr>kd_files := m, kd_past := [m], kd_dirty := []\<rparr>)"

section \<open>Files\<close>

definition SECRET_KEYS_ENC_PATH :: path where
  "SECRET_KEYS_ENC_PATH = [''keys'', ''secret_keys.enc'']"

definition SECRET_KEYS_ENC_V2_PATH :: path where
  "SECRET_KEYS_ENC_V2_PATH = [''keys'', ''secret_keys.enc.v2'']"

definition MIGRATION_ATTEMPTS_PATH :: path where
  "MIGRATION_ATTEMPTS_PATH = [''keys'', ''.migration_attempts'']"

definition MIGRATION_ATTEMPT_THRESHOLD :: u32 where
  "MIGRATION_ATTEMPT_THRESHOLD = 4"

text \<open>What happened about the format of the key file on this boot.\<close>

datatype migration_event =
    StagedV2
  | PromotedV2
  | RevertedFromCorruptV2 string
  | StagingFailed string
  | MigrationDisabled u32

record decrypt_outcome =
  do_plaintext :: string
  do_migration :: "migration_event option"

definition path_text :: "path \<Rightarrow> string" where
  "path_text p = concat (map (\<lambda>c. CHR ''/'' # c) p)"

section \<open>Writing a file\<close>

definition tmp_path :: "path \<Rightarrow> path" where
  "tmp_path target = butlast target @ [last target @ ''.tmp'']"

definition atomic_write :: "path \<Rightarrow> bytes \<Rightarrow> unit keys_io" where
  "atomic_write target data =
     (if target = [] then failS (IoError InvalidInput (''atomic_write target has no filename: '' @ path_text target))
      else let tmp = tmp_path target in
        bindS (kd_create tmp) (\<lambda>_.
          bindS (kd_write_all tmp data) (\<lambda>_.
            bindS (kd_sync_all tmp) (\<lambda>_.
              bindS (kd_rename tmp target) (\<lambda>_ d. (Inr (), kd_sync_dir d))))))"

section \<open>The attempt counter\<close>

text \<open>\<open>fs::read_to_string(path).ok()\<close>; the unreadable, the invalid and the unparsable count as 0.\<close>

definition read_counter :: "path \<Rightarrow> keys_dir \<Rightarrow> u32 \<times> keys_dir" where
  "read_counter p d =
     (case kd_read p d of (r, d1) \<Rightarrow>
        (case Option.bind (ok r) (\<lambda>raw. Option.bind (from_utf8 raw) (\<lambda>text. parse_u32 (trim text))) of
           None \<Rightarrow> 0 | Some n \<Rightarrow> n, d1))"

definition saturating_inc :: "u32 \<Rightarrow> u32" where
  "saturating_inc n = (if n = u32_MAX then n else n + 1)"

definition increment_counter :: "path \<Rightarrow> u32 \<Rightarrow> u32 keys_io" where
  "increment_counter p current =
     (let next = saturating_inc current in
      bindS (atomic_write p (ascii (show_nat (unat next)))) (\<lambda>_. returnS next))"

definition clear_counter :: "path \<Rightarrow> unit keys_io" where
  "clear_counter p d =
     (case kd_remove p d of
        (Inr _, d1) \<Rightarrow> (Inr (), d1)
      | (Inl e, d1) \<Rightarrow> if io_error_kind e = NotFound then (Inr (), d1) else (Inl e, d1))"

section \<open>Unlocking\<close>

text \<open>A pure step that can fail, in the middle of file operations.\<close>

definition liftK :: "io_error + 'a \<Rightarrow> 'a keys_io" where
  "liftK r d = (r, d)"

definition stage_result :: "ciphers \<Rightarrow> 16 barray \<Rightarrow> 12 barray \<Rightarrow> bytes \<Rightarrow> path \<Rightarrow> string \<Rightarrow> unit keys_io" where
  "stage_result C salt nonce password v2_path plaintext =
     (case blob_encrypt C salt nonce password plaintext of
        Inr v2_blob \<Rightarrow> atomic_write v2_path v2_blob
      | Inl err \<Rightarrow> failS (IoError OtherKind (''re-encrypt failed: '' @ io_error_text err)))"

definition stage_v1_to_v2 ::
    "ciphers \<Rightarrow> 16 barray \<Rightarrow> 12 barray \<Rightarrow> bytes \<Rightarrow> path \<Rightarrow> path \<Rightarrow> path \<Rightarrow> decrypt_outcome keys_io" where
  "stage_v1_to_v2 C salt nonce password v1_path v2_path counter_path =
     bindS (kd_read v1_path) (\<lambda>v1 d0. case read_counter counter_path d0 of (attempts, d) \<Rightarrow>
       if MIGRATION_ATTEMPT_THRESHOLD \<le> attempts
       then bindS (liftK (decrypt_with_format C password v1)) (\<lambda>(plaintext, _).
              returnS \<lparr>do_plaintext = plaintext, do_migration = Some (MigrationDisabled attempts)\<rparr>) d
       else bindS (liftK (decrypt_with_format C password v1)) (\<lambda>(plaintext, format).
              if format \<noteq> V1Legacy then failS (IoError OtherKind ''v1-named file contains non-v1 format'')
              else (\<lambda>d1.
                case stage_result C salt nonce password v2_path plaintext d1 of
                  (Inl stage_err, d2) \<Rightarrow>
                    (Inr \<lparr>do_plaintext = plaintext, do_migration = Some (StagingFailed (io_error_text stage_err))\<rparr>, d2)
                | (Inr _, d2) \<Rightarrow>
                    (case increment_counter counter_path attempts d2 of
                       (Inr _, d3) \<Rightarrow> (Inr \<lparr>do_plaintext = plaintext, do_migration = Some StagedV2\<rparr>, d3)
                     | (Inl e, d3) \<Rightarrow>
                         (Inr \<lparr>do_plaintext = plaintext,
                              do_migration = Some (StagingFailed (''counter persist: '' @ io_error_text e))\<rparr>, d3)))) d)"

definition verify_v2_or_revert ::
    "ciphers \<Rightarrow> bytes \<Rightarrow> path \<Rightarrow> path \<Rightarrow> path \<Rightarrow> decrypt_outcome keys_io" where
  "verify_v2_or_revert C password v1_path v2_path counter_path d0 =
     (case read_counter counter_path d0 of (attempts, d) \<Rightarrow>
        if MIGRATION_ATTEMPT_THRESHOLD \<le> attempts
        then bindS (kd_read v1_path) (\<lambda>v1. bindS (liftK (decrypt_with_format C password v1)) (\<lambda>(plaintext, _).
               returnS \<lparr>do_plaintext = plaintext, do_migration = Some (MigrationDisabled attempts)\<rparr>)) d
        else bindS (kd_read v2_path) (\<lambda>v2.
               case blob_decrypt C password v2 of
                 Inr plaintext \<Rightarrow>
                   bindS (kd_remove v1_path) (\<lambda>_ d1.
                     (Inr \<lparr>do_plaintext = plaintext, do_migration = Some PromotedV2\<rparr>, snd (clear_counter counter_path d1)))
               | Inl v2_err \<Rightarrow>
                   bindS (kd_read v1_path) (\<lambda>v1. bindS (liftK (decrypt_with_format C password v1)) (\<lambda>(plaintext, _) d1.
                     (Inr \<lparr>do_plaintext = plaintext,
                          do_migration = Some (RevertedFromCorruptV2 (io_error_text v2_err))\<rparr>,
                      snd (kd_remove v2_path d1))))) d)"

definition migrate_and_decrypt ::
    "ciphers \<Rightarrow> 16 barray \<Rightarrow> 12 barray \<Rightarrow> bytes \<Rightarrow> path \<Rightarrow> path \<Rightarrow> path \<Rightarrow> decrypt_outcome keys_io" where
  "migrate_and_decrypt C salt nonce password v1_path v2_path counter_path d =
     (case (kd_exists v1_path d, kd_exists v2_path d) of
        (False, False) \<Rightarrow>
          (Inl (IoError NotFound (''No encrypted secret keys at '' @ path_text v1_path @ '' or '' @ path_text v2_path)), d)
      | (False, True) \<Rightarrow>
          bindS (kd_read v2_path) (\<lambda>v2. bindS (liftK (blob_decrypt C password v2)) (\<lambda>plaintext d1.
            (Inr \<lparr>do_plaintext = plaintext, do_migration = None\<rparr>, snd (clear_counter counter_path d1)))) d
      | (True, False) \<Rightarrow> stage_v1_to_v2 C salt nonce password v1_path v2_path counter_path d
      | (True, True) \<Rightarrow> verify_v2_or_revert C password v1_path v2_path counter_path d)"

definition decrypt_secret_keys :: "ciphers \<Rightarrow> 16 barray \<Rightarrow> 12 barray \<Rightarrow> bytes \<Rightarrow> decrypt_outcome keys_io" where
  "decrypt_secret_keys C salt nonce password =
     migrate_and_decrypt C salt nonce password SECRET_KEYS_ENC_PATH SECRET_KEYS_ENC_V2_PATH MIGRATION_ATTEMPTS_PATH"

definition encrypt_secret_keys :: "ciphers \<Rightarrow> 16 barray \<Rightarrow> 12 barray \<Rightarrow> bytes \<Rightarrow> string \<Rightarrow> unit keys_io" where
  "encrypt_secret_keys C salt nonce password secret_keys_json =
     bindS (liftK (blob_encrypt C salt nonce password secret_keys_json)) (atomic_write SECRET_KEYS_ENC_V2_PATH)"

section \<open>Recoverable directories\<close>

text \<open>A blob that the right PIN opens to the keys and no other PIN opens; one that no PIN opens.\<close>

definition opens_only :: "ciphers \<Rightarrow> bytes \<Rightarrow> string \<Rightarrow> bytes \<Rightarrow> bool" where
  "opens_only C pin K b \<longleftrightarrow>
     (\<exists>f. decrypt_with_format C pin b = Inr (K, f)) \<and>
     (\<forall>pin'. pin' \<noteq> pin \<longrightarrow> \<not> is_ok (decrypt_with_format C pin' b))"

definition sealed :: "ciphers \<Rightarrow> bytes \<Rightarrow> bool" where
  "sealed C b \<longleftrightarrow> (\<forall>pin'. \<not> is_ok (decrypt_with_format C pin' b))"

lemma opens_only_decrypt:
  assumes "opens_only C pin K b" and "decrypt_with_format C pin' b = Inr (t, f)"
  shows "pin' = pin \<and> t = K"
  using assms unfolding opens_only_def by (metis is_ok.simps(2) prod.inject sum.inject(2))

lemma sealed_decrypt: "sealed C b \<Longrightarrow> decrypt_with_format C pin' b \<noteq> Inr x"
  unfolding sealed_def by (metis is_ok.simps(2))

lemma blob_decrypt_Inr: "blob_decrypt C pin b = Inr t \<longleftrightarrow> (\<exists>f. decrypt_with_format C pin b = Inr (t, f))"
  by (auto simp: blob_decrypt_def result_simps)

lemma opens_only_encrypt:
  assumes "aead_lawful C" and "kdf_injective C" and "valid_text K" and "blob_encrypt C salt nonce pin K = Inr b"
  shows "opens_only C pin K b"
  using blob_round_trip [OF assms(1,3,4)] blob_wrong_pin [OF assms(1,2,4)] by (auto simp: opens_only_def)

definition recoverable :: "path \<Rightarrow> path \<Rightarrow> ciphers \<Rightarrow> bytes \<Rightarrow> string \<Rightarrow> (path \<rightharpoonup> bytes) \<Rightarrow> bool" where
  "recoverable v1 v2 C pin K m \<longleftrightarrow>
     (\<forall>b. m v1 = Some b \<longrightarrow> opens_only C pin K b) \<and>
     (\<forall>b. m v2 = Some b \<longrightarrow> opens_only C pin K b \<or> sealed C b) \<and>
     (m v1 \<noteq> None \<or> (\<exists>b. m v2 = Some b \<and> opens_only C pin K b))"

definition keys_safe :: "path \<Rightarrow> path \<Rightarrow> ciphers \<Rightarrow> bytes \<Rightarrow> string \<Rightarrow> keys_dir \<Rightarrow> bool" where
  "keys_safe v1 v2 C pin K d \<longleftrightarrow>
     kd_files d \<in> set (kd_past d) \<and> (\<forall>m \<in> set (kd_past d). recoverable v1 v2 C pin K m) \<and>
     v1 \<notin> set (kd_dirty d) \<and> v2 \<notin> set (kd_dirty d)"

definition quiet :: "path \<Rightarrow> path \<Rightarrow> keys_dir \<Rightarrow> keys_dir \<Rightarrow> bool" where
  "quiet v1 v2 d d' \<longleftrightarrow> kd_files d' v1 = kd_files d v1 \<and> kd_files d' v2 = kd_files d v2"

text \<open>The three paths of the migration and their temporary siblings do not clash.\<close>

locale key_paths =
  fixes v1 v2 counter :: path
  assumes paths_distinct: "distinct [v1, v2, counter, tmp_path v2, tmp_path counter]"
    and paths_named: "v2 \<noteq> []" "counter \<noteq> []"
begin

lemma paths_neq [simp]:
  "v1 \<noteq> v2" "v2 \<noteq> v1" "v1 \<noteq> counter" "counter \<noteq> v1" "v2 \<noteq> counter" "counter \<noteq> v2"
  "v1 \<noteq> tmp_path v2" "tmp_path v2 \<noteq> v1" "v2 \<noteq> tmp_path v2" "tmp_path v2 \<noteq> v2"
  "v1 \<noteq> tmp_path counter" "tmp_path counter \<noteq> v1" "v2 \<noteq> tmp_path counter" "tmp_path counter \<noteq> v2"
  "counter \<noteq> tmp_path counter" "tmp_path counter \<noteq> counter"
  using paths_distinct by auto

lemma keys_safe_files: "keys_safe v1 v2 C pin K d \<Longrightarrow> recoverable v1 v2 C pin K (kd_files d)"
  by (auto simp: keys_safe_def)

lemma keys_safe_tick [simp]: "keys_safe v1 v2 C pin K (kd_tick d) = keys_safe v1 v2 C pin K d" "kd_files (kd_tick d) = kd_files d"
  by (simp_all add: keys_safe_def kd_tick_def)

lemma quiet_tick [simp]: "quiet v1 v2 d (kd_tick d)" "quiet v1 v2 d d"
  by (simp_all add: quiet_def)

lemma quiet_trans: "quiet v1 v2 d e \<Longrightarrow> quiet v1 v2 e f \<Longrightarrow> quiet v1 v2 d f"
  by (simp add: quiet_def)

lemma keys_safe_change:
  "keys_safe v1 v2 C pin K d \<Longrightarrow> recoverable v1 v2 C pin K m \<Longrightarrow> keys_safe v1 v2 C pin K (kd_change m d)"
  by (simp add: keys_safe_def kd_change_def)

lemma recoverable_other:
  "p \<noteq> v1 \<Longrightarrow> p \<noteq> v2 \<Longrightarrow> recoverable v1 v2 C pin K (m(p := x)) = recoverable v1 v2 C pin K m"
  by (simp add: recoverable_def)

lemma keys_safe_dirty:
  "p \<noteq> v1 \<Longrightarrow> p \<noteq> v2 \<Longrightarrow> keys_safe v1 v2 C pin K (d\<lparr>kd_dirty := p # kd_dirty d\<rparr>) = keys_safe v1 v2 C pin K d"
  "keys_safe v1 v2 C pin K d \<Longrightarrow> keys_safe v1 v2 C pin K (d\<lparr>kd_dirty := removeAll p (kd_dirty d)\<rparr>)"
  by (auto simp: keys_safe_def)

text \<open>Operations on other files, and reads.\<close>

lemma safe_read: "kd_read p d = (r, d') \<Longrightarrow> keys_safe v1 v2 C pin K d \<Longrightarrow> keys_safe v1 v2 C pin K d' \<and> quiet v1 v2 d d'"
  by (auto simp: kd_read_def split: io_outcome.splits option.splits)

lemma read_content: "kd_read p d = (Inr c, d') \<Longrightarrow> kd_files d p = Some c"
  by (auto simp: kd_read_def split: io_outcome.splits option.splits)

lemma kd_tick_dirty [simp]: "kd_dirty (kd_tick d) = kd_dirty d" "kd_past (kd_tick d) = kd_past d"
  by (simp_all add: kd_tick_def)

lemma safe_create:
  assumes "kd_create p d = (r, d')" and "keys_safe v1 v2 C pin K d" and "p \<noteq> v1" and "p \<noteq> v2"
  shows "keys_safe v1 v2 C pin K d' \<and> quiet v1 v2 d d'"
proof -
  have "keys_safe v1 v2 C pin K (kd_change ((kd_files d)(p \<mapsto> [])) ((kd_tick d)\<lparr>kd_dirty := p # kd_dirty (kd_tick d)\<rparr>))"
    using assms(2-4) keys_safe_files [OF assms(2)]
    by (intro keys_safe_change) (simp_all add: keys_safe_dirty(1) recoverable_other del: kd_tick_dirty)
  then show ?thesis
    using assms
    by (auto simp: kd_create_def quiet_def kd_change_def split: io_outcome.splits residue.splits)
qed

lemma safe_write:
  assumes "kd_write_all p data d = (r, d')" and "keys_safe v1 v2 C pin K d" and "p \<noteq> v1" and "p \<noteq> v2"
  shows "keys_safe v1 v2 C pin K d' \<and> quiet v1 v2 d d' \<and> (is_ok r \<longrightarrow> kd_files d' p = Some data)"
proof -
  have "keys_safe v1 v2 C pin K (kd_change ((kd_files d)(p := x)) (kd_tick d))" for x
    using assms(2-4) keys_safe_files [OF assms(2)] by (intro keys_safe_change) (simp_all add: recoverable_other)
  then show ?thesis
    using assms by (auto simp: kd_write_all_def quiet_def kd_change_def split: io_outcome.splits)
qed

lemma safe_sync:
  assumes "kd_sync_all p d = (r, d')" and "keys_safe v1 v2 C pin K d"
  shows "keys_safe v1 v2 C pin K d' \<and> quiet v1 v2 d d' \<and> kd_files d' = kd_files d"
  using assms keys_safe_dirty(2) [of C pin K "kd_tick d" p]
  by (auto simp: kd_sync_all_def quiet_def split: io_outcome.splits)

lemma safe_sync_dir: "keys_safe v1 v2 C pin K d \<Longrightarrow> keys_safe v1 v2 C pin K (kd_sync_dir d) \<and> quiet v1 v2 d (kd_sync_dir d)"
  by (auto simp: kd_sync_dir_def keys_safe_def quiet_def split: io_outcome.splits)

lemma safe_rename:
  assumes "kd_rename a b d = (r, d')" and "keys_safe v1 v2 C pin K d" and "recoverable v1 v2 C pin K (moved a b (kd_files d))"
  shows "keys_safe v1 v2 C pin K d'"
  using assms keys_safe_change [of C pin K "kd_tick d" "moved a b (kd_files d)"]
  by (auto simp: kd_rename_def split: io_outcome.splits option.splits residue.splits)

lemma safe_remove:
  assumes "kd_remove p d = (r, d')" and "keys_safe v1 v2 C pin K d" and "recoverable v1 v2 C pin K ((kd_files d)(p := None))"
  shows "keys_safe v1 v2 C pin K d'"
  using assms keys_safe_change [of C pin K "kd_tick d" "(kd_files d)(p := None)"]
  by (auto simp: kd_remove_def split: io_outcome.splits option.splits residue.splits)

lemma safe_atomic_write:
  assumes run: "atomic_write target data d = (r, d')" and safe: "keys_safe v1 v2 C pin K d"
    and tmp: "tmp_path target \<noteq> v1" "tmp_path target \<noteq> v2"
    and put: "\<And>m. recoverable v1 v2 C pin K m \<Longrightarrow> m (tmp_path target) = Some data \<Longrightarrow>
      recoverable v1 v2 C pin K (moved (tmp_path target) target m)"
  shows "keys_safe v1 v2 C pin K d'"
proof (cases "target = []")
  case True
  then show ?thesis
    using run safe by (auto simp: atomic_write_def failS_def)
next
  case False
  let ?t = "tmp_path target"
  obtain r1 d1 where c: "kd_create ?t d = (r1, d1)" by (cases "kd_create ?t d")
  note s1 = safe_create [OF c safe tmp]
  obtain r2 d2 where w: "kd_write_all ?t data d1 = (r2, d2)" by (cases "kd_write_all ?t data d1")
  note s2 = safe_write [OF w conjunct1 [OF s1] tmp]
  obtain r3 d3 where y: "kd_sync_all ?t d2 = (r3, d3)" by (cases "kd_sync_all ?t d2")
  note s3 = safe_sync [OF y conjunct1 [OF s2]]
  obtain r4 d4 where n: "kd_rename ?t target d3 = (r4, d4)" by (cases "kd_rename ?t target d3")
  have s4: "keys_safe v1 v2 C pin K d4" if "is_ok r2"
    using safe_rename [OF n conjunct1 [OF s3]] put [OF keys_safe_files [OF conjunct1 [OF s3]]] s2 s3 that by simp
  from run False show ?thesis
    using s1 s2 s3 s4 safe_sync_dir [of C pin K d4]
    by (auto simp: atomic_write_def Let_def bindS_def c w y n split: sum.splits)
qed

lemma safe_write_v2:
  assumes "atomic_write v2 b d = (r, d')" and "keys_safe v1 v2 C pin K d" and "opens_only C pin K b"
  shows "keys_safe v1 v2 C pin K d'"
  by (rule safe_atomic_write [OF assms(1,2)]) (use assms(3) in \<open>auto simp: recoverable_def moved_def\<close>)

lemma safe_write_counter:
  assumes "atomic_write counter b d = (r, d')" and "keys_safe v1 v2 C pin K d"
  shows "keys_safe v1 v2 C pin K d'"
  by (rule safe_atomic_write [OF assms(1,2)]) (auto simp: recoverable_def moved_def)

lemma safe_increment:
  "increment_counter counter n d = (r, d') \<Longrightarrow> keys_safe v1 v2 C pin K d \<Longrightarrow> keys_safe v1 v2 C pin K d'"
  by (auto simp: increment_counter_def Let_def bindS_def returnS_def split: prod.splits sum.splits
      dest: safe_write_counter)

lemma safe_clear:
  assumes "keys_safe v1 v2 C pin K d"
  shows "keys_safe v1 v2 C pin K (snd (clear_counter counter d))"
proof -
  have "recoverable v1 v2 C pin K ((kd_files d)(counter := None))"
    using keys_safe_files [OF assms] by (simp add: recoverable_other)
  then show ?thesis
    using safe_remove assms by (auto simp: clear_counter_def split: prod.splits sum.splits)
qed

lemma safe_read_counter:
  assumes "read_counter counter d = (n, d')" and "keys_safe v1 v2 C pin K d"
  shows "keys_safe v1 v2 C pin K d' \<and> quiet v1 v2 d d'"
  using assms safe_read [of counter d] by (auto simp: read_counter_def split: prod.splits)

lemma read_opens:
  assumes "keys_safe v1 v2 C pin K d" and "kd_read v1 d = (Inr b, d')" and "decrypt_with_format C pin' b = Inr (t, f)"
  shows "pin' = pin \<and> t = K"
  using keys_safe_files [OF assms(1)] read_content [OF assms(2)] assms(3)
  by (auto simp: recoverable_def dest: opens_only_decrypt)

lemma read_opens_v2:
  assumes "keys_safe v1 v2 C pin K d" and "kd_read v2 d = (Inr b, d')" and "decrypt_with_format C pin' b = Inr (t, f)"
  shows "pin' = pin \<and> t = K \<and> opens_only C pin K b"
  using keys_safe_files [OF assms(1)] read_content [OF assms(2)] assms(3)
  by (auto simp: recoverable_def dest: opens_only_decrypt sealed_decrypt)

text \<open>What an unlock may do: leave a safe directory, and return the keys for the right PIN only.\<close>

definition unlocked :: "ciphers \<Rightarrow> bytes \<Rightarrow> string \<Rightarrow> bytes \<Rightarrow> (io_error + decrypt_outcome) \<times> keys_dir \<Rightarrow> bool" where
  "unlocked C pin K pin' res \<longleftrightarrow>
     keys_safe v1 v2 C pin K (snd res) \<and> (\<forall>out. fst res = Inr out \<longrightarrow> pin' = pin \<and> do_plaintext out = K)"

lemma unlocked_stage:
  assumes laws: "aead_lawful C" "kdf_injective C" "valid_text K" and safe: "keys_safe v1 v2 C pin K d"
  shows "unlocked C pin K pin' (stage_v1_to_v2 C salt nonce pin' v1 v2 counter d)"
proof -
  obtain r1 d1 where rd: "kd_read v1 d = (r1, d1)" by (cases "kd_read v1 d")
  note s1 = conjunct1 [OF safe_read [OF rd safe]]
  show ?thesis
  proof (cases r1)
    case (Inl e)
    then show ?thesis
      using s1 rd by (simp add: stage_v1_to_v2_def bindS_def unlocked_def)
  next
    case (Inr b)
    obtain n d2 where ct: "read_counter counter d1 = (n, d2)" by (cases "read_counter counter d1")
    note s2 = conjunct1 [OF safe_read_counter [OF ct s1]]
    have ok: "pin' = pin \<and> t = K" if "decrypt_with_format C pin' b = Inr (t, f)" for t f
      using read_opens [OF safe] rd Inr that by blast
    have stage: "keys_safe v1 v2 C pin K (snd (stage_result C salt nonce pin v2 K d2))"
      using s2 safe_write_v2 opens_only_encrypt [OF laws]
      by (auto simp: stage_result_def failS_def split: sum.splits) (metis prod.collapse)
    obtain r3 d3 where st: "stage_result C salt nonce pin v2 K d2 = (r3, d3)" by (cases "stage_result C salt nonce pin v2 K d2")
    have inc: "keys_safe v1 v2 C pin K (snd (increment_counter counter n d3))"
      using safe_increment [of n d3] stage st by (metis prod.collapse snd_conv)
    show ?thesis
    proof (cases "decrypt_with_format C pin' b")
      case (Inl e)
      then show ?thesis
        using s2 rd Inr ct by (auto simp: stage_v1_to_v2_def bindS_def liftK_def unlocked_def)
    next
      case dec: (Inr tf)
      with ok have "pin' = pin" "fst tf = K" by (metis prod.collapse)+
      then show ?thesis
        using s2 rd Inr ct dec stage st inc
        by (auto simp: stage_v1_to_v2_def bindS_def liftK_def unlocked_def returnS_def failS_def split: prod.splits sum.splits)
    qed
  qed
qed

lemma unlocked_native:
  assumes "keys_safe v1 v2 C pin K d"
  shows "unlocked C pin K pin' (bindS (kd_read v1) (\<lambda>v1. bindS (liftK (decrypt_with_format C pin' v1)) (\<lambda>(plaintext, _).
    returnS \<lparr>do_plaintext = plaintext, do_migration = ev\<rparr>)) d)"
  using assms safe_read [of v1 d] read_opens [OF assms]
  by (auto simp: bindS_def liftK_def returnS_def unlocked_def split: prod.splits sum.splits)

lemma unlocked_promote:
  assumes "keys_safe v1 v2 C pin K d" and "kd_files d v2 = Some b" and "opens_only C pin K b"
  shows "unlocked C pin K pin (bindS (kd_remove v1) (\<lambda>_ d1.
    (Inr \<lparr>do_plaintext = K, do_migration = ev\<rparr>, snd (clear_counter counter d1))) d)"
proof -
  have "recoverable v1 v2 C pin K ((kd_files d)(v1 := None))"
    using keys_safe_files [OF assms(1)] assms(2,3) by (auto simp: recoverable_def)
  then have "keys_safe v1 v2 C pin K (snd (kd_remove v1 d))"
    using safe_remove assms(1) by (metis prod.collapse)
  then show ?thesis
    using safe_clear by (auto simp: bindS_def unlocked_def split: prod.splits sum.splits)
qed

lemma unlocked_revert:
  assumes "keys_safe v1 v2 C pin K d" and "kd_files d v1 = Some b" and "decrypt_with_format C pin' b = Inr (t, f)"
  shows "unlocked C pin K pin' (Inr \<lparr>do_plaintext = t, do_migration = ev\<rparr>, snd (kd_remove v2 d))"
proof -
  have "recoverable v1 v2 C pin K ((kd_files d)(v2 := None))"
    using keys_safe_files [OF assms(1)] assms(2) by (auto simp: recoverable_def)
  then have "keys_safe v1 v2 C pin K (snd (kd_remove v2 d))"
    using safe_remove assms(1) by (metis prod.collapse)
  moreover have "pin' = pin \<and> t = K"
    using keys_safe_files [OF assms(1)] assms(2,3) by (auto simp: recoverable_def dest: opens_only_decrypt)
  ultimately show ?thesis
    by (simp add: unlocked_def)
qed

lemma unlocked_verify:
  assumes safe: "keys_safe v1 v2 C pin K d"
  shows "unlocked C pin K pin' (verify_v2_or_revert C pin' v1 v2 counter d)"
proof -
  obtain n d1 where ct: "read_counter counter d = (n, d1)" by (cases "read_counter counter d")
  note s1 = conjunct1 [OF safe_read_counter [OF ct safe]]
  obtain r2 d2 where rd: "kd_read v2 d1 = (r2, d2)" by (cases "kd_read v2 d1")
  note s2 = safe_read [OF rd s1]
  show ?thesis
  proof (cases "MIGRATION_ATTEMPT_THRESHOLD \<le> n \<or> \<not> is_ok r2")
    case True
    then show ?thesis
      using unlocked_native [OF s1] s2
      by (auto simp: verify_v2_or_revert_def ct bindS_eqI2 rd unlocked_def split: sum.splits)
        (cases r2; simp add: bindS_def rd)+
  next
    case False
    then obtain b where b: "r2 = Inr b" and n: "\<not> MIGRATION_ATTEMPT_THRESHOLD \<le> n"
      by (auto simp: is_ok_iff)
    have step: "verify_v2_or_revert C pin' v1 v2 counter d =
      (case blob_decrypt C pin' b of
         Inr plaintext \<Rightarrow> bindS (kd_remove v1) (\<lambda>_ d1.
           (Inr \<lparr>do_plaintext = plaintext, do_migration = Some PromotedV2\<rparr>, snd (clear_counter counter d1)))
       | Inl v2_err \<Rightarrow> bindS (kd_read v1) (\<lambda>v1. bindS (liftK (decrypt_with_format C pin' v1)) (\<lambda>(plaintext, _) d1.
           (Inr \<lparr>do_plaintext = plaintext, do_migration = Some (RevertedFromCorruptV2 (io_error_text v2_err))\<rparr>,
            snd (kd_remove v2 d1))))) d2"
      using n by (simp add: verify_v2_or_revert_def ct bindS_def rd b)
    show ?thesis
    proof (cases "blob_decrypt C pin' b")
      case (Inr t)
      then have o: "pin' = pin" "t = K" "opens_only C pin K b"
        using read_opens_v2 [OF s1 rd [unfolded b]] by (auto simp: blob_decrypt_Inr)
      have "kd_files d2 v2 = Some b"
        using read_content [OF rd [unfolded b]] s2 by (simp add: quiet_def)
      from unlocked_promote [OF conjunct1 [OF s2] this o(3)] show ?thesis
        unfolding step using o Inr by simp
    next
      case (Inl e)
      obtain r3 d3 where rd1: "kd_read v1 d2 = (r3, d3)" by (cases "kd_read v1 d2")
      note s3 = safe_read [OF rd1 conjunct1 [OF s2]]
      have "unlocked C pin K pin' (Inr \<lparr>do_plaintext = t, do_migration = ev\<rparr>, snd (kd_remove v2 d3))"
        if "r3 = Inr c" "decrypt_with_format C pin' c = Inr (t, f)" for c t f ev
        using unlocked_revert [OF conjunct1 [OF s3], of c pin' t f] read_content rd1 that s3
        by (simp add: quiet_def)
      then show ?thesis
        using Inl s3 rd1
        by (auto simp: step bindS_def liftK_def unlocked_def split: prod.splits sum.splits)
    qed
  qed
qed

lemma unlocked_migrate:
  assumes laws: "aead_lawful C" "kdf_injective C" "valid_text K" and safe: "keys_safe v1 v2 C pin K d"
  shows "unlocked C pin K pin' (migrate_and_decrypt C salt nonce pin' v1 v2 counter d)"
proof -
  have "unlocked C pin K pin' (bindS (kd_read v2) (\<lambda>v2. bindS (liftK (blob_decrypt C pin' v2)) (\<lambda>plaintext d1.
      (Inr \<lparr>do_plaintext = plaintext, do_migration = None\<rparr>, snd (clear_counter counter d1)))) d)"
    using safe_read [of v2 d, OF _ safe] read_opens_v2 [OF safe] safe_clear
    by (fastforce simp: bindS_def liftK_def unlocked_def blob_decrypt_Inr split: prod.splits sum.splits)
  then show ?thesis
    using unlocked_stage [OF laws safe] unlocked_verify [OF safe] safe
    by (auto simp: migrate_and_decrypt_def unlocked_def split: bool.splits)
qed

lemma safe_power_cut:
  assumes "keys_safe v1 v2 C pin K d"
  shows "keys_safe v1 v2 C pin K (kd_power_cut i junk d)"
proof -
  have "kd_past d \<noteq> []"
    using assms by (auto simp: keys_safe_def)
  then have "kd_past d ! (i mod length (kd_past d)) \<in> set (kd_past d)"
    by simp
  then have "recoverable v1 v2 C pin K (kd_past d ! (i mod length (kd_past d)))"
    using assms by (simp add: keys_safe_def)
  then show ?thesis
    using assms by (simp add: keys_safe_def kd_power_cut_def Let_def recoverable_def)
qed

end

interpretation keys: key_paths SECRET_KEYS_ENC_PATH SECRET_KEYS_ENC_V2_PATH MIGRATION_ATTEMPTS_PATH
  by unfold_locales
    (simp_all add: SECRET_KEYS_ENC_PATH_def SECRET_KEYS_ENC_V2_PATH_def MIGRATION_ATTEMPTS_PATH_def tmp_path_def)

section \<open>Histories\<close>

text \<open>Bit rot in the new file: it reads as bytes that no PIN opens.\<close>

definition rot :: "bytes \<Rightarrow> (path \<rightharpoonup> bytes) \<Rightarrow> (path \<rightharpoonup> bytes)" where
  "rot c m = (if m SECRET_KEYS_ENC_V2_PATH = None then m else m(SECRET_KEYS_ENC_V2_PATH \<mapsto> c))"

inductive keys_step :: "ciphers \<Rightarrow> keys_dir \<Rightarrow> keys_dir \<Rightarrow> bool" for C where
  unlock: "keys_step C d (snd (decrypt_secret_keys C salt nonce pin' d))"
| power_cut: "keys_step C d (kd_power_cut i junk d)"
| bit_rot: "sealed C c \<Longrightarrow> \<forall>m \<in> set (kd_past d). m SECRET_KEYS_ENC_PATH \<noteq> None \<Longrightarrow>
    keys_step C d (d\<lparr>kd_files := rot c (kd_files d), kd_past := map (rot c) (kd_past d)\<rparr>)"

abbreviation keys_kept :: "ciphers \<Rightarrow> bytes \<Rightarrow> string \<Rightarrow> keys_dir \<Rightarrow> bool" where
  "keys_kept \<equiv> keys_safe SECRET_KEYS_ENC_PATH SECRET_KEYS_ENC_V2_PATH"

lemma unlocked_secret_keys:
  assumes "aead_lawful C" and "kdf_injective C" and "valid_text K" and "keys_kept C pin K d"
  shows "keys.unlocked C pin K pin' (decrypt_secret_keys C salt nonce pin' d)"
  unfolding decrypt_secret_keys_def by (rule keys.unlocked_migrate [OF assms])

lemma keys_kept_step:
  assumes "keys_step C d d'" and laws: "aead_lawful C" "kdf_injective C" "valid_text K" and "keys_kept C pin K d"
  shows "keys_kept C pin K d'"
  using assms(1,5)
proof cases
  case (unlock salt nonce pin')
  then show ?thesis
    using unlocked_secret_keys [OF laws assms(5)] by (simp add: keys.unlocked_def)
next
  case (power_cut i junk)
  then show ?thesis
    using keys.safe_power_cut [OF assms(5)] by simp
next
  case (bit_rot c)
  then show ?thesis
    using assms(5) by (auto simp: keys_safe_def recoverable_def rot_def)
qed

lemma keys_kept_steps:
  assumes "(keys_step C)\<^sup>*\<^sup>* d d'" and "aead_lawful C" and "kdf_injective C" and "valid_text K" and "keys_kept C pin K d"
  shows "keys_kept C pin K d'"
  using assms by (induction rule: rtranclp_induct) (auto intro: keys_kept_step)

section \<open>The migration completes\<close>

definition calm :: "keys_dir \<Rightarrow> bool" where
  "calm d \<longleftrightarrow> (\<forall>n. kd_outcomes d n = IoOk)"

text \<open>A directory that is exactly these files, all of them synced.\<close>

definition settled :: "(path \<rightharpoonup> bytes) \<Rightarrow> keys_dir \<Rightarrow> bool" where
  "settled m d \<longleftrightarrow> calm d \<and> kd_files d = m \<and> kd_past d = [m] \<and> kd_dirty d = []"

lemma calm_now [simp]: "calm d \<Longrightarrow> kd_now d = IoOk"
  by (simp add: calm_def kd_now_def)

lemma calm_read: "calm d \<Longrightarrow> kd_files d p = Some c \<Longrightarrow> kd_read p d = (Inr c, kd_tick d)"
  by (simp add: kd_read_def)

lemma settled_tick: "settled m d \<Longrightarrow> settled m (kd_tick d)"
  by (simp add: settled_def calm_def kd_tick_def)

lemma settled_read_counter:
  assumes "settled m d"
  shows "settled m (snd (read_counter p d)) \<and>
    fst (read_counter p d) = (case m p of None \<Rightarrow> 0
      | Some raw \<Rightarrow> (case Option.bind (from_utf8 raw) (\<lambda>t. parse_u32 (trim t)) of None \<Rightarrow> 0 | Some n \<Rightarrow> n))"
  using assms settled_tick [OF assms]
  by (cases "m p") (auto simp: read_counter_def kd_read_def settled_def)

lemma settled_atomic_write:
  assumes "settled m d" and "target \<noteq> []" and "tmp_path target \<noteq> target"
  shows "fst (atomic_write target data d) = Inr () \<and>
    settled (m(tmp_path target := None, target \<mapsto> data)) (snd (atomic_write target data d))"
  using assms
  by (auto simp: atomic_write_def Let_def bindS_def kd_create_def kd_write_all_def kd_sync_all_def kd_rename_def
      kd_sync_dir_def kd_change_def kd_tick_def settled_def calm_def kd_now_def moved_def fun_eq_iff)

definition counter_of :: "(path \<rightharpoonup> bytes) \<Rightarrow> u32" where
  "counter_of m = (case m MIGRATION_ATTEMPTS_PATH of None \<Rightarrow> 0
     | Some raw \<Rightarrow> (case Option.bind (from_utf8 raw) (\<lambda>t. parse_u32 (trim t)) of None \<Rightarrow> 0 | Some n \<Rightarrow> n))"

lemma read_counter_settled:
  "settled m d \<Longrightarrow> \<exists>d'. read_counter MIGRATION_ATTEMPTS_PATH d = (counter_of m, d') \<and> settled m d'"
  using settled_read_counter [of m d MIGRATION_ATTEMPTS_PATH] by (simp add: counter_of_def prod_eq_iff)

lemma ascii_show_nat: "from_utf8_lossy (ascii (show_nat n)) = ascii (show_nat n)"
proof (rule from_utf8_lossy_ascii, rule ballI)
  fix b assume "b \<in> set (ascii (show_nat n))"
  then obtain c where "c \<in> set (show_nat n)" "b = word_of_nat (of_char c)"
    by (auto simp: ascii_def)
  with show_nat_digits [OF this(1)] show "b < 0x80"
    by (simp add: word_less_nat_alt unat_of_nat take_bit_nat_eq_self)
qed

lemma counter_of_written [simp]: "counter_of (m(MIGRATION_ATTEMPTS_PATH \<mapsto> ascii (show_nat (unat n)))) = n"
  by (simp add: counter_of_def from_utf8_def ascii_show_nat parse_u32_show)

abbreviation TMP_V2 :: path where
  "TMP_V2 \<equiv> tmp_path SECRET_KEYS_ENC_V2_PATH"

abbreviation TMP_COUNTER :: path where
  "TMP_COUNTER \<equiv> tmp_path MIGRATION_ATTEMPTS_PATH"

lemma stage_settled:
  assumes m: "settled m d" "m SECRET_KEYS_ENC_PATH = Some b" "m SECRET_KEYS_ENC_V2_PATH = None"
    and dec: "decrypt_with_format C pin b = Inr (K, V1Legacy)" and n: "counter_of m < MIGRATION_ATTEMPT_THRESHOLD"
    and enc: "blob_encrypt C salt nonce pin K = Inr v2_blob"
  shows "\<exists>d'. decrypt_secret_keys C salt nonce pin d = (Inr \<lparr>do_plaintext = K, do_migration = Some StagedV2\<rparr>, d') \<and>
    settled (m(TMP_V2 := None, SECRET_KEYS_ENC_V2_PATH \<mapsto> v2_blob, TMP_COUNTER := None,
      MIGRATION_ATTEMPTS_PATH \<mapsto> ascii (show_nat (unat (saturating_inc (counter_of m)))))) d'"
proof -
  have rd: "kd_read SECRET_KEYS_ENC_PATH d = (Inr b, kd_tick d)"
    using m by (simp add: calm_read settled_def)
  obtain d2 where ct: "read_counter MIGRATION_ATTEMPTS_PATH (kd_tick d) = (counter_of m, d2)" and s2: "settled m d2"
    using read_counter_settled [OF settled_tick [OF m(1)]] by auto
  note w = settled_atomic_write [OF s2, of SECRET_KEYS_ENC_V2_PATH v2_blob, OF keys.paths_named(1) keys.paths_neq(10)]
  obtain d3 where w3: "atomic_write SECRET_KEYS_ENC_V2_PATH v2_blob d2 = (Inr (), d3)"
    and s3: "settled (m(TMP_V2 := None, SECRET_KEYS_ENC_V2_PATH \<mapsto> v2_blob)) d3"
    using w by (metis prod.collapse)
  note settled_atomic_write [OF s3, of MIGRATION_ATTEMPTS_PATH
      "ascii (show_nat (unat (saturating_inc (counter_of m))))", OF keys.paths_named(2) keys.paths_neq(16)]
  then obtain d4 where w4: "atomic_write MIGRATION_ATTEMPTS_PATH (ascii (show_nat (unat (saturating_inc (counter_of m))))) d3
      = (Inr (), d4)" and s4: "settled (m(TMP_V2 := None, SECRET_KEYS_ENC_V2_PATH \<mapsto> v2_blob, TMP_COUNTER := None,
      MIGRATION_ATTEMPTS_PATH \<mapsto> ascii (show_nat (unat (saturating_inc (counter_of m)))))) d4"
    by (metis prod.collapse)
  have "decrypt_secret_keys C salt nonce pin d = stage_v1_to_v2 C salt nonce pin SECRET_KEYS_ENC_PATH
      SECRET_KEYS_ENC_V2_PATH MIGRATION_ATTEMPTS_PATH d"
    using m by (simp add: decrypt_secret_keys_def migrate_and_decrypt_def kd_exists_def settled_def)
  also have "\<dots> = (Inr \<lparr>do_plaintext = K, do_migration = Some StagedV2\<rparr>, d4)"
    using n [unfolded not_le [symmetric]] by (simp add: stage_v1_to_v2_def bindS_def rd ct liftK_def dec stage_result_def enc w3 increment_counter_def w4
        returnS_def Let_def)
  finally show ?thesis
    using s4 by blast
qed

lemma verify_settled:
  assumes m: "settled m d" "m SECRET_KEYS_ENC_PATH = Some b" "m SECRET_KEYS_ENC_V2_PATH = Some v2_blob"
    and dec: "blob_decrypt C pin v2_blob = Inr K" and n: "counter_of m < MIGRATION_ATTEMPT_THRESHOLD"
  shows "\<exists>d'. decrypt_secret_keys C salt nonce pin d = (Inr \<lparr>do_plaintext = K, do_migration = Some PromotedV2\<rparr>, d') \<and>
    kd_files d' = m(SECRET_KEYS_ENC_PATH := None, MIGRATION_ATTEMPTS_PATH := None)"
proof -
  obtain d1 where ct: "read_counter MIGRATION_ATTEMPTS_PATH d = (counter_of m, d1)" and s1: "settled m d1"
    using read_counter_settled [OF m(1)] by auto
  have rd: "kd_read SECRET_KEYS_ENC_V2_PATH d1 = (Inr v2_blob, kd_tick d1)"
    using m s1 by (simp add: calm_read settled_def)
  have c: "calm (kd_tick d1)" "kd_files (kd_tick d1) = m"
    using s1 by (simp_all add: settled_def calm_def kd_tick_def)
  define d2 where "d2 = kd_change (m(SECRET_KEYS_ENC_PATH := None)) (kd_tick (kd_tick d1))"
  have rm: "kd_remove SECRET_KEYS_ENC_PATH (kd_tick d1) = (Inr (), d2)"
    using m(2) c by (simp add: kd_remove_def d2_def)
  have c2: "calm d2" "kd_files d2 = m(SECRET_KEYS_ENC_PATH := None)"
    using c by (simp_all add: d2_def calm_def kd_change_def kd_tick_def)
  have "kd_files (snd (clear_counter MIGRATION_ATTEMPTS_PATH d2)) = m(SECRET_KEYS_ENC_PATH := None, MIGRATION_ATTEMPTS_PATH := None)"
    using c2 by (cases "m MIGRATION_ATTEMPTS_PATH")
      (auto simp: clear_counter_def kd_remove_def kd_change_def kd_tick_def fun_eq_iff)
  moreover have "decrypt_secret_keys C salt nonce pin d = verify_v2_or_revert C pin SECRET_KEYS_ENC_PATH
      SECRET_KEYS_ENC_V2_PATH MIGRATION_ATTEMPTS_PATH d"
    using m by (simp add: decrypt_secret_keys_def migrate_and_decrypt_def kd_exists_def settled_def)
  ultimately show ?thesis
    using n [unfolded not_le [symmetric]] by (simp add: verify_v2_or_revert_def ct bindS_def rd dec rm)
qed

lemma verify_disabled:
  assumes m: "settled m d" "m SECRET_KEYS_ENC_PATH = Some b" "m SECRET_KEYS_ENC_V2_PATH = Some v2_blob"
    and dec: "decrypt_with_format C pin b = Inr (K, f)" and n: "MIGRATION_ATTEMPT_THRESHOLD \<le> counter_of m"
  shows "\<exists>d'. decrypt_secret_keys C salt nonce pin d =
    (Inr \<lparr>do_plaintext = K, do_migration = Some (MigrationDisabled (counter_of m))\<rparr>, d') \<and> settled m d'"
proof -
  obtain d1 where ct: "read_counter MIGRATION_ATTEMPTS_PATH d = (counter_of m, d1)" and s1: "settled m d1"
    using read_counter_settled [OF m(1)] by auto
  have rd: "kd_read SECRET_KEYS_ENC_PATH d1 = (Inr b, kd_tick d1)"
    using m s1 by (simp add: calm_read settled_def)
  have "decrypt_secret_keys C salt nonce pin d = verify_v2_or_revert C pin SECRET_KEYS_ENC_PATH
      SECRET_KEYS_ENC_V2_PATH MIGRATION_ATTEMPTS_PATH d"
    using m by (simp add: decrypt_secret_keys_def migrate_and_decrypt_def kd_exists_def settled_def)
  then show ?thesis
    using n settled_tick [OF s1] by (simp add: verify_v2_or_revert_def ct bindS_def rd liftK_def dec returnS_def)
qed

text \<open>A reboot of a settled directory changes nothing.\<close>

lemma settled_power_cut: "settled m d \<Longrightarrow> settled m (kd_power_cut i junk d)"
  by (simp add: settled_def kd_power_cut_def Let_def calm_def)

section \<open>The right PIN unlocks\<close>

lemma calm_tick: "calm d \<Longrightarrow> calm (kd_tick d)"
  by (simp add: calm_def kd_tick_def)

lemma calm_read_counter: "calm d \<Longrightarrow> \<exists>n. read_counter p d = (n, kd_tick d)"
  by (auto simp: read_counter_def kd_read_def split: option.splits)

lemma kd_files_tick [simp]: "kd_files (kd_tick d) = kd_files d"
  by (simp add: kd_tick_def)

text \<open>A legacy file at the legacy path; the other format there is refused.\<close>

definition legacy_at :: "ciphers \<Rightarrow> bytes \<Rightarrow> keys_dir \<Rightarrow> bool" where
  "legacy_at C pin d \<longleftrightarrow>
     (\<forall>b t f. kd_files d SECRET_KEYS_ENC_PATH = Some b \<longrightarrow> decrypt_with_format C pin b = Inr (t, f) \<longrightarrow> f = V1Legacy)"

lemma unlock_returns_stage:
  assumes "calm d" and "kd_files d v1 = Some b" and "decrypt_with_format C pin b = Inr (K, V1Legacy)"
  shows "\<exists>out d'. stage_v1_to_v2 C salt nonce pin v1 v2 counter d = (Inr out, d') \<and> do_plaintext out = K"
proof -
  obtain n where ct: "read_counter counter (kd_tick d) = (n, kd_tick (kd_tick d))"
    using calm_read_counter [OF calm_tick [OF assms(1)]] by blast
  have "\<exists>r d'. stage_result C salt nonce pin v2 K (kd_tick (kd_tick d)) = (r, d')"
    by (metis prod.collapse)
  then obtain r d3 where st: "stage_result C salt nonce pin v2 K (kd_tick (kd_tick d)) = (r, d3)"
    by blast
  obtain r4 d4 where inc: "increment_counter counter n d3 = (r4, d4)"
    by (cases "increment_counter counter n d3")
  show ?thesis
    using assms
    by (cases r; cases r4)
      (simp_all add: stage_v1_to_v2_def bindS_def calm_read ct liftK_def returnS_def st inc)
qed

lemma unlock_returns_verify:
  assumes "calm d" and "kd_files d v1 = Some b" and "decrypt_with_format C pin b = Inr (K, f)"
    and "kd_files d v2 = Some c" and "\<And>t. blob_decrypt C pin c = Inr t \<Longrightarrow> t = K"
  shows "\<exists>out d'. verify_v2_or_revert C pin v1 v2 counter d = (Inr out, d') \<and> do_plaintext out = K"
proof -
  obtain n where ct: "read_counter counter d = (n, kd_tick d)"
    using calm_read_counter [OF assms(1)] by blast
  have c: "calm (kd_tick d)" "calm (kd_tick (kd_tick d))"
    using assms(1) by (simp_all add: calm_tick)
  show ?thesis
    using assms c
    by (cases "blob_decrypt C pin c")
      (simp_all add: verify_v2_or_revert_def bindS_def calm_read ct liftK_def returnS_def kd_remove_def)
qed

lemma unlock_returns:
  assumes "keys_kept C pin K d" and "calm d" and "legacy_at C pin d"
  shows "\<exists>out d'. decrypt_secret_keys C salt nonce pin d = (Inr out, d') \<and> do_plaintext out = K"
proof -
  note r = keys.keys_safe_files [OF assms(1), unfolded recoverable_def]
  show ?thesis
  proof (cases "kd_files d SECRET_KEYS_ENC_PATH")
    case None
    then obtain b where b: "kd_files d SECRET_KEYS_ENC_V2_PATH = Some b" "opens_only C pin K b"
      using r by auto
    then have "blob_decrypt C pin b = Inr K"
      by (auto simp: opens_only_def blob_decrypt_Inr)
    then show ?thesis
      using None b(1) assms(2)
      by (simp add: decrypt_secret_keys_def migrate_and_decrypt_def kd_exists_def bindS_def calm_read liftK_def)
  next
    case (Some b)
    then have dec: "decrypt_with_format C pin b = Inr (K, V1Legacy)"
      using r assms(3) by (fastforce simp: opens_only_def legacy_at_def)
    show ?thesis
    proof (cases "kd_files d SECRET_KEYS_ENC_V2_PATH")
      case None
      then show ?thesis
        using unlock_returns_stage [OF assms(2) Some dec] Some
        by (simp add: decrypt_secret_keys_def migrate_and_decrypt_def kd_exists_def)
    next
      case v2: (Some c)
      have "t = K" if "blob_decrypt C pin c = Inr t" for t
        using r v2 that by (auto simp: blob_decrypt_Inr dest: opens_only_decrypt sealed_decrypt)
      from unlock_returns_verify [OF assms(2) Some dec v2 this] show ?thesis
        using Some v2 by (simp add: decrypt_secret_keys_def migrate_and_decrypt_def kd_exists_def)
    qed
  qed
qed

section \<open>Two boots of a migration\<close>

text \<open>What a settled directory with a legacy file looks like after it was staged.\<close>

definition staged_files :: "bytes \<Rightarrow> (path \<rightharpoonup> bytes) \<Rightarrow> (path \<rightharpoonup> bytes)" where
  "staged_files v2_blob m =
     m(TMP_V2 := None, SECRET_KEYS_ENC_V2_PATH \<mapsto> v2_blob, TMP_COUNTER := None,
       MIGRATION_ATTEMPTS_PATH \<mapsto> ascii (show_nat (unat (saturating_inc (counter_of m)))))"

lemma staged_files_simps [simp]:
  "staged_files v2_blob m SECRET_KEYS_ENC_PATH = m SECRET_KEYS_ENC_PATH"
  "staged_files v2_blob m SECRET_KEYS_ENC_V2_PATH = Some v2_blob"
  "counter_of (staged_files v2_blob m) = saturating_inc (counter_of m)"
  by (simp_all add: staged_files_def)

lemma threshold_steps:
  "n < 3 \<Longrightarrow> n < MIGRATION_ATTEMPT_THRESHOLD \<and> saturating_inc n < MIGRATION_ATTEMPT_THRESHOLD"
proof -
  assume n: "n < 3"
  then have "unat n < 3"
    by (simp add: word_less_nat_alt)
  then have "unat (n + 1) = unat n + 1"
    by (simp add: unat_word_ariths)
  with n \<open>unat n < 3\<close> show ?thesis
    by (auto simp: saturating_inc_def MIGRATION_ATTEMPT_THRESHOLD_def word_less_nat_alt)
qed

lemma stage_then_promote:
  assumes "aead_lawful C" and "valid_text K" and "settled m d" and "m SECRET_KEYS_ENC_PATH = Some b"
    and "m SECRET_KEYS_ENC_V2_PATH = None" and "decrypt_with_format C pin b = Inr (K, V1Legacy)"
    and "blob_encrypt C salt nonce pin K = Inr v2_blob" and "counter_of m < 3"
  shows "\<exists>d1 d2. decrypt_secret_keys C salt nonce pin d = (Inr \<lparr>do_plaintext = K, do_migration = Some StagedV2\<rparr>, d1) \<and>
    decrypt_secret_keys C salt' nonce' pin (kd_power_cut i junk d1) = (Inr \<lparr>do_plaintext = K, do_migration = Some PromotedV2\<rparr>, d2) \<and>
    kd_files d2 SECRET_KEYS_ENC_PATH = None \<and> kd_files d2 SECRET_KEYS_ENC_V2_PATH = Some v2_blob \<and>
    blob_decrypt C pin v2_blob = Inr K"
proof -
  note n = threshold_steps [OF assms(8)]
  obtain d1 where d1: "decrypt_secret_keys C salt nonce pin d = (Inr \<lparr>do_plaintext = K, do_migration = Some StagedV2\<rparr>, d1)"
    and s1: "settled (staged_files v2_blob m) d1"
    using stage_settled [OF assms(3-6) conjunct1 [OF n] assms(7)] by (auto simp: staged_files_def)
  have dec: "blob_decrypt C pin v2_blob = Inr K"
    using blob_round_trip [OF assms(1,2,7)] by (simp add: blob_decrypt_Inr)
  obtain d2 where d2: "decrypt_secret_keys C salt' nonce' pin (kd_power_cut i junk d1)
      = (Inr \<lparr>do_plaintext = K, do_migration = Some PromotedV2\<rparr>, d2)"
    and f2: "kd_files d2 = (staged_files v2_blob m)(SECRET_KEYS_ENC_PATH := None, MIGRATION_ATTEMPTS_PATH := None)"
    using verify_settled [OF settled_power_cut [OF s1] _ _ dec, of b salt' nonce'] assms(4) n by auto
  show ?thesis
    using d1 d2 f2 dec by auto
qed

lemma stage_then_disabled:
  assumes "settled m d" and "m SECRET_KEYS_ENC_PATH = Some b" and "m SECRET_KEYS_ENC_V2_PATH = None"
    and "decrypt_with_format C pin b = Inr (K, V1Legacy)"
    and "blob_encrypt C salt nonce pin K = Inr v2_blob" and "counter_of m = 3"
  shows "\<exists>d1 m1. decrypt_secret_keys C salt nonce pin d = (Inr \<lparr>do_plaintext = K, do_migration = Some StagedV2\<rparr>, d1) \<and>
    settled m1 d1 \<and> (\<forall>d2. settled m1 d2 \<longrightarrow>
      (\<exists>d3. decrypt_secret_keys C salt' nonce' pin d2 = (Inr \<lparr>do_plaintext = K, do_migration = Some (MigrationDisabled 4)\<rparr>, d3) \<and>
        settled m1 d3))"
proof -
  have n: "counter_of m < MIGRATION_ATTEMPT_THRESHOLD" "saturating_inc (counter_of m) = 4"
    using assms(6) by (simp_all add: MIGRATION_ATTEMPT_THRESHOLD_def saturating_inc_def)
  obtain d1 where d1: "decrypt_secret_keys C salt nonce pin d = (Inr \<lparr>do_plaintext = K, do_migration = Some StagedV2\<rparr>, d1)"
    and s1: "settled (staged_files v2_blob m) d1"
    using stage_settled [OF assms(1-4) n(1) assms(5)] by (auto simp: staged_files_def)
  have "\<exists>d3. decrypt_secret_keys C salt' nonce' pin d2 = (Inr \<lparr>do_plaintext = K, do_migration = Some (MigrationDisabled 4)\<rparr>, d3) \<and>
      settled (staged_files v2_blob m) d3" if "settled (staged_files v2_blob m) d2" for d2
    using verify_disabled [OF that _ _ assms(4), of v2_blob salt' nonce'] assms(2) n(2)
    by (simp add: MIGRATION_ATTEMPT_THRESHOLD_def)
  with d1 s1 show ?thesis
    by blast
qed

end
