(* ===== verification/App.thy ===== *)
theory App
  imports High_Watermark Key_Manager Key_Migration
begin

text \<open>
  The application state machine of the device, \<open>rpi-signer/src/app.rs\<close> with the events of
  \<open>events.rs\<close> and \<open>text.rs\<close>: first-boot setup, PIN entry, the active signer and the locked device.
  A handler takes the application state and an event and returns the loop action, the effects to be
  carried out and the new state. The clock (\<open>Instant::now\<close>) and the probe of the partition table
  (\<open>setup::needs_storage_setup\<close>) are arguments. \<open>Secret<T>\<close> is transparent, logging is left out.
  Durations and instants are milliseconds, the animation interval is in nanoseconds.
\<close>

section \<open>Events\<close>

datatype back_target = BackAbout | BackGreeting

datatype config_presence = ConfigPresent | ConfigMissing | ConfigInvalid

datatype app_event =
    AeStartSetup
  | AeStorageSetupComplete
  | AeStorageSetupFailed string
  | AeStorageProgress string u8
  | AeWatermarkConfigChecked config_presence
  | AeFirstPinEntered bytes
  | AePinMismatch
  | AeKeyGenSuccess string
  | AeKeyGenFailed string
  | AeEnterPin
  | AeInvalidPinEntered
  | AePinVerified string "migration_event option"
  | AePinVerifyProgress string nat
  | AeAcknowledgeMigrationNotice string
  | AePinVerificationFailed
  | AeDeviceLocked
  | AeKeysDecrypted string
  | AeInvalidate
  | AeTouch int int
  | AePinEntered bytes
  | AeActivateScreensaver
  | AeDeactivateScreensaver
  | AeShutdown
  | AeWatermarkError string chain_id string
  | AeWatermarkUpdateSuccess
  | AeLargeWatermarkGap string chain_id u32 u32
  | AeWatermarkMissing string chain_id u32
  | AeUnknownKeyRequested string
  | AeUnknownKeyDismissed
  | AeUpdateWatermarkToLevel string chain_id u32
  | AeDialogDismissed
  | AeShowMenu
  | AeShowStatus
  | AeShowSignatures
  | AeShowWatermarks
  | AeShowBlockchain
  | AeShowAbout
  | AeShowGreeting
  | AeShowImage back_target
  | AeRequestShutdown
  | AeFatalError string string

section \<open>Pages and effects\<close>

datatype page_spec =
    PgPinCreate
  | PgPinConfirm
  | PgPinVerify
  | PgMenu
  | PgStatus
  | PgSignatures
  | PgWatermarks
  | PgBlockchain
  | PgAbout
  | PgGreeting
  | PgImage back_target
  | PgDialog string app_event
  | PgConfirmation string app_event app_event bool string
  | PgConfirmationWithPairs string "(string \<times> string) list" app_event app_event bool string
  | PgError string string
  | PgNotice string string app_event
  | PgDeviceLocked

datatype effect =
    EfShowPage page_spec
  | EfShowProgress string "nat option" bool u8
  | EfWakeDisplay
  | EfSleepDisplay
  | EfSleepDevice
  | EfClearDisplay
  | EfEmit app_event
  | EfStartSigner
  | EfInitWatermark string string
  | EfSpawnKeygen bytes
  | EfSpawnPinVerify bytes
  | EfSpawnStorageSetup
  | EfSyncDisk
  | EfDropPrivileges
  | EfRemountKeysReadonly
  | EfWriteSetupMarker
  | EfSetKeyPermissions
  | EfProcessWatermarkConfig
  | EfValidateWatermarkConfig
  | EfVerifyStorage
  | EfUpdateWatermark string chain_id u32
  | EfResetActivity
  | EfDropCurrentPage
  | EfRebuildSavedPage
  | EfFatalError string string
  | EfExit int
  | EfSleep nat

datatype loop_action = LoopContinue | LoopBreak | LoopProceed

section \<open>Deferred rendering\<close>

datatype pending_render = RenderNone | RenderInPlace | RenderTransition

text \<open>The derived order: variants in the order they are declared.\<close>

instantiation pending_render :: linorder
begin

fun rank_pending_render :: "pending_render \<Rightarrow> nat" where
  "rank_pending_render RenderNone = 0"
| "rank_pending_render RenderInPlace = 1"
| "rank_pending_render RenderTransition = 2"

definition less_eq_pending_render :: "pending_render \<Rightarrow> pending_render \<Rightarrow> bool" where
  "a \<le> b \<longleftrightarrow> rank_pending_render a \<le> rank_pending_render b"

definition less_pending_render :: "pending_render \<Rightarrow> pending_render \<Rightarrow> bool" where
  "a < b \<longleftrightarrow> rank_pending_render a < rank_pending_render b"

instance
proof
  fix a b :: pending_render
  show "a \<le> b \<Longrightarrow> b \<le> a \<Longrightarrow> a = b"
    by (cases a; cases b) (simp_all add: less_eq_pending_render_def)
qed (auto simp: less_eq_pending_render_def less_pending_render_def)

end

definition pending_record :: "pending_render \<Rightarrow> pending_render \<Rightarrow> pending_render" where
  "pending_record kind pending = max pending kind"

definition record_invalidate :: "pending_render \<Rightarrow> pending_render" where
  "record_invalidate = pending_record RenderInPlace"

definition record_transition :: "pending_render \<Rightarrow> pending_render" where
  "record_transition = pending_record RenderTransition"

definition pending_take :: "pending_render \<Rightarrow> pending_render \<times> pending_render" where
  "pending_take pending = (pending, RenderNone)"

section \<open>The unknown-key alert\<close>

definition UNKNOWN_KEY_CAP :: nat where
  "UNKNOWN_KEY_CAP = 8"

record unknown_key_alert =
  uk_pkhs :: "string list"
  uk_overflow :: bool
  uk_active :: bool

record alert_content =
  ac_pkh :: string
  ac_others :: nat
  ac_overflow :: bool

definition alert_default :: unknown_key_alert where
  "alert_default = \<lparr>uk_pkhs = [], uk_overflow = False, uk_active = False\<rparr>"

definition alert_record :: "string \<Rightarrow> unknown_key_alert \<Rightarrow> bool \<times> unknown_key_alert" where
  "alert_record pkh a =
     (if pkh \<in> set (uk_pkhs a) then (False, a)
      else if length (uk_pkhs a) < UNKNOWN_KEY_CAP then (True, a\<lparr>uk_pkhs := uk_pkhs a @ [pkh], uk_active := True\<rparr>)
      else if uk_overflow a then (False, a)
      else (True, a\<lparr>uk_overflow := True, uk_active := True\<rparr>))"

definition alert_dismiss :: "unknown_key_alert \<Rightarrow> unknown_key_alert" where
  "alert_dismiss a = a\<lparr>uk_active := False\<rparr>"

definition alert_active :: "unknown_key_alert \<Rightarrow> alert_content option" where
  "alert_active a =
     (if \<not> uk_active a then None
      else if uk_pkhs a = [] then None
      else Some \<lparr>ac_pkh = last (uk_pkhs a), ac_others = length (uk_pkhs a) - 1, ac_overflow = uk_overflow a\<rparr>)"

text \<open>
  \<open>text::truncate_middle\<close>. The slices cut between bytes; the strings shown are Base58 and ASCII, so
  every byte is a character.
\<close>

definition truncate_middle :: "string \<Rightarrow> nat \<Rightarrow> nat \<Rightarrow> string" where
  "truncate_middle s prefix suffix =
     (if length s \<le> prefix + suffix + 3 then s
      else take prefix s @ ''...'' @ drop (length s - suffix) s)"

definition UNKNOWN_KEY_TITLE :: string where
  "UNKNOWN_KEY_TITLE = ''Unknown Key''"

definition newline :: string where
  "newline = [CHR 0x0A]"

definition UNKNOWN_KEY_GUIDANCE :: string where
  "UNKNOWN_KEY_GUIDANCE = ''This device lacks this key. Fix the baker'' @ [CHR 0x27] @ ''s signer config and restart it.''"

definition unknown_key_message :: "alert_content \<Rightarrow> string" where
  "unknown_key_message alert =
     (let pkh = truncate_middle (ac_pkh alert) 8 6;
          suffix = (if ac_overflow alert then '' +'' @ show_nat (ac_others alert) @ ''+''
                    else if ac_others alert = 0 then [] else '' +'' @ show_nat (ac_others alert))
      in pkh @ suffix @ newline @ UNKNOWN_KEY_GUIDANCE)"

section \<open>The key generation gate\<close>

datatype gate_policy = HardFail | WarnAndContinue

text \<open>The policy of an image built without the \<open>warn-only-gate\<close> feature.\<close>

definition KEYGEN_GATE_POLICY :: gate_policy where
  "KEYGEN_GATE_POLICY = HardFail"

fun should_proceed_to_keygen :: "config_presence \<Rightarrow> gate_policy \<Rightarrow> bool" where
  "should_proceed_to_keygen presence WarnAndContinue \<longleftrightarrow> True"
| "should_proceed_to_keygen presence HardFail \<longleftrightarrow> presence = ConfigPresent"

definition CONFIG_GATE_TITLE :: string where
  "CONFIG_GATE_TITLE = ''Card Not Ready''"

definition CONFIG_GATE_MESSAGE :: string where
  "CONFIG_GATE_MESSAGE =
     ''No watermark config is staged on this card. Prepare it on the host with: russignol check disk''"

section \<open>State\<close>

definition MAX_FAILED_ATTEMPTS :: u32 where
  "MAX_FAILED_ATTEMPTS = 5"

definition LOCKOUT_DURATION :: nat where
  "LOCKOUT_DURATION = 5 * 60 * 1000"

definition MIGRATION_REBOOT_COUNTDOWN :: nat where
  "MIGRATION_REBOOT_COUNTDOWN = 5000"

definition EXIT_CODE_REBOOT :: int where
  "EXIT_CODE_REBOOT = 42"

datatype app_state =
    Setup "bytes option"
  | PinEntry u32 "nat option"
  | Active bool
  | Locked

text \<open>
  \<open>App\<close> without the two channels and the locks it shares with other threads: those are part of the
  event loop's state.
\<close>

record ('sk, 'pk) app =
  app_state :: app_state
  current_page_modal :: bool
  current_page_spec :: "page_spec option"
  pending_watermark_level :: "u32 option"
  pending_key_manager :: "('sk, 'pk) key_manager option"
  unknown_keys :: unknown_key_alert
  needs_animation :: bool
  animation_interval :: nat
  pending_render :: pending_render

definition app_new :: "bool \<Rightarrow> ('sk, 'pk) app" where
  "app_new is_first_boot =
     \<lparr>app_state = (if is_first_boot then Setup None else PinEntry 0 None),
      current_page_modal = False, current_page_spec = None, pending_watermark_level = None, pending_key_manager = None,
      unknown_keys = alert_default, needs_animation = False, animation_interval = 1000000000,
      pending_render = RenderNone\<rparr>"

definition is_screensaver_active :: "('sk, 'pk) app \<Rightarrow> bool" where
  "is_screensaver_active a \<longleftrightarrow> app_state a = Active True"

definition should_repaint_on_invalidate :: "('sk, 'pk) app \<Rightarrow> bool" where
  "should_repaint_on_invalidate a \<longleftrightarrow> \<not> is_screensaver_active a"

fun should_flush_repaint :: "('sk, 'pk) app \<Rightarrow> pending_render \<Rightarrow> bool" where
  "should_flush_repaint a RenderNone \<longleftrightarrow> False"
| "should_flush_repaint a RenderInPlace \<longleftrightarrow> should_repaint_on_invalidate a"
| "should_flush_repaint a RenderTransition \<longleftrightarrow> True"

definition set_screensaver :: "bool \<Rightarrow> ('sk, 'pk) app \<Rightarrow> ('sk, 'pk) app" where
  "set_screensaver active a =
     (case app_state a of Active _ \<Rightarrow> a\<lparr>app_state := Active active\<rparr> | _ \<Rightarrow> a)"

type_synonym ('sk, 'pk) handled = "loop_action \<times> effect list \<times> ('sk, 'pk) app"

definition wake_without_rebuild_effects :: "('sk, 'pk) app \<Rightarrow> effect list \<times> ('sk, 'pk) app" where
  "wake_without_rebuild_effects a =
     (if is_screensaver_active a then ([EfWakeDisplay, EfResetActivity], set_screensaver False a) else ([], a))"

text \<open>\<open>effects.insert(1, ..)\<close> of a non-empty list.\<close>

definition wake_from_screensaver_effects :: "('sk, 'pk) app \<Rightarrow> effect list \<times> ('sk, 'pk) app" where
  "wake_from_screensaver_effects a =
     (case wake_without_rebuild_effects a of
        ([], a1) \<Rightarrow> ([], a1)
      | (e # es, a1) \<Rightarrow> (e # EfRebuildSavedPage # es, a1))"

end
