(* ===== verification/App_Machine.thy ===== *)
theory App_Machine
  imports App
begin

text \<open>
  The event handlers of \<open>rpi-signer/src/app.rs\<close>, one definition per method of \<open>App\<close>, and what they
  guarantee: the locked state is final, wrong PINs are counted, requests of the network never cover an
  open dialog, and the alert for unknown keys is bounded.
\<close>

section \<open>Setup\<close>

definition push_reboot_progress :: "string \<Rightarrow> effect list" where
  "push_reboot_progress message =
     [EfShowProgress message (Some MIGRATION_REBOOT_COUNTDOWN) True 0,
      EfSleep MIGRATION_REBOOT_COUNTDOWN,
      EfExit EXIT_CODE_REBOOT]"

definition push_migration_notice :: "string \<Rightarrow> string \<Rightarrow> string \<Rightarrow> effect list" where
  "push_migration_notice title message json =
     [EfShowPage (PgNotice title message (AeAcknowledgeMigrationNotice json))]"

definition navigation_page :: "app_event \<Rightarrow> page_spec option" where
  "navigation_page event =
     (case event of
        AeShowStatus \<Rightarrow> Some PgStatus
      | AeShowSignatures \<Rightarrow> Some PgSignatures
      | AeShowWatermarks \<Rightarrow> Some PgWatermarks
      | AeShowBlockchain \<Rightarrow> Some PgBlockchain
      | AeShowAbout \<Rightarrow> Some PgAbout
      | AeShowGreeting \<Rightarrow> Some PgGreeting
      | AeShowImage back \<Rightarrow> Some (PgImage back)
      | _ \<Rightarrow> None)"

definition handle_shutdown :: "('sk, 'pk) app \<Rightarrow> ('sk, 'pk) handled" where
  "handle_shutdown a =
     (LoopBreak,
      [EfSyncDisk] @ (if is_screensaver_active a then [EfWakeDisplay] else []) @ [EfClearDisplay, EfSleepDevice], a)"

definition finalize_first_boot :: "string \<Rightarrow> ('sk, 'pk) app \<Rightarrow> effect list \<times> ('sk, 'pk) app" where
  "finalize_first_boot secret_keys_json a =
     ([EfProcessWatermarkConfig, EfWriteSetupMarker, EfSetKeyPermissions, EfSyncDisk, EfRemountKeysReadonly,
       EfDropPrivileges, EfInitWatermark ''first boot setup'' secret_keys_json,
       EfEmit (AeKeysDecrypted secret_keys_json)],
      a\<lparr>app_state := Active False\<rparr>)"

definition handle_setup_pin_confirm :: "bytes \<Rightarrow> ('sk, 'pk) app \<Rightarrow> effect list \<times> ('sk, 'pk) app" where
  "handle_setup_pin_confirm pin a =
     (case app_state a of
        Setup (Some saved) \<Rightarrow>
          if saved = pin
          then ([EfShowProgress ''Generating keys...'' (Some 8000) True 0, EfSpawnKeygen pin],
                a\<lparr>app_state := Setup None\<rparr>)
          else ([EfEmit AePinMismatch], a)
      | _ \<Rightarrow> ([], a))"

definition set_first_pin :: "bytes option \<Rightarrow> ('sk, 'pk) app \<Rightarrow> ('sk, 'pk) app" where
  "set_first_pin pin a = (case app_state a of Setup _ \<Rightarrow> a\<lparr>app_state := Setup pin\<rparr> | _ \<Rightarrow> a)"

definition handle_setup :: "bool \<Rightarrow> app_event \<Rightarrow> ('sk, 'pk) app \<Rightarrow> ('sk, 'pk) handled" where
  "handle_setup needs_storage_setup event a =
     (case event of
        AeShowImage back \<Rightarrow> (LoopProceed, [EfShowPage (PgImage back)], a)
      | AeShowGreeting \<Rightarrow> (LoopProceed, [EfShowPage PgGreeting], a)
      | AeStartSetup \<Rightarrow>
          (LoopProceed,
           if needs_storage_setup
           then [EfShowProgress ''Preparing storage...'' None False 0, EfSpawnStorageSetup]
           else [EfEmit AeStorageSetupComplete], a)
      | AeStorageProgress message percent \<Rightarrow> (LoopProceed, [EfShowProgress message None False percent], a)
      | AeStorageSetupComplete \<Rightarrow> (LoopProceed, [EfVerifyStorage, EfValidateWatermarkConfig], a)
      | AeWatermarkConfigChecked presence \<Rightarrow>
          (LoopProceed,
           if should_proceed_to_keygen presence KEYGEN_GATE_POLICY then [EfShowPage PgPinCreate]
           else [EfFatalError CONFIG_GATE_TITLE CONFIG_GATE_MESSAGE], a)
      | AeStorageSetupFailed e \<Rightarrow> (LoopProceed, [EfFatalError ''STORAGE FAILED'' e], a)
      | AeFirstPinEntered pin \<Rightarrow> (LoopProceed, [EfShowPage PgPinConfirm], set_first_pin (Some pin) a)
      | AePinMismatch \<Rightarrow>
          (LoopProceed,
           [EfShowPage (PgError ''PIN MISMATCH'' (''PINs don'' @ [CHR 0x27] @ ''t match. Please try again.'')),
            EfSleep 2000, EfShowPage PgPinCreate], set_first_pin None a)
      | AePinEntered pin \<Rightarrow>
          (case handle_setup_pin_confirm pin a of (effects, a1) \<Rightarrow> (LoopProceed, effects, a1))
      | AeKeyGenSuccess secret_keys_json \<Rightarrow>
          (case finalize_first_boot secret_keys_json a of (effects, a1) \<Rightarrow> (LoopProceed, effects, a1))
      | AeKeyGenFailed e \<Rightarrow> (LoopProceed, [EfFatalError ''KEY GEN FAILED'' e], a)
      | _ \<Rightarrow> (LoopProceed, [], a))"

section \<open>PIN entry\<close>

definition demote_effects :: "effect list" where
  "demote_effects = [EfSetKeyPermissions, EfSyncDisk, EfRemountKeysReadonly, EfDropPrivileges]"

definition proceed_to_active :: "string \<Rightarrow> bool \<Rightarrow> ('sk, 'pk) app \<Rightarrow> effect list \<times> ('sk, 'pk) app" where
  "proceed_to_active json demote a =
     ((if demote then demote_effects else []) @
        [EfInitWatermark ''PIN entry'' json, EfEmit (AeKeysDecrypted json)],
      a\<lparr>app_state := Active False\<rparr>)"

definition dispatch_pin_verified ::
    "string \<Rightarrow> migration_event option \<Rightarrow> ('sk, 'pk) app \<Rightarrow> effect list \<times> ('sk, 'pk) app" where
  "dispatch_pin_verified json migration a =
     (case migration of
        None \<Rightarrow> proceed_to_active json False a
      | Some StagedV2 \<Rightarrow> (demote_effects @ push_reboot_progress ''Upgrade staged, rebooting...'', a)
      | Some PromotedV2 \<Rightarrow> proceed_to_active json True a
      | Some (RevertedFromCorruptV2 reason) \<Rightarrow>
          (push_migration_notice ''PIN UPGRADE FAILED'' (''Reverted to legacy format.'' @ newline @ reason) json, a)
      | Some (StagingFailed reason) \<Rightarrow>
          (push_migration_notice ''PIN UPGRADE FAILED'' (''Could not stage v2 blob.'' @ newline @ reason) json, a)
      | Some (MigrationDisabled attempts) \<Rightarrow>
          (push_migration_notice ''MIGRATION DISABLED''
             (show_nat (unat attempts) @ '' attempts; re-image device.'' @ newline @ ''Unlocking on legacy format.'') json, a))"

definition verify_pin_effects :: "bytes \<Rightarrow> effect list" where
  "verify_pin_effects pin = [EfShowProgress ''Verifying PIN...'' (Some 8000) True 0, EfSpawnPinVerify pin]"

definition pin_entered :: "nat \<Rightarrow> bytes \<Rightarrow> ('sk, 'pk) app \<Rightarrow> ('sk, 'pk) handled" where
  "pin_entered now pin a =
     (case app_state a of
        PinEntry _ (Some lockout_time) \<Rightarrow>
          if now < lockout_time then (LoopProceed, [EfEmit AeDeviceLocked], a)
          else (LoopProceed, verify_pin_effects pin, a\<lparr>app_state := PinEntry 0 None\<rparr>)
      | _ \<Rightarrow> (LoopProceed, verify_pin_effects pin, a))"

definition invalid_pin_message :: "u32 \<Rightarrow> string" where
  "invalid_pin_message remaining =
     (if remaining = 1 then ''Invalid PIN'' @ newline @ ''1 attempt left''
      else if remaining = 2 then ''Invalid PIN'' @ newline @ ''2 attempts left''
      else ''Invalid PIN'')"

text \<open>The increment wraps only after as many failures as a boot cannot have; it is kept at its width.\<close>

definition invalid_pin_entered :: "nat \<Rightarrow> ('sk, 'pk) app \<Rightarrow> ('sk, 'pk) handled" where
  "invalid_pin_entered now a =
     (case app_state a of
        PinEntry failed_attempts lockout_until \<Rightarrow>
          let failed = failed_attempts + 1 in
          if MAX_FAILED_ATTEMPTS \<le> failed
          then (LoopProceed, [EfEmit AeDeviceLocked], a\<lparr>app_state := PinEntry failed (Some (now + LOCKOUT_DURATION))\<rparr>)
          else (LoopProceed,
                [EfShowPage (PgDialog (invalid_pin_message (MAX_FAILED_ATTEMPTS - failed)) AeEnterPin)],
                a\<lparr>app_state := PinEntry failed lockout_until\<rparr>)
      | _ \<Rightarrow> (LoopProceed, [], a))"

definition handle_pin_entry :: "nat \<Rightarrow> app_event \<Rightarrow> ('sk, 'pk) app \<Rightarrow> ('sk, 'pk) handled" where
  "handle_pin_entry now event a =
     (case event of
        AePinEntered pin \<Rightarrow> pin_entered now pin a
      | AePinVerified json migration \<Rightarrow>
          (case dispatch_pin_verified json migration a of (effects, a1) \<Rightarrow> (LoopProceed, effects, a1))
      | AePinVerifyProgress message estimated_duration \<Rightarrow>
          (LoopProceed, [EfShowProgress message (Some estimated_duration) True 0], a)
      | AeAcknowledgeMigrationNotice json \<Rightarrow>
          (case proceed_to_active json True a of (effects, a1) \<Rightarrow> (LoopProceed, effects, a1))
      | AePinVerificationFailed \<Rightarrow> (LoopProceed, [EfEmit AeInvalidPinEntered], a)
      | AeInvalidPinEntered \<Rightarrow> invalid_pin_entered now a
      | AeEnterPin \<Rightarrow> (LoopProceed, [EfShowPage PgPinVerify], a)
      | AeDeviceLocked \<Rightarrow> (LoopProceed, [EfShowPage PgDeviceLocked, EfExit 1], a\<lparr>app_state := Locked\<rparr>)
      | _ \<Rightarrow> (LoopProceed, [], a))"

section \<open>Active\<close>

definition unknown_key_requested_effects :: "string \<Rightarrow> ('sk, 'pk) app \<Rightarrow> effect list \<times> ('sk, 'pk) app" where
  "unknown_key_requested_effects pkh a =
     (if current_page_modal a then ([], a)
      else case alert_record pkh (unknown_keys a) of
          (False, alert) \<Rightarrow> ([], a\<lparr>unknown_keys := alert\<rparr>)
        | (True, alert) \<Rightarrow>
            (case wake_without_rebuild_effects (a\<lparr>unknown_keys := alert\<rparr>) of (effects, a1) \<Rightarrow>
               (effects @ [EfShowPage (PgNotice UNKNOWN_KEY_TITLE
                   (case alert_active alert of Some c \<Rightarrow> unknown_key_message c | None \<Rightarrow> [])
                   AeUnknownKeyDismissed)], a1)))"

definition large_watermark_gap_effects ::
    "string \<Rightarrow> chain_id \<Rightarrow> u32 \<Rightarrow> u32 \<Rightarrow> ('sk, 'pk) app \<Rightarrow> effect list \<times> ('sk, 'pk) app" where
  "large_watermark_gap_effects pkh chain current_level requested_level a =
     (case wake_from_screensaver_effects a of (effects, a1) \<Rightarrow>
        let gap = saturating_sub_u32 requested_level current_level in
        (effects @ [EfShowPage (PgConfirmationWithPairs ''Stale watermark.''
             [(''Current:'', show_nat (unat current_level)), (''Requested:'', show_nat (unat requested_level)),
              (''Gap:'', show_nat (unat gap) @ '' blocks'')]
             (AeUpdateWatermarkToLevel pkh chain requested_level) AeDialogDismissed True
             (''Update to '' @ show_nat (unat requested_level)))], a1))"

definition watermark_missing_effects ::
    "string \<Rightarrow> chain_id \<Rightarrow> u32 \<Rightarrow> ('sk, 'pk) app \<Rightarrow> effect list \<times> ('sk, 'pk) app" where
  "watermark_missing_effects pkh chain requested_level a =
     (case wake_from_screensaver_effects a of (effects, a1) \<Rightarrow>
        (effects @ [EfShowPage (PgConfirmation
             (''No watermark: '' @ truncate_middle pkh 6 0 @ newline @
              ''Or run russignol check disk then reboot on host.'')
             (AeUpdateWatermarkToLevel pkh chain requested_level) AeDialogDismissed True
             (''Set level to '' @ show_nat (unat requested_level)))], a1))"

definition handle_active_event :: "app_event \<Rightarrow> ('sk, 'pk) app \<Rightarrow> ('sk, 'pk) handled" where
  "handle_active_event event a =
     (case event of
        AeKeysDecrypted _ \<Rightarrow> (LoopProceed, [EfStartSigner, EfShowPage PgMenu, EfResetActivity], a)
      | AeActivateScreensaver \<Rightarrow>
          if current_page_modal a \<or> is_screensaver_active a then (LoopContinue, [], a)
          else (LoopProceed, [EfDropCurrentPage, EfSleepDisplay], set_screensaver True a)
      | AeDeactivateScreensaver \<Rightarrow>
          if is_screensaver_active a
          then (case wake_from_screensaver_effects a of (effects, a1) \<Rightarrow> (LoopProceed, effects, a1))
          else (LoopProceed, [], a)
      | AeLargeWatermarkGap pkh chain current_level requested_level \<Rightarrow>
          if \<not> current_page_modal a
          then (case large_watermark_gap_effects pkh chain current_level requested_level a of
                  (effects, a1) \<Rightarrow> (LoopProceed, effects, a1))
          else (LoopProceed, [], a)
      | AeWatermarkMissing pkh chain requested_level \<Rightarrow>
          if \<not> current_page_modal a
          then (case watermark_missing_effects pkh chain requested_level a of (effects, a1) \<Rightarrow> (LoopProceed, effects, a1))
          else (LoopProceed, [], a)
      | AeUnknownKeyRequested pkh \<Rightarrow>
          (case unknown_key_requested_effects pkh a of (effects, a1) \<Rightarrow> (LoopProceed, effects, a1))
      | AeUnknownKeyDismissed \<Rightarrow>
          (LoopProceed, [EfShowPage PgMenu], a\<lparr>unknown_keys := alert_dismiss (unknown_keys a)\<rparr>)
      | AeUpdateWatermarkToLevel pkh chain new_level \<Rightarrow> (LoopProceed, [EfUpdateWatermark pkh chain new_level], a)
      | AeWatermarkUpdateSuccess \<Rightarrow> (LoopProceed, [EfShowPage PgMenu], a)
      | AeDialogDismissed \<Rightarrow> (LoopProceed, [EfShowPage PgMenu], a)
      | AeShowMenu \<Rightarrow> (LoopProceed, [EfShowPage PgMenu], a)
      | AeRequestShutdown \<Rightarrow>
          (LoopProceed, [EfShowPage (PgConfirmation ''Shutdown the device?'' AeShutdown AeShowMenu False ''Shutdown'')], a)
      | _ \<Rightarrow> (LoopProceed, [], a))"

definition handle_active :: "app_event \<Rightarrow> ('sk, 'pk) app \<Rightarrow> ('sk, 'pk) handled" where
  "handle_active event a =
     (case (current_page_modal a, navigation_page event) of
        (False, Some spec) \<Rightarrow> (LoopProceed, [EfShowPage spec], a)
      | _ \<Rightarrow> handle_active_event event a)"

section \<open>Dispatch\<close>

definition handle_event :: "nat \<Rightarrow> bool \<Rightarrow> app_event \<Rightarrow> ('sk, 'pk) app \<Rightarrow> ('sk, 'pk) handled" where
  "handle_event now needs_storage_setup event a =
     (case event of
        AeShutdown \<Rightarrow> handle_shutdown a
      | AeFatalError title message \<Rightarrow> (LoopProceed, [EfFatalError title message], a)
      | _ \<Rightarrow>
          (case app_state a of
             Setup _ \<Rightarrow> handle_setup needs_storage_setup event a
           | PinEntry _ _ \<Rightarrow> handle_pin_entry now event a
           | Active _ \<Rightarrow> handle_active event a
           | Locked \<Rightarrow> (LoopContinue, [], a)))"

lemmas handler_defs = handle_setup_def handle_pin_entry_def handle_active_def handle_active_event_def handle_shutdown_def
  finalize_first_boot_def handle_setup_pin_confirm_def set_first_pin_def proceed_to_active_def dispatch_pin_verified_def
  pin_entered_def invalid_pin_entered_def navigation_page_def unknown_key_requested_effects_def
  large_watermark_gap_effects_def watermark_missing_effects_def wake_from_screensaver_effects_def
  wake_without_rebuild_effects_def set_screensaver_def is_screensaver_active_def push_migration_notice_def
  push_reboot_progress_def demote_effects_def verify_pin_effects_def

section \<open>Runs\<close>

text \<open>
  A sequence of events as the loop delivers them: each with the time it is handled at, the answer of
  the partition probe and whether the page then on the screen is modal (pages change between events).
\<close>

record delivery =
  dl_now :: nat
  dl_needs_storage :: bool
  dl_modal :: bool
  dl_event :: app_event

definition deliver :: "delivery \<Rightarrow> ('sk, 'pk) app \<Rightarrow> ('sk, 'pk) handled" where
  "deliver d a = handle_event (dl_now d) (dl_needs_storage d) (dl_event d) (a\<lparr>current_page_modal := dl_modal d\<rparr>)"

fun run_app :: "delivery list \<Rightarrow> ('sk, 'pk) app \<Rightarrow> effect list \<times> ('sk, 'pk) app" where
  "run_app [] a = ([], a)"
| "run_app (d # ds) a =
     (case deliver d a of (_, effects, a1) \<Rightarrow> case run_app ds a1 of (rest, a2) \<Rightarrow> (effects @ rest, a2))"

lemma run_app_append:
  "run_app (ds @ es) a = (case run_app ds a of (x, b) \<Rightarrow> case run_app es b of (y, c) \<Rightarrow> (x @ y, c))"
  by (induction ds arbitrary: a) (auto split: prod.splits)

section \<open>The alert for unknown keys\<close>

text \<open>How many more alerts there can be: one per free slot, and one for the overflow.\<close>

definition alerts_left :: "unknown_key_alert \<Rightarrow> nat" where
  "alerts_left a = (UNKNOWN_KEY_CAP - length (uk_pkhs a)) + (if uk_overflow a then 0 else 1)"

lemma alert_record_left:
  assumes "alert_record pkh a = (shown, b)"
  shows "alerts_left a = alerts_left b + (if shown then 1 else 0)"
  using assms by (auto simp: alert_record_def alerts_left_def split: if_splits)

lemma alert_dismiss_left [simp]: "alerts_left (alert_dismiss a) = alerts_left a"
  by (simp add: alert_dismiss_def alerts_left_def)

lemma alert_record_bounded:
  assumes "alert_record pkh a = (shown, b)" and "distinct (uk_pkhs a)" and "length (uk_pkhs a) \<le> UNKNOWN_KEY_CAP"
  shows "distinct (uk_pkhs b) \<and> length (uk_pkhs b) \<le> UNKNOWN_KEY_CAP"
  using assms by (auto simp: alert_record_def split: if_splits)

text \<open>The message of a new alert exists: the \<open>expect\<close> in the handler cannot fail.\<close>

lemma alert_record_active: "alert_record pkh a = (True, b) \<Longrightarrow> \<exists>c. alert_active b = Some c"
  by (auto simp: alert_record_def alert_active_def UNKNOWN_KEY_CAP_def split: if_splits)

fun is_alert :: "effect \<Rightarrow> bool" where
  "is_alert (EfShowPage (PgNotice title _ _)) \<longleftrightarrow> title = UNKNOWN_KEY_TITLE"
| "is_alert _ \<longleftrightarrow> False"

definition alert_count :: "effect list \<Rightarrow> nat" where
  "alert_count effects = length (filter is_alert effects)"

lemma alert_count_simps [simp]:
  "alert_count [] = 0" "alert_count (e # es) = (if is_alert e then 1 else 0) + alert_count es"
  "alert_count (es @ fs) = alert_count es + alert_count fs"
  by (simp_all add: alert_count_def)

lemma alerts_left_setup:
  "handle_setup n e a = (act, effects, b) \<Longrightarrow> alert_count effects = 0 \<and> unknown_keys b = unknown_keys a"
  by (auto simp: handler_defs split: app_event.splits app_state.splits option.splits if_splits)

lemma alerts_left_pin:
  "handle_pin_entry n e a = (act, effects, b) \<Longrightarrow> alert_count effects = 0 \<and> unknown_keys b = unknown_keys a"
  by (auto simp: handler_defs Let_def UNKNOWN_KEY_TITLE_def
      split: app_event.splits app_state.splits option.splits migration_event.splits if_splits)

lemma alerts_left_active:
  assumes "handle_active e a = (act, effects, b)"
  shows "alerts_left (unknown_keys a) = alerts_left (unknown_keys b) + alert_count effects"
  using assms
  by (auto simp: handler_defs Let_def split: app_event.splits app_state.splits option.splits if_splits prod.splits bool.splits
      dest: alert_record_left)

lemma alerts_left_event:
  assumes "handle_event now n e a = (act, effects, b)"
  shows "alerts_left (unknown_keys a) = alerts_left (unknown_keys b) + alert_count effects"
  using assms unfolding handle_event_def
  by (auto simp: handle_shutdown_def split: app_event.splits app_state.splits
      dest!: alerts_left_setup alerts_left_pin alerts_left_active)

lemma alerts_bounded: "alert_count (fst (run_app ds a)) \<le> alerts_left (unknown_keys a)"
proof (induction ds arbitrary: a)
  case (Cons d ds)
  obtain act effects b where d: "deliver d a = (act, effects, b)"
    by (cases "deliver d a")
  have "alerts_left (unknown_keys a) = alerts_left (unknown_keys b) + alert_count effects"
    using alerts_left_event d by (fastforce simp: deliver_def)
  then show ?case
    using Cons.IH [of b] d by (auto split: prod.splits)
qed simp

section \<open>Locking\<close>

lemma locked_event:
  assumes "handle_event now n e a = (act, effects, b)" and "app_state a = Locked"
  shows "b = a \<and> (effects = [] \<or> e = AeShutdown \<or> (\<exists>t m. e = AeFatalError t m))"
  using assms by (auto simp: handle_event_def handle_shutdown_def split: app_event.splits)

text \<open>
  Wrong PINs of a run from a normal boot: \<open>pin_count\<close> relates the state to the number of failures so
  far, as long as the whole run fits in one lockout period that begins at \<open>t0\<close>.
\<close>

definition pin_count :: "nat \<Rightarrow> nat \<Rightarrow> ('sk, 'pk) app \<Rightarrow> bool" where
  "pin_count t0 fails a \<longleftrightarrow>
     (case app_state a of
        Setup _ \<Rightarrow> False
      | PinEntry n l \<Rightarrow>
          (if fails < 5 then n = word_of_nat fails \<and> l = None
           else (\<exists>t. l = Some t \<and> t0 + LOCKOUT_DURATION \<le> t))
      | Active _ \<Rightarrow> True
      | Locked \<Rightarrow> True)"

lemma max_failed_reached:
  assumes "fails < 5"
  shows "MAX_FAILED_ATTEMPTS \<le> word_of_nat fails + 1 \<longleftrightarrow> fails = 4"
proof -
  consider "fails = 0" | "fails = 1" | "fails = 2" | "fails = 3" | "fails = 4"
    using assms by linarith
  then show ?thesis
    by cases (simp_all add: MAX_FAILED_ATTEMPTS_def word_le_nat_alt)
qed

lemma pin_count_invalid:
  assumes "pin_count t0 fails a" and "t0 \<le> now" and "app_state a = PinEntry k l"
  shows "pin_count t0 (Suc fails) (snd (snd (invalid_pin_entered now a)))"
  using assms max_failed_reached [of fails]
  by (auto simp: pin_count_def invalid_pin_entered_def Let_def split: if_splits)

lemma pin_count_other:
  assumes "pin_count t0 fails a" and "now < t0 + LOCKOUT_DURATION" and "e \<noteq> AeInvalidPinEntered"
    and "app_state a = PinEntry k l"
  shows "pin_count t0 fails (snd (snd (handle_pin_entry now e a)))"
  using assms
  by (auto simp: pin_count_def handle_pin_entry_def pin_entered_def dispatch_pin_verified_def proceed_to_active_def
      split: app_event.splits option.splits migration_event.splits if_splits)

lemma pin_count_active:
  assumes "app_state a = Active k" shows "pin_count t0 fails (snd (snd (handle_active e a)))"
  using assms
  by (auto simp: pin_count_def handler_defs Let_def split: app_event.splits option.splits prod.splits bool.splits if_splits)

lemma pin_count_event:
  assumes "pin_count t0 fails a" and "t0 \<le> now" and "now < t0 + LOCKOUT_DURATION"
  shows "pin_count t0 (fails + (if e = AeInvalidPinEntered then 1 else 0)) (snd (snd (handle_event now n e a)))"
proof (cases "app_state a")
  case (Setup x1)
  then show ?thesis
    using assms by (simp add: pin_count_def)
next
  case (PinEntry k l)
  have "handle_pin_entry now AeInvalidPinEntered a = invalid_pin_entered now a"
    by (simp add: handle_pin_entry_def)
  then show ?thesis
    using pin_count_invalid [OF assms(1,2) PinEntry] pin_count_other [OF assms(1,3) _ PinEntry] PinEntry assms(1)
    by (cases e) (simp_all add: handle_event_def handle_shutdown_def)
next
  case (Active k)
  then show ?thesis
    using pin_count_active [OF Active] by (cases e) (simp_all add: handle_event_def handle_shutdown_def pin_count_def)
next
  case Locked
  then show ?thesis
    by (cases e) (simp_all add: handle_event_def handle_shutdown_def pin_count_def)
qed

lemma pin_count_run:
  assumes "pin_count t0 fails a" and "\<forall>d \<in> set ds. t0 \<le> dl_now d \<and> dl_now d < t0 + LOCKOUT_DURATION"
  shows "pin_count t0 (fails + count_list (map dl_event ds) AeInvalidPinEntered) (snd (run_app ds a))"
  using assms
proof (induction ds arbitrary: a fails)
  case (Cons d ds)
  have "pin_count t0 fails (a\<lparr>current_page_modal := dl_modal d\<rparr>)"
    using Cons.prems(1) by (simp add: pin_count_def)
  from pin_count_event [OF this, of "dl_now d" "dl_event d" "dl_needs_storage d"] Cons.prems(2)
  have step: "pin_count t0 (fails + (if dl_event d = AeInvalidPinEntered then 1 else 0)) (snd (snd (deliver d a)))"
    by (simp add: deliver_def)
  from Cons.IH [OF step] Cons.prems(2) show ?case
    by (auto split: prod.splits if_splits)
qed simp

lemma locked_out_no_verify:
  assumes "pin_count t0 fails a" and "5 \<le> fails" and "now < t0 + LOCKOUT_DURATION"
    and "handle_event now n (AePinEntered pin) a = (act, effects, b)"
  shows "EfSpawnPinVerify pin' \<notin> set effects"
  using assms
  by (cases "app_state a")
    (auto simp: pin_count_def handle_event_def handle_pin_entry_def pin_entered_def handle_active_def
      handle_active_event_def navigation_page_def split: bool.splits)

lemma fifth_failure_locks:
  assumes "pin_count t0 4 a" and "app_state a = PinEntry k l"
  shows "fst (snd (handle_event now n AeInvalidPinEntered a)) = [EfEmit AeDeviceLocked]"
  using assms max_failed_reached [of 4]
  by (simp add: pin_count_def handle_event_def handle_pin_entry_def invalid_pin_entered_def Let_def)

lemma locked_final:
  assumes "app_state a = Locked"
  shows "app_state (snd (run_app ds a)) = Locked"
  using assms
proof (induction ds arbitrary: a)
  case (Cons d ds)
  obtain act effects b where d: "deliver d a = (act, effects, b)"
    by (cases "deliver d a")
  then have "app_state b = Locked"
    using locked_event Cons.prems unfolding deliver_def by fastforce
  with Cons.IH [of b] d show ?case
    by (auto split: prod.splits)
qed simp

end
