(* ===== verification/Ui_Pages.thy ===== *)
theory Ui_Pages
  imports App_Machine
begin

text \<open>
  The pages that answer touches: \<open>rpi-signer/src/pages/*.rs\<close> and the progress page of
  \<open>libs/ui/src/pages/progress.rs\<close>. A touch lands on a button of the page, a key of the PIN pad or
  beside them; where the buttons are drawn is left to the drawing crates, so the loop takes the hit
  test as a parameter. Shown: the PIN pad never holds more than ten digits, and a page sends only the
  events it was built with.
\<close>

section \<open>Progress\<close>

definition TARGET_FRAME_DURATION_MS :: nat where
  "TARGET_FRAME_DURATION_MS = 600"

text \<open>
  \<open>animation_interval\<close> of a timed page: nanoseconds between frames for a duration in milliseconds,
  between 3 and 100 frames.
\<close>

definition timed_interval :: "nat \<Rightarrow> nat" where
  "timed_interval duration_ms =
     (let num_frames = min 100 (max 3 (duration_ms div TARGET_FRAME_DURATION_MS)) in duration_ms * 1000000 div num_frames)"

text \<open>\<open>set_progress\<close> and the percentage a timed page draws.\<close>

definition capped_percent :: "u8 \<Rightarrow> u8" where
  "capped_percent p = min p 100"

definition timed_percent :: "nat \<Rightarrow> nat \<Rightarrow> nat" where
  "timed_percent elapsed_ms duration_ms = min 100 (elapsed_ms * 100 div duration_ms)"

section \<open>The PIN pad\<close>

datatype pin_mode = PinModeCreate | PinModeConfirm | PinModeVerify

definition MIN_PIN_LENGTH :: nat where
  "MIN_PIN_LENGTH = 5"

definition MAX_PIN_LENGTH :: nat where
  "MAX_PIN_LENGTH = 10"

datatype pin_key = PinDigit u8 | PinBackspace | PinClear | PinEnter

text \<open>One key of the PIN pad: the event it sends, if any, and the digits left on the page.\<close>

definition pin_touch :: "pin_mode \<Rightarrow> pin_key \<Rightarrow> bytes \<Rightarrow> app_event option \<times> bytes" where
  "pin_touch mode key pin =
     (case key of
        PinBackspace \<Rightarrow> (Some AeInvalidate, butlast pin)
      | PinClear \<Rightarrow> (Some AeInvalidate, [])
      | PinEnter \<Rightarrow>
          (case mode of
             PinModeCreate \<Rightarrow> (if MIN_PIN_LENGTH \<le> length pin then Some (AeFirstPinEntered pin) else None, [])
           | _ \<Rightarrow> (Some (AePinEntered pin), []))
      | PinDigit digit \<Rightarrow>
          if length pin < MAX_PIN_LENGTH then (Some AeInvalidate, pin @ [digit]) else (None, pin))"

section \<open>Pages\<close>

text \<open>The page on the screen: one built from a specification, a progress bar, the screensaver.\<close>

datatype shown_page = ShownSpec page_spec | ShownProgress string bool u8 | ShownScreensaver

text \<open>\<open>is_modal\<close> of the page \<open>construct_page\<close> builds.\<close>

fun spec_modal :: "page_spec \<Rightarrow> bool" where
  "spec_modal PgPinCreate \<longleftrightarrow> True"
| "spec_modal PgPinConfirm \<longleftrightarrow> True"
| "spec_modal PgPinVerify \<longleftrightarrow> True"
| "spec_modal (PgDialog _ _) \<longleftrightarrow> True"
| "spec_modal (PgConfirmation _ _ _ _ _) \<longleftrightarrow> True"
| "spec_modal (PgConfirmationWithPairs _ _ _ _ _ _) \<longleftrightarrow> True"
| "spec_modal (PgNotice _ _ _) \<longleftrightarrow> True"
| "spec_modal _ \<longleftrightarrow> False"

text \<open>What a page keeps between touches: the digits of a PIN page, the tab of the image page.\<close>

record page_memory =
  pm_pin :: bytes
  pm_checksums :: bool

definition fresh_memory :: page_memory where
  "fresh_memory = \<lparr>pm_pin = [], pm_checksums = False\<rparr>"

datatype touch_target = OnButton nat | OnPinKey pin_key | Elsewhere

text \<open>The buttons of the menu, row by row.\<close>

definition menu_buttons :: "app_event list" where
  "menu_buttons = [AeShowStatus, AeShowSignatures, AeShowBlockchain, AeShowWatermarks, AeShowAbout, AeRequestShutdown]"

definition menu_touch :: "touch_target \<Rightarrow> app_event option" where
  "menu_touch target = (case target of OnButton i \<Rightarrow> if i < length menu_buttons then Some (menu_buttons ! i) else None | _ \<Rightarrow> None)"

definition pin_page_touch :: "pin_mode \<Rightarrow> touch_target \<Rightarrow> page_memory \<Rightarrow> app_event option \<times> page_memory" where
  "pin_page_touch mode target m =
     (case target of
        OnPinKey key \<Rightarrow> (case pin_touch mode key (pm_pin m) of (e, pin) \<Rightarrow> (e, m\<lparr>pm_pin := pin\<rparr>))
      | _ \<Rightarrow> (None, m))"

text \<open>A touch on the logo is button 0 of the about page and button 1 of the greeting; tabs are buttons.\<close>

definition about_touch :: "touch_target \<Rightarrow> app_event option" where
  "about_touch target = (case target of OnButton _ \<Rightarrow> Some (AeShowImage BackAbout) | _ \<Rightarrow> Some AeShowMenu)"

definition greeting_touch :: "touch_target \<Rightarrow> app_event option" where
  "greeting_touch target =
     (case target of OnButton i \<Rightarrow> Some (if i = 0 then AeStartSetup else AeShowImage BackGreeting) | _ \<Rightarrow> None)"

definition image_touch :: "back_target \<Rightarrow> touch_target \<Rightarrow> page_memory \<Rightarrow> app_event option \<times> page_memory" where
  "image_touch back target m =
     (case target of
        OnButton i \<Rightarrow>
          if pm_checksums m \<noteq> (i \<noteq> 0) then (Some AeInvalidate, m\<lparr>pm_checksums := (i \<noteq> 0)\<rparr>) else (None, m)
      | _ \<Rightarrow> (Some (case back of BackAbout \<Rightarrow> AeShowAbout | BackGreeting \<Rightarrow> AeShowGreeting), m))"

definition dialog_touch :: "app_event \<Rightarrow> touch_target \<Rightarrow> app_event option" where
  "dialog_touch on_dismiss target = (case target of OnButton _ \<Rightarrow> Some on_dismiss | _ \<Rightarrow> None)"

definition notice_touch :: "app_event \<Rightarrow> touch_target \<Rightarrow> app_event option" where
  "notice_touch on_dismiss target = (case target of OnButton _ \<Rightarrow> Some on_dismiss | _ \<Rightarrow> None)"

definition confirmation_touch :: "app_event \<Rightarrow> app_event \<Rightarrow> touch_target \<Rightarrow> app_event option" where
  "confirmation_touch on_confirm on_cancel target =
     (case target of OnButton i \<Rightarrow> Some (if i = 0 then on_confirm else on_cancel) | _ \<Rightarrow> None)"

text \<open>The four pages of figures lead back to the menu wherever they are touched.\<close>

definition status_touch :: "app_event option" where
  "status_touch = Some AeShowMenu"

definition signatures_touch :: "app_event option" where
  "signatures_touch = Some AeShowMenu"

definition watermarks_touch :: "app_event option" where
  "watermarks_touch = Some AeShowMenu"

definition blockchain_touch :: "app_event option" where
  "blockchain_touch = Some AeShowMenu"

lemmas touch_defs = menu_touch_def pin_page_touch_def about_touch_def greeting_touch_def image_touch_def dialog_touch_def
  notice_touch_def confirmation_touch_def status_touch_def signatures_touch_def watermarks_touch_def blockchain_touch_def

text \<open>The page \<open>construct_page\<close> builds, touched.\<close>

fun spec_touch :: "page_spec \<Rightarrow> touch_target \<Rightarrow> page_memory \<Rightarrow> app_event option \<times> page_memory" where
  "spec_touch PgPinCreate target m = pin_page_touch PinModeCreate target m"
| "spec_touch PgPinConfirm target m = pin_page_touch PinModeConfirm target m"
| "spec_touch PgPinVerify target m = pin_page_touch PinModeVerify target m"
| "spec_touch PgMenu target m = (menu_touch target, m)"
| "spec_touch PgStatus target m = (status_touch, m)"
| "spec_touch PgSignatures target m = (signatures_touch, m)"
| "spec_touch PgWatermarks target m = (watermarks_touch, m)"
| "spec_touch PgBlockchain target m = (blockchain_touch, m)"
| "spec_touch PgAbout target m = (about_touch target, m)"
| "spec_touch PgGreeting target m = (greeting_touch target, m)"
| "spec_touch (PgImage back) target m = image_touch back target m"
| "spec_touch (PgDialog _ on_dismiss) target m = (dialog_touch on_dismiss target, m)"
| "spec_touch (PgConfirmation _ on_confirm on_cancel _ _) target m = (confirmation_touch on_confirm on_cancel target, m)"
| "spec_touch (PgConfirmationWithPairs _ _ on_confirm on_cancel _ _) target m = (confirmation_touch on_confirm on_cancel target, m)"
| "spec_touch (PgError _ _) target m = (None, m)"
| "spec_touch (PgNotice _ _ on_dismiss) target m = (notice_touch on_dismiss target, m)"
| "spec_touch PgDeviceLocked target m = (None, m)"

text \<open>The progress page and the screensaver ignore touches.\<close>

fun page_touch :: "shown_page \<Rightarrow> touch_target \<Rightarrow> page_memory \<Rightarrow> app_event option \<times> page_memory" where
  "page_touch (ShownSpec spec) target m = spec_touch spec target m"
| "page_touch (ShownProgress _ _ _) target m = (None, m)"
| "page_touch ShownScreensaver target m = (None, m)"

section \<open>Behaviour\<close>

lemma pin_touch_bounded:
  "length pin \<le> MAX_PIN_LENGTH \<Longrightarrow> length (snd (pin_touch mode key pin)) \<le> MAX_PIN_LENGTH"
  by (auto simp: pin_touch_def split: pin_key.splits pin_mode.splits)

lemma timed_interval_frames:
  "3 * timed_interval d \<le> d * 1000000" "timed_interval d \<le> d * 1000000"
proof -
  have "n * (x div n) \<le> x" for n x :: nat
    by simp
  from this [of "min 100 (max 3 (d div TARGET_FRAME_DURATION_MS))" "d * 1000000"]
  have "min 100 (max 3 (d div TARGET_FRAME_DURATION_MS)) * timed_interval d \<le> d * 1000000"
    by (simp add: timed_interval_def Let_def)
  moreover have "3 \<le> min 100 (max 3 (d div TARGET_FRAME_DURATION_MS))"
    by simp
  ultimately show "3 * timed_interval d \<le> d * 1000000"
    by (meson le_trans mult_le_mono1)
  then show "timed_interval d \<le> d * 1000000"
    by linarith
qed

text \<open>
  The events a touch can send, by page: what the page was built with, a PIN, or navigation.
\<close>

fun navigation_event :: "app_event \<Rightarrow> bool" where
  "navigation_event AeStartSetup \<longleftrightarrow> True"
| "navigation_event AeInvalidate \<longleftrightarrow> True"
| "navigation_event AeShowMenu \<longleftrightarrow> True"
| "navigation_event AeShowStatus \<longleftrightarrow> True"
| "navigation_event AeShowSignatures \<longleftrightarrow> True"
| "navigation_event AeShowWatermarks \<longleftrightarrow> True"
| "navigation_event AeShowBlockchain \<longleftrightarrow> True"
| "navigation_event AeShowAbout \<longleftrightarrow> True"
| "navigation_event AeShowGreeting \<longleftrightarrow> True"
| "navigation_event (AeShowImage _) \<longleftrightarrow> True"
| "navigation_event AeRequestShutdown \<longleftrightarrow> True"
| "navigation_event _ \<longleftrightarrow> False"

fun built_with :: "page_spec \<Rightarrow> app_event list" where
  "built_with (PgDialog _ e) = [e]"
| "built_with (PgConfirmation _ e f _ _) = [e, f]"
| "built_with (PgConfirmationWithPairs _ _ e f _ _) = [e, f]"
| "built_with (PgNotice _ _ e) = [e]"
| "built_with _ = []"

lemma menu_navigation: "i < length menu_buttons \<Longrightarrow> navigation_event (menu_buttons ! i)"
  by (auto simp: menu_buttons_def less_Suc_eq numeral_eq_Suc)

lemma spec_touch_sends:
  assumes "fst (spec_touch spec target m) = Some e"
  shows "navigation_event e \<or> e \<in> set (built_with spec) \<or> (\<exists>pin. e = AePinEntered pin) \<or> (\<exists>pin. e = AeFirstPinEntered pin)"
  using assms
  by (cases spec)
    (auto simp: touch_defs pin_touch_def menu_navigation
      split: touch_target.splits pin_key.splits if_splits back_target.splits)

end
