(* ===== verification/Secret_Keys_Json.thy ===== *)
theory Secret_Keys_Json
  imports Key_Blob Text
begin

text \<open>
  The writer of the key list in \<open>rpi-signer/src/main.rs\<close> (\<open>build_secret_keys_json\<close>, \<open>write_escaped\<close>)
  and the key record of \<open>libs/signer/src/wallet.rs\<close> it reads. A reader for JSON arrays of
  name/value objects, written from the grammar of JSON, is the reference: shown is that it reads back
  exactly the keys that were written, whatever characters their aliases contain.
\<close>

section \<open>The writer\<close>

record stored_key =
  st_alias :: string
  st_public_key_hash :: string
  st_public_key :: string
  st_secret_key :: "string option"

abbreviation quote :: char where
  "quote \<equiv> CHR 0x22"

abbreviation backslash :: char where
  "backslash \<equiv> CHR 0x5C"

text \<open>\<open>{:x}\<close> of one digit.\<close>

definition hex_lower :: "nat \<Rightarrow> char" where
  "hex_lower n = (if n < 10 then char_of (48 + n) else char_of (87 + n))"

text \<open>
  One character. The bytes of a character outside ASCII are pushed as they are, so the text is handled
  byte by byte. \<open>{:04x}\<close> of a number below \<open>0x20\<close> has two leading zeros.
\<close>

definition escape_char :: "char \<Rightarrow> string" where
  "escape_char c =
     (if c = quote then [backslash, quote]
      else if c = backslash then [backslash, backslash]
      else if (of_char c :: nat) < 0x20
      then backslash # ''u00'' @ [hex_lower (of_char c div 16), hex_lower (of_char c mod 16)]
      else [c])"

definition write_escaped :: "string \<Rightarrow> string" where
  "write_escaped s = concat (map escape_char s)"

definition key_object :: "string \<Rightarrow> string \<Rightarrow> string" where
  "key_object alias_text sk =
     CHR ''{'' # quote # ''name'' @ [quote, CHR '':'', quote] @ write_escaped alias_text @ [quote, CHR '','', quote] @ ''value'' @
       [quote, CHR '':'', quote] @ ''unencrypted:'' @ sk @ [quote, CHR ''}'']"

text \<open>The loop, with \<open>first\<close>.\<close>

fun write_keys :: "bool \<Rightarrow> stored_key list \<Rightarrow> string" where
  "write_keys first [] = []"
| "write_keys first (k # ks) =
     (case st_secret_key k of
        None \<Rightarrow> write_keys first ks
      | Some sk \<Rightarrow> (if first then [] else '','') @ key_object (st_alias k) sk @ write_keys False ks)"

definition build_secret_keys_json :: "stored_key list \<Rightarrow> string" where
  "build_secret_keys_json keys = CHR ''['' # write_keys True keys @ '']''"

section \<open>The reference reader\<close>

definition hex4 :: "char \<Rightarrow> char \<Rightarrow> char \<Rightarrow> char \<Rightarrow> nat option" where
  "hex4 a b c d =
     (case (hex_value a, hex_value b, hex_value c, hex_value d) of
        (Some w, Some x, Some y, Some z) \<Rightarrow> Some (((w * 16 + x) * 16 + y) * 16 + z)
      | _ \<Rightarrow> None)"

definition short_escape :: "char \<Rightarrow> char option" where
  "short_escape c =
     (if c = quote \<or> c = backslash \<or> c = CHR ''/'' then Some c
      else if c = CHR ''b'' then Some (CHR 0x08) else if c = CHR ''f'' then Some (CHR 0x0C)
      else if c = CHR ''n'' then Some (CHR 0x0A) else if c = CHR ''r'' then Some (CHR 0x0D)
      else if c = CHR ''t'' then Some (CHR 0x09) else None)"

text \<open>
  The rest of a string after its opening quote: its value and what follows the closing quote. Escapes
  above ASCII are refused: nothing here writes them.
\<close>

function read_string :: "string \<Rightarrow> (string \<times> string) option" where
  "read_string s =
     (case s of
        [] \<Rightarrow> None
      | c # rest \<Rightarrow>
          if c = quote then Some ([], rest)
          else if c = backslash then
            (case rest of
               [] \<Rightarrow> None
             | e # rest1 \<Rightarrow>
                 if e = CHR ''u'' then
                   (case rest1 of
                      h1 # h2 # h3 # h4 # rest2 \<Rightarrow>
                        (case hex4 h1 h2 h3 h4 of
                           Some n \<Rightarrow>
                             if n < 0x80 then map_option (\<lambda>(t, r). (char_of n # t, r)) (read_string rest2) else None
                         | None \<Rightarrow> None)
                    | _ \<Rightarrow> None)
                 else (case short_escape e of
                         Some x \<Rightarrow> map_option (\<lambda>(t, r). (x # t, r)) (read_string rest1)
                       | None \<Rightarrow> None))
          else if (of_char c :: nat) < 0x20 then None
          else map_option (\<lambda>(t, r). (c # t, r)) (read_string rest))"
  by pat_completeness auto
termination
  by (relation "measure length") auto

declare read_string.simps [simp del]

text \<open>What must follow, literally.\<close>

definition expect :: "string \<Rightarrow> string \<Rightarrow> string option" where
  "expect p s = (if take (length p) s = p then Some (drop (length p) s) else None)"

text \<open>One object, and the objects of an array separated by commas.\<close>

definition read_object :: "string \<Rightarrow> ((string \<times> string) \<times> string) option" where
  "read_object s =
     Option.bind (expect (CHR ''{'' # quote # ''name'' @ [quote, CHR '':'', quote]) s) (\<lambda>s1.
       Option.bind (read_string s1) (\<lambda>(name, s2).
         Option.bind (expect (CHR '','' # quote # ''value'' @ [quote, CHR '':'', quote]) s2) (\<lambda>s3.
           Option.bind (read_string s3) (\<lambda>(val, s4).
             map_option (\<lambda>s5. ((name, val), s5)) (expect ''}'' s4)))))"

fun read_objects :: "nat \<Rightarrow> string \<Rightarrow> (string \<times> string) list option" where
  "read_objects 0 s = None"
| "read_objects (Suc fuel) s =
     Option.bind (read_object s) (\<lambda>(e, s1).
       case s1 of
         c # rest \<Rightarrow>
           if c = CHR '']'' \<and> rest = [] then Some [e]
           else if c = CHR '','' then map_option ((#) e) (read_objects fuel rest)
           else None
       | [] \<Rightarrow> None)"

text \<open>Every object takes at least one character, so the length of the text is enough fuel.\<close>

definition read_entries :: "string \<Rightarrow> (string \<times> string) list option" where
  "read_entries s =
     (case s of
        c # rest \<Rightarrow>
          if c \<noteq> CHR ''['' then None else if rest = '']'' then Some [] else read_objects (length s) rest
      | [] \<Rightarrow> None)"

section \<open>What is written is read back\<close>

lemma hex_value_lower: "n < 16 \<Longrightarrow> hex_value (hex_lower n) = Some n"
  by (auto simp: hex_value_def hex_lower_def Let_def of_char_of)

lemma hex4_lower: "m < 256 \<Longrightarrow> hex4 (CHR ''0'') (CHR ''0'') (hex_lower (m div 16)) (hex_lower (m mod 16)) = Some m"
  using hex_value_lower [of "m div 16"] hex_value_lower [of "m mod 16"]
  by (simp add: hex4_def) (simp add: hex_value_def)

lemma read_string_escape:
  "read_string (escape_char c @ s) = map_option (\<lambda>(t, r). (c # t, r)) (read_string s)"
proof -
  have *: "m < 32 \<Longrightarrow> hex4 (CHR ''0'') (CHR ''0'') (hex_lower (m div 16)) (hex_lower (m mod 16)) = Some m" for m
    by (rule hex4_lower) simp
  consider "c = quote" | "c = backslash" | "c \<noteq> quote" "c \<noteq> backslash" "(of_char c :: nat) < 0x20"
    | "c \<noteq> quote" "c \<noteq> backslash" "\<not> (of_char c :: nat) < 0x20"
    by blast
  then show ?thesis
  proof cases
    case 3
    then show ?thesis
      using * [of "of_char c"] by (subst read_string.simps) (simp add: escape_char_def)
  qed (subst read_string.simps; simp add: escape_char_def short_escape_def)+
qed

lemma read_string_written: "read_string (write_escaped t @ quote # s) = Some (t, s)"
proof (induction t)
  case Nil
  show ?case
    by (subst read_string.simps) (simp add: write_escaped_def)
next
  case (Cons c t)
  then show ?case
    using read_string_escape [of c] by (simp add: write_escaped_def)
qed

text \<open>Text that needs no escaping, like Base58.\<close>

definition plain_char :: "char \<Rightarrow> bool" where
  "plain_char c \<longleftrightarrow> c \<noteq> quote \<and> c \<noteq> backslash \<and> 0x20 \<le> (of_char c :: nat) \<and> (of_char c :: nat) < 0x80"

lemma write_escaped_plain: "list_all plain_char s \<Longrightarrow> write_escaped s = s"
  by (induction s) (auto simp: write_escaped_def escape_char_def plain_char_def)

lemma expect_append [simp]: "expect p (p @ s) = Some s"
  by (simp add: expect_def)

lemma read_object_written:
  assumes "list_all plain_char sk"
  shows "read_object (key_object a sk @ s) = Some ((a, ''unencrypted:'' @ sk), s)"
proof -
  have u: "list_all plain_char (''unencrypted:'' @ sk)"
    using assms by (simp add: plain_char_def)
  have r: "read_string (''unencrypted:'' @ sk @ quote # t) = Some (''unencrypted:'' @ sk, t)" for t
    using read_string_written [of "''unencrypted:'' @ sk" t] by (simp only: write_escaped_plain [OF u]) simp
  let ?n = "CHR ''{'' # quote # ''name'' @ [quote, CHR '':'', quote]" and ?v = "CHR '','' # quote # ''value'' @ [quote, CHR '':'', quote]"
  have "key_object a sk @ s = ?n @ (write_escaped a @ quote # (?v @ (''unencrypted:'' @ sk @ quote # (''}'' @ s))))"
    by (simp add: key_object_def)
  then show ?thesis
    unfolding read_object_def by (simp only: expect_append read_string_written r Option.bind.bind_lunit prod.case option.map)
qed

fun written :: "stored_key list \<Rightarrow> (string \<times> string) list" where
  "written [] = []"
| "written (k # ks) =
     (case st_secret_key k of None \<Rightarrow> written ks | Some sk \<Rightarrow> (st_alias k, ''unencrypted:'' @ sk) # written ks)"

definition keys_plain :: "stored_key list \<Rightarrow> bool" where
  "keys_plain ks \<longleftrightarrow> (\<forall>k \<in> set ks. \<forall>sk. st_secret_key k = Some sk \<longrightarrow> list_all plain_char sk)"

lemma write_keys_empty: "written ks = [] \<Longrightarrow> write_keys first ks = []"
  by (induction ks) (auto split: option.splits)

lemma read_objects_rest:
  "keys_plain ks \<Longrightarrow> length (written ks) \<le> fuel \<Longrightarrow>
     Option.bind (Some (e, write_keys False ks @ '']'')) (\<lambda>(e, s1). case s1 of
         c # rest \<Rightarrow> if c = CHR '']'' \<and> rest = [] then Some [e]
           else if c = CHR '','' then map_option ((#) e) (read_objects fuel rest) else None
       | [] \<Rightarrow> None) = Some (e # written ks)"
proof (induction ks arbitrary: fuel e)
  case (Cons k ks)
  show ?case
  proof (cases "st_secret_key k")
    case None
    with Cons show ?thesis by (simp add: keys_plain_def)
  next
    case (Some sk)
    with Cons.prems obtain n where n: "fuel = Suc n" "length (written ks) \<le> n"
      by (cases fuel) auto
    have p: "list_all plain_char sk" "keys_plain ks"
      using Cons.prems(1) Some by (auto simp: keys_plain_def)
    have "read_objects fuel (key_object (st_alias k) sk @ write_keys False ks @ '']'') =
        Some ((st_alias k, ''unencrypted:'' @ sk) # written ks)"
      using Cons.IH [OF p(2) n(2), of "(st_alias k, ''unencrypted:'' @ sk)"] p(1)
      by (simp add: n(1) read_object_written)
    then show ?thesis
      by (simp add: Some)
  qed
qed simp

lemma read_objects_written:
  "keys_plain ks \<Longrightarrow> written ks \<noteq> [] \<Longrightarrow> length (written ks) \<le> fuel \<Longrightarrow>
     read_objects fuel (write_keys True ks @ '']'') = Some (written ks)"
proof (induction ks)
  case (Cons k ks)
  show ?case
  proof (cases "st_secret_key k")
    case None
    with Cons show ?thesis by (simp add: keys_plain_def)
  next
    case (Some sk)
    with Cons.prems obtain n where n: "fuel = Suc n" "length (written ks) \<le> n"
      by (cases fuel) auto
    have p: "list_all plain_char sk" "keys_plain ks"
      using Cons.prems(1) Some by (auto simp: keys_plain_def)
    show ?thesis
      using read_objects_rest [OF p(2) n(2), of "(st_alias k, ''unencrypted:'' @ sk)"] p(1) Some
      by (simp add: n(1) read_object_written)
  qed
qed simp

lemma written_short: "length (written ks) \<le> length (write_keys first ks)"
proof (induction ks arbitrary: first)
  case (Cons k ks)
  from Cons [of False] Cons [of first] show ?case
    by (cases "st_secret_key k") (simp_all add: key_object_def)
qed simp

lemma write_keys_start: "written ks \<noteq> [] \<Longrightarrow> \<exists>t. write_keys True ks = CHR ''{'' # t"
  by (induction ks) (auto simp: key_object_def split: option.splits)

lemma read_entries_written:
  assumes "keys_plain ks"
  shows "read_entries (build_secret_keys_json ks) = Some (written ks)"
proof (cases "written ks = []")
  case True
  then show ?thesis
    by (simp add: read_entries_def build_secret_keys_json_def write_keys_empty)
next
  case False
  have "length (written ks) \<le> length (build_secret_keys_json ks)"
    using written_short [of ks True] by (simp add: build_secret_keys_json_def)
  from read_objects_written [OF assms False this] show ?thesis
    using write_keys_start [OF False] by (auto simp: read_entries_def build_secret_keys_json_def)
qed

text \<open>ASCII aliases and keys give ASCII text.\<close>

definition ascii_text :: "string \<Rightarrow> bool" where
  "ascii_text s \<longleftrightarrow> list_all (\<lambda>c. (of_char c :: nat) < 0x80) s"

lemma ascii_text_append [simp]: "ascii_text (s @ t) \<longleftrightarrow> ascii_text s \<and> ascii_text t"
  "ascii_text (c # t) \<longleftrightarrow> (of_char c :: nat) < 0x80 \<and> ascii_text t" "ascii_text []"
  by (auto simp: ascii_text_def)

lemma ascii_text_valid: "ascii_text s \<Longrightarrow> valid_text s"
  unfolding valid_text_def ascii_text_def
  by (rule from_utf8_lossy_ascii)
    (auto simp: ascii_def list_all_iff word_less_nat_alt unat_of_nat take_bit_nat_eq_self)

lemma ascii_escaped: "ascii_text s \<Longrightarrow> ascii_text (write_escaped s)"
  by (induction s) (auto simp: write_escaped_def escape_char_def hex_lower_def of_char_of)

lemma plain_ascii: "list_all plain_char s \<Longrightarrow> ascii_text s"
  by (auto simp: ascii_text_def list_all_iff plain_char_def)

lemma ascii_keys:
  assumes "keys_plain ks" and "\<forall>k \<in> set ks. ascii_text (st_alias k)"
  shows "ascii_text (build_secret_keys_json ks)"
proof -
  have "ascii_text (write_keys first ks)" for first
    using assms
    by (induction ks arbitrary: first)
      (auto simp: key_object_def keys_plain_def ascii_escaped plain_ascii split: option.splits)
  then show ?thesis
    by (simp add: build_secret_keys_json_def)
qed

end
