(* ===== verification/Signer_Server.thy ===== *)
theory Signer_Server
  imports Connection Text
begin

text \<open>
  \<open>rpi-signer/src/signer_server.rs\<close>: loading the decrypted keys into a key manager, deriving the MAC
  keys of the mark files, opening the mark store and starting the server. The JSON parser is a
  parameter: it maps the text to the list of names and values, or to an error message. Shown: a loaded
  manager is well formed, every entry's signer belongs to the hash it is stored under, and every
  listed key has a MAC key; the start loop never reports a failure.
\<close>

section \<open>Configuration\<close>

record signer_config =
  sc_watermark_dir :: path
  sc_address :: string
  sc_port :: u16
  sc_magic_bytes :: bytes
  sc_check_high_watermark :: bool

definition signer_config_default :: signer_config where
  "signer_config_default =
     \<lparr>sc_watermark_dir = [''data'', ''watermarks''], sc_address = ''169.254.1.1'', sc_port = 7732,
      sc_magic_bytes = all_magic_bytes, sc_check_high_watermark = True\<rparr>"

text \<open>Which callbacks are installed.\<close>

record signer_callbacks =
  cb_watermark_error :: bool
  cb_signing :: bool
  cb_large_gap :: bool
  cb_missing_watermark :: bool
  cb_unknown_key :: bool
  cb_pre_sign :: bool
  cb_post_sign :: bool

section \<open>Loading keys\<close>

type_synonym json_entries = "string \<Rightarrow> string + (string \<times> string) list"

text \<open>\<open>value.strip_prefix(prefix).unwrap_or(value)\<close>.\<close>

definition strip_prefix_or :: "string \<Rightarrow> string \<Rightarrow> string" where
  "strip_prefix_or prefix s = (if take (length prefix) s = prefix then drop (length prefix) s else s)"

fun load_entries ::
    "crates \<Rightarrow> ('sk, 'pk, 'sg) blst \<Rightarrow> (string \<times> string) list \<Rightarrow> ('sk, 'pk) key_manager
      \<Rightarrow> string + ('sk, 'pk) key_manager" where
  "load_entries X B [] km = Inr km"
| "load_entries X B ((name, value) # rest) km =
     (case unencrypted_from_b58check X B (strip_prefix_or ''unencrypted:'' value) of
        Inr signer \<Rightarrow> load_entries X B rest (add_signer (un_public_key_hash signer) signer name km)
      | Inl e \<Rightarrow> Inl (''Failed to load key '' @ [CHR 0x27] @ name @ [CHR 0x27] @ '': '' @ signer_error_text e))"

definition parse_secret_keys ::
    "crates \<Rightarrow> ('sk, 'pk, 'sg) blst \<Rightarrow> json_entries \<Rightarrow> string \<Rightarrow> string + ('sk, 'pk) key_manager" where
  "parse_secret_keys X B json secret_keys_json =
     and_then (map_err (\<lambda>e. ''Failed to parse secret_keys JSON: '' @ e) (json secret_keys_json)) (\<lambda>ents.
       if ents = [] then Inl ''No keys found in secret_keys'' else load_entries X B ents km_new)"

definition mac_keys_from_manager ::
    "crates \<Rightarrow> ('sk, 'pk, 'sg) blst \<Rightarrow> ('sk, 'pk) key_manager \<Rightarrow> (public_key_hash \<rightharpoonup> 32 barray)" where
  "mac_keys_from_manager X B km =
     map_of (map (\<lambda>(pkh, signer). (pkh, watermark_mac_key X B (un_secret_key signer))) (signers km))"

definition load_secret_keys ::
    "crates \<Rightarrow> ('sk, 'pk, 'sg) blst \<Rightarrow> json_entries \<Rightarrow> string
      \<Rightarrow> string + ('sk, 'pk) key_manager \<times> (public_key_hash \<rightharpoonup> 32 barray)" where
  "load_secret_keys X B json secret_keys_json =
     and_then (parse_secret_keys X B json secret_keys_json) (\<lambda>km. Inr (km, mac_keys_from_manager X B km))"

section \<open>The mark store\<close>

definition create_high_watermark ::
    "crates \<Rightarrow> signer_config \<Rightarrow> public_key_hash list \<Rightarrow> (public_key_hash \<rightharpoonup> 32 barray) \<Rightarrow> chain_id
      \<Rightarrow> (fs, string, high_watermark lock option) stateful" where
  "create_high_watermark X config pkhs macs chain f =
     (if sc_check_high_watermark config
      then case create_dir_all (sc_watermark_dir config) f of
          (Inl e, f1) \<Rightarrow> (Inl (''Failed to create watermark directory: '' @ io_error_text e), f1)
        | (Inr _, f1) \<Rightarrow>
            (case hw_new X (sc_watermark_dir config) pkhs macs chain f1 of
               (Inl e, f2) \<Rightarrow> (Inl (''Failed to create high watermark: '' @ io_error_text e), f2)
             | (Inr h, f2) \<Rightarrow> (Inr (Some (Lock False h)), f2))
      else (Inr None, f))"

section \<open>Starting the server\<close>

definition if_set :: "bool \<Rightarrow> ('a \<Rightarrow> 'a) \<Rightarrow> 'a \<Rightarrow> 'a" where
  "if_set b f x = (if b then f x else x)"

text \<open>The handler \<open>run_signer_once\<close> builds.\<close>

definition signer_handler ::
    "signer_config \<Rightarrow> ('sk, 'pk) key_manager lock \<Rightarrow> high_watermark lock option \<Rightarrow> signing_activity lock
      \<Rightarrow> signer_callbacks \<Rightarrow> u32 option \<Rightarrow> ('sk, 'pk) request_handler" where
  "signer_handler config km watermark activity callbacks bpc =
     (let h0 = with_signing_activity activity (rh_new km watermark (Some (sc_magic_bytes config)) True True);
          h1 = if_set (cb_watermark_error callbacks) with_watermark_error_callback h0;
          h2 = if_set (cb_signing callbacks) with_signing_notify h1;
          h3 = (case bpc of Some n \<Rightarrow> if_set (cb_large_gap callbacks) (with_large_gap_callback n) h2 | None \<Rightarrow> h2);
          h4 = if_set (cb_missing_watermark callbacks) with_watermark_missing_callback h3;
          h5 = if_set (cb_unknown_key callbacks) with_unknown_key_callback h4;
          h6 = if_set (cb_pre_sign callbacks) with_pre_sign_callback h5
      in if_set (cb_post_sign callbacks) with_post_sign_callback h6)"

text \<open>
  One run of the server: the address parser and the accept loop of the bound listener are parameters,
  the loop's outcome being how that run ended.
\<close>

definition run_signer_once ::
    "(string \<Rightarrow> string + string) \<Rightarrow> signer_config \<Rightarrow> string + unit \<Rightarrow> string + unit" where
  "run_signer_once parse_addr config served =
     (let addr_str = sc_address config @ '':'' @ show_nat (unat (sc_port config)) in
      and_then (map_err (\<lambda>e. ''Failed to parse address '' @ [CHR 0x27] @ addr_str @ [CHR 0x27] @ '': '' @ e) (parse_addr addr_str))
        (\<lambda>_. map_err (\<lambda>e. ''Server error: '' @ e) served))"

text \<open>
  The restart loop, given how each of its runs ends: \<open>None\<close> when it is still running after all of
  them. A failed run is logged and repeated after five seconds.
\<close>

fun start_integrated_signer ::
    "(string \<Rightarrow> string + string) \<Rightarrow> signer_config \<Rightarrow> (string + unit) list \<Rightarrow> (string + unit) option" where
  "start_integrated_signer parse_addr config [] = None"
| "start_integrated_signer parse_addr config (served # rest) =
     (case run_signer_once parse_addr config served of
        Inr _ \<Rightarrow> Some (Inr ())
      | Inl e \<Rightarrow> start_integrated_signer parse_addr config rest)"

lemma start_never_fails: "start_integrated_signer parse_addr config runs \<noteq> Some (Inl e)"
  by (induction runs) (auto split: sum.splits)

section \<open>Loaded managers\<close>

definition km_consistent :: "crates \<Rightarrow> ('sk, 'pk, 'sg) blst \<Rightarrow> ('sk, 'pk) key_manager \<Rightarrow> bool" where
  "km_consistent X B km \<longleftrightarrow> km_wf km \<and> (\<forall>(p, u) \<in> set (signers km). consistent X B u \<and> un_public_key_hash u = p)"

lemma set_alist_update: "set (AList.update k v al) \<subseteq> insert (k, v) (set al)"
  by (induction al) auto

lemma km_consistent_add:
  assumes "km_consistent X B km" and "consistent X B u"
  shows "km_consistent X B (add_signer (un_public_key_hash u) u name km)"
  using assms set_alist_update [of "un_public_key_hash u" u "signers km"]
  by (auto simp: km_consistent_def km_wf_add_signer) (auto simp: add_signer_def)

lemma load_entries_consistent:
  "load_entries X B ents km = Inr km' \<Longrightarrow> km_consistent X B km \<Longrightarrow> km_consistent X B km'"
proof (induction ents arbitrary: km)
  case (Cons e ents)
  obtain name v where e: "e = (name, v)" by (cases e)
  from Cons.prems(1) obtain u where u: "unencrypted_from_b58check X B (strip_prefix_or ''unencrypted:'' v) = Inr u"
    and rest: "load_entries X B ents (add_signer (un_public_key_hash u) u name km) = Inr km'"
    by (auto simp: e split: sum.splits)
  from Cons.IH [OF rest km_consistent_add [OF Cons.prems(2) consistent_from_b58check [OF u]]] show ?case .
qed simp

lemma load_entries_keys:
  "load_entries X B ents km = Inr km' \<Longrightarrow> fst ` set (signers km) \<subseteq> fst ` set (signers km')"
proof (induction ents arbitrary: km)
  case (Cons e ents)
  obtain name v where e: "e = (name, v)" by (cases e)
  from Cons.prems obtain u where "load_entries X B ents (add_signer (un_public_key_hash u) u name km) = Inr km'"
    by (auto simp: e split: sum.splits)
  from Cons.IH [OF this] show ?case
    by (auto simp: add_signer_def fst_set_update)
qed simp

lemma parse_secret_keys_ok:
  assumes "parse_secret_keys X B json text = Inr km"
  shows "km_consistent X B km \<and> signers km \<noteq> []"
proof -
  obtain ents where load: "load_entries X B ents km_new = Inr km" and "ents \<noteq> []"
    using assms by (auto simp: parse_secret_keys_def result_simps split: if_splits)
  then obtain name v rest u where
    rest: "load_entries X B rest (add_signer (un_public_key_hash u) u name km_new) = Inr km"
    by (cases ents) (auto split: sum.splits)
  have "un_public_key_hash u \<in> fst ` set (signers km)"
    using load_entries_keys [OF rest] by (simp add: add_signer_def km_new_def)
  moreover have "km_consistent X B km"
    using load_entries_consistent [OF load] by (simp add: km_consistent_def) (simp add: km_new_def)
  ultimately show ?thesis
    by auto
qed

lemma mac_keys_cover: "p \<in> fst ` set (signers km) \<Longrightarrow> mac_keys_from_manager X B km p \<noteq> None"
  unfolding mac_keys_from_manager_def map_of_eq_None_iff by force

lemma load_secret_keys_ok:
  assumes "load_secret_keys X B json text = Inr (km, macs)"
  shows "km_consistent X B km" and "list_keys X km \<noteq> []" and "\<forall>p \<in> set (list_keys X km). macs p \<noteq> None"
proof -
  have p: "parse_secret_keys X B json text = Inr km" and m: "macs = mac_keys_from_manager X B km"
    using assms by (auto simp: load_secret_keys_def result_simps)
  show c: "km_consistent X B km"
    using parse_secret_keys_ok [OF p] by simp
  then have s: "set (list_keys X km) = fst ` set (signers km)"
    using list_keys_each_once [of km X] by (simp add: km_consistent_def)
  show "list_keys X km \<noteq> []"
    using parse_secret_keys_ok [OF p] s by auto
  show "\<forall>p \<in> set (list_keys X km). macs p \<noteq> None"
    using s mac_keys_cover [of _ km X B] unfolding m by blast
qed

end
