(* ===== verification/Watermark_Setup.thy ===== *)
theory Watermark_Setup
  imports Key_Migration High_Watermark
begin

text \<open>
  \<open>rpi-signer/src/watermark_setup.rs\<close> and \<open>chain_info.rs\<close>: the configuration the host stages on the
  boot partition, its validation before key generation, its one-time consumption and the chain
  information it leaves on the keys partition. \<open>serde_json\<close> is a parameter; mounting, ownership and
  permissions are operations that succeed or fail. Shown: only a valid configuration is consumed, a
  refused one stays where it is, the gate and the consuming pass agree, and the chain information read
  back is the one staged.
\<close>

section \<open>Data\<close>

record config_chain =
  cc_id :: string
  cc_level :: u32
  cc_name :: string
  cc_blocks_per_cycle :: u32

record watermark_config =
  wc_chain :: config_chain

datatype watermark_result = Configured string u32 | ResNotFound | ResError string

record chain_info =
  ci_id :: string
  ci_name :: string
  ci_blocks_per_cycle :: "u32 option"

text \<open>
  The JSON conversions: parsing a configuration, printing the three fields of the chain information,
  parsing chain information.
\<close>

record setup_json =
  js_config :: "string \<Rightarrow> string + watermark_config"
  js_print_chain :: "string \<Rightarrow> string \<Rightarrow> u32 \<Rightarrow> string + string"
  js_chain :: "string \<Rightarrow> string + chain_info"

definition json_lawful :: "setup_json \<Rightarrow> bool" where
  "json_lawful J \<longleftrightarrow>
     (\<forall>i n b t. js_print_chain J i n b = Inr t \<longrightarrow>
        js_chain J t = Inr \<lparr>ci_id = i, ci_name = n, ci_blocks_per_cycle = Some b\<rparr> \<and> valid_text t)"

definition BOOT_MOUNT :: path where
  "BOOT_MOUNT = [''tmp'', ''boot'']"

definition CONFIG_FILENAME :: string where
  "CONFIG_FILENAME = ''watermark-config.json''"

definition CHAIN_INFO_FILE :: path where
  "CHAIN_INFO_FILE = [''keys'', ''chain_info.json'']"

definition config_path :: path where
  "config_path = BOOT_MOUNT @ [CONFIG_FILENAME]"

text \<open>\<open>WatermarkConfig::configured\<close>.\<close>

definition configured_result :: "watermark_config \<Rightarrow> watermark_result" where
  "configured_result config = Configured (cc_name (wc_chain config)) (cc_level (wc_chain config))"

section \<open>Operations that only succeed or fail\<close>

definition kd_command :: "unit keys_io" where
  "kd_command d = (case kd_now d of IoOk \<Rightarrow> (Inr (), kd_tick d) | IoFail e r \<Rightarrow> (Inl e, kd_tick d))"

text \<open>\<open>fs::write\<close>: create or truncate, then write; never synced here.\<close>

definition kd_fs_write :: "path \<Rightarrow> bytes \<Rightarrow> unit keys_io" where
  "kd_fs_write p data = bindS (kd_create p) (\<lambda>_. kd_write_all p data)"

text \<open>\<open>fs::read_to_string\<close>.\<close>

definition kd_read_to_string :: "path \<Rightarrow> string keys_io" where
  "kd_read_to_string p =
     bindS (kd_read p) (\<lambda>c. liftK (ok_or (IoError InvalidDataKind ''stream did not contain valid UTF-8'') (from_utf8 c)))"

definition map_errS :: "('e \<Rightarrow> 'f) \<Rightarrow> ('s, 'e, 'a) stateful \<Rightarrow> ('s, 'f, 'a) stateful" where
  "map_errS g m s = (case m s of (r, t) \<Rightarrow> (map_err g r, t))"

section \<open>Validation\<close>

definition validate_config :: "watermark_config \<Rightarrow> string + unit" where
  "validate_config config =
     (let chain = wc_chain config in
      if take 3 (cc_id chain) \<noteq> ''Net'' then Inl (''Invalid chain ID format (must start with '' @ [CHR 0x27] @ ''Net'' @ [CHR 0x27] @ '')'')
      else if cc_level chain = 0 then Inl ''Level cannot be 0''
      else if 100000000 < cc_level chain then Inl (''Level suspiciously high ('' @ show_nat (unat (cc_level chain)) @ '')'')
      else Inr ())"

text \<open>\<open>Inl\<close> is the result that says why the file is unusable.\<close>

definition read_and_validate_config ::
    "setup_json \<Rightarrow> path \<Rightarrow> (keys_dir, watermark_result, watermark_config) stateful" where
  "read_and_validate_config J p d =
     (if \<not> kd_exists p d then (Inl ResNotFound, d)
      else bindS (map_errS (\<lambda>e. ResError (''Failed to read config: '' @ io_error_text e)) (kd_read_to_string p))
        (\<lambda>text. case js_config J text of
             Inl e \<Rightarrow> failS (ResError (''Invalid JSON: '' @ e))
           | Inr config \<Rightarrow>
               (case validate_config config of Inl e \<Rightarrow> failS (ResError e) | Inr _ \<Rightarrow> returnS config)) d)"

definition classify_config :: "setup_json \<Rightarrow> path \<Rightarrow> keys_dir \<Rightarrow> watermark_result \<times> keys_dir" where
  "classify_config J p d =
     (case read_and_validate_config J p d of
        (Inr config, d1) \<Rightarrow> (configured_result config, d1)
      | (Inl result, d1) \<Rightarrow> (result, d1))"

section \<open>Consumption\<close>

definition save_chain_info :: "setup_json \<Rightarrow> watermark_config \<Rightarrow> (keys_dir, string, unit) stateful" where
  "save_chain_info J config =
     (let chain = wc_chain config in
      case js_print_chain J (cc_id chain) (cc_name chain) (cc_blocks_per_cycle chain) of
        Inl e \<Rightarrow> failS (''Failed to serialize chain info: '' @ e)
      | Inr json \<Rightarrow>
          bindS (map_errS (\<lambda>e. ''Failed to write chain info: '' @ io_error_text e) (kd_fs_write CHAIN_INFO_FILE (ascii json))) (\<lambda>_.
            bindS (map_errS (\<lambda>e. ''Failed to set chain info owner: '' @ io_error_text e) kd_command) (\<lambda>_.
              bindS (map_errS (\<lambda>e. ''Failed to get chain info metadata: '' @ io_error_text e) kd_command) (\<lambda>_.
                map_errS (\<lambda>e. ''Failed to set chain info permissions: '' @ io_error_text e) kd_command))))"

definition consume_config :: "setup_json \<Rightarrow> watermark_config \<Rightarrow> path \<Rightarrow> keys_dir \<Rightarrow> watermark_result \<times> keys_dir" where
  "consume_config J config p d =
     (case save_chain_info J config d of
        (Inl e, d1) \<Rightarrow> (ResError e, d1)
      | (Inr _, d1) \<Rightarrow> (configured_result config, snd (kd_remove p d1)))"

text \<open>The mount helpers are commands; a leftover mount point is their business.\<close>

definition process_watermark_config :: "setup_json \<Rightarrow> keys_dir \<Rightarrow> watermark_result \<times> keys_dir" where
  "process_watermark_config J d =
     (case kd_command d of
        (Inl e, d1) \<Rightarrow> (ResError (''Failed to mount boot partition: '' @ io_error_text e), d1)
      | (Inr _, d1) \<Rightarrow>
          (case (case read_and_validate_config J config_path d1 of
                   (Inr config, d2) \<Rightarrow> consume_config J config config_path d2
                 | (Inl result, d2) \<Rightarrow> (result, d2)) of
             (result, d3) \<Rightarrow> (result, snd (kd_command d3))))"

definition validate_watermark_config :: "setup_json \<Rightarrow> keys_dir \<Rightarrow> watermark_result \<times> keys_dir" where
  "validate_watermark_config J d =
     (case kd_command d of
        (Inl e, d1) \<Rightarrow> (ResError (''Failed to mount boot partition: '' @ io_error_text e), d1)
      | (Inr _, d1) \<Rightarrow> (case classify_config J config_path d1 of (result, d2) \<Rightarrow> (result, snd (kd_command d2))))"

definition read_chain_info :: "setup_json \<Rightarrow> chain_info keys_io" where
  "read_chain_info J =
     bindS (kd_read_to_string CHAIN_INFO_FILE) (\<lambda>text.
       liftK (map_err (\<lambda>e. IoError InvalidDataKind e) (js_chain J text)))"

section \<open>Behaviour\<close>

lemma command_files: "kd_command d = (r, d') \<Longrightarrow> kd_files d' = kd_files d"
  by (auto simp: kd_command_def kd_tick_def split: io_outcome.splits)

lemma command_files_snd [simp]: "kd_files (snd (kd_command d)) = kd_files d"
  by (metis command_files prod.collapse)

lemma read_files: "kd_read p d = (r, d') \<Longrightarrow> kd_files d' = kd_files d"
  by (auto simp: kd_read_def kd_tick_def split: io_outcome.splits option.splits)

lemma read_validate_files: "read_and_validate_config J p d = (r, d') \<Longrightarrow> kd_files d' = kd_files d"
  by (auto simp: read_and_validate_config_def kd_read_to_string_def bindS_def map_errS_def failS_def returnS_def liftK_def
      split: prod.splits sum.splits if_splits dest!: read_files)

text \<open>The check before key generation changes no file.\<close>

lemma validate_files: "kd_files (snd (validate_watermark_config J d)) = kd_files d"
  by (auto simp: validate_watermark_config_def classify_config_def split: prod.splits sum.splits
      dest!: command_files read_validate_files)

lemma validate_config_ok:
  "validate_config config = Inr () \<longleftrightarrow>
     take 3 (cc_id (wc_chain config)) = ''Net'' \<and> 0 < unat (cc_level (wc_chain config)) \<and>
     unat (cc_level (wc_chain config)) \<le> 100000000"
  by (auto simp: validate_config_def Let_def word_less_nat_alt word_neq_0_conv unat_eq_0 split: if_splits)

lemma read_validate_ok:
  assumes "read_and_validate_config J p d = (Inr config, d')"
  shows "\<exists>raw text. kd_files d p = Some raw \<and> from_utf8 raw = Some text \<and> js_config J text = Inr config \<and>
    validate_config config = Inr ()"
  using assms
  by (auto simp: read_and_validate_config_def bindS_def map_errS_def failS_def returnS_def kd_read_to_string_def liftK_def
      kd_read_def result_simps ok_or_Inr_iff split: prod.splits sum.splits if_splits io_outcome.splits option.splits)

lemma read_validate_never: "read_and_validate_config J p d \<noteq> (Inl (Configured name level), d')"
proof -
  have "map_err (\<lambda>e. ResError (f e)) m \<noteq> Inl (Configured name level)" for f :: "io_error \<Rightarrow> string" and m :: "io_error + string"
    by (cases m) simp_all
  then show ?thesis
    by (auto simp: read_and_validate_config_def bindS_def map_errS_def failS_def returnS_def
        split: prod.splits sum.splits if_splits)
qed

lemma fs_write_files:
  "kd_fs_write p data d = (r, d') \<Longrightarrow>
     (\<forall>q. q \<noteq> p \<longrightarrow> kd_files d' q = kd_files d q) \<and> (is_ok r \<longrightarrow> kd_files d' p = Some data)"
  by (auto simp: kd_fs_write_def bindS_def kd_create_def kd_write_all_def kd_change_def kd_tick_def
      split: prod.splits sum.splits io_outcome.splits residue.splits)

lemma save_chain_files:
  assumes "save_chain_info J config d = (r, d')"
  shows "(\<forall>q. q \<noteq> CHAIN_INFO_FILE \<longrightarrow> kd_files d' q = kd_files d q) \<and>
    (is_ok r \<longrightarrow> (\<exists>json. js_print_chain J (cc_id (wc_chain config)) (cc_name (wc_chain config))
        (cc_blocks_per_cycle (wc_chain config)) = Inr json \<and> kd_files d' CHAIN_INFO_FILE = Some (ascii json)))"
  using assms
  by (auto simp: save_chain_info_def Let_def bindS_def map_errS_def failS_def is_ok_iff map_err_Inr_iff
      split: prod.splits sum.splits dest!: command_files fs_write_files)

lemma paths_setup [simp]: "config_path \<noteq> CHAIN_INFO_FILE" "CHAIN_INFO_FILE \<noteq> config_path"
  by (simp_all add: config_path_def CHAIN_INFO_FILE_def BOOT_MOUNT_def CONFIG_FILENAME_def)

lemma remove_other: "kd_remove p d = (r, d') \<Longrightarrow> q \<noteq> p \<Longrightarrow> kd_files d' q = kd_files d q"
  by (auto simp: kd_remove_def kd_change_def kd_tick_def split: option.splits io_outcome.splits residue.splits)

text \<open>Consumed: the file was valid, and its chain is what the keys partition now says.\<close>

lemma process_configured:
  assumes "process_watermark_config J d = (Configured name level, d')"
  shows "\<exists>raw text config json. kd_files d config_path = Some raw \<and> from_utf8 raw = Some text \<and>
    js_config J text = Inr config \<and> validate_config config = Inr () \<and>
    name = cc_name (wc_chain config) \<and> level = cc_level (wc_chain config) \<and>
    js_print_chain J (cc_id (wc_chain config)) name (cc_blocks_per_cycle (wc_chain config)) = Inr json \<and>
    kd_files d' CHAIN_INFO_FILE = Some (ascii json)"
proof -
  obtain d1 config d2 where c1: "kd_command d = (Inr (), d1)"
    and rv: "read_and_validate_config J config_path d1 = (Inr config, d2)"
    and cc: "fst (consume_config J config config_path d2) = Configured name level"
      "d' = snd (kd_command (snd (consume_config J config config_path d2)))"
    using assms
    by (auto simp: process_watermark_config_def read_validate_never split: prod.splits sum.splits)
  obtain d3 where sv: "save_chain_info J config d2 = (Inr (), d3)" and res: "configured_result config = Configured name level"
    and d': "d' = snd (kd_command (snd (kd_remove config_path d3)))"
    using cc by (auto simp: consume_config_def split: prod.splits sum.splits)
  have "kd_files d' CHAIN_INFO_FILE = kd_files d3 CHAIN_INFO_FILE"
    unfolding d' by (metis command_files paths_setup(2) prod.collapse remove_other)
  then show ?thesis
    using read_validate_ok [OF rv] save_chain_files [OF sv] command_files [OF c1] res
    by (auto simp: configured_result_def)
qed

text \<open>Not consumed: the staged file is still there.\<close>

lemma process_keeps:
  assumes "process_watermark_config J d = (res, d')" and "\<forall>name level. res \<noteq> Configured name level"
  shows "kd_files d' config_path = kd_files d config_path"
  using assms
  by (auto simp: process_watermark_config_def consume_config_def configured_result_def split: prod.splits sum.splits
      dest!: command_files read_validate_files save_chain_files)

lemma chain_info_read_back:
  assumes "json_lawful J" and "js_print_chain J i n b = Inr json" and "kd_files d CHAIN_INFO_FILE = Some (ascii json)"
    and "read_chain_info J d = (r, d')" and "kd_now d = IoOk"
  shows "r = Inr \<lparr>ci_id = i, ci_name = n, ci_blocks_per_cycle = Some b\<rparr>"
  using assms
  by (auto simp: json_lawful_def read_chain_info_def kd_read_to_string_def bindS_def liftK_def kd_read_def from_utf8_def
      valid_text_def)

end
