(* ===== verification/Wallet.thy ===== *)
theory Wallet
  imports Secret_Keys_Json Signer_Server Watermark_Setup
begin

text \<open>
  Creating the keys: \<open>libs/signer/src/wallet.rs\<close> (the key files in the format of the OCaml client),
  \<open>rpi-signer/src/tezos_signer.rs\<close> (the list of public keys) and \<open>generate_and_encrypt_keys\<close> of
  \<open>rpi-signer/src/main.rs\<close>. The JSON reader and printer of \<open>serde_json\<close> are parameters. Shown: the
  keys generated on the first boot are on the keys partition for the PIN chosen, survive a power cut,
  and load into a manager that holds exactly one key per role.
\<close>

section \<open>The wallet\<close>

text \<open>Vectors of \<open>OcamlKeyEntry\<close> with a text, and with a locator and a key, as value.\<close>

record wallet_json =
  wj_texts :: json_entries
  wj_publics :: "string \<Rightarrow> string + (string \<times> string \<times> string) list"
  wj_print_texts :: "(string \<times> string) list \<Rightarrow> string + string"
  wj_print_publics :: "(string \<times> string \<times> string) list \<Rightarrow> string + string"

record wallet =
  wl_base_dir :: path
  wl_secret_keys_dir :: "path option"

text \<open>The default directory is what \<open>ProjectDirs\<close> and the environment say.\<close>

definition wallet_new_with_secret_keys_path :: "path \<Rightarrow> path option \<Rightarrow> path option \<Rightarrow> wallet" where
  "wallet_new_with_secret_keys_path default_dir base secret_keys_dir =
     \<lparr>wl_base_dir = (case base of Some b \<Rightarrow> b | None \<Rightarrow> default_dir), wl_secret_keys_dir = secret_keys_dir\<rparr>"

definition wallet_new :: "path \<Rightarrow> path option \<Rightarrow> wallet" where
  "wallet_new default_dir base =
     \<lparr>wl_base_dir = (case base of Some b \<Rightarrow> b | None \<Rightarrow> default_dir), wl_secret_keys_dir = None\<rparr>"

definition public_key_hashs_file :: "wallet \<Rightarrow> path" where
  "public_key_hashs_file w = wl_base_dir w @ [''public_key_hashs'']"

definition public_keys_file :: "wallet \<Rightarrow> path" where
  "public_keys_file w = wl_base_dir w @ [''public_keys'']"

definition secret_keys_file :: "wallet \<Rightarrow> path" where
  "secret_keys_file w = (case wl_secret_keys_dir w of Some d \<Rightarrow> d | None \<Rightarrow> wl_base_dir w) @ [''secret_keys'']"

text \<open>The directories are mount points; creating them touches no file.\<close>

definition ensure_dirs :: "wallet \<Rightarrow> unit keys_io" where
  "ensure_dirs w =
     bindS kd_command (\<lambda>_. case wl_secret_keys_dir w of Some _ \<Rightarrow> kd_command | None \<Rightarrow> returnS ())"

text \<open>\<open>if path.exists() { read.ok().and_then(parse.ok()).unwrap_or_default() } else { Vec::new() }\<close>.\<close>

definition read_optional :: "(string \<Rightarrow> string + 'a list) \<Rightarrow> path \<Rightarrow> keys_dir \<Rightarrow> 'a list \<times> keys_dir" where
  "read_optional parse p d =
     (if kd_exists p d
      then case kd_read_to_string p d of (r, d1) \<Rightarrow>
          (case Option.bind (ok r) (\<lambda>c. ok (parse c)) of Some es \<Rightarrow> es | None \<Rightarrow> [], d1)
      else ([], d))"

text \<open>The text of a secret key entry: encrypted ones are skipped.\<close>

definition entry_secret :: "string \<Rightarrow> string option" where
  "entry_secret v =
     (case strip_prefix ''unencrypted:'' v of
        Some k \<Rightarrow> Some k
      | None \<Rightarrow> (case strip_prefix ''encrypted:'' v of Some _ \<Rightarrow> None | None \<Rightarrow> Some v))"

definition stored_of ::
    "(string \<times> string \<times> string) list \<Rightarrow> (string \<times> string) list \<Rightarrow> string \<times> string \<Rightarrow> stored_key" where
  "stored_of pubs secs e =
     (case e of (name, hash) \<Rightarrow>
        \<lparr>st_alias = name, st_public_key_hash = hash,
         st_public_key = (case List.find (\<lambda>(n, _, _). n = name) pubs of Some (_, _, k) \<Rightarrow> k | None \<Rightarrow> []),
         st_secret_key = Option.bind (List.find (\<lambda>(n, _). n = name) secs) (\<lambda>(_, v). entry_secret v)\<rparr>)"

definition load_keys :: "wallet_json \<Rightarrow> wallet \<Rightarrow> keys_dir \<Rightarrow> (string \<rightharpoonup> stored_key) \<times> keys_dir" where
  "load_keys J w d =
     (if \<not> kd_exists (public_key_hashs_file w) d then (Map.empty, d)
      else case kd_read_to_string (public_key_hashs_file w) d of
          (Inl _, d1) \<Rightarrow> (Map.empty, d1)
        | (Inr hash_content, d1) \<Rightarrow>
            (case wj_texts J hash_content of
               Inl _ \<Rightarrow> (Map.empty, d1)
             | Inr hash_entries \<Rightarrow>
                 (case read_optional (wj_publics J) (public_keys_file w) d1 of (pubs, d2) \<Rightarrow>
                  case read_optional (wj_texts J) (secret_keys_file w) d2 of (secs, d3) \<Rightarrow>
                    (foldl (\<lambda>m e. m(fst e \<mapsto> stored_of pubs secs e)) Map.empty hash_entries, d3))))"

definition gen_keys_in_memory ::
    "crates \<Rightarrow> ('sk, 'pk, 'sg) blst \<Rightarrow> wallet_json \<Rightarrow> wallet \<Rightarrow> string + 32 barray \<Rightarrow> string \<Rightarrow> bool
      \<Rightarrow> (keys_dir, string, stored_key) stateful" where
  "gen_keys_in_memory X B J w random name force d =
     (case load_keys J w d of (ks, d1) \<Rightarrow>
        if ks name \<noteq> None \<and> \<not> force
        then (Inl (''Key '' @ [CHR 0x27] @ name @ [CHR 0x27] @ '' already exists. Use --force to overwrite.''), d1)
        else (and_then (map_err (\<lambda>e. ''Failed to generate keypair: '' @ signer_error_text e)
                (unencrypted_generate X B random None)) (\<lambda>signer.
                Inr \<lparr>st_alias = name, st_public_key_hash = pkh_to_b58check X (un_public_key_hash signer),
                     st_public_key = pk_to_b58check X B (un_public_key signer),
                     st_secret_key = Some (sk_to_b58check X B (un_secret_key signer))\<rparr>), d1))"

definition save_public_keys_only :: "wallet_json \<Rightarrow> wallet \<Rightarrow> stored_key list \<Rightarrow> (keys_dir, string, unit) stateful" where
  "save_public_keys_only J w ks =
     (let hash_entries = map (\<lambda>k. (st_alias k, st_public_key_hash k)) ks;
          pubkey_entries = map (\<lambda>k. (st_alias k, ''unencrypted:'' @ st_public_key k, st_public_key k)) ks in
      bindS (map_errS (\<lambda>e. ''Failed to create directories: '' @ io_error_text e) (ensure_dirs w)) (\<lambda>_.
        case wj_print_texts J hash_entries of
          Inl e \<Rightarrow> failS (''Failed to serialize public_key_hashs: '' @ e)
        | Inr hash_content \<Rightarrow>
            bindS (map_errS (\<lambda>e. ''Failed to write public_key_hashs: '' @ io_error_text e)
                     (kd_fs_write (public_key_hashs_file w) (ascii hash_content))) (\<lambda>_.
              case wj_print_publics J pubkey_entries of
                Inl e \<Rightarrow> failS (''Failed to serialize public_keys: '' @ e)
              | Inr pubkey_content \<Rightarrow>
                  map_errS (\<lambda>e. ''Failed to write public_keys: '' @ io_error_text e)
                    (kd_fs_write (public_keys_file w) (ascii pubkey_content)))))"

section \<open>The list of public keys\<close>

definition order_keys :: "(string \<rightharpoonup> stored_key) \<Rightarrow> (string \<times> string) list" where
  "order_keys by_alias =
     map (\<lambda>k. (st_alias k, st_public_key_hash k)) (List.map_filter (\<lambda>role. by_alias (device_alias role)) KEY_ROLE_ALL)"

definition KEYS_DIR :: path where
  "KEYS_DIR = [''keys'']"

definition load_keys_from_disk :: "wallet_json \<Rightarrow> keys_dir \<Rightarrow> (string \<times> string) list \<times> keys_dir" where
  "load_keys_from_disk J d =
     (case load_keys J (wallet_new [] (Some KEYS_DIR)) d of (by_alias, d1) \<Rightarrow> (order_keys by_alias, d1))"

text \<open>The process-wide cache is passed in and out; an empty list is not kept.\<close>

definition get_keys ::
    "wallet_json \<Rightarrow> (string \<times> string) list option \<Rightarrow> keys_dir
      \<Rightarrow> (string \<times> string) list \<times> (string \<times> string) list option \<times> keys_dir" where
  "get_keys J cached d =
     (case cached of
        Some ks \<Rightarrow> (ks, cached, d)
      | None \<Rightarrow>
          (case load_keys_from_disk J d of (ks, d1) \<Rightarrow> (ks, if ks = [] then None else Some ks, d1)))"

section \<open>Generating the device keys\<close>

fun gen_roles ::
    "crates \<Rightarrow> ('sk, 'pk, 'sg) blst \<Rightarrow> wallet_json \<Rightarrow> wallet \<Rightarrow> (key_role \<Rightarrow> string + 32 barray) \<Rightarrow> key_role list
      \<Rightarrow> (keys_dir, string, stored_key list) stateful" where
  "gen_roles X B J w random [] = returnS []"
| "gen_roles X B J w random (role # roles) =
     bindS (map_errS (\<lambda>e. ''Failed to generate '' @ device_alias role @ '' key: '' @ e)
              (gen_keys_in_memory X B J w (random role) (device_alias role) False)) (\<lambda>key.
       bindS (gen_roles X B J w random roles) (\<lambda>ks. returnS (key # ks)))"

definition generate_and_encrypt_keys ::
    "crates \<Rightarrow> ('sk, 'pk, 'sg) blst \<Rightarrow> ciphers \<Rightarrow> wallet_json \<Rightarrow> (key_role \<Rightarrow> string + 32 barray)
      \<Rightarrow> 16 barray \<Rightarrow> 12 barray \<Rightarrow> bytes \<Rightarrow> (keys_dir, string, string) stateful" where
  "generate_and_encrypt_keys X B C J random salt nonce pin =
     (let w = wallet_new [] (Some KEYS_DIR) in
      bindS (gen_roles X B J w random KEY_ROLE_ALL) (\<lambda>generated.
        let secret_keys_json = build_secret_keys_json generated in
        bindS (map_errS (\<lambda>e. ''Failed to encrypt keys: '' @ io_error_text e)
                 (encrypt_secret_keys C salt nonce pin secret_keys_json)) (\<lambda>_.
          bindS (map_errS (\<lambda>e. ''Failed to save public keys: '' @ e) (save_public_keys_only J w generated)) (\<lambda>_.
            returnS secret_keys_json))))"

section \<open>What the first boot leaves\<close>

lemma settled_command: "settled m d \<Longrightarrow> kd_command d = (Inr (), kd_tick d) \<and> settled m (kd_tick d)"
  by (auto simp: kd_command_def settled_tick) (simp add: settled_def)

lemma settled_read: "settled m d \<Longrightarrow> settled m (snd (kd_read p d))"
  using settled_tick [of m d] by (auto simp: kd_read_def settled_def split: option.splits)

lemma settled_read_to_string: "settled m d \<Longrightarrow> settled m (snd (kd_read_to_string p d))"
  using settled_read [of m d p] by (auto simp: kd_read_to_string_def bindS_def liftK_def split: prod.splits sum.splits)

lemma settled_read_optional: "read_optional parse p d = (r, d') \<Longrightarrow> settled m d \<Longrightarrow> settled m d'"
  using settled_read_to_string [of m d p] by (auto simp: read_optional_def split: prod.splits if_splits)

lemma settled_load_keys: "settled m d \<Longrightarrow> settled m (snd (load_keys J w d))"
  using settled_read_to_string [of m d "public_key_hashs_file w"]
  by (auto simp: load_keys_def split: prod.splits sum.splits dest: settled_read_optional)

definition generated_key :: "crates \<Rightarrow> ('sk, 'pk, 'sg) blst \<Rightarrow> (key_role \<Rightarrow> string + 32 barray) \<Rightarrow> key_role \<Rightarrow> stored_key \<Rightarrow> bool" where
  "generated_key X B random role k \<longleftrightarrow>
     st_alias k = device_alias role \<and>
     (\<exists>u. unencrypted_generate X B (random role) None = Inr u \<and> st_secret_key k = Some (sk_to_b58check X B (un_secret_key u)))"

lemma gen_key_ok:
  assumes "gen_keys_in_memory X B J w (random role) (device_alias role) force d = (Inr k, d')" and "settled m d"
  shows "settled m d' \<and> generated_key X B random role k"
  using assms settled_load_keys [OF assms(2), of J w]
  by (auto simp: gen_keys_in_memory_def generated_key_def result_simps split: prod.splits if_splits)

lemma gen_roles_ok:
  assumes "gen_roles X B J w random roles d = (Inr ks, d')" and "settled m d"
  shows "settled m d' \<and> list_all2 (generated_key X B random) roles ks"
  using assms
proof (induction roles arbitrary: d ks)
  case (Cons role roles)
  then obtain k ks1 d1 where g: "gen_keys_in_memory X B J w (random role) (device_alias role) False d = (Inr k, d1)"
    and rest: "gen_roles X B J w random roles d1 = (Inr ks1, d')" and ks: "ks = k # ks1"
    by (auto simp: bindS_def map_errS_def returnS_def map_err_Inr_iff split: prod.splits sum.splits)
  from gen_key_ok [of X B J w random role, OF g Cons.prems(2)] Cons.IH [OF rest] ks show ?case
    by auto
qed (simp add: returnS_def)

text \<open>Writing the public keys leaves the encrypted ones alone.\<close>

lemma kept_command: "kd_command d = (r, d') \<Longrightarrow> keys_kept C pin K d \<Longrightarrow> keys_kept C pin K d'"
  by (auto simp: kd_command_def split: io_outcome.splits)

lemma kept_fs_write:
  assumes "kd_fs_write p data d = (r, d')" and "keys_kept C pin K d" and "p \<noteq> SECRET_KEYS_ENC_PATH" and "p \<noteq> SECRET_KEYS_ENC_V2_PATH"
  shows "keys_kept C pin K d'"
proof -
  obtain r1 d1 where c: "kd_create p d = (r1, d1)" by (cases "kd_create p d")
  obtain r2 d2 where w: "kd_write_all p data d1 = (r2, d2)" by (cases "kd_write_all p data d1")
  have "keys_kept C pin K d1"
    using keys.safe_create [OF c assms(2-4)] by simp
  moreover from this have "keys_kept C pin K d2"
    using keys.safe_write [OF w _ assms(3,4)] by simp
  ultimately show ?thesis
    using assms(1) c w by (auto simp: kd_fs_write_def bindS_def split: sum.splits)
qed

lemma device_files [simp]:
  "public_key_hashs_file (wallet_new [] (Some KEYS_DIR)) = [''keys'', ''public_key_hashs'']"
  "public_keys_file (wallet_new [] (Some KEYS_DIR)) = [''keys'', ''public_keys'']"
  "wl_secret_keys_dir (wallet_new [] (Some KEYS_DIR)) = None"
  by (simp_all add: public_key_hashs_file_def public_keys_file_def wallet_new_def KEYS_DIR_def)

lemma device_files_other [simp]:
  "[''keys'', ''public_key_hashs''] \<noteq> SECRET_KEYS_ENC_PATH" "[''keys'', ''public_key_hashs''] \<noteq> SECRET_KEYS_ENC_V2_PATH"
  "[''keys'', ''public_keys''] \<noteq> SECRET_KEYS_ENC_PATH" "[''keys'', ''public_keys''] \<noteq> SECRET_KEYS_ENC_V2_PATH"
  by (simp_all add: SECRET_KEYS_ENC_PATH_def SECRET_KEYS_ENC_V2_PATH_def)

lemma kept_save_public:
  assumes "save_public_keys_only J (wallet_new [] (Some KEYS_DIR)) ks d = (r, d')" and "keys_kept C pin K d"
  shows "keys_kept C pin K d'"
  using assms
  by (auto simp: save_public_keys_only_def Let_def ensure_dirs_def bindS_def map_errS_def returnS_def failS_def
      split: prod.splits sum.splits dest!: kept_command kept_fs_write)

lemma settled_kept:
  assumes "settled m d" and "recoverable SECRET_KEYS_ENC_PATH SECRET_KEYS_ENC_V2_PATH C pin K m"
  shows "keys_kept C pin K d"
  using assms by (simp add: settled_def keys_safe_def)

text \<open>
  What is needed of the crates: Base58 text needs no escaping in JSON, and the JSON reader agrees with
  the reference on the texts written here.
\<close>

definition bs58_plain :: "crates \<Rightarrow> bool" where
  "bs58_plain X \<longleftrightarrow> (\<forall>bs. list_all plain_char (bs58_encode X bs))"

definition json_reads :: "json_entries \<Rightarrow> bool" where
  "json_reads E \<longleftrightarrow> (\<forall>t es. read_entries t = Some es \<longrightarrow> E t = Inr es)"

lemma generated_plain: "list_all2 (generated_key X B random) roles ks \<Longrightarrow> bs58_plain X \<Longrightarrow> keys_plain ks"
  by (induction rule: list_all2_induct)
    (auto simp: keys_plain_def generated_key_def bs58_plain_def sk_to_b58check_def b58_encode_def Let_def)

lemma ascii_alias: "ascii_text (device_alias role)"
  by (cases role) simp_all

lemma generated_ascii: "list_all2 (generated_key X B random) roles ks \<Longrightarrow> \<forall>k \<in> set ks. ascii_text (st_alias k)"
  by (induction rule: list_all2_induct) (auto simp: generated_key_def ascii_alias)

lemma strip_unencrypted [simp]: "strip_prefix_or ''unencrypted:'' (''unencrypted:'' @ s) = s"
  by (simp add: strip_prefix_or_def)

lemma load_generated:
  assumes laws: "bs58_lawful X" "blst_sk_lawful B" and "list_all2 (generated_key X B random) roles ks"
    and us: "list_all2 (\<lambda>role u. unencrypted_generate X B (random role) None = Inr u) roles us"
  shows "load_entries X B (written ks) km =
    Inr (fold (\<lambda>(role, u). add_signer (un_public_key_hash u) u (device_alias role)) (zip roles us) km)"
  using assms(3) us
proof (induction arbitrary: km us rule: list_all2_induct)
  case (Cons role roles k ks)
  then obtain u us' where u: "us = u # us'" "unencrypted_generate X B (random role) None = Inr u"
    and rest: "list_all2 (\<lambda>role u. unencrypted_generate X B (random role) None = Inr u) roles us'"
    by (auto simp: list_all2_Cons1)
  have "unencrypted_new X B (un_secret_key u) = u"
    using consistent_generate [OF u(2)] by (simp add: unencrypted_new_def consistent_def Let_def)
  then have "unencrypted_from_b58check X B (sk_to_b58check X B (un_secret_key u)) = Inr u"
    using unencrypted_from_to_b58check [OF laws] by simp
  moreover have "st_secret_key k = Some (sk_to_b58check X B (un_secret_key u))" "st_alias k = device_alias role"
    using Cons.hyps(1) u(2) by (auto simp: generated_key_def)
  ultimately show ?case
    using Cons.IH [OF rest] by (simp add: u(1) strip_prefix_or_def)
qed simp

definition device_manager :: "('sk, 'pk) unencrypted \<Rightarrow> ('sk, 'pk) unencrypted \<Rightarrow> ('sk, 'pk) key_manager" where
  "device_manager consensus companion =
     add_signer (un_public_key_hash companion) companion ''companion''
       (add_signer (un_public_key_hash consensus) consensus ''consensus'' km_new)"

lemma keygen_ok:
  assumes run: "generate_and_encrypt_keys X B C J random salt nonce pin d = (Inr json, d')"
    and d: "settled m d" "m SECRET_KEYS_ENC_PATH = None"
    and crates: "bs58_lawful X" "bs58_plain X" "blst_sk_lawful B" "json_reads E"
    and cipher: "aead_lawful C" "kdf_injective C"
  shows "keys_kept C pin json d' \<and> valid_text json \<and>
    (\<exists>consensus companion macs. unencrypted_generate X B (random Consensus) None = Inr consensus \<and>
       unencrypted_generate X B (random Companion) None = Inr companion \<and>
       load_secret_keys X B E json = Inr (device_manager consensus companion, macs))"
proof -
  let ?w = "wallet_new [] (Some KEYS_DIR)"
  obtain ks d1 blob d2 where g: "gen_roles X B J ?w random KEY_ROLE_ALL d = (Inr ks, d1)"
    and json: "json = build_secret_keys_json ks"
    and enc: "blob_encrypt C salt nonce pin json = Inr blob" "atomic_write SECRET_KEYS_ENC_V2_PATH blob d1 = (Inr (), d2)"
    and save: "snd (save_public_keys_only J ?w ks d2) = d'"
    using run
    by (auto simp: generate_and_encrypt_keys_def encrypt_secret_keys_def Let_def bindS_def map_errS_def returnS_def liftK_def
        map_err_Inr_iff split: prod.splits sum.splits)
  from gen_roles_ok [OF g d(1)] have s1: "settled m d1" and gen: "list_all2 (generated_key X B random) KEY_ROLE_ALL ks"
    by auto
  note plain = generated_plain [OF gen crates(2)]
  have valid: "valid_text json"
    unfolding json by (rule ascii_text_valid [OF ascii_keys [OF plain generated_ascii [OF gen]]])
  have "settled (m(TMP_V2 := None, SECRET_KEYS_ENC_V2_PATH \<mapsto> blob)) d2"
    using settled_atomic_write [OF s1, of SECRET_KEYS_ENC_V2_PATH blob, OF keys.paths_named(1) keys.paths_neq(10)] enc(2) by simp
  then have "keys_kept C pin json d2"
    by (rule settled_kept)
      (use d(2) opens_only_encrypt [OF cipher valid enc(1)] in \<open>auto simp: recoverable_def\<close>)
  then have kept: "keys_kept C pin json d'"
    using kept_save_public save by (metis prod.collapse)
  from gen obtain k1 k2 u1 u2 where ks: "ks = [k1, k2]"
    and u: "unencrypted_generate X B (random Consensus) None = Inr u1" "unencrypted_generate X B (random Companion) None = Inr u2"
    by (auto simp: KEY_ROLE_ALL_def list_all2_Cons1 generated_key_def)
  have "load_entries X B (written ks) km_new = Inr (device_manager u1 u2)"
    using load_generated [OF crates(1,3) gen, of "[u1, u2]"] u
    by (simp add: KEY_ROLE_ALL_def device_manager_def)
  moreover have "E json = Inr (written ks)"
    using read_entries_written [OF plain] crates(4) by (simp add: json json_reads_def)
  moreover have "written ks \<noteq> []"
    using gen by (auto simp: KEY_ROLE_ALL_def list_all2_Cons1 generated_key_def)
  ultimately have "load_secret_keys X B E json =
      Inr (device_manager u1 u2, mac_keys_from_manager X B (device_manager u1 u2))"
    by (simp add: load_secret_keys_def parse_secret_keys_def)
  with kept valid u show ?thesis
    by blast
qed

text \<open>Generation succeeds when the crates do and the wallet is empty.\<close>

lemma gen_key_returns:
  assumes "settled m d" and "m (public_key_hashs_file w) = None" and "unencrypted_generate X B (random role) None = Inr u"
  shows "\<exists>k. gen_keys_in_memory X B J w (random role) (device_alias role) force d = (Inr k, d)"
  using assms by (simp add: gen_keys_in_memory_def load_keys_def kd_exists_def settled_def)

lemma gen_roles_returns:
  assumes "settled m d" and "m (public_key_hashs_file w) = None"
    and "\<forall>role. is_ok (unencrypted_generate X B (random role) None)"
  shows "\<exists>ks. gen_roles X B J w random roles d = (Inr ks, d)"
proof (induction roles)
  case (Cons role roles)
  obtain u where "unencrypted_generate X B (random role) None = Inr u"
    using assms(3) by (meson is_ok_iff)
  then obtain k where "gen_keys_in_memory X B J w (random role) (device_alias role) False d = (Inr k, d)"
    using gen_key_returns [OF assms(1,2)] by blast
  then show ?case
    using Cons by (auto simp: bindS_def map_errS_def returnS_def)
qed (simp add: returnS_def)

lemma settled_fs_write: "calm d \<Longrightarrow> \<exists>d'. kd_fs_write p data d = (Inr (), d') \<and> calm d' \<and> kd_files d' = (kd_files d)(p \<mapsto> data)"
  by (simp add: kd_fs_write_def bindS_def kd_create_def kd_write_all_def kd_change_def kd_tick_def calm_def kd_now_def)

lemma save_public_returns:
  assumes "calm d" and "\<And>es. is_ok (wj_print_texts J es)" and "\<And>es. is_ok (wj_print_publics J es)"
  shows "\<exists>d'. save_public_keys_only J (wallet_new [] (Some KEYS_DIR)) ks d = (Inr (), d')"
proof -
  obtain t p where t: "wj_print_texts J (map (\<lambda>k. (st_alias k, st_public_key_hash k)) ks) = Inr t"
    and p: "wj_print_publics J (map (\<lambda>k. (st_alias k, ''unencrypted:'' @ st_public_key k, st_public_key k)) ks) = Inr p"
    using assms(2,3) by (meson is_ok_iff)
  have c: "calm (kd_tick d)"
    using assms(1) by (rule calm_tick)
  obtain d1 where d1: "kd_fs_write [''keys'', ''public_key_hashs''] (ascii t) (kd_tick d) = (Inr (), d1)" "calm d1"
    using settled_fs_write [OF c] by blast
  obtain d2 where "kd_fs_write [''keys'', ''public_keys''] (ascii p) d1 = (Inr (), d2)"
    using settled_fs_write [OF d1(2)] by blast
  then show ?thesis
    using assms(1) t p d1
    by (simp add: save_public_keys_only_def Let_def ensure_dirs_def kd_command_def bindS_def map_errS_def returnS_def)
qed

lemma keygen_returns:
  assumes "settled m d" and "m [''keys'', ''public_key_hashs''] = None"
    and "\<forall>role. is_ok (unencrypted_generate X B (random role) None)"
    and "\<And>text. is_ok (blob_encrypt C salt nonce pin text)"
    and "\<And>es. is_ok (wj_print_texts J es)" and "\<And>es. is_ok (wj_print_publics J es)"
  shows "\<exists>json d'. generate_and_encrypt_keys X B C J random salt nonce pin d = (Inr json, d')"
proof -
  let ?w = "wallet_new [] (Some KEYS_DIR)"
  obtain ks where g: "gen_roles X B J ?w random KEY_ROLE_ALL d = (Inr ks, d)"
    using gen_roles_returns [OF assms(1) _ assms(3), of ?w] assms(2) by auto
  obtain blob where b: "blob_encrypt C salt nonce pin (build_secret_keys_json ks) = Inr blob"
    using assms(4) by (meson is_ok_iff)
  obtain d1 where w: "atomic_write SECRET_KEYS_ENC_V2_PATH blob d = (Inr (), d1)" "calm d1"
    using settled_atomic_write [OF assms(1), of SECRET_KEYS_ENC_V2_PATH blob, OF keys.paths_named(1) keys.paths_neq(10)]
    by (metis prod.collapse settled_def)
  obtain d2 where "save_public_keys_only J ?w ks d1 = (Inr (), d2)"
    using save_public_returns [OF w(2) assms(5,6)] by blast
  then show ?thesis
    using g b w(1)
    by (simp add: generate_and_encrypt_keys_def encrypt_secret_keys_def Let_def bindS_def map_errS_def returnS_def liftK_def)
qed

text \<open>It leaves the oracle and a legacy file alone.\<close>

lemma save_public_calm:
  assumes "save_public_keys_only J (wallet_new [] (Some KEYS_DIR)) ks d = (r, d')" and "calm d"
  shows "calm d' \<and> kd_files d' SECRET_KEYS_ENC_PATH = kd_files d SECRET_KEYS_ENC_PATH"
proof -
  have w: "calm e' \<and> kd_files e' SECRET_KEYS_ENC_PATH = kd_files e SECRET_KEYS_ENC_PATH"
    if "kd_fs_write p data e = (x, e')" "calm e" "p \<noteq> SECRET_KEYS_ENC_PATH" for p data e x e'
    using settled_fs_write [OF that(2), of p data] that by auto
  show ?thesis
    using assms calm_tick [OF assms(2)]
    by (auto simp: save_public_keys_only_def Let_def ensure_dirs_def kd_command_def bindS_def map_errS_def returnS_def failS_def
        split: prod.splits sum.splits dest!: w)
qed

lemma keygen_calm:
  assumes "generate_and_encrypt_keys X B C J random salt nonce pin d = (Inr json, d')" and "settled m d"
  shows "calm d' \<and> kd_files d' SECRET_KEYS_ENC_PATH = m SECRET_KEYS_ENC_PATH"
proof -
  let ?w = "wallet_new [] (Some KEYS_DIR)"
  obtain ks d1 blob d2 where g: "gen_roles X B J ?w random KEY_ROLE_ALL d = (Inr ks, d1)"
    and enc: "atomic_write SECRET_KEYS_ENC_V2_PATH blob d1 = (Inr (), d2)"
    and save: "snd (save_public_keys_only J ?w ks d2) = d'"
    using assms(1)
    by (auto simp: generate_and_encrypt_keys_def encrypt_secret_keys_def Let_def bindS_def map_errS_def returnS_def liftK_def
        map_err_Inr_iff split: prod.splits sum.splits)
  have s1: "settled m d1"
    using gen_roles_ok [OF g assms(2)] by simp
  have "settled (m(TMP_V2 := None, SECRET_KEYS_ENC_V2_PATH \<mapsto> blob)) d2"
    using settled_atomic_write [OF s1, of SECRET_KEYS_ENC_V2_PATH blob, OF keys.paths_named(1) keys.paths_neq(10)] enc by simp
  then have "calm d2" "kd_files d2 SECRET_KEYS_ENC_PATH = m SECRET_KEYS_ENC_PATH"
    by (simp_all add: settled_def)
  then show ?thesis
    using save_public_calm [of J ks d2, OF prod.collapse [symmetric]] save by simp
qed

end
