(* ===== verification/Storage_Setup.thy ===== *)
theory Storage_Setup
  imports Partition_Layout
begin

text \<open>
  \<open>rpi-signer/src/storage.rs\<close>: creating, discarding, formatting and mounting the keys and data
  partitions on the first boot, and dropping privileges. Every command and system call that is made is
  appended to a trace, the state of these definitions; what it answers is a parameter (\<open>storage_env\<close>),
  as are the texts in \<open>/sys\<close> and \<open>/proc/mounts\<close>. Pauses and logging are left out, and so is the
  text of parse and \<open>errno\<close> errors. Shown: whatever fails, no byte outside the area between the root
  file system and the end of the card is partitioned, discarded or formatted.
\<close>

section \<open>Environment\<close>

datatype disk_op =
    OpProgress string u8
  | OpSfdisk string
  | OpSync
  | OpOpenDisk
  | OpBlkpgAdd nat u64 u64
  | OpMdev
  | OpDiscard u64 u64
  | OpMkfs string string
  | OpMkdir string
  | OpMount string string string
  | OpChown string

text \<open>A command could not be started, exited with an error on its output, or succeeded.\<close>

datatype command_result = NotRun string | ExitError string | ExitOk

record storage_env =
  se_sysfs :: "string \<Rightarrow> string option"
  se_exists :: "string \<Rightarrow> nat \<Rightarrow> bool"
  se_answer :: "disk_op \<Rightarrow> nat \<Rightarrow> command_result"

type_synonym 'a storage_io = "(disk_op list, string, 'a) stateful"

definition perform :: "storage_env \<Rightarrow> disk_op \<Rightarrow> disk_op list \<Rightarrow> command_result \<times> disk_op list" where
  "perform E op tr = (se_answer E op (length tr), tr @ [op])"

text \<open>\<open>let _ = Command::new(..).output()\<close>.\<close>

definition ignored :: "storage_env \<Rightarrow> disk_op \<Rightarrow> unit storage_io" where
  "ignored E op tr = (Inr (), snd (perform E op tr))"

text \<open>A command whose failure to start and whose bad exit are both errors.\<close>

definition required :: "storage_env \<Rightarrow> (string \<Rightarrow> string) \<Rightarrow> (string \<Rightarrow> string) \<Rightarrow> disk_op \<Rightarrow> unit storage_io" where
  "required E not_run bad op tr =
     (case perform E op tr of
        (NotRun e, tr1) \<Rightarrow> (Inl (not_run e), tr1)
      | (ExitError e, tr1) \<Rightarrow> (Inl (bad e), tr1)
      | (ExitOk, tr1) \<Rightarrow> (Inr (), tr1))"

section \<open>Detection\<close>

definition parse_u64 :: "string \<Rightarrow> u64 option" where
  "parse_u64 s = map_option word_of_nat (parse_unsigned (2 ^ 64) s)"

definition detect_discard_granularity :: "storage_env \<Rightarrow> u64 option" where
  "detect_discard_granularity E =
     Option.bind (se_sysfs E ''/sys/block/mmcblk0/queue/discard_granularity'') (\<lambda>s. parse_u64 (trim s))"

definition is_trim_supported :: "storage_env \<Rightarrow> bool" where
  "is_trim_supported E \<longleftrightarrow> (case detect_discard_granularity E of Some g \<Rightarrow> 0 < g | None \<Rightarrow> False)"

definition calculate_alignment :: "storage_env \<Rightarrow> u64" where
  "calculate_alignment E =
     (case detect_discard_granularity E of
        Some granularity \<Rightarrow> if 0 < granularity then max MIN_ALIGNMENT granularity else MIN_ALIGNMENT
      | None \<Rightarrow> MIN_ALIGNMENT)"

definition read_sysfs_u64 :: "storage_env \<Rightarrow> string \<Rightarrow> string + u64" where
  "read_sysfs_u64 E p =
     (case se_sysfs E p of
        None \<Rightarrow> Inl (''Failed to read '' @ p @ '': '')
      | Some s \<Rightarrow> ok_or (''Failed to parse '' @ p @ '': '') (parse_u64 (trim s)))"

record disk_layout =
  dl_partitions :: partition_layout
  dl_disk_size_sectors :: u64

text \<open>The division by the alignment cannot be by zero: the alignment is at least \<open>MIN_ALIGNMENT\<close>.\<close>

definition calculate_disk_layout :: "storage_env \<Rightarrow> u64 \<Rightarrow> string + disk_layout" where
  "calculate_disk_layout E alignment =
     and_then (read_sysfs_u64 E ''/sys/block/mmcblk0/size'') (\<lambda>disk_size_sectors.
     and_then (read_sysfs_u64 E ''/sys/block/mmcblk0/mmcblk0p2/start'') (\<lambda>p2_start_sectors.
     and_then (read_sysfs_u64 E ''/sys/block/mmcblk0/mmcblk0p2/size'') (\<lambda>p2_size_sectors.
       let disk_size_bytes = disk_size_sectors * SECTOR_SIZE;
           p2_end_bytes = (p2_start_sectors + p2_size_sectors) * SECTOR_SIZE in
       case calculate_partition_layout p2_end_bytes alignment disk_size_bytes of
         None \<Rightarrow> Inl ''panic''
       | Some (Inl e) \<Rightarrow> Inl (insufficient_space_text e)
       | Some (Inr l) \<Rightarrow> Inr \<lparr>dl_partitions = l, dl_disk_size_sectors = disk_size_sectors\<rparr>)))"

section \<open>Steps\<close>

definition progress :: "storage_env \<Rightarrow> string \<Rightarrow> u8 \<Rightarrow> unit storage_io" where
  "progress E msg pct = required E (\<lambda>e. e) (\<lambda>e. e) (OpProgress msg pct)"

definition notify_kernel_blkpg :: "storage_env \<Rightarrow> nat \<Rightarrow> u64 \<Rightarrow> u64 \<Rightarrow> unit storage_io" where
  "notify_kernel_blkpg E num start_bytes size_bytes =
     bindS (required E (\<lambda>e. ''Failed to open /dev/mmcblk0: '' @ e) (\<lambda>e. ''Failed to open /dev/mmcblk0: '' @ e) OpOpenDisk) (\<lambda>_.
       required E (\<lambda>e. ''BLKPG ioctl failed for partition '' @ show_nat num @ '': '' @ e)
         (\<lambda>e. ''BLKPG ioctl failed for partition '' @ show_nat num @ '': '' @ e) (OpBlkpgAdd num start_bytes size_bytes))"

text \<open>A bad exit of \<open>mdev\<close> is only logged.\<close>

definition create_partitions :: "storage_env \<Rightarrow> partition_layout \<Rightarrow> unit storage_io" where
  "create_partitions E l =
     bindS (required E (\<lambda>e. ''Failed to spawn sfdisk: '' @ e) (\<lambda>e. ''sfdisk error: '' @ e) (OpSfdisk (generate_sfdisk_script l))) (\<lambda>_.
     bindS (ignored E OpSync) (\<lambda>_.
     bindS (notify_kernel_blkpg E 3 (keys_start_sector l * SECTOR_SIZE) (keys_size_sectors l * SECTOR_SIZE)) (\<lambda>_.
     bindS (notify_kernel_blkpg E 4 (data_start_sector l * SECTOR_SIZE) (data_size_sectors l * SECTOR_SIZE)) (\<lambda>_.
     bindS (ignored E OpSync) (\<lambda>_ tr.
       case perform E OpMdev tr of
         (NotRun e, tr1) \<Rightarrow> (Inl (''Failed to run mdev: '' @ e), tr1)
       | (_, tr1) \<Rightarrow> (Inr (), tr1))))))"

definition KEYS_PART :: string where
  "KEYS_PART = ''/dev/mmcblk0p3''"

definition DATA_PART :: string where
  "DATA_PART = ''/dev/mmcblk0p4''"

definition MAX_ATTEMPTS :: nat where
  "MAX_ATTEMPTS = 30"

text \<open>The loop, counting the attempts left; attempts are numbered from 1.\<close>

fun wait_attempts :: "storage_env \<Rightarrow> nat \<Rightarrow> unit storage_io" where
  "wait_attempts E 0 = failS ''Partition devices not found''"
| "wait_attempts E (Suc left) =
     (let attempt = MAX_ATTEMPTS - left;
          p3_exists = se_exists E KEYS_PART attempt \<and> se_exists E ''/sys/block/mmcblk0/mmcblk0p3'' attempt;
          p4_exists = se_exists E DATA_PART attempt \<and> se_exists E ''/sys/block/mmcblk0/mmcblk0p4'' attempt in
      if p3_exists \<and> p4_exists then returnS ()
      else if left = 0
      then bindS (ignored E OpMdev) (\<lambda>_.
             if se_exists E KEYS_PART (Suc MAX_ATTEMPTS) \<and> se_exists E DATA_PART (Suc MAX_ATTEMPTS) then returnS ()
             else failS ''Partition devices not found after 15 seconds'')
      else wait_attempts E left)"

definition wait_for_partition_devices :: "storage_env \<Rightarrow> unit storage_io" where
  "wait_for_partition_devices E = wait_attempts E MAX_ATTEMPTS"

definition trim_partition_range :: "storage_env \<Rightarrow> u64 \<Rightarrow> u64 \<Rightarrow> unit storage_io" where
  "trim_partition_range E offset_bytes length_bytes tr =
     (case perform E (OpDiscard offset_bytes length_bytes) tr of
        (NotRun e, tr1) \<Rightarrow> (Inl (''Failed to run blkdiscard: '' @ e), tr1)
      | (_, tr1) \<Rightarrow> (Inr (), tr1))"

definition trim_over_provisioning :: "storage_env \<Rightarrow> disk_layout \<Rightarrow> unit storage_io" where
  "trim_over_provisioning E layout =
     (let l = dl_partitions layout;
          data_end_bytes = (data_start_sector l + data_size_sectors l) * SECTOR_SIZE;
          disk_size_bytes = dl_disk_size_sectors layout * SECTOR_SIZE;
          overprov_size = disk_size_bytes - data_end_bytes
      in if 0 < overprov_size then trim_partition_range E data_end_bytes overprov_size else returnS ())"

definition format_partition :: "storage_env \<Rightarrow> string \<Rightarrow> string \<Rightarrow> unit storage_io" where
  "format_partition E device label =
     required E (\<lambda>e. ''Failed to run mkfs.f2fs: '' @ e) (\<lambda>e. ''mkfs.f2fs failed: '' @ e) (OpMkfs device label)"

definition mount_partitions :: "storage_env \<Rightarrow> unit storage_io" where
  "mount_partitions E =
     bindS (required E (\<lambda>e. ''Failed to create /keys: '' @ e) (\<lambda>e. ''Failed to create /keys: '' @ e) (OpMkdir ''/keys'')) (\<lambda>_.
     bindS (required E (\<lambda>e. ''Failed to create /data: '' @ e) (\<lambda>e. ''Failed to create /data: '' @ e) (OpMkdir ''/data'')) (\<lambda>_.
     bindS (required E (\<lambda>e. ''Failed to mount keys partition: '' @ e) (\<lambda>e. ''Failed to mount keys partition: '' @ e)
              (OpMount ''rw'' KEYS_PART ''/keys'')) (\<lambda>_.
     bindS (required E (\<lambda>e. ''Failed to mount data partition: '' @ e) (\<lambda>e. ''Failed to mount data partition: '' @ e)
              (OpMount F2FS_MOUNT_OPTS DATA_PART ''/data'')) (\<lambda>_.
     bindS (ignored E (OpChown ''/keys'')) (\<lambda>_. ignored E (OpChown ''/data''))))))"

section \<open>The whole setup\<close>

definition trim_parts :: "storage_env \<Rightarrow> partition_layout \<Rightarrow> unit storage_io" where
  "trim_parts E l =
     bindS (progress E ''Optimizing keys area...'' 40) (\<lambda>_.
     bindS (trim_partition_range E (keys_start_sector l * SECTOR_SIZE) (keys_size_sectors l * SECTOR_SIZE)) (\<lambda>_.
     bindS (progress E ''Optimizing data area...'' 50) (\<lambda>_.
       trim_partition_range E (data_start_sector l * SECTOR_SIZE) (data_size_sectors l * SECTOR_SIZE))))"

definition setup_storage :: "storage_env \<Rightarrow> unit storage_io" where
  "setup_storage E =
     bindS (progress E ''Detecting storage...'' 5) (\<lambda>_.
     let alignment = calculate_alignment E; trim_supported = is_trim_supported E in
     bindS (progress E ''Planning partitions...'' 10) (\<lambda>_.
     case calculate_disk_layout E alignment of
       Inl e \<Rightarrow> failS e
     | Inr layout \<Rightarrow>
         bindS (progress E ''Creating partitions...'' 20) (\<lambda>_.
         bindS (create_partitions E (dl_partitions layout)) (\<lambda>_.
         bindS (progress E ''Waiting for devices...'' 30) (\<lambda>_.
         bindS (wait_for_partition_devices E) (\<lambda>_.
         bindS (if trim_supported then trim_parts E (dl_partitions layout) else returnS ()) (\<lambda>_.
         bindS (progress E ''Formatting keys...'' 60) (\<lambda>_.
         bindS (format_partition E KEYS_PART ''russignol-keys'') (\<lambda>_.
         bindS (progress E ''Formatting data...'' 75) (\<lambda>_.
         bindS (format_partition E DATA_PART ''russignol-data'') (\<lambda>_.
         bindS (if trim_supported
                then bindS (progress E ''Optimizing free space...'' 85) (\<lambda>_. trim_over_provisioning E layout)
                else returnS ()) (\<lambda>_.
         bindS (progress E ''Mounting storage...'' 95) (\<lambda>_.
         bindS (mount_partitions E) (\<lambda>_.
         bindS (progress E ''Storage ready!'' 100) (\<lambda>_. ignored E OpSync)))))))))))))))"

section \<open>What is touched\<close>

text \<open>The commands a step may add to the trace.\<close>

definition emits :: "(disk_op \<Rightarrow> bool) \<Rightarrow> 'a storage_io \<Rightarrow> bool" where
  "emits Q m \<longleftrightarrow> (\<forall>tr. list_all Q tr \<longrightarrow> list_all Q (snd (m tr)))"

named_theorems emits "commands added to the trace"

lemma emits_bind [emits]: "emits Q m \<Longrightarrow> (\<And>x. emits Q (f x)) \<Longrightarrow> emits Q (bindS m f)"
  unfolding emits_def by (auto intro!: bindS_state_inv [where Q = "list_all Q"])

lemma emits_return [emits]: "emits Q (returnS x)" "emits Q (failS e)"
  by (simp_all add: emits_def returnS_def failS_def)

lemma emits_if [emits]: "(b \<Longrightarrow> emits Q m) \<Longrightarrow> (\<not> b \<Longrightarrow> emits Q n) \<Longrightarrow> emits Q (if b then m else n)"
  by simp

lemma emits_perform [emits]:
  "Q op \<Longrightarrow> emits Q (required E f g op)" "Q op \<Longrightarrow> emits Q (ignored E op)"
  "Q op \<Longrightarrow> emits Q (\<lambda>tr. case perform E op tr of (NotRun e, tr1) \<Rightarrow> (Inl (h e), tr1) | (_, tr1) \<Rightarrow> (Inr (), tr1))"
  by (auto simp: emits_def required_def ignored_def perform_def split: command_result.splits)

lemma emits_trim [emits]: "Q (OpDiscard off len) \<Longrightarrow> emits Q (trim_partition_range E off len)"
  by (auto simp: emits_def trim_partition_range_def perform_def split: command_result.splits)

text \<open>Partitioning, discarding and formatting stay between two offsets.\<close>

fun confined :: "nat \<Rightarrow> nat \<Rightarrow> disk_op \<Rightarrow> bool" where
  "confined lo hi (OpDiscard off len) \<longleftrightarrow> lo \<le> unat off \<and> unat off + unat len \<le> hi"
| "confined lo hi (OpBlkpgAdd num off len) \<longleftrightarrow> lo \<le> unat off \<and> unat off + unat len \<le> hi"
| "confined lo hi (OpSfdisk script) \<longleftrightarrow>
     (\<exists>a b c d. script = sfdisk_line a b @ sfdisk_line c d \<and> lo \<le> unat a * 512 \<and>
        unat a * 512 + unat b * 512 \<le> unat c * 512 \<and> unat c * 512 + unat d * 512 \<le> hi)"
| "confined lo hi (OpMkfs dev label) \<longleftrightarrow> dev = KEYS_PART \<or> dev = DATA_PART"
| "confined lo hi _ \<longleftrightarrow> True"

definition layout_within :: "nat \<Rightarrow> nat \<Rightarrow> partition_layout \<Rightarrow> bool" where
  "layout_within lo hi l \<longleftrightarrow>
     lo \<le> fst (keys_range l) \<and> fst (keys_range l) + snd (keys_range l) \<le> fst (data_range l) \<and>
     fst (data_range l) + snd (data_range l) \<le> hi \<and> hi < 2 ^ 63"

lemma unat_bytes: "unat x * 512 < 2 ^ 63 \<Longrightarrow> unat (x * SECTOR_SIZE) = unat x * 512" for x :: u64
  by (simp add: SECTOR_SIZE_def unat_word_ariths)

lemma layout_bytes:
  assumes "layout_within lo hi l"
  shows "unat (keys_start_sector l * SECTOR_SIZE) = fst (keys_range l)"
    and "unat (keys_size_sectors l * SECTOR_SIZE) = snd (keys_range l)"
    and "unat (data_start_sector l * SECTOR_SIZE) = fst (data_range l)"
    and "unat (data_size_sectors l * SECTOR_SIZE) = snd (data_range l)"
  using assms by (auto simp: layout_within_def keys_range_def data_range_def intro!: unat_bytes)

lemma data_end:
  assumes "layout_within lo hi l"
  shows "unat ((data_start_sector l + data_size_sectors l) * SECTOR_SIZE) = fst (data_range l) + snd (data_range l)"
proof -
  have "unat (data_start_sector l) * 512 + unat (data_size_sectors l) * 512 < 2 ^ 63"
    using assms by (simp add: layout_within_def data_range_def)
  then have "unat (data_start_sector l + data_size_sectors l) = unat (data_start_sector l) + unat (data_size_sectors l)"
    by (simp add: unat_word_ariths)
  with unat_bytes [of "data_start_sector l + data_size_sectors l"] show ?thesis
    using assms by (simp add: layout_within_def data_range_def algebra_simps)
qed

lemma emits_create:
  assumes "layout_within lo hi l" shows "emits (confined lo hi) (create_partitions E l)"
proof -
  have "confined lo hi (OpSfdisk (generate_sfdisk_script l))"
    using assms by (fastforce simp: generate_sfdisk_script_def layout_within_def keys_range_def data_range_def)
  moreover have "confined lo hi (OpBlkpgAdd n (keys_start_sector l * SECTOR_SIZE) (keys_size_sectors l * SECTOR_SIZE))"
    "confined lo hi (OpBlkpgAdd n (data_start_sector l * SECTOR_SIZE) (data_size_sectors l * SECTOR_SIZE))" for n
    using assms by (auto simp: layout_bytes [OF assms] layout_within_def)
  ultimately show ?thesis
    unfolding create_partitions_def notify_kernel_blkpg_def by (intro emits) (simp_all del: confined.simps(1-4))
qed

lemma emits_trim_parts:
  assumes "layout_within lo hi l" shows "emits (confined lo hi) (trim_parts E l)"
  using assms unfolding trim_parts_def progress_def
  by (intro emits) (auto simp: layout_bytes [OF assms] layout_within_def)

lemma emits_over_provisioning:
  assumes "layout_within lo hi (dl_partitions layout)" and "unat (dl_disk_size_sectors layout) * 512 = hi"
  shows "emits (confined lo hi) (trim_over_provisioning E layout)"
proof -
  let ?l = "dl_partitions layout"
  let ?e = "(data_start_sector ?l + data_size_sectors ?l) * SECTOR_SIZE" and ?d = "dl_disk_size_sectors layout * SECTOR_SIZE"
  have d: "unat ?d = hi"
    using assms unat_bytes [of "dl_disk_size_sectors layout"] by (simp add: layout_within_def)
  have "unat ?e \<le> unat ?d"
    using assms(1) d data_end [OF assms(1)] by (simp add: layout_within_def)
  then have "unat (?d - ?e) = hi - unat ?e"
    using d by (simp add: unat_sub word_le_nat_alt)
  then have "confined lo hi (OpDiscard ?e (?d - ?e))"
    using assms(1) d data_end [OF assms(1)] by (simp add: layout_within_def)
  then show ?thesis
    unfolding trim_over_provisioning_def Let_def by (intro emits) auto
qed

lemma emits_wait: "emits (confined lo hi) (wait_attempts E n)"
  by (induction n) (auto simp: Let_def intro!: emits)

lemma setup_confined:
  assumes "\<And>layout. calculate_disk_layout E (calculate_alignment E) = Inr layout \<Longrightarrow>
      layout_within lo hi (dl_partitions layout) \<and> unat (dl_disk_size_sectors layout) * 512 = hi"
  shows "emits (confined lo hi) (setup_storage E)"
  unfolding setup_storage_def progress_def format_partition_def mount_partitions_def wait_for_partition_devices_def Let_def
  by (intro emits; (simp split: sum.split)?)
    (use assms in \<open>auto intro!: emits emits_wait emits_create emits_trim_parts emits_over_provisioning\<close>)

text \<open>The card as \<open>/sys\<close> describes it, within 4 EiB and with a granularity in whole sectors.\<close>

definition card :: "storage_env \<Rightarrow> u64 \<Rightarrow> u64 \<Rightarrow> u64 \<Rightarrow> bool" where
  "card E disk p2_start p2_size \<longleftrightarrow>
     read_sysfs_u64 E ''/sys/block/mmcblk0/size'' = Inr disk \<and>
     read_sysfs_u64 E ''/sys/block/mmcblk0/mmcblk0p2/start'' = Inr p2_start \<and>
     read_sysfs_u64 E ''/sys/block/mmcblk0/mmcblk0p2/size'' = Inr p2_size \<and>
     (unat p2_start + unat p2_size) * 512 < 2 ^ 62 \<and> unat disk * 512 < 2 ^ 62 \<and>
     (\<forall>g. detect_discard_granularity E = Some g \<longrightarrow> 512 dvd unat g \<and> unat g < 2 ^ 60)"

lemma alignment_ok:
  assumes "card E disk p2_start p2_size"
  shows "512 dvd unat (calculate_alignment E)" and "unat (calculate_alignment E) < 2 ^ 60"
    and "unat MIN_ALIGNMENT \<le> unat (calculate_alignment E)"
  using assms
  by (auto simp: card_def calculate_alignment_def MIN_ALIGNMENT_def max_def word_le_nat_alt split: option.splits if_splits)

lemma card_layout:
  assumes c: "card E disk p2_start p2_size" and l: "calculate_disk_layout E (calculate_alignment E) = Inr layout"
  shows "layout_within ((unat p2_start + unat p2_size) * 512) (unat disk * 512) (dl_partitions layout)"
    and "dl_disk_size_sectors layout = disk"
    and "64 * 1024 * 1024 \<le> snd (keys_range (dl_partitions layout))"
    and "256 * 1024 * 1024 \<le> snd (data_range (dl_partitions layout))"
    and "unat (calculate_alignment E) dvd fst (keys_range (dl_partitions layout))"
proof -
  let ?a = "calculate_alignment E" and ?p2 = "(p2_start + p2_size) * SECTOR_SIZE" and ?d = "disk * SECTOR_SIZE"
  have sum: "unat (p2_start + p2_size) = unat p2_start + unat p2_size"
    using c by (simp add: card_def unat_word_ariths)
  have b: "unat ?p2 = (unat p2_start + unat p2_size) * 512" "unat ?d = unat disk * 512"
    using c unat_bytes [of "p2_start + p2_size"] unat_bytes [of disk] by (simp_all add: card_def sum)
  have a0: "0 < unat ?a"
    using alignment_ok(3) [OF c] by (simp add: MIN_ALIGNMENT_def)
  from l c have r: "calculate_partition_layout ?p2 ?a ?d = Some (Inr (dl_partitions layout))"
    and "dl_disk_size_sectors layout = disk"
    by (auto simp: card_def calculate_disk_layout_def result_simps Let_def split: option.splits sum.splits)
  then show "dl_disk_size_sectors layout = disk"
    by simp
  have "unat ?p2 < 2 ^ 62"
    using c b by (simp add: card_def)
  from layout_exact [OF this alignment_ok(2,1) [OF c] a0, of ?d] r
  obtain k kl dl where e: "k = next_multiple (unat ?p2) (unat ?a)" "kl = next_multiple (64 * 1024 * 1024) (unat ?a)"
    "dl = next_multiple (256 * 1024 * 1024) (unat ?a)" "k + kl + dl \<le> unat ?d"
    "keys_range (dl_partitions layout) = (k, kl)" "data_range (dl_partitions layout) = (k + kl, dl)"
    by auto
  have "unat ?p2 \<le> k" "unat ?a dvd k" "64 * 1024 * 1024 \<le> kl" "256 * 1024 * 1024 \<le> dl"
    unfolding e using next_multiple [OF a0] by blast+
  then show "layout_within ((unat p2_start + unat p2_size) * 512) (unat disk * 512) (dl_partitions layout)"
    "64 * 1024 * 1024 \<le> snd (keys_range (dl_partitions layout))"
    "256 * 1024 * 1024 \<le> snd (data_range (dl_partitions layout))" "unat ?a dvd fst (keys_range (dl_partitions layout))"
    using e c by (auto simp: layout_within_def b card_def)
qed

lemma card_confined:
  assumes "card E disk p2_start p2_size"
  shows "list_all (confined ((unat p2_start + unat p2_size) * 512) (unat disk * 512)) (snd (setup_storage E []))"
proof -
  have "emits (confined ((unat p2_start + unat p2_size) * 512) (unat disk * 512)) (setup_storage E)"
    by (rule setup_confined) (use card_layout [OF assms] in auto)
  then show ?thesis
    by (simp add: emits_def)
qed

section \<open>What a completed setup has done\<close>

text \<open>A command that must succeed is in the trace of every run that went past it.\<close>

definition adds :: "disk_op \<Rightarrow> 'a storage_io \<Rightarrow> bool" where
  "adds op m \<longleftrightarrow> (\<forall>tr x tr1. m tr = (Inr x, tr1) \<longrightarrow> op \<in> set tr1)"

definition grows :: "'a storage_io \<Rightarrow> bool" where
  "grows m \<longleftrightarrow> (\<forall>tr. set tr \<subseteq> set (snd (m tr)))"

lemma grows_bind: "grows m \<Longrightarrow> (\<And>x. grows (f x)) \<Longrightarrow> grows (bindS m f)"
  unfolding grows_def bindS_def by (auto split: prod.splits sum.splits) (metis snd_conv subset_iff)+

lemma grows_prims:
  "grows (required E f g op)" "grows (ignored E op)" "grows (returnS x)" "grows (failS e)"
  "grows (trim_partition_range E a b)"
  "grows (\<lambda>tr. case perform E op tr of (NotRun e, tr1) \<Rightarrow> (Inl (h e), tr1) | (_, tr1) \<Rightarrow> (Inr (), tr1))"
  by (auto simp: grows_def required_def ignored_def perform_def returnS_def failS_def trim_partition_range_def
      split: command_result.splits)

lemma adds_here: "adds op m \<Longrightarrow> (\<And>x. grows (f x)) \<Longrightarrow> adds op (bindS m f)"
  unfolding adds_def grows_def by (auto simp: bindS_Inr_iff) (metis snd_conv subset_iff)

lemma adds_later: "(\<And>x. adds op (f x)) \<Longrightarrow> adds op (bindS m f)"
  unfolding adds_def by (auto simp: bindS_Inr_iff)

lemma adds_required: "adds op (required E f g op)"
  by (auto simp: adds_def required_def perform_def split: command_result.splits)

lemma grows_if: "grows m \<Longrightarrow> grows n \<Longrightarrow> grows (if b then m else n)"
  by simp

lemma grows_mount: "grows (mount_partitions E)"
  unfolding mount_partitions_def by (intro grows_bind grows_prims)

lemma grows_over_provisioning: "grows (trim_over_provisioning E layout)"
  unfolding trim_over_provisioning_def Let_def by (intro grows_if grows_prims)

lemma grows_format: "grows (progress E s n)" "grows (format_partition E a b)"
  unfolding progress_def format_partition_def by (rule grows_prims)+

lemmas grows_steps = grows_bind grows_if grows_prims grows_mount grows_over_provisioning grows_format

lemma adds_failS: "adds op (failS e)"
  by (simp add: adds_def failS_def)

lemma adds_case_sum: "(\<And>x. adds op (f x)) \<Longrightarrow> adds op (case r of Inl e \<Rightarrow> failS (g e) | Inr x \<Rightarrow> f x)"
  by (cases r) (simp_all add: adds_failS)

lemma adds_mount: "adds (OpMount ''rw'' KEYS_PART ''/keys'') (mount_partitions E)"
  "adds (OpMount F2FS_MOUNT_OPTS DATA_PART ''/data'') (mount_partitions E)"
proof -
  show "adds (OpMount ''rw'' KEYS_PART ''/keys'') (mount_partitions E)"
    unfolding mount_partitions_def
    by (rule adds_later, rule adds_later, rule adds_here, rule adds_required) (intro grows_steps)
  show "adds (OpMount F2FS_MOUNT_OPTS DATA_PART ''/data'') (mount_partitions E)"
    unfolding mount_partitions_def
    by (rule adds_later, rule adds_later, rule adds_later, rule adds_here, rule adds_required) (intro grows_steps)
qed

lemma adds_format: "adds (OpMkfs dev label) (format_partition E dev label)"
  unfolding format_partition_def by (rule adds_required)

lemma setup_completed:
  "adds (OpMkfs KEYS_PART ''russignol-keys'') (setup_storage E)"
  "adds (OpMkfs DATA_PART ''russignol-data'') (setup_storage E)"
  "adds (OpMount ''rw'' KEYS_PART ''/keys'') (setup_storage E)"
  "adds (OpMount F2FS_MOUNT_OPTS DATA_PART ''/data'') (setup_storage E)"
  unfolding setup_storage_def Let_def
  by ((rule adds_format adds_mount | rule adds_here, (rule adds_format adds_mount), intro grows_steps
      | rule adds_later | rule adds_case_sum)+)

end
