(* ===== verification/First_Boot.thy ===== *)
theory First_Boot
  imports Wallet Storage_Setup
begin

text \<open>
  \<open>rpi-signer/src/setup.rs\<close> and the rest of \<open>storage.rs\<close>: is this the first boot, may setup go on,
  the directories on the data partition, the setup marker, which mounts there are, and dropping
  privileges. Shown: a card that holds encrypted keys never reaches key generation, and dropping
  privileges that reports success leaves neither user, group nor supplementary groups of root.
\<close>

section \<open>Mounts\<close>

text \<open>\<open>mounts\<close> is the text of \<open>/proc/mounts\<close>, if it can be read.\<close>

definition data_is_mounted :: "string \<Rightarrow> bool" where
  "data_is_mounted proc_mounts \<longleftrightarrow>
     list_ex (\<lambda>line. case split_whitespace line of _ # mount_point # _ \<Rightarrow> mount_point = ''/data'' | _ \<Rightarrow> False)
       (lines_of proc_mounts)"

definition is_data_mounted :: "string option \<Rightarrow> bool" where
  "is_data_mounted mounts \<longleftrightarrow> (case mounts of Some m \<Rightarrow> data_is_mounted m | None \<Rightarrow> False)"

definition is_partition_mounted :: "string option \<Rightarrow> string \<Rightarrow> bool" where
  "is_partition_mounted mounts part \<longleftrightarrow>
     (case mounts of
        Some m \<Rightarrow> list_ex (\<lambda>line. take (length part) line = part) (lines_of m)
      | None \<Rightarrow> False)"

section \<open>First boot\<close>

definition SETUP_MARKER :: path where
  "SETUP_MARKER = [''keys'', ''.setup_complete'']"

definition encrypted_keys_exist :: "keys_dir \<Rightarrow> bool" where
  "encrypted_keys_exist d \<longleftrightarrow> kd_exists SECRET_KEYS_ENC_PATH d \<or> kd_exists SECRET_KEYS_ENC_V2_PATH d"

text \<open>\<open>partitioned\<close>: the kernel knows the third partition.\<close>

definition needs_storage_setup :: "bool \<Rightarrow> bool" where
  "needs_storage_setup partitioned \<longleftrightarrow> \<not> partitioned"

definition is_first_boot :: "bool \<Rightarrow> keys_dir \<Rightarrow> bool" where
  "is_first_boot partitioned d \<longleftrightarrow> (if needs_storage_setup partitioned then True else \<not> kd_exists SETUP_MARKER d)"

definition verify_partitions_early :: "keys_dir \<Rightarrow> string + unit" where
  "verify_partitions_early d =
     (if encrypted_keys_exist d
      then Inl (''ABORT: Existing keys detected but setup marker missing! '' @
             ''Setup cannot proceed - this would destroy your keys. '' @ ''If you need to reset, reflash the device.'')
      else Inr ())"

definition verify_partitions :: "string option \<Rightarrow> keys_dir \<Rightarrow> string + unit" where
  "verify_partitions mounts d =
     (if \<not> is_partition_mounted mounts KEYS_PART then Inl ''Keys partition not mounted - init script may have failed''
      else if encrypted_keys_exist d
      then Inl (''ABORT: Existing keys detected on keys partition! '' @
             ''Setup cannot proceed - this would risk data loss. '' @ ''If you need to reset, reflash the device.'')
      else if kd_exists SETUP_MARKER d
      then Inl (''Setup already completed (marker exists on keys partition). '' @ ''Remove marker manually if you need to re-run setup.'')
      else if \<not> is_partition_mounted mounts DATA_PART then Inl ''Data partition not mounted - init script may have failed''
      else Inr ())"

text \<open>\<open>fs::remove_file\<close> on the data partition.\<close>

definition fs_remove :: "path \<Rightarrow> (fs, io_error, unit) stateful" where
  "fs_remove p f =
     (case view f p of
        None \<Rightarrow> (Inl (IoError NotFound ''No such file or directory (os error 2)''), tick f)
      | Some _ \<Rightarrow>
          (case next_outcome f of
             IoOk \<Rightarrow> (Inr (), (tick f)\<lparr>stable := (stable f)(p := None), cache := (cache f)(p := None)\<rparr>)
           | IoFail e r \<Rightarrow> (Inl e, tick f)))"

definition liftF :: "'e + 'a \<Rightarrow> ('s, 'e, 'a) stateful" where
  "liftF r s = (r, s)"

text \<open>\<open>chown\<close> is what \<open>run_command("chown", ..)\<close> answers.\<close>

definition create_directories :: "string + unit \<Rightarrow> (fs, string, unit) stateful" where
  "create_directories chown =
     bindS (map_errS (\<lambda>e. ''Failed to create /data/watermarks: '' @ io_error_text e) (create_dir_all [''data'', ''watermarks''])) (\<lambda>_.
     bindS (map_errS (\<lambda>e. ''Failed to create /data/logs: '' @ io_error_text e) (create_dir_all [''data'', ''logs''])) (\<lambda>_.
     bindS (liftF chown) (\<lambda>_.
     bindS (map_errS (\<lambda>e. ''/data not writable: '' @ io_error_text e) (fs_write [''data'', ''.write_test''] (ascii ''test''))) (\<lambda>_.
       map_errS (\<lambda>e. ''Failed to remove test file: '' @ io_error_text e) (fs_remove [''data'', ''.write_test''])))))"

definition write_setup_marker :: "(keys_dir, string, unit) stateful" where
  "write_setup_marker =
     map_errS (\<lambda>e. ''Failed to write setup marker: '' @ io_error_text e) (kd_fs_write SETUP_MARKER (ascii ''1''))"

lemma verify_partitions_fresh: "verify_partitions mounts d = Inr () \<Longrightarrow> \<not> encrypted_keys_exist d"
  by (auto simp: verify_partitions_def split: if_splits)

section \<open>Privileges\<close>

record ids =
  uid :: nat
  gid :: nat
  supplementary :: "nat list"

text \<open>What the three system calls answer.\<close>

record privilege_calls =
  pc_setgid :: bool
  pc_setgroups :: bool
  pc_setuid :: bool

definition RUSSIGNOL_UID :: nat where
  "RUSSIGNOL_UID = 1000"

definition RUSSIGNOL_GID :: nat where
  "RUSSIGNOL_GID = 1000"

text \<open>A call that reports success has taken effect.\<close>

definition drop_privileges :: "privilege_calls \<Rightarrow> (ids, string, bool) stateful" where
  "drop_privileges P i =
     (if uid i \<noteq> 0 then (Inr False, i)
      else if \<not> pc_setgid P then (Inl (''Failed to setgid('' @ show_nat RUSSIGNOL_GID @ ''): ''), i)
      else
        let i1 = i\<lparr>gid := RUSSIGNOL_GID\<rparr> in
        if \<not> pc_setgroups P then (Inl ''Failed to clear supplementary groups: '', i1)
        else
          let i2 = i1\<lparr>supplementary := []\<rparr> in
          if \<not> pc_setuid P then (Inl (''Failed to setuid('' @ show_nat RUSSIGNOL_UID @ ''): ''), i2)
          else
            let i3 = i2\<lparr>uid := RUSSIGNOL_UID\<rparr> in
            if uid i3 \<noteq> RUSSIGNOL_UID \<or> gid i3 \<noteq> RUSSIGNOL_GID
            then (Inl (''Privilege drop verification failed: uid='' @ show_nat (uid i3) @ '', gid='' @ show_nat (gid i3)), i3)
            else (Inr True, i3))"

lemma drop_privileges_ok:
  assumes "drop_privileges P i = (Inr b, j)"
  shows "uid j \<noteq> 0 \<and> (uid i = 0 \<longrightarrow> gid j = RUSSIGNOL_GID \<and> supplementary j = [])"
  using assms by (auto simp: drop_privileges_def Let_def RUSSIGNOL_UID_def split: if_splits)

end
