(* ===== verification/Ui_Loop.thy ===== *)
theory Ui_Loop
  imports Ui_Pages First_Boot
begin

text \<open>
  The effects of \<open>rpi-signer/src/main.rs\<close>: what each one does to the process. The process state holds
  the application, its queue of events, the page on the screen, the key and mark stores, the running
  threads and the privileges. Third-party code, the kernel's answers and the panel's are one record of
  parameters (\<open>env\<close>); \<open>fatal_error\<close> and \<open>Effect::Exit\<close> end the process.
\<close>

section \<open>Environment and process\<close>

datatype display_outcome = DisplayOk | DisplayBusy | DisplayFailed string

text \<open>
  \<open>en_mounts\<close> is the text of \<open>/proc/mounts\<close> without and with the two partitions, \<open>en_rootfs_mismatch\<close>
  the verdict of \<open>rootfs_check\<close>, \<open>en_display\<close> what the panel answers to its \<open>n\<close>-th operation and
  \<open>en_hit\<close> what a point of the screen is on.
\<close>

record ('sk, 'pk, 'sg) env =
  en_crates :: crates
  en_blst :: "('sk, 'pk, 'sg) blst"
  en_ciphers :: ciphers
  en_setup_json :: setup_json
  en_wallet_json :: wallet_json
  en_storage :: storage_env
  en_calls :: privilege_calls
  en_mounts :: "bool \<Rightarrow> string option"
  en_rootfs_mismatch :: bool
  en_remount :: "string + unit"
  en_chown :: "string + unit"
  en_display :: "nat \<Rightarrow> display_outcome"
  en_hit :: "shown_page \<Rightarrow> int \<Rightarrow> int \<Rightarrow> touch_target"

datatype thread = ThKeygen bytes | ThPinVerify bytes | ThStorageSetup

text \<open>A fatal error page, \<open>process::exit\<close>, the loop's own exit, an error that leaves \<open>main\<close>.\<close>

datatype halt = HaltFatal string string | HaltExit int | HaltShutdown | HaltError string

record ('sk, 'pk) ui =
  ui_app :: "('sk, 'pk) app"
  ui_queue :: "app_event list"
  ui_page :: shown_page
  ui_memory :: page_memory
  ui_watermark :: "high_watermark lock option lock"
  ui_fs :: fs
  ui_keys :: keys_dir
  ui_partitioned :: bool
  ui_ids :: ids
  ui_keys_ro :: bool
  ui_started :: "('sk, 'pk) key_manager list"
  ui_threads :: "thread list"
  ui_resets :: nat
  ui_awake :: bool
  ui_frames :: nat
  ui_halted :: "halt option"

definition fatal_error :: "string \<Rightarrow> string \<Rightarrow> ('sk, 'pk) ui \<Rightarrow> ('sk, 'pk) ui" where
  "fatal_error title message u = u\<lparr>ui_halted := Some (HaltFatal title message)\<rparr>"

definition send :: "app_event \<Rightarrow> ('sk, 'pk) ui \<Rightarrow> ('sk, 'pk) ui" where
  "send e u = u\<lparr>ui_queue := ui_queue u @ [e]\<rparr>"

definition on_app :: "(('sk, 'pk) app \<Rightarrow> ('sk, 'pk) app) \<Rightarrow> ('sk, 'pk) ui \<Rightarrow> ('sk, 'pk) ui" where
  "on_app f u = u\<lparr>ui_app := f (ui_app u)\<rparr>"

definition set_page :: "shown_page \<Rightarrow> ('sk, 'pk) ui \<Rightarrow> ('sk, 'pk) ui" where
  "set_page pg u = u\<lparr>ui_page := pg, ui_memory := fresh_memory\<rparr>"

text \<open>
  One panel operation: \<open>failed\<close> is where its error surfaces, \<open>busy\<close> what the caller does about a
  panel in the middle of a refresh.
\<close>

definition panel ::
    "('sk, 'pk, 'sg) env \<Rightarrow> (string \<Rightarrow> ('sk, 'pk) ui \<Rightarrow> ('sk, 'pk) ui) \<Rightarrow> (('sk, 'pk) ui \<Rightarrow> ('sk, 'pk) ui)
      \<Rightarrow> ('sk, 'pk) ui \<Rightarrow> ('sk, 'pk) ui" where
  "panel V failed busy u =
     (let u1 = u\<lparr>ui_frames := Suc (ui_frames u)\<rparr> in
      case en_display V (ui_frames u) of DisplayOk \<Rightarrow> u1 | DisplayBusy \<Rightarrow> busy u1 | DisplayFailed e \<Rightarrow> failed e u1)"

text \<open>The error of an effect is the fatal \<open>SYSTEM ERROR\<close>.\<close>

definition try_render_page_transition :: "('sk, 'pk, 'sg) env \<Rightarrow> ('sk, 'pk) ui \<Rightarrow> ('sk, 'pk) ui" where
  "try_render_page_transition V =
     panel V (fatal_error ''SYSTEM ERROR'') (on_app (\<lambda>a. a\<lparr>pending_render := record_transition (pending_render a)\<rparr>))"

text \<open>A blocking push waits for the panel, so it is never busy.\<close>

definition push_blocking :: "('sk, 'pk, 'sg) env \<Rightarrow> ('sk, 'pk) ui \<Rightarrow> ('sk, 'pk) ui" where
  "push_blocking V = panel V (fatal_error ''SYSTEM ERROR'') id"

section \<open>Pages\<close>

definition show_spec :: "('sk, 'pk, 'sg) env \<Rightarrow> page_spec \<Rightarrow> ('sk, 'pk) ui \<Rightarrow> ('sk, 'pk) ui" where
  "show_spec V spec u =
     try_render_page_transition V
       (set_page (ShownSpec spec) (on_app (\<lambda>a. a\<lparr>current_page_modal := spec_modal spec, needs_animation := False\<rparr>) u))"

definition apply_show_page :: "('sk, 'pk, 'sg) env \<Rightarrow> page_spec \<Rightarrow> ('sk, 'pk) ui \<Rightarrow> ('sk, 'pk) ui" where
  "apply_show_page V spec u =
     (if spec = PgDeviceLocked then push_blocking V u
      else show_spec V spec (on_app (\<lambda>a. a\<lparr>current_page_spec := Some spec\<rparr>) u))"

definition apply_show_progress ::
    "('sk, 'pk, 'sg) env \<Rightarrow> string \<Rightarrow> nat option \<Rightarrow> bool \<Rightarrow> u8 \<Rightarrow> ('sk, 'pk) ui \<Rightarrow> ('sk, 'pk) ui" where
  "apply_show_progress V message estimated_duration modal percent u =
     try_render_page_transition V
       (case estimated_duration of
          Some duration \<Rightarrow>
            set_page (ShownProgress message modal 0)
              (on_app (\<lambda>a. a\<lparr>animation_interval := timed_interval duration, needs_animation := True, current_page_modal := modal\<rparr>) u)
        | None \<Rightarrow>
            set_page (ShownProgress message False (capped_percent percent))
              (on_app (\<lambda>a. a\<lparr>current_page_modal := False, needs_animation := False\<rparr>) u))"

definition apply_drop_current_page :: "('sk, 'pk, 'sg) env \<Rightarrow> ('sk, 'pk) ui \<Rightarrow> ('sk, 'pk) ui" where
  "apply_drop_current_page V u =
     push_blocking V (set_page ShownScreensaver (on_app (\<lambda>a. a\<lparr>pending_render := RenderNone\<rparr>) u))"

definition rebuild_saved_page :: "('sk, 'pk, 'sg) env \<Rightarrow> ('sk, 'pk) ui \<Rightarrow> ('sk, 'pk) ui" where
  "rebuild_saved_page V u =
     (case current_page_spec (ui_app u) of None \<Rightarrow> u | Some spec \<Rightarrow> show_spec V spec u)"

section \<open>Keys and marks\<close>

text \<open>\<open>App::start_signer\<close>: the pending manager goes to the signer thread.\<close>

definition start_signer :: "('sk, 'pk) ui \<Rightarrow> ('sk, 'pk) ui" where
  "start_signer u =
     (case pending_key_manager (ui_app u) of
        None \<Rightarrow> fatal_error ''SIGNER START ERROR''
            ''StartSigner with no pending key manager (InitWatermark must run first)'' u
      | Some km \<Rightarrow> (on_app (\<lambda>a. a\<lparr>pending_key_manager := None\<rparr>) u)\<lparr>ui_started := ui_started u @ [km]\<rparr>)"

text \<open>The loop over the keys; a failure is logged.\<close>

fun seed_floors :: "crates \<Rightarrow> chain_id \<Rightarrow> u32 \<Rightarrow> public_key_hash list \<Rightarrow> hw_state \<Rightarrow> hw_state" where
  "seed_floors X chain level [] s = s"
| "seed_floors X chain level (pkh # pkhs) s = seed_floors X chain level pkhs (snd (seed_floor X chain pkh level s))"

text \<open>\<open>read_chain_info().ok().and_then(..).unwrap_or_else(..)\<close>.\<close>

definition boot_chain_id :: "crates \<Rightarrow> setup_json \<Rightarrow> keys_dir \<Rightarrow> chain_id \<times> keys_dir" where
  "boot_chain_id X J d =
     (case read_chain_info J d of (r, d1) \<Rightarrow>
        (case Option.bind (ok r) (\<lambda>info. chain_from_b58check X (ci_id info)) of
           Some c \<Rightarrow> c | None \<Rightarrow> ChainId (barray_of []), d1))"

definition apply_init_watermark ::
    "('sk, 'pk, 'sg) env \<Rightarrow> string \<Rightarrow> string \<Rightarrow> ('sk, 'pk) ui \<Rightarrow> ('sk, 'pk) ui" where
  "apply_init_watermark V context secret_keys u =
     (let X = en_crates V in
      if \<not> is_data_mounted (en_mounts V (ui_partitioned u))
      then fatal_error ''DATA UNAVAILABLE''
        ''Data partition not mounted. Re-flash the SD card with the host utility.'' u
      else case load_secret_keys X (en_blst V) (wj_texts (en_wallet_json V)) secret_keys of
          Inl e \<Rightarrow> fatal_error ''KEY LOAD ERROR'' (''Failed to load secret keys: '' @ e) u
        | Inr (km, macs) \<Rightarrow>
            let pkhs = list_keys X km in
            case boot_chain_id X (en_setup_json V) (ui_keys u) of (chain, keys1) \<Rightarrow>
            (case create_high_watermark X signer_config_default pkhs macs chain (ui_fs u) of
               (Inl e, f1) \<Rightarrow>
                 fatal_error ''SYSTEM ERROR'' (''Failed to create watermark: '' @ e) (u\<lparr>ui_keys := keys1, ui_fs := f1\<rparr>)
             | (Inr hwm, f1) \<Rightarrow>
                 let u1 = on_app (\<lambda>a. a\<lparr>pending_key_manager := Some km, pending_watermark_level := None\<rparr>)
                            (u\<lparr>ui_keys := keys1, ui_fs := f1\<rparr>);
                     (hwm2, f2) =
                       (case (pending_watermark_level (ui_app u), hwm) of
                          (Some level, Some (Lock False h)) \<Rightarrow>
                            (case seed_floors X chain level pkhs (h, f1) of (h1, g) \<Rightarrow> (Some (Lock False h1), g))
                        | _ \<Rightarrow> (hwm, f1))
                 in if poisoned (ui_watermark u)
                    then fatal_error ''LOCK POISONED'' (''Watermark lock poisoned during '' @ context) (u1\<lparr>ui_fs := f2\<rparr>)
                    else u1\<lparr>ui_fs := f2, ui_watermark := Lock False hwm2\<rparr>))"

definition apply_watermark_config :: "('sk, 'pk, 'sg) env \<Rightarrow> ('sk, 'pk) ui \<Rightarrow> ('sk, 'pk) ui" where
  "apply_watermark_config V u =
     (case process_watermark_config (en_setup_json V) (ui_keys u) of
        (Configured _ level, d) \<Rightarrow> on_app (\<lambda>a. a\<lparr>pending_watermark_level := Some level\<rparr>) (u\<lparr>ui_keys := d\<rparr>)
      | (ResNotFound, d) \<Rightarrow> on_app (\<lambda>a. a\<lparr>pending_watermark_level := None\<rparr>) (u\<lparr>ui_keys := d\<rparr>)
      | (ResError e, d) \<Rightarrow> fatal_error ''WATERMARK ERROR'' e (u\<lparr>ui_keys := d\<rparr>))"

definition apply_validate_watermark_config :: "('sk, 'pk, 'sg) env \<Rightarrow> ('sk, 'pk) ui \<Rightarrow> ('sk, 'pk) ui" where
  "apply_validate_watermark_config V u =
     (case validate_watermark_config (en_setup_json V) (ui_keys u) of (res, d) \<Rightarrow>
        send (AeWatermarkConfigChecked
                (case res of Configured _ _ \<Rightarrow> ConfigPresent | ResNotFound \<Rightarrow> ConfigMissing | ResError _ \<Rightarrow> ConfigInvalid))
          (u\<lparr>ui_keys := d\<rparr>))"

definition apply_verify_storage :: "('sk, 'pk, 'sg) env \<Rightarrow> ('sk, 'pk) ui \<Rightarrow> ('sk, 'pk) ui" where
  "apply_verify_storage V u =
     (case verify_partitions (en_mounts V (ui_partitioned u)) (ui_keys u) of
        Inl e \<Rightarrow> fatal_error ''SETUP FAILED'' e u
      | Inr _ \<Rightarrow>
          (case create_directories (en_chown V) (ui_fs u) of
             (Inl e, f) \<Rightarrow> fatal_error ''SETUP FAILED'' e (u\<lparr>ui_fs := f\<rparr>)
           | (Inr _, f) \<Rightarrow> u\<lparr>ui_fs := f\<rparr>))"

text \<open>Both lock levels are recovered from poisoning; the error dialog is modal and is not the saved page.\<close>

definition apply_watermark_update ::
    "('sk, 'pk, 'sg) env \<Rightarrow> string \<Rightarrow> chain_id \<Rightarrow> u32 \<Rightarrow> ('sk, 'pk) ui \<Rightarrow> ('sk, 'pk) ui" where
  "apply_watermark_update V pkh chain new_level u =
     (let X = en_crates V;
          failed = (\<lambda>msg v. try_render_page_transition V
            (set_page (ShownSpec (PgDialog msg AeDialogDismissed)) (on_app (\<lambda>a. a\<lparr>current_page_modal := True\<rparr>) v))) in
      case guarded (ui_watermark u) of
        None \<Rightarrow> failed (''Update failed:'' @ newline @ ''Watermark not ready'') u
      | Some (Lock p h) \<Rightarrow>
          (case pkh_from_b58check X pkh of
             Inl _ \<Rightarrow> failed (''Update failed:'' @ newline @ ''Invalid key hash'') u
           | Inr pkh_parsed \<Rightarrow>
               (case update_to_level X chain pkh_parsed new_level (h, ui_fs u) of (r, (h1, f1)) \<Rightarrow>
                  let u1 = u\<lparr>ui_watermark := Lock (poisoned (ui_watermark u)) (Some (Lock p h1)), ui_fs := f1\<rparr> in
                  case r of
                    Inl e \<Rightarrow> failed (''Update failed:'' @ newline @ watermark_error_text e) u1
                  | Inr _ \<Rightarrow> send AeWatermarkUpdateSuccess u1)))"

section \<open>All effects\<close>

definition spawn :: "thread \<Rightarrow> ('sk, 'pk) ui \<Rightarrow> ('sk, 'pk) ui" where
  "spawn t u = u\<lparr>ui_threads := ui_threads u @ [t]\<rparr>"

definition or_fatal :: "string \<Rightarrow> string + 'a \<Rightarrow> ('sk, 'pk) ui \<Rightarrow> ('sk, 'pk) ui" where
  "or_fatal title r u = (case r of Inl e \<Rightarrow> fatal_error title e u | Inr _ \<Rightarrow> u)"

text \<open>\<open>setup::sync_disk\<close>: what is cached becomes stable, unless the command fails.\<close>

definition sync_disk :: "('sk, 'pk) ui \<Rightarrow> ('sk, 'pk) ui" where
  "sync_disk u =
     (let d = ui_keys u; f = ui_fs u in
      case kd_now d of
        IoOk \<Rightarrow> u\<lparr>ui_keys := (kd_tick d)\<lparr>kd_past := [kd_files d], kd_dirty := []\<rparr>,
                 ui_fs := f\<lparr>stable := view f, cache := Map.empty\<rparr>\<rparr>
      | IoFail e r \<Rightarrow> u\<lparr>ui_keys := kd_tick d\<rparr>)"

definition apply_drop_privileges :: "('sk, 'pk, 'sg) env \<Rightarrow> ('sk, 'pk) ui \<Rightarrow> ('sk, 'pk) ui" where
  "apply_drop_privileges V u =
     (case drop_privileges (en_calls V) (ui_ids u) of (r, i) \<Rightarrow> or_fatal ''SECURITY ERROR'' r (u\<lparr>ui_ids := i\<rparr>))"

definition apply_remount :: "('sk, 'pk, 'sg) env \<Rightarrow> ('sk, 'pk) ui \<Rightarrow> ('sk, 'pk) ui" where
  "apply_remount V u =
     (case en_remount V of Inl e \<Rightarrow> fatal_error ''SECURITY ERROR'' e u | Inr _ \<Rightarrow> u\<lparr>ui_keys_ro := True\<rparr>)"

text \<open>
  The timed sleep redraws an animated page and ignores panel failures; permissions are no part of the
  state; a marker that cannot be written is only logged.
\<close>

definition apply_effect :: "('sk, 'pk, 'sg) env \<Rightarrow> effect \<Rightarrow> ('sk, 'pk) ui \<Rightarrow> ('sk, 'pk) ui" where
  "apply_effect V ef u =
     (case ef of
        EfShowPage spec \<Rightarrow> apply_show_page V spec u
      | EfShowProgress message d modal percent \<Rightarrow> apply_show_progress V message d modal percent u
      | EfWakeDisplay \<Rightarrow> push_blocking V (u\<lparr>ui_awake := True\<rparr>)
      | EfSleepDisplay \<Rightarrow> push_blocking V (u\<lparr>ui_awake := False\<rparr>)
      | EfSleepDevice \<Rightarrow> push_blocking V (u\<lparr>ui_awake := False\<rparr>)
      | EfClearDisplay \<Rightarrow> push_blocking V u
      | EfEmit e \<Rightarrow> send e u
      | EfStartSigner \<Rightarrow> start_signer u
      | EfInitWatermark context secret_keys \<Rightarrow> apply_init_watermark V context secret_keys u
      | EfSpawnKeygen pin \<Rightarrow> spawn (ThKeygen pin) u
      | EfSpawnPinVerify pin \<Rightarrow> spawn (ThPinVerify pin) u
      | EfSpawnStorageSetup \<Rightarrow> spawn ThStorageSetup u
      | EfSyncDisk \<Rightarrow> sync_disk u
      | EfDropPrivileges \<Rightarrow> apply_drop_privileges V u
      | EfRemountKeysReadonly \<Rightarrow> apply_remount V u
      | EfWriteSetupMarker \<Rightarrow> u\<lparr>ui_keys := snd (write_setup_marker (ui_keys u))\<rparr>
      | EfSetKeyPermissions \<Rightarrow> u
      | EfProcessWatermarkConfig \<Rightarrow> apply_watermark_config V u
      | EfValidateWatermarkConfig \<Rightarrow> apply_validate_watermark_config V u
      | EfVerifyStorage \<Rightarrow> apply_verify_storage V u
      | EfUpdateWatermark pkh chain new_level \<Rightarrow> apply_watermark_update V pkh chain new_level u
      | EfResetActivity \<Rightarrow> u\<lparr>ui_resets := Suc (ui_resets u)\<rparr>
      | EfDropCurrentPage \<Rightarrow> apply_drop_current_page V u
      | EfRebuildSavedPage \<Rightarrow> rebuild_saved_page V u
      | EfFatalError title message \<Rightarrow> fatal_error title message u
      | EfExit code \<Rightarrow> u\<lparr>ui_halted := Some (HaltExit code)\<rparr>
      | EfSleep d \<Rightarrow> u)"

text \<open>In order, until the process has ended.\<close>

fun apply_effects :: "('sk, 'pk, 'sg) env \<Rightarrow> effect list \<Rightarrow> ('sk, 'pk) ui \<Rightarrow> ('sk, 'pk) ui" where
  "apply_effects V [] u = u"
| "apply_effects V (ef # efs) u =
     (if ui_halted u \<noteq> None then u else apply_effects V efs (apply_effect V ef u))"

end
