(* ===== verification/Ui_Run.thy ===== *)
theory Ui_Run
  imports Ui_Loop
begin

text \<open>
  The event loop of \<open>rpi-signer/src/main.rs\<close> as a step relation: one event of the queue is handled, an
  event arrives from another thread, a background thread runs to its end, a deferred render is
  flushed, the receive times out. A background thread is one step: what it does to the files is not
  interleaved with another one. The boot sequence gives the initial states.
\<close>

section \<open>The signer thread\<close>

text \<open>\<open>build_signer_event_callbacks\<close>: the event each callback of the request handler sends.\<close>

fun callback_event :: "crates \<Rightarrow> ui_event \<Rightarrow> app_event option" where
  "callback_event X (EvWatermarkError pkh chain e) = Some (AeWatermarkError (pkh_to_b58check X pkh) chain (watermark_error_text e))"
| "callback_event X EvSigningNotify = Some AeInvalidate"
| "callback_event X (EvLargeGap pkh chain current requested) = Some (AeLargeWatermarkGap (pkh_to_b58check X pkh) chain current requested)"
| "callback_event X (EvMissingWatermark pkh chain requested) = Some (AeWatermarkMissing (pkh_to_b58check X pkh) chain requested)"
| "callback_event X (EvUnknownKey pkh) = Some (AeUnknownKeyRequested (pkh_to_b58check X pkh))"
| "callback_event X EvPreSign = None"
| "callback_event X EvPostSign = None"

text \<open>Whether the callbacks around a connection are installed, for a boost and a lamp that may be missing.\<close>

definition connection_callbacks :: "bool \<Rightarrow> bool \<Rightarrow> bool \<times> bool" where
  "connection_callbacks cpu_boost led = (if \<not> cpu_boost \<and> \<not> led then (False, False) else (True, True))"

text \<open>
  The closure of the signer thread, up to the server loop: what it sends first, and the handler it
  serves with.
\<close>

definition signer_thread ::
    "('sk, 'pk, 'sg) env \<Rightarrow> bool \<Rightarrow> bool \<Rightarrow> signing_activity lock \<Rightarrow> ('sk, 'pk) key_manager \<Rightarrow> ('sk, 'pk) ui
      \<Rightarrow> app_event list \<times> ('sk, 'pk) request_handler" where
  "signer_thread V cpu_boost led activity km u =
     (let events = (if poisoned (ui_watermark u)
                    then [AeFatalError ''LOCK POISONED'' ''Watermark lock poisoned in signer''] else []);
          bpc = Option.bind (ok (fst (read_chain_info (en_setup_json V) (ui_keys u)))) ci_blocks_per_cycle;
          around = connection_callbacks cpu_boost led;
          callbacks = \<lparr>cb_watermark_error = True, cb_signing = True, cb_large_gap = True, cb_missing_watermark = True,
                       cb_unknown_key = True, cb_pre_sign = fst around, cb_post_sign = snd around\<rparr>
      in (events, signer_handler signer_config_default (Lock False km) (guarded (ui_watermark u)) activity callbacks bpc))"

definition report_signer_failure :: "string \<Rightarrow> app_event" where
  "report_signer_failure e = AeFatalError ''SIGNER FAILED'' e"

section \<open>Background threads\<close>

definition pin_verify_events :: "io_error + decrypt_outcome \<Rightarrow> app_event list" where
  "pin_verify_events r =
     (case r of
        Inl e \<Rightarrow> [AePinVerificationFailed]
      | Inr out \<Rightarrow>
          (case do_migration out of
             Some StagedV2 \<Rightarrow> [AePinVerifyProgress ''Upgrading PIN...'' 12000]
           | Some (StagingFailed _) \<Rightarrow> [AePinVerifyProgress ''Upgrading PIN...'' 12000]
           | _ \<Rightarrow> []) @ [AePinVerified (do_plaintext out) (do_migration out)])"

definition send_all :: "app_event list \<Rightarrow> ('sk, 'pk) ui \<Rightarrow> ('sk, 'pk) ui" where
  "send_all es u = u\<lparr>ui_queue := ui_queue u @ es\<rparr>"

text \<open>Formatting empties the keys partition, for good.\<close>

definition kd_format :: "keys_dir \<Rightarrow> keys_dir" where
  "kd_format d =
     (let m = (\<lambda>p. if take 1 p = [''keys''] then None else kd_files d p) in d\<lparr>kd_files := m, kd_past := [m], kd_dirty := []\<rparr>)"

fun progress_event :: "disk_op \<Rightarrow> app_event option" where
  "progress_event (OpProgress msg pct) = Some (AeStorageProgress msg pct)"
| "progress_event _ = None"

fun is_keys_mkfs :: "disk_op \<Rightarrow> bool" where
  "is_keys_mkfs (OpMkfs dev _) \<longleftrightarrow> dev = KEYS_PART"
| "is_keys_mkfs _ \<longleftrightarrow> False"

fun is_keys_add :: "disk_op \<Rightarrow> bool" where
  "is_keys_add (OpBlkpgAdd n _ _) \<longleftrightarrow> n = 3"
| "is_keys_add _ \<longleftrightarrow> False"

definition storage_thread :: "('sk, 'pk, 'sg) env \<Rightarrow> ('sk, 'pk) ui \<Rightarrow> ('sk, 'pk) ui" where
  "storage_thread V u =
     (case setup_storage (en_storage V) [] of (r, tr) \<Rightarrow>
        send_all (List.map_filter progress_event tr @
                  [case r of Inr _ \<Rightarrow> AeStorageSetupComplete | Inl e \<Rightarrow> AeStorageSetupFailed e])
          (u\<lparr>ui_partitioned := ui_partitioned u \<or> list_ex is_keys_add tr,
             ui_keys := (if list_ex is_keys_mkfs tr then kd_format (ui_keys u) else ui_keys u)\<rparr>))"

definition run_thread ::
    "('sk, 'pk, 'sg) env \<Rightarrow> 16 barray \<Rightarrow> 12 barray \<Rightarrow> (key_role \<Rightarrow> string + 32 barray) \<Rightarrow> thread
      \<Rightarrow> ('sk, 'pk) ui \<Rightarrow> ('sk, 'pk) ui" where
  "run_thread V salt nonce random t u =
     (case t of
        ThPinVerify pin \<Rightarrow>
          (case decrypt_secret_keys (en_ciphers V) salt nonce pin (ui_keys u) of (r, d) \<Rightarrow>
             send_all (pin_verify_events r) (u\<lparr>ui_keys := d\<rparr>))
      | ThKeygen pin \<Rightarrow>
          (case generate_and_encrypt_keys (en_crates V) (en_blst V) (en_ciphers V) (en_wallet_json V) random salt nonce pin
                  (ui_keys u) of
             (Inr json, d) \<Rightarrow> send (AeKeyGenSuccess json) (u\<lparr>ui_keys := d\<rparr>)
           | (Inl e, d) \<Rightarrow> send (AeKeyGenFailed e) (u\<lparr>ui_keys := d\<rparr>))
      | ThStorageSetup \<Rightarrow> storage_thread V u)"

section \<open>Boot\<close>

definition should_recover_watermark_config :: "bool \<Rightarrow> bool \<Rightarrow> bool \<Rightarrow> bool" where
  "should_recover_watermark_config first is_root migration_pending \<longleftrightarrow>
     \<not> first \<and> is_root \<and> \<not> migration_pending"

text \<open>The level to seed, and the process after restoring its posture.\<close>

definition recover_watermark_config ::
    "('sk, 'pk, 'sg) env \<Rightarrow> bool \<Rightarrow> ('sk, 'pk) ui \<Rightarrow> u32 option \<times> ('sk, 'pk) ui" where
  "recover_watermark_config V first u =
     (if \<not> should_recover_watermark_config first (uid (ui_ids u) = 0) (kd_exists SECRET_KEYS_ENC_PATH (ui_keys u))
      then (None, u)
      else case process_watermark_config (en_setup_json V) (ui_keys u) of (res, d) \<Rightarrow>
        let u1 = apply_remount V (u\<lparr>ui_keys := d\<rparr>);
            u2 = (if ui_halted u1 \<noteq> None then u1 else apply_drop_privileges V u1)
        in (case res of Configured _ level \<Rightarrow> Some level | _ \<Rightarrow> None, u2))"

definition halt_error :: "string \<Rightarrow> ('sk, 'pk) ui \<Rightarrow> ('sk, 'pk) ui" where
  "halt_error e u = u\<lparr>ui_halted := Some (HaltError e)\<rparr>"

text \<open>\<open>run_ui_loop\<close> up to the loop, from the process the init script started.\<close>

definition boot :: "('sk, 'pk, 'sg) env \<Rightarrow> ('sk, 'pk) ui \<Rightarrow> ('sk, 'pk) ui" where
  "boot V u =
     (let first = is_first_boot (ui_partitioned u) (ui_keys u) in
      case (if first then verify_partitions_early (ui_keys u) else Inr ()) of
        Inl e \<Rightarrow> fatal_error ''SETUP ERROR'' e u
      | Inr _ \<Rightarrow>
          if first \<and> en_rootfs_mismatch V
          then fatal_error ''CARD CORRUPTION''
            (''System files differ from what was flashed. The SD card is likely corrupted or worn out. '' @
             ''Re-flash it with the host utility.'') u
          else case recover_watermark_config V first u of (level, u1) \<Rightarrow>
            if ui_halted u1 \<noteq> None then u1
            else panel V halt_error id
              (set_page (ShownSpec (if first then PgGreeting else PgPinVerify))
                (u1\<lparr>ui_app := (app_new first)\<lparr>pending_watermark_level := level\<rparr>\<rparr>)))"

section \<open>The loop\<close>

definition handle_touch :: "('sk, 'pk, 'sg) env \<Rightarrow> int \<Rightarrow> int \<Rightarrow> ('sk, 'pk) ui \<Rightarrow> ('sk, 'pk) ui" where
  "handle_touch V x y u =
     (if is_screensaver_active (ui_app u) then send AeDeactivateScreensaver u
      else case page_touch (ui_page u) (en_hit V (ui_page u) x y) (ui_memory u) of (e, m) \<Rightarrow>
        (case e of None \<Rightarrow> u | Some ev \<Rightarrow> send ev u)\<lparr>ui_memory := m, ui_resets := Suc (ui_resets u)\<rparr>)"

text \<open>One event of \<open>drain_events\<close>.\<close>

definition drain_event :: "('sk, 'pk, 'sg) env \<Rightarrow> nat \<Rightarrow> app_event \<Rightarrow> ('sk, 'pk) ui \<Rightarrow> ('sk, 'pk) ui" where
  "drain_event V now event u =
     (case event of
        AeTouch x y \<Rightarrow> handle_touch V x y u
      | AeInvalidate \<Rightarrow> on_app (\<lambda>a. a\<lparr>pending_render := record_invalidate (pending_render a)\<rparr>) u
      | _ \<Rightarrow>
          (case handle_event now (needs_storage_setup (ui_partitioned u)) event (ui_app u) of (action, effects, a) \<Rightarrow>
             let u1 = u\<lparr>ui_app := a\<rparr> in
             if action = LoopContinue then u1
             else
               let u2 = apply_effects V effects u1 in
               if action = LoopBreak \<and> ui_halted u2 = None then u2\<lparr>ui_halted := Some HaltShutdown\<rparr> else u2))"

definition handle_timeout :: "('sk, 'pk, 'sg) env \<Rightarrow> ('sk, 'pk) ui \<Rightarrow> ('sk, 'pk) ui" where
  "handle_timeout V u =
     (if needs_animation (ui_app u) \<and> \<not> is_screensaver_active (ui_app u) then panel V halt_error id u else u)"

text \<open>The end of an iteration of the loop.\<close>

definition flush_render :: "('sk, 'pk, 'sg) env \<Rightarrow> ('sk, 'pk) ui \<Rightarrow> ('sk, 'pk) ui" where
  "flush_render V u =
     (case pending_take (pending_render (ui_app u)) of (kind, rest) \<Rightarrow>
        let u1 = on_app (\<lambda>a. a\<lparr>pending_render := rest\<rparr>) u in
        if \<not> should_flush_repaint (ui_app u1) kind then u1
        else case kind of
            RenderNone \<Rightarrow> u1
          | RenderInPlace \<Rightarrow>
              panel V halt_error (on_app (\<lambda>a. a\<lparr>pending_render := record_invalidate (pending_render a)\<rparr>)) u1
          | RenderTransition \<Rightarrow>
              panel V halt_error (on_app (\<lambda>a. a\<lparr>pending_render := record_transition (pending_render a)\<rparr>)) u1)"

text \<open>
  What other threads send: the touch panel, the inactivity timer, the signal handler, the status page
  and the signer's callbacks.
\<close>

fun outside :: "app_event \<Rightarrow> bool" where
  "outside (AeTouch _ _) \<longleftrightarrow> True"
| "outside AeActivateScreensaver \<longleftrightarrow> True"
| "outside AeShutdown \<longleftrightarrow> True"
| "outside AeInvalidate \<longleftrightarrow> True"
| "outside (AeWatermarkError _ _ _) \<longleftrightarrow> True"
| "outside (AeLargeWatermarkGap _ _ _ _) \<longleftrightarrow> True"
| "outside (AeWatermarkMissing _ _ _) \<longleftrightarrow> True"
| "outside (AeUnknownKeyRequested _) \<longleftrightarrow> True"
| "outside (AeFatalError _ _) \<longleftrightarrow> True"
| "outside _ \<longleftrightarrow> False"

lemma callbacks_outside: "callback_event X ev = Some e \<Longrightarrow> outside e"
  by (cases ev) auto

inductive ui_step :: "('sk, 'pk, 'sg) env \<Rightarrow> ('sk, 'pk) ui \<Rightarrow> ('sk, 'pk) ui \<Rightarrow> bool" for V where
  event: "ui_halted u = None \<Longrightarrow> ui_queue u = e # q \<Longrightarrow> ui_step V u (drain_event V now e (u\<lparr>ui_queue := q\<rparr>))"
| arrival: "ui_halted u = None \<Longrightarrow> outside e \<Longrightarrow> ui_step V u (send e u)"
| thread: "ui_halted u = None \<Longrightarrow> ui_threads u = ts @ t # ts' \<Longrightarrow>
    ui_step V u (run_thread V salt nonce random t (u\<lparr>ui_threads := ts @ ts'\<rparr>))"
| timeout: "ui_halted u = None \<Longrightarrow> ui_step V u (handle_timeout V u)"
| flush: "ui_halted u = None \<Longrightarrow> ui_step V u (flush_render V u)"

text \<open>The process the init script starts: nothing queued, nothing running.\<close>

definition fresh_process :: "('sk, 'pk) ui \<Rightarrow> bool" where
  "fresh_process u \<longleftrightarrow>
     ui_queue u = [] \<and> ui_threads u = [] \<and> ui_started u = [] \<and> ui_watermark u = Lock False None \<and> ui_halted u = None"

end
