(* ===== verification/Ui_Privileges.thy ===== *)
theory Ui_Privileges
  imports Ui_Safety
begin

text \<open>
  Privileges over the life of the process: the init script may start it as root on the first boot, to
  finish a format upgrade of the key file, or to consume a staged configuration. Shown: whenever the
  signer has been started, the process is no longer root.
\<close>

section \<open>The legacy file during an unlock\<close>

text \<open>An operation that reports failure had no effect.\<close>

definition clean :: "keys_dir \<Rightarrow> bool" where
  "clean d \<longleftrightarrow> (\<forall>n e r. kd_outcomes d n = IoFail e r \<longrightarrow> r = Kept)"

text \<open>A step leaves a file and the oracle alone.\<close>

definition spares :: "path \<Rightarrow> 'a keys_io \<Rightarrow> bool" where
  "spares p m \<longleftrightarrow> (\<forall>d. kd_files (snd (m d)) p = kd_files d p \<and> kd_outcomes (snd (m d)) = kd_outcomes d)"

lemma spares_run: "spares p m \<Longrightarrow> m d = (r, d') \<Longrightarrow> kd_files d' p = kd_files d p \<and> kd_outcomes d' = kd_outcomes d"
  unfolding spares_def by (metis snd_conv)

lemma spares_bind: "spares p m \<Longrightarrow> (\<And>x. spares p (f x)) \<Longrightarrow> spares p (bindS m f)"
  unfolding spares_def bindS_def by (auto split: prod.splits sum.splits) (metis snd_conv)+

lemma spares_prims:
  "spares p (kd_read q)" "spares p (kd_sync_all q)" "spares p (liftK r)" "spares p (returnS x)" "spares p (failS e)"
  "p \<noteq> q \<Longrightarrow> spares p (kd_create q)" "p \<noteq> q \<Longrightarrow> spares p (kd_write_all q data)" "p \<noteq> q \<Longrightarrow> spares p (kd_remove q)"
  "p \<noteq> q \<Longrightarrow> p \<noteq> q' \<Longrightarrow> spares p (kd_rename q q')" "spares p (\<lambda>d. (Inr y, kd_sync_dir d))"
  by (auto simp: spares_def kd_read_def kd_sync_all_def liftK_def returnS_def failS_def kd_create_def kd_write_all_def
      kd_remove_def kd_rename_def kd_sync_dir_def kd_change_def kd_tick_def moved_def
      split: io_outcome.splits option.splits residue.splits)

lemma spares_atomic_write: "p \<noteq> target \<Longrightarrow> p \<noteq> tmp_path target \<Longrightarrow> spares p (atomic_write target data)"
  unfolding atomic_write_def Let_def by (cases "target = []") (simp_all add: spares_bind spares_prims)

lemma spares_increment: "p \<noteq> c \<Longrightarrow> p \<noteq> tmp_path c \<Longrightarrow> spares p (increment_counter c n)"
  unfolding increment_counter_def Let_def by (intro spares_bind spares_atomic_write spares_prims)

lemma read_counter_spares: "read_counter c d = (n, d') \<Longrightarrow> kd_files d' p = kd_files d p \<and> kd_outcomes d' = kd_outcomes d"
  using spares_run [OF spares_prims(1) [of p c]] by (auto simp: read_counter_def split: prod.splits)

lemma clear_counter_spares: "p \<noteq> c \<Longrightarrow> clear_counter c d = (r, d') \<Longrightarrow> kd_files d' p = kd_files d p \<and> kd_outcomes d' = kd_outcomes d"
  using spares_run [OF spares_prims(8) [of p c]] by (auto simp: clear_counter_def split: prod.splits sum.splits if_splits)

text \<open>What an unlock may say about the file: still there and not promoted, or promoted.\<close>

definition v1_verdict :: "(io_error + decrypt_outcome) \<times> keys_dir \<Rightarrow> bool" where
  "v1_verdict res \<longleftrightarrow>
     kd_files (snd res) SECRET_KEYS_ENC_PATH \<noteq> None \<and>
       (\<forall>out. fst res = Inr out \<longrightarrow> do_migration out \<noteq> None \<and> do_migration out \<noteq> Some PromotedV2) \<or>
     (\<exists>out. fst res = Inr out \<and> do_migration out = Some PromotedV2)"

lemma stage_verdict:
  assumes "kd_files d SECRET_KEYS_ENC_PATH \<noteq> None"
  shows "v1_verdict (stage_v1_to_v2 C salt nonce pin SECRET_KEYS_ENC_PATH SECRET_KEYS_ENC_V2_PATH MIGRATION_ATTEMPTS_PATH d) \<and>
    kd_outcomes (snd (stage_v1_to_v2 C salt nonce pin SECRET_KEYS_ENC_PATH SECRET_KEYS_ENC_V2_PATH MIGRATION_ATTEMPTS_PATH d)) = kd_outcomes d"
proof -
  have st: "spares SECRET_KEYS_ENC_PATH (stage_result C salt nonce pin SECRET_KEYS_ENC_V2_PATH t)" for t
    unfolding stage_result_def by (auto intro!: spares_atomic_write spares_prims split: sum.splits)
  note frame = spares_run [OF spares_prims(1) [of SECRET_KEYS_ENC_PATH SECRET_KEYS_ENC_PATH]]
    read_counter_spares [where p = SECRET_KEYS_ENC_PATH] spares_run [OF st]
    spares_run [OF spares_increment [OF keys.paths_neq(3,11)]]
  show ?thesis
    using assms
    by (auto simp: stage_v1_to_v2_def bindS_def liftK_def returnS_def failS_def v1_verdict_def
        split: prod.splits sum.splits if_splits dest!: frame)
qed

lemma verify_verdict:
  assumes "kd_files d SECRET_KEYS_ENC_PATH \<noteq> None" and "clean d"
  shows "v1_verdict (verify_v2_or_revert C pin SECRET_KEYS_ENC_PATH SECRET_KEYS_ENC_V2_PATH MIGRATION_ATTEMPTS_PATH d) \<and>
    kd_outcomes (snd (verify_v2_or_revert C pin SECRET_KEYS_ENC_PATH SECRET_KEYS_ENC_V2_PATH MIGRATION_ATTEMPTS_PATH d)) = kd_outcomes d"
proof -
  have rm: "kd_files e' SECRET_KEYS_ENC_PATH = kd_files e SECRET_KEYS_ENC_PATH"
    if "kd_remove SECRET_KEYS_ENC_PATH e = (Inl err, e')" "clean e" for e e' err
    using that by (auto simp: kd_remove_def clean_def kd_now_def kd_tick_def split: option.splits io_outcome.splits residue.splits)
  have rmo: "kd_outcomes e' = kd_outcomes e" if "kd_remove p e = (r, e')" for p e r e'
    using that by (auto simp: kd_remove_def kd_change_def kd_tick_def split: option.splits io_outcome.splits residue.splits)
  have cl: "clean e'" if "kd_outcomes e' = kd_outcomes e" "clean e" for e e'
    using that by (simp add: clean_def)
  obtain n d1 where ct: "read_counter MIGRATION_ATTEMPTS_PATH d = (n, d1)" by (cases "read_counter MIGRATION_ATTEMPTS_PATH d")
  note s1 = read_counter_spares [OF ct, of SECRET_KEYS_ENC_PATH]
  obtain r2 d2 where rd: "kd_read SECRET_KEYS_ENC_V2_PATH d1 = (r2, d2)" by (cases "kd_read SECRET_KEYS_ENC_V2_PATH d1")
  note s2 = spares_run [OF spares_prims(1) rd, of SECRET_KEYS_ENC_PATH]
  obtain r3 d3 where rm3: "kd_remove SECRET_KEYS_ENC_PATH d2 = (r3, d3)" by (cases "kd_remove SECRET_KEYS_ENC_PATH d2")
  have c2: "clean d2"
    using cl assms(2) s1 s2 by metis
  note v2 = spares_run [OF spares_prims(8) [of SECRET_KEYS_ENC_PATH SECRET_KEYS_ENC_V2_PATH]]
  have cc: "kd_outcomes (snd (clear_counter MIGRATION_ATTEMPTS_PATH d3)) = kd_outcomes d3"
    using clear_counter_spares [of SECRET_KEYS_ENC_PATH MIGRATION_ATTEMPTS_PATH d3] by (metis keys.paths_neq(3) prod.collapse)
  have rv: "kd_files (snd (kd_remove SECRET_KEYS_ENC_V2_PATH e)) SECRET_KEYS_ENC_PATH = kd_files e SECRET_KEYS_ENC_PATH \<and>
      kd_outcomes (snd (kd_remove SECRET_KEYS_ENC_V2_PATH e)) = kd_outcomes e" for e
    using v2 by (metis keys.paths_neq(1) prod.collapse)
  note frame = spares_run [OF spares_prims(1) [of SECRET_KEYS_ENC_PATH SECRET_KEYS_ENC_PATH]]
  show ?thesis
    using assms s1 s2 rm [OF _ c2] rmo [OF rm3] cc rv
    by (auto simp: verify_v2_or_revert_def bindS_def liftK_def returnS_def v1_verdict_def ct rd rm3
        split: prod.splits sum.splits if_splits dest!: frame)
qed

lemma decrypt_verdict:
  assumes "decrypt_secret_keys C salt nonce pin d = (r, d')" and "kd_files d SECRET_KEYS_ENC_PATH \<noteq> None" and "clean d"
  shows "v1_verdict (r, d') \<and> clean d'"
proof -
  have "v1_verdict (decrypt_secret_keys C salt nonce pin d) \<and>
      kd_outcomes (snd (decrypt_secret_keys C salt nonce pin d)) = kd_outcomes d"
    using stage_verdict [OF assms(2), of C salt nonce pin] verify_verdict [OF assms(2,3), of C pin] assms(2)
    by (simp add: decrypt_secret_keys_def migrate_and_decrypt_def kd_exists_def split: bool.splits)
  then show ?thesis
    using assms by (simp add: clean_def)
qed

section \<open>Effects and privileges\<close>

text \<open>What no rendering touches.\<close>

definition fields :: "('sk, 'pk) ui \<Rightarrow> ids \<times> keys_dir \<times> thread list \<times> ('sk, 'pk) key_manager list" where
  "fields u = (ui_ids u, ui_keys u, ui_threads u, ui_started u)"

lemma panel_fields:
  assumes "\<And>v. fields (busy v) = fields v" and "\<And>e v. fields (failed e v) = fields v"
  shows "fields (panel V failed busy u) = fields u"
  using assms by (simp add: panel_def Let_def split: display_outcome.splits) (simp add: fields_def)

lemma small_fields [simp]:
  "fields (fatal_error t m u) = fields u" "fields (halt_error e u) = fields u" "fields (on_app g u) = fields u"
  "fields (set_page pg u) = fields u" "fields (send ev u) = fields u" "fields (u\<lparr>ui_awake := b\<rparr>) = fields u"
  "fields (u\<lparr>ui_resets := n\<rparr>) = fields u" "fields (u\<lparr>ui_halted := h\<rparr>) = fields u" "fields (u\<lparr>ui_app := a\<rparr>) = fields u"
  "fields (u\<lparr>ui_queue := q\<rparr>) = fields u" "fields (u\<lparr>ui_memory := pm\<rparr>) = fields u" "fields (u\<lparr>ui_fs := f\<rparr>) = fields u"
  "fields (u\<lparr>ui_watermark := w\<rparr>) = fields u"
  by (simp_all add: fields_def fatal_error_def halt_error_def on_app_def set_page_def send_def)

lemma render_fields [simp]:
  "fields (try_render_page_transition V u) = fields u" "fields (push_blocking V u) = fields u"
  unfolding try_render_page_transition_def push_blocking_def by (rule panel_fields; simp)+

lemma page_fields [simp]:
  "fields (show_spec V spec u) = fields u" "fields (apply_show_page V spec u) = fields u"
  "fields (apply_show_progress V m d md p u) = fields u" "fields (apply_drop_current_page V u) = fields u"
  "fields (rebuild_saved_page V u) = fields u"
  by (simp_all add: show_spec_def apply_show_page_def apply_show_progress_def apply_drop_current_page_def
      rebuild_saved_page_def split: option.splits)

lemma update_fields [simp]: "fields (apply_watermark_update V pkh chain l u) = fields u"
  by (auto simp: apply_watermark_update_def Let_def split: option.splits lock.splits sum.splits prod.splits)

lemma ids_of_fields: "fields v = fields u \<Longrightarrow> ui_ids v = ui_ids u \<and> ui_keys v = ui_keys u \<and> ui_threads v = ui_threads u \<and> ui_started v = ui_started u"
  by (simp add: fields_def)

lemmas rendered = ids_of_fields [OF render_fields(2)] ids_of_fields [OF page_fields(2)] ids_of_fields [OF page_fields(3)]
  ids_of_fields [OF page_fields(4)] ids_of_fields [OF page_fields(5)] ids_of_fields [OF update_fields]

lemma effect_ids:
  assumes "ef \<noteq> EfDropPrivileges"
  shows "ui_ids (apply_effect V ef u) = ui_ids u"
  using assms
  by (cases ef)
    (auto simp: apply_effect_def rendered send_def start_signer_def fatal_error_def on_app_def spawn_def sync_disk_def
      apply_remount_def apply_watermark_config_def apply_validate_watermark_config_def apply_verify_storage_def Let_def
      apply_init_watermark_def split: prod.splits sum.splits option.splits lock.splits bool.splits io_outcome.splits watermark_result.splits)

lemma effect_started:
  assumes "ef \<noteq> EfStartSigner"
  shows "ui_started (apply_effect V ef u) = ui_started u"
  using assms
  by (cases ef)
    (auto simp: apply_effect_def rendered send_def fatal_error_def on_app_def spawn_def sync_disk_def
      apply_remount_def apply_watermark_config_def apply_validate_watermark_config_def apply_verify_storage_def Let_def
      apply_init_watermark_def apply_drop_privileges_def or_fatal_def
      split: prod.splits sum.splits option.splits lock.splits bool.splits io_outcome.splits watermark_result.splits)

lemma drop_effect: "ui_halted (apply_effect V EfDropPrivileges u) \<noteq> None \<or> uid (ui_ids (apply_effect V EfDropPrivileges u)) \<noteq> 0"
  by (auto simp: apply_effect_def apply_drop_privileges_def or_fatal_def fatal_error_def
      split: prod.splits sum.splits dest!: drop_privileges_ok)

lemma effect_uid:
  assumes "0 < uid (ui_ids u)" shows "0 < uid (ui_ids (apply_effect V ef u))"
proof (cases "ef = EfDropPrivileges")
  case True
  then show ?thesis
    using assms by (simp add: apply_effect_def apply_drop_privileges_def or_fatal_def drop_privileges_def)
qed (simp add: assms effect_ids)

lemma effects_uid:
  "0 < uid (ui_ids u) \<Longrightarrow> 0 < uid (ui_ids (apply_effects V efs u))"
  by (induction efs arbitrary: u) (auto simp: effect_uid)

lemma effects_started: "EfStartSigner \<notin> set efs \<Longrightarrow> ui_started (apply_effects V efs u) = ui_started u"
  by (induction efs arbitrary: u) (auto simp: effect_started)

lemma effects_drop:
  "EfDropPrivileges \<in> set efs \<Longrightarrow> ui_halted (apply_effects V efs u) \<noteq> None \<or> uid (ui_ids (apply_effects V efs u)) \<noteq> 0"
proof (induction efs arbitrary: u)
  case (Cons ef efs)
  show ?case
  proof (cases "ui_halted u = None \<and> ef = EfDropPrivileges")
    case True
    then show ?thesis
      using drop_effect [of V u] effects_uid [of "apply_effect V ef u" V efs]
      by (auto simp: apply_effects_halted)
  next
    case False
    then show ?thesis
      using Cons.prems Cons.IH [of "apply_effect V ef u"] by auto
  qed
qed simp

text \<open>An effect list that ends in an exit ends the process.\<close>

lemma effects_exit: "EfExit c \<in> set efs \<Longrightarrow> ui_halted (apply_effects V efs u) \<noteq> None"
proof (induction efs arbitrary: u)
  case (Cons ef efs)
  show ?case
  proof (cases "ui_halted u = None \<and> ef = EfExit c")
    case True
    then show ?thesis
      by (simp add: apply_effect_def apply_effects_halted)
  next
    case False
    then show ?thesis
      using Cons by auto
  qed
qed simp

fun calm_effect :: "effect \<Rightarrow> bool" where
  "calm_effect (EfShowPage spec) \<longleftrightarrow> spec_ok spec"
| "calm_effect (EfShowProgress _ _ _ _) \<longleftrightarrow> True"
| "calm_effect (EfSpawnPinVerify _) \<longleftrightarrow> True"
| "calm_effect (EfEmit e) \<longleftrightarrow> \<not> is_decrypted e \<and> \<not> unlocking e"
| "calm_effect _ \<longleftrightarrow> False"

fun is_pin_thread :: "thread \<Rightarrow> bool" where
  "is_pin_thread (ThPinVerify _) \<longleftrightarrow> True"
| "is_pin_thread _ \<longleftrightarrow> False"

lemma calm_plain: "calm_effect ef \<Longrightarrow> plain_effect ef"
  by (cases ef) simp_all

lemma calm_effect_fields:
  assumes "calm_effect ef"
  shows "ui_ids (apply_effect V ef u) = ui_ids u \<and> ui_keys (apply_effect V ef u) = ui_keys u \<and>
    (list_all is_pin_thread (ui_threads u) \<longrightarrow> list_all is_pin_thread (ui_threads (apply_effect V ef u)))"
  using assms by (cases ef) (auto simp: apply_effect_def rendered send_def spawn_def)

lemma calm_effects_fields:
  assumes "list_all calm_effect efs"
  shows "ui_ids (apply_effects V efs u) = ui_ids u \<and> ui_keys (apply_effects V efs u) = ui_keys u \<and>
    (list_all is_pin_thread (ui_threads u) \<longrightarrow> list_all is_pin_thread (ui_threads (apply_effects V efs u)))"
  using assms
proof (induction efs arbitrary: u)
  case (Cons ef efs)
  then show ?case
    using calm_effect_fields [of ef V u] Cons.IH [of "apply_effect V ef u"] by auto
qed simp

lemma pin_calm:
  assumes "handle_pin_entry now e a = (act, efs, b)" and "app_state a = PinEntry k l" and "app_state b = PinEntry k' l'"
  shows "list_all calm_effect efs \<or> EfExit EXIT_CODE_REBOOT \<in> set efs"
  using assms
  by (auto simp: handler_defs spec_ok_def Let_def
      split: app_event.splits app_state.splits option.splits migration_event.splits if_splits)

section \<open>The signer never runs as root\<close>

lemma state_of_part: "signer_part v = signer_part u \<Longrightarrow> app_state (ui_app v) = app_state (ui_app u)"
  by (simp add: signer_part_def)

lemma effect_state: "app_state (ui_app (apply_effect V ef u)) = app_state (ui_app u)"
proof (cases "ef = EfStartSigner \<or> (\<exists>c j. ef = EfInitWatermark c j) \<or> (\<exists>e. ef = EfEmit e)")
  case True
  then show ?thesis
    by (auto simp: apply_effect_def start_signer_def apply_init_watermark_def fatal_error_def on_app_def send_def Let_def
        split: option.splits prod.splits sum.splits lock.splits bool.splits)
next
  case False
  then show ?thesis
    by (intro state_of_part) (cases ef; simp add: apply_effect_def)
qed

lemma effects_state: "app_state (ui_app (apply_effects V efs u)) = app_state (ui_app u)"
  by (induction efs arbitrary: u) (auto simp: effect_state)

definition pin_root :: "('sk, 'pk) ui \<Rightarrow> bool" where
  "pin_root u \<longleftrightarrow>
     list_all is_pin_thread (ui_threads u) \<and>
     (0 < uid (ui_ids u) \<or>
      clean (ui_keys u) \<and> kd_files (ui_keys u) SECRET_KEYS_ENC_PATH \<noteq> None \<and> unlocks u = [] \<or>
      (\<exists>x xs. unlocks u = x # xs \<and> is_promoted x))"

definition root_inv :: "('sk, 'pk) ui \<Rightarrow> bool" where
  "root_inv u \<longleftrightarrow>
     (ui_started u \<noteq> [] \<longrightarrow> 0 < uid (ui_ids u)) \<and>
     (ui_halted u = None \<longrightarrow>
        (is_active (app_state (ui_app u)) \<longrightarrow> 0 < uid (ui_ids u)) \<and>
        (\<forall>k l. app_state (ui_app u) = PinEntry k l \<longrightarrow> pin_root u))"

lemma root_inv_same:
  assumes "root_inv u" and "ui_halted u = None" and "ui_ids v = ui_ids u" and "ui_keys v = ui_keys u" and "ui_threads v = ui_threads u"
    and "ui_started v = ui_started u" and "unlocks v = unlocks u" and "app_state (ui_app v) = app_state (ui_app u)"
  shows "root_inv v"
  using assms by (auto simp: root_inv_def pin_root_def)

lemma root_inv_active:
  assumes "0 < uid (ui_ids v)" and "\<nexists>k l. app_state (ui_app v) = PinEntry k l"
  shows "root_inv v"
  using assms by (simp add: root_inv_def)

lemma root_inv_idle:
  assumes "ui_started v = []" and "\<not> is_active (app_state (ui_app v))" and "\<nexists>k l. app_state (ui_app v) = PinEntry k l"
  shows "root_inv v"
  using assms by (simp add: root_inv_def)

lemma root_inv_halted: "ui_halted v \<noteq> None \<Longrightarrow> ui_started v = [] \<Longrightarrow> root_inv v"
  by (auto simp: root_inv_def)

lemma handle_event_by_state:
  assumes "e \<noteq> AeShutdown" and "\<nexists>t m. e = AeFatalError t m"
  shows "handle_event now n e a = (case app_state a of
             Setup _ \<Rightarrow> handle_setup n e a
           | PinEntry _ _ \<Rightarrow> handle_pin_entry now e a
           | Active _ \<Rightarrow> handle_active e a
           | Locked \<Rightarrow> (LoopContinue, [], a))"
  using assms by (cases e; clarsimp simp: handle_event_def)

lemma plain_no_start: "list_all plain_effect efs \<Longrightarrow> EfStartSigner \<notin> set efs"
  by (induction efs) auto

lemma unlock_no_start: "EfStartSigner \<notin> set (unlock_tail c json)"
  by (simp add: unlock_tail_def)

lemma pin_unlocking:
  assumes "handle_pin_entry now e a = (act, efs, b)" and "app_state a = PinEntry k l" and "unlocking e"
  shows "app_state b = Active False"
  using assms by (cases e) (auto simp: handle_pin_entry_def dispatch_pin_verified_def proceed_to_active_def
      split: option.splits migration_event.splits elim: unlocking.elims)

lemma pin_step_root:
  assumes h: "handle_pin_entry now e (ui_app u) = (act, efs, b)" and st: "app_state (ui_app u) = PinEntry k l"
    and q: "ui_queue u = e # q" and root: "pin_root u" and pages: "pages_ok u" and started: "ui_started u = []"
  shows "root_inv (apply_effects V efs (u\<lparr>ui_queue := q, ui_app := b\<rparr>)) \<and> act = LoopProceed"
proof -
  let ?v = "u\<lparr>ui_queue := q, ui_app := b\<rparr>" and ?w = "apply_effects V efs (u\<lparr>ui_queue := q, ui_app := b\<rparr>)"
  note pe = pin_effects [OF h st]
  have p: "pages_ok ?v"
    using pe pages by (auto simp: pages_ok_def)
  have sw: "app_state (ui_app ?w) = app_state b"
    by (simp add: effects_state)
  from pe consider (stay) k' l' where "list_all plain_effect efs" "app_state b = PinEntry k' l'"
    | (lock) "list_all plain_effect efs" "EfExit 1 \<in> set efs"
    | (go) ds c json where "efs = ds @ unlock_tail c json" "list_all plain_effect ds" "app_state b = Active False"
        "EfDropPrivileges \<in> set ds \<or> e = AePinVerified json None"
    by blast
  then show ?thesis
  proof cases
    case stay
    then have s: "ui_started ?w = []"
      using effects_started [OF plain_no_start [OF stay(1)], of V ?v] started by simp
    show ?thesis
    proof (cases "ui_halted ?w = None")
      case False
      then show ?thesis
        using s pe by (simp add: root_inv_halted)
    next
      case True
      then have c: "list_all calm_effect efs"
        using pin_calm [OF h st stay(2)] effects_exit [of EXIT_CODE_REBOOT efs V ?v] by blast
      have "\<not> unlocking e"
        using pin_unlocking [OF h st] stay(2) by auto
      then have "unlocks ?w = unlocks u"
        using plain_effects_core [OF stay(1) p, of V] q by simp
      moreover note calm_effects_fields [OF c, of V ?v]
      ultimately have "pin_root ?w"
        using root by (auto simp: pin_root_def)
      then show ?thesis
        using s sw stay(2) pe by (simp add: root_inv_def)
    qed
  next
    case lock
    then show ?thesis
      using effects_exit [OF lock(2), of V ?v] effects_started [OF plain_no_start [OF lock(1)], of V ?v] started pe
      by (simp add: root_inv_halted)
  next
    case go
    have ns: "EfStartSigner \<notin> set efs"
      using go(1,2) plain_no_start unlock_no_start by auto
    have s: "ui_started ?w = []"
      using effects_started [OF ns, of V ?v] started by simp
    have "ui_halted ?w \<noteq> None \<or> 0 < uid (ui_ids ?w)"
    proof (cases "EfDropPrivileges \<in> set ds")
      case True
      then show ?thesis
        using effects_drop [of efs V ?v] go(1) by auto
    next
      case False
      then have "e = AePinVerified json None"
        using go(4) by simp
      then have "0 < uid (ui_ids u)"
        using root q by (auto simp: pin_root_def)
      then show ?thesis
        using effects_uid [of ?v V efs] by simp
    qed
    then show ?thesis
      using s sw go(3) pe by (auto simp: root_inv_def)
  qed
qed

lemma setup_step_root:
  assumes h: "handle_setup n e (ui_app u) = (act, efs, b)" and st: "app_state (ui_app u) = Setup fp" and started: "ui_started u = []"
  shows "root_inv (apply_effects V efs (u\<lparr>ui_queue := q, ui_app := b\<rparr>)) \<and> act = LoopProceed"
proof -
  let ?v = "u\<lparr>ui_queue := q, ui_app := b\<rparr>" and ?w = "apply_effects V efs (u\<lparr>ui_queue := q, ui_app := b\<rparr>)"
  note se = setup_effects [OF h st]
  have sw: "app_state (ui_app ?w) = app_state b"
    by (simp add: effects_state)
  from se consider (stay) q' where "list_all plain_effect efs" "app_state b = Setup q'"
    | (go) ds c json where "efs = ds @ unlock_tail c json" "list_all plain_effect ds" "app_state b = Active False"
        "EfDropPrivileges \<in> set ds"
    by blast
  then show ?thesis
  proof cases
    case stay
    then show ?thesis
      using effects_started [OF plain_no_start [OF stay(1)], of V ?v] started sw se by (simp add: root_inv_idle)
  next
    case go
    have "EfStartSigner \<notin> set efs" "EfDropPrivileges \<in> set efs"
      using go plain_no_start unlock_no_start by auto
    then show ?thesis
      using effects_started [of efs V ?v] effects_drop [of efs V ?v] started sw go(3) se by (auto simp: root_inv_def)
  qed
qed

lemma drain_root:
  assumes sig: "signer_inv u" and root: "root_inv u" and run: "ui_halted u = None" and q: "ui_queue u = e # q"
  shows "root_inv (drain_event V now e (u\<lparr>ui_queue := q\<rparr>))"
proof -
  let ?u = "u\<lparr>ui_queue := q\<rparr>"
  have p: "pages_ok u" "pages_ok ?u" and ph: "phase_ok (signer_part u)"
    using sig run by (simp_all add: signer_inv_def)
  have idle: "ui_started u = []" if "\<not> is_active (app_state (ui_app u))"
    using ph that by (simp add: signer_part_def)
  have same: "root_inv v" if "fields v = fields u" "signer_part v = signer_part u" "unlocks v = unlocks u" for v
    using root_inv_same [OF root run] that by (simp add: fields_def signer_part_def)
  consider x y where "e = AeTouch x y" | "e = AeInvalidate" | "e = AeShutdown" | t m where "e = AeFatalError t m"
    | "\<nexists>x y. e = AeTouch x y" "e \<noteq> AeInvalidate" "e \<noteq> AeShutdown" "\<nexists>t m. e = AeFatalError t m"
    by blast
  then show ?thesis
  proof cases
    case 1
    have "fields (handle_touch V x y ?u) = fields u"
      by (simp add: handle_touch_def fields_def send_def split: prod.splits option.splits)
    then show ?thesis
      using touch_part [OF p(2), of V x y] pop_part [OF q] q 1 by (auto simp: drain_event_def intro!: same)
  next
    case 2
    then show ?thesis
      using pop_part [OF q] q by (auto simp: drain_event_def intro!: same)
  next
    case 3
    obtain act efs b where h: "handle_shutdown (ui_app u) = (act, efs, b)"
      by (metis prod_cases3)
    let ?w = "apply_effects V efs (?u\<lparr>ui_app := b\<rparr>)"
    have a: "act = LoopBreak" and n: "EfStartSigner \<notin> set efs"
      using h by (auto simp: handle_shutdown_def)
    have w: "ui_started ?w = ui_started u"
      using effects_started [OF n, of V "?u\<lparr>ui_app := b\<rparr>"] by simp
    have "0 < uid (ui_ids u) \<Longrightarrow> 0 < uid (ui_ids ?w)"
      using effects_uid [of "?u\<lparr>ui_app := b\<rparr>" V] by simp
    then have "root_inv w'" if "ui_halted w' \<noteq> None" "ui_started w' = ui_started ?w" "ui_ids w' = ui_ids ?w" for w'
      using that w root by (auto simp: root_inv_def)
    moreover have "drain_event V now e ?u = (if ui_halted ?w = None then ?w\<lparr>ui_halted := Some HaltShutdown\<rparr> else ?w)"
      using 3 h a by (simp add: drain_event_def handle_event_def Let_def)
    ultimately show ?thesis
      by simp
  next
    case 4
    then show ?thesis
      using root by (auto simp: drain_event_def handle_event_def root_inv_def Let_def apply_effect_def fatal_error_def run)
  next
    case 5
    obtain act efs b where h: "handle_event now (needs_storage_setup (ui_partitioned u)) e (ui_app u) = (act, efs, b)"
      by (metis prod_cases3)
    let ?v = "u\<lparr>ui_queue := q, ui_app := b\<rparr>"
    have d: "drain_event V now e ?u = (if act = LoopContinue then ?v
        else let u2 = apply_effects V efs ?v in
          if act = LoopBreak \<and> ui_halted u2 = None then u2\<lparr>ui_halted := Some HaltShutdown\<rparr> else u2)"
      using 5 h by (cases e) (simp_all add: drain_event_def Let_def)
    note he = h [unfolded handle_event_by_state [OF 5(3,4)]]
    show ?thesis
    proof (cases "app_state (ui_app u)")
      case (Setup fp)
      then show ?thesis
        using setup_step_root [of "needs_storage_setup (ui_partitioned u)" e u act efs b fp V q] he idle d by simp
    next
      case (PinEntry k l)
      moreover from this have "pin_root u"
        using root run by (simp add: root_inv_def)
      ultimately show ?thesis
        using pin_step_root [of now e u act efs b k l q V] he idle d q p(1) by simp
    next
      case (Active s)
      then have "0 < uid (ui_ids u)"
        using root run by (simp add: root_inv_def)
      then have "0 < uid (ui_ids (apply_effects V efs ?v))"
        using effects_uid [of ?v V efs] by simp
      moreover have "is_active (app_state b)" "act \<noteq> LoopBreak"
        using active_effects [OF _ Active, of e act efs b] he Active by simp_all
      moreover have "app_state (ui_app (apply_effects V efs ?v)) = app_state b"
        by (simp add: effects_state)
      ultimately show ?thesis
        using \<open>0 < uid (ui_ids u)\<close> d by (cases "app_state b") (auto simp: Let_def intro!: root_inv_active)
    next
      case Locked
      then have "act = LoopContinue" "b = ui_app u"
        using he by simp_all
      then show ?thesis
        using d Locked idle by (simp add: root_inv_idle)
    qed
  qed
qed

lemma unlocking_verified: "unlocking (AePinVerified t m) \<longleftrightarrow> m = None \<or> m = Some PromotedV2"
proof (cases m)
  case (Some ev)
  then show ?thesis
    by (cases ev) simp_all
qed simp

lemma thread_root:
  assumes sig: "signer_inv u" and root: "root_inv u" and run: "ui_halted u = None" and t: "ui_threads u = ts @ t # ts'"
  shows "root_inv (run_thread V salt nonce random t (u\<lparr>ui_threads := ts @ ts'\<rparr>))" (is "root_inv ?v")
proof -
  have same: "ui_ids ?v = ui_ids u" "ui_started ?v = ui_started u" "ui_app ?v = ui_app u" "ui_threads ?v = ts @ ts'"
    by (auto simp: run_thread_def storage_thread_def send_all_def send_def split: thread.splits prod.splits sum.splits)
  have "pin_root ?v" if st: "app_state (ui_app u) = PinEntry k l" for k l
  proof -
    have r: "pin_root u"
      using root run st by (simp add: root_inv_def)
    then obtain pin where pin: "t = ThPinVerify pin"
      using t by (cases t) (auto simp: pin_root_def)
    obtain res d where dec: "decrypt_secret_keys (en_ciphers V) salt nonce pin (ui_keys u) = (res, d)"
      by (cases "decrypt_secret_keys (en_ciphers V) salt nonce pin (ui_keys u)")
    have v: "ui_keys ?v = d" "unlocks ?v = unlocks u @ filter unlocking (pin_verify_events res)"
      using dec pin by (simp_all add: run_thread_def send_all_def)
    have ev: "filter unlocking (pin_verify_events res) = (case res of
        Inr out \<Rightarrow> (if do_migration out = None \<or> do_migration out = Some PromotedV2 then [AePinVerified (do_plaintext out) (do_migration out)] else [])
      | Inl _ \<Rightarrow> [])"
      by (simp add: pin_verify_events_def unlocking_verified split: sum.splits option.splits migration_event.splits)
    have th: "list_all is_pin_thread (ts @ ts')"
      using r t by (auto simp: pin_root_def)
    from r consider "0 < uid (ui_ids u)"
      | "clean (ui_keys u)" "kd_files (ui_keys u) SECRET_KEYS_ENC_PATH \<noteq> None" "unlocks u = []"
      | x xs where "unlocks u = x # xs" "is_promoted x"
      by (auto simp: pin_root_def)
    then show ?thesis
    proof cases
      case 2
      then show ?thesis
        using decrypt_verdict [OF dec 2(2,1)] th same v ev
        by (auto simp: pin_root_def v1_verdict_def split: sum.splits)
    qed (use th same v in \<open>auto simp: pin_root_def\<close>)
  qed
  then show ?thesis
    using root run same by (auto simp: root_inv_def)
qed

lemma render_step_fields: "fields (handle_timeout V u) = fields u" "fields (flush_render V u) = fields u"
proof -
  have "fields (panel V halt_error id u) = fields u"
    by (rule panel_fields) simp_all
  then show "fields (handle_timeout V u) = fields u"
    by (simp add: handle_timeout_def)
  have "fields (panel V halt_error (on_app g) v) = fields v" for g v
    by (rule panel_fields) simp_all
  then show "fields (flush_render V u) = fields u"
    by (simp add: flush_render_def pending_take_def Let_def split: pending_render.splits)
qed

lemma root_inv_fields:
  assumes "root_inv u" and "ui_halted u = None" and "fields v = fields u" and "signer_part v = signer_part u"
    and "ui_queue v = ui_queue u"
  shows "root_inv v"
proof (rule root_inv_same [OF assms(1,2)])
  show "app_state (ui_app v) = app_state (ui_app u)"
    using assms(4) by (rule state_of_part)
qed (use assms(3,5) in \<open>simp_all add: fields_def\<close>)

lemma render_root:
  assumes "root_inv u" and "ui_halted u = None"
  shows "root_inv (handle_timeout V u)" and "root_inv (flush_render V u)"
  by (rule root_inv_fields [OF assms render_step_fields(1) render_step_part(1,3)])
    (rule root_inv_fields [OF assms render_step_fields(2) render_step_part(4,6)])

lemma root_inv_step:
  assumes "ui_step V u v" and "signer_inv u" and "root_inv u"
  shows "root_inv v"
  using assms(1)
proof cases
  case (event e q now)
  then show ?thesis
    using drain_root [OF assms(2,3)] by blast
next
  case (arrival e)
  then show ?thesis
    using root_inv_same [OF assms(3), of "send e u"] outside_plain [of e] by (simp add: send_def)
next
  case (thread ts t ts' salt nonce random)
  then show ?thesis
    using thread_root [OF assms(2,3)] by blast
qed (use render_root [OF assms(3)] in auto)

section \<open>After the boot\<close>

lemma recover_root:
  assumes "recover_watermark_config V first u = (l, v)" and "ui_halted v = None"
  shows "first \<or> 0 < uid (ui_ids v) \<or> v = u \<and> kd_files (ui_keys u) SECRET_KEYS_ENC_PATH \<noteq> None"
  using assms
  by (auto simp: recover_watermark_config_def should_recover_watermark_config_def Let_def apply_remount_def
      apply_drop_privileges_def or_fatal_def fatal_error_def kd_exists_def
      split: prod.splits if_splits sum.splits dest!: drop_privileges_ok)

lemma root_inv_boot:
  assumes "fresh_process u" and "clean (ui_keys u)"
  shows "root_inv (boot V u)"
proof (cases "ui_halted (boot V u) = None")
  case False
  then show ?thesis
    using boot_fields [of V u] assms(1) by (auto simp: root_inv_def fresh_process_def)
next
  case True
  let ?first = "is_first_boot (ui_partitioned u) (ui_keys u)"
  obtain l v where r: "recover_watermark_config V ?first u = (l, v)" and v: "ui_halted v = None"
    and b: "ui_ids (boot V u) = ui_ids v" "ui_keys (boot V u) = ui_keys v"
    using True
    by (auto simp: boot_def Let_def fatal_error_def panel_def set_page_def halt_error_def
        split: sum.splits prod.splits if_splits display_outcome.splits)
  from recover_root [OF r v] boot_app [OF True] boot_fields [of V u] assms b show ?thesis
    by (auto simp: root_inv_def pin_root_def fresh_process_def)
qed

lemma root_inv_reach:
  assumes "fresh_process u" and "clean (ui_keys u)" and "(ui_step V)\<^sup>*\<^sup>* (boot V u) v"
  shows "root_inv v"
proof -
  have "signer_inv v \<and> root_inv v"
    using assms(3)
    by (induction rule: rtranclp_induct)
      (auto intro: signer_inv_boot [OF assms(1)] root_inv_boot [OF assms(1,2)] signer_inv_step root_inv_step)
  then show ?thesis ..
qed

end
