(* ===== verification/Ui_Unlock.thy ===== *)
theory Ui_Unlock
  imports Ui_Privileges
begin

text \<open>
  Progress of the user interface: on an ordinary boot of a device whose panel, disk and key file work,
  there is a sequence of touches after which the signer runs with the keys of the key file and a mark
  store. The safety theories say what never happens; this one that unlocking is possible at all.
\<close>

section \<open>A panel that works\<close>

definition panel_works :: "('sk, 'pk, 'sg) env \<Rightarrow> bool" where
  "panel_works V \<longleftrightarrow> (\<forall>n. en_display V n = DisplayOk)"

definition keypad_works :: "('sk, 'pk, 'sg) env \<Rightarrow> bool" where
  "keypad_works V \<longleftrightarrow> (\<forall>key. \<exists>x y. en_hit V (ShownSpec PgPinVerify) x y = OnPinKey key)"

lemma panel_ok [simp]: "panel_works V \<Longrightarrow> panel V failed busy u = u\<lparr>ui_frames := Suc (ui_frames u)\<rparr>"
  by (simp add: panel_works_def panel_def)

section \<open>Typing the PIN\<close>

text \<open>The PIN page of a running device, with these digits on it.\<close>

definition typing :: "bytes \<Rightarrow> ('sk, 'pk) ui \<Rightarrow> bool" where
  "typing pin u \<longleftrightarrow>
     ui_page u = ShownSpec PgPinVerify \<and> pm_pin (ui_memory u) = pin \<and> ui_queue u = [] \<and> ui_halted u = None \<and>
     app_state (ui_app u) = PinEntry 0 None"

text \<open>What typing leaves alone.\<close>

definition core ::
    "('sk, 'pk) ui \<Rightarrow> ids \<times> keys_dir \<times> thread list \<times> ('sk, 'pk) key_manager list \<times> fs \<times> bool \<times> high_watermark lock option lock" where
  "core u = (ui_ids u, ui_keys u, ui_threads u, ui_started u, ui_fs u, ui_partitioned u, ui_watermark u)"

lemma not_screensaver: "app_state a = PinEntry n l \<Longrightarrow> \<not> is_screensaver_active a"
  by (simp add: is_screensaver_active_def)

lemma touch_key:
  assumes "typing p u" and "en_hit V (ShownSpec PgPinVerify) x y = OnPinKey key"
    and "pin_touch PinModeVerify key p = (Some e, q)"
  shows "\<exists>v. (ui_step V)\<^sup>*\<^sup>* u v \<and> ui_queue v = [e] \<and> core v = core u \<and> typing q (v\<lparr>ui_queue := []\<rparr>)"
proof -
  let ?u1 = "send (AeTouch x y) u"
  let ?v = "drain_event V 0 (AeTouch x y) (?u1\<lparr>ui_queue := []\<rparr>)"
  have "ui_step V u ?u1"
    by (rule ui_step.arrival) (use assms(1) in \<open>simp_all add: typing_def\<close>)
  moreover have "ui_step V ?u1 ?v"
    by (rule ui_step.event) (use assms(1) in \<open>simp_all add: typing_def send_def\<close>)
  ultimately have "(ui_step V)\<^sup>*\<^sup>* u ?v"
    by (meson converse_rtranclp_into_rtranclp rtranclp.rtrancl_refl)
  moreover have "ui_queue ?v = [e] \<and> core ?v = core u \<and> typing q (?v\<lparr>ui_queue := []\<rparr>)"
    using assms not_screensaver [of "ui_app u"]
    by (simp add: typing_def core_def drain_event_def handle_touch_def send_def pin_page_touch_def)
  ultimately show ?thesis
    by blast
qed

lemma type_digit:
  assumes "typing p u" and "length p < MAX_PIN_LENGTH" and "keypad_works V"
  shows "\<exists>v. (ui_step V)\<^sup>*\<^sup>* u v \<and> core v = core u \<and> typing (p @ [d]) v"
proof -
  obtain x y where "en_hit V (ShownSpec PgPinVerify) x y = OnPinKey (PinDigit d)"
    using assms(3) unfolding keypad_works_def by blast
  then obtain v where v: "(ui_step V)\<^sup>*\<^sup>* u v" "ui_queue v = [AeInvalidate]" "core v = core u"
    "typing (p @ [d]) (v\<lparr>ui_queue := []\<rparr>)"
    using touch_key [OF assms(1), of V x y "PinDigit d" AeInvalidate "p @ [d]"] assms(2) by (auto simp: pin_touch_def)
  let ?w = "drain_event V 0 AeInvalidate (v\<lparr>ui_queue := []\<rparr>)"
  have "ui_step V v ?w"
    by (rule ui_step.event) (use v in \<open>simp_all add: typing_def\<close>)
  moreover have "core ?w = core u \<and> typing (p @ [d]) ?w"
    using v by (simp add: drain_event_def core_def typing_def on_app_def)
  ultimately show ?thesis
    using v(1) by (meson rtranclp.rtrancl_into_rtrancl)
qed

lemma type_digits:
  assumes "typing p u" and "length p + length ds \<le> MAX_PIN_LENGTH" and "keypad_works V"
  shows "\<exists>v. (ui_step V)\<^sup>*\<^sup>* u v \<and> core v = core u \<and> typing (p @ ds) v"
  using assms(1,2)
proof (induction ds arbitrary: p u)
  case (Cons d ds)
  then obtain w where w: "(ui_step V)\<^sup>*\<^sup>* u w" "core w = core u" "typing (p @ [d]) w"
    using type_digit [OF Cons.prems(1) _ assms(3), of d] by auto
  moreover obtain v where "(ui_step V)\<^sup>*\<^sup>* w v" "core v = core w" "typing ((p @ [d]) @ ds) v"
    using Cons.IH [OF w(3)] Cons.prems(2) by auto
  ultimately show ?case
    by (metis append.assoc append_Cons append_Nil rtranclp_trans)
qed auto

lemma enter_pin:
  assumes "typing [] u" and "length pin \<le> MAX_PIN_LENGTH" and "keypad_works V"
  shows "\<exists>v. (ui_step V)\<^sup>*\<^sup>* u v \<and> ui_queue v = [AePinEntered pin] \<and> core v = core u \<and> typing [] (v\<lparr>ui_queue := []\<rparr>)"
proof -
  obtain w where w: "(ui_step V)\<^sup>*\<^sup>* u w" "core w = core u" "typing pin w"
    using type_digits [OF assms(1) _ assms(3), of pin] assms(2) by auto
  obtain x y where "en_hit V (ShownSpec PgPinVerify) x y = OnPinKey PinEnter"
    using assms(3) unfolding keypad_works_def by blast
  from touch_key [OF w(3) this, of "AePinEntered pin" "[]"] w(1,2) show ?thesis
    by (auto simp: pin_touch_def) (metis rtranclp_trans)
qed

section \<open>From the PIN to the signer\<close>

text \<open>A device that can unlock: only the new key file, which the PIN opens; keys and marks that load.\<close>

definition loadable :: "('sk, 'pk, 'sg) env \<Rightarrow> string \<Rightarrow> ('sk, 'pk) key_manager \<Rightarrow> ('sk, 'pk) ui \<Rightarrow> bool" where
  "loadable V K km u \<longleftrightarrow>
     (\<exists>m. en_mounts V (ui_partitioned u) = Some m \<and> data_is_mounted m) \<and>
     (\<exists>macs. load_secret_keys (en_crates V) (en_blst V) (wj_texts (en_wallet_json V)) K = Inr (km, macs) \<and>
        (\<forall>chain. is_ok (fst (create_high_watermark (en_crates V) signer_config_default (list_keys (en_crates V) km) macs chain
           (ui_fs u))))) \<and>
     ui_watermark u = Lock False None"

definition unlockable ::
    "('sk, 'pk, 'sg) env \<Rightarrow> bytes \<Rightarrow> string \<Rightarrow> ('sk, 'pk) key_manager \<Rightarrow> ('sk, 'pk) ui \<Rightarrow> bool" where
  "unlockable V pin K km u \<longleftrightarrow>
     calm (ui_keys u) \<and> kd_files (ui_keys u) SECRET_KEYS_ENC_PATH = None \<and>
     (\<exists>b. kd_files (ui_keys u) SECRET_KEYS_ENC_V2_PATH = Some b \<and> blob_decrypt (en_ciphers V) pin b = Inr K) \<and>
     loadable V K km u"

lemma pin_spawns:
  assumes "panel_works V" and "ui_queue u = [AePinEntered pin]" and "typing [] (u\<lparr>ui_queue := []\<rparr>)" and "ui_threads u = []"
  shows "\<exists>v. ui_step V u v \<and> ui_threads v = [ThPinVerify pin] \<and> ui_queue v = [] \<and> ui_halted v = None \<and>
    app_state (ui_app v) = PinEntry 0 None \<and> core (v\<lparr>ui_threads := []\<rparr>) = core u"
proof -
  let ?v = "drain_event V 0 (AePinEntered pin) (u\<lparr>ui_queue := []\<rparr>)"
  have "ui_step V u ?v"
    by (rule ui_step.event) (use assms in \<open>simp_all add: typing_def\<close>)
  then show ?thesis
    using assms
    by (intro exI [of _ ?v])
      (simp add: typing_def core_def drain_event_def handle_event_def handle_pin_entry_def pin_entered_def verify_pin_effects_def
        Let_def apply_effect_def apply_show_progress_def try_render_page_transition_def set_page_def on_app_def spawn_def)
qed

lemma pin_verifies:
  assumes "unlockable V pin K km u" and "ui_threads u = [ThPinVerify pin]" and "ui_queue u = []" and "ui_halted u = None"
  shows "\<exists>d. ui_step V u (u\<lparr>ui_threads := [], ui_keys := d, ui_queue := [AePinVerified K None]\<rparr>)"
proof -
  obtain b where b: "kd_files (ui_keys u) SECRET_KEYS_ENC_V2_PATH = Some b" "blob_decrypt (en_ciphers V) pin b = Inr K"
    and c: "calm (ui_keys u)" "kd_files (ui_keys u) SECRET_KEYS_ENC_PATH = None"
    using assms(1) by (auto simp: unlockable_def)
  obtain d where d: "decrypt_secret_keys (en_ciphers V) salt nonce pin (ui_keys u) = (Inr \<lparr>do_plaintext = K, do_migration = None\<rparr>, d)"
    for salt nonce
    using b c by (simp add: decrypt_secret_keys_def migrate_and_decrypt_def kd_exists_def bindS_def calm_read liftK_def)
  have "ui_step V u (run_thread V salt nonce random (ThPinVerify pin) (u\<lparr>ui_threads := [] @ []\<rparr>))" for salt nonce random
    by (rule ui_step.thread) (use assms in simp_all)
  then show ?thesis
    using d assms(3) by (auto simp: run_thread_def pin_verify_events_def send_all_def)
qed

lemma pin_initialises:
  assumes "loadable V K km u" and "app_state (ui_app u) = PinEntry 0 None" and "ui_queue u = [AePinVerified K None]"
    and "ui_halted u = None"
  shows "\<exists>v. ui_step V u v \<and> ui_queue v = [AeKeysDecrypted K] \<and> ui_halted v = None \<and> app_state (ui_app v) = Active False \<and>
    pending_key_manager (ui_app v) = Some km \<and> ui_started v = ui_started u \<and> guarded (ui_watermark v) \<noteq> None"
proof -
  obtain m macs where m: "en_mounts V (ui_partitioned u) = Some m" "data_is_mounted m"
    and l: "load_secret_keys (en_crates V) (en_blst V) (wj_texts (en_wallet_json V)) K = Inr (km, macs)"
    and hw: "\<And>chain. is_ok (fst (create_high_watermark (en_crates V) signer_config_default (list_keys (en_crates V) km) macs chain
           (ui_fs u)))" and w: "ui_watermark u = Lock False None"
    using assms(1) by (auto simp: loadable_def)
  obtain chain keys1 where ch: "boot_chain_id (en_crates V) (en_setup_json V) (ui_keys u) = (chain, keys1)"
    by (cases "boot_chain_id (en_crates V) (en_setup_json V) (ui_keys u)")
  obtain h f where h: "create_high_watermark (en_crates V) signer_config_default (list_keys (en_crates V) km) macs chain
      (ui_fs u) = (Inr (Some (Lock False h)), f)"
    using hw [of chain] by (auto simp: create_high_watermark_def signer_config_default_def split: prod.splits sum.splits)
  let ?v = "drain_event V 0 (AePinVerified K None) (u\<lparr>ui_queue := []\<rparr>)"
  have "ui_step V u ?v"
    by (rule ui_step.event) (use assms in simp_all)
  then show ?thesis
    using assms(2,4) m l h w ch
    by (intro exI [of _ ?v])
      (simp add: drain_event_def handle_event_def handle_pin_entry_def dispatch_pin_verified_def proceed_to_active_def Let_def
        apply_effect_def apply_init_watermark_def is_data_mounted_def on_app_def send_def split: option.splits prod.splits)
qed

lemma decrypted_starts:
  assumes "app_state (ui_app u) = Active False" and "ui_queue u = [AeKeysDecrypted K]" and "ui_halted u = None"
    and "pending_key_manager (ui_app u) = Some km" and "panel_works V"
  shows "\<exists>v. ui_step V u v \<and> ui_started v = ui_started u @ [km] \<and> ui_halted v = None \<and> ui_watermark v = ui_watermark u"
proof -
  let ?v = "drain_event V 0 (AeKeysDecrypted K) (u\<lparr>ui_queue := []\<rparr>)"
  have "ui_step V u ?v"
    by (rule ui_step.event) (use assms in simp_all)
  then show ?thesis
    using assms
    by (intro exI [of _ ?v]; cases "current_page_modal (ui_app u)")
      (simp_all add: drain_event_def handle_event_def handle_active_def handle_active_event_def navigation_page_def Let_def
        apply_effect_def start_signer_def apply_show_page_def show_spec_def try_render_page_transition_def set_page_def on_app_def)
qed

lemma boot_typing:
  assumes "panel_works V" and "fresh_process u" and "0 < uid (ui_ids u)" and "\<not> is_first_boot (ui_partitioned u) (ui_keys u)"
  shows "typing [] (boot V u)" and "core (boot V u) = core u"
  using assms
  by (simp_all add: boot_def Let_def recover_watermark_config_def should_recover_watermark_config_def fresh_process_def
      typing_def set_page_def core_def app_new_def fresh_memory_def)

lemma right_pin_unlocks:
  assumes "panel_works V" and "keypad_works V" and "length pin \<le> MAX_PIN_LENGTH"
    and "fresh_process u" and "0 < uid (ui_ids u)" and "\<not> is_first_boot (ui_partitioned u) (ui_keys u)"
    and "unlockable V pin K km u"
  shows "\<exists>v. (ui_step V)\<^sup>*\<^sup>* (boot V u) v \<and> ui_started v = [km] \<and> ui_halted v = None \<and> guarded (ui_watermark v) \<noteq> None"
proof -
  note b = boot_typing [OF assms(1,4-6)]
  obtain u1 where u1: "(ui_step V)\<^sup>*\<^sup>* (boot V u) u1" "ui_queue u1 = [AePinEntered pin]" "core u1 = core u"
    "typing [] (u1\<lparr>ui_queue := []\<rparr>)"
    using enter_pin [OF b(1) assms(3,2)] b(2) by auto
  have "ui_threads u1 = []"
    using u1(3) assms(4) by (simp add: core_def fresh_process_def)
  then obtain u2 where u2: "ui_step V u1 u2" "ui_threads u2 = [ThPinVerify pin]" "ui_queue u2 = []" "ui_halted u2 = None"
    "app_state (ui_app u2) = PinEntry 0 None" "core (u2\<lparr>ui_threads := []\<rparr>) = core u"
    using pin_spawns [OF assms(1) u1(2,4)] u1(3) by auto
  have un: "unlockable V pin K km u2"
    using assms(7) u2(6) by (simp add: core_def unlockable_def loadable_def)
  obtain d where d: "ui_step V u2 (u2\<lparr>ui_threads := [], ui_keys := d, ui_queue := [AePinVerified K None]\<rparr>)"
    using pin_verifies [OF un u2(2-4)] by blast
  let ?u3 = "u2\<lparr>ui_threads := [], ui_keys := d, ui_queue := [AePinVerified K None]\<rparr>"
  have "loadable V K km ?u3"
    using un by (simp add: unlockable_def loadable_def)
  then obtain u4 where u4: "ui_step V ?u3 u4" "ui_queue u4 = [AeKeysDecrypted K]" "ui_halted u4 = None"
    "app_state (ui_app u4) = Active False" "pending_key_manager (ui_app u4) = Some km" "ui_started u4 = ui_started u2"
    "guarded (ui_watermark u4) \<noteq> None"
    using pin_initialises [of V K km ?u3] u2(4,5) by auto
  obtain u5 where u5: "ui_step V u4 u5" "ui_started u5 = ui_started u4 @ [km]" "ui_halted u5 = None"
    "ui_watermark u5 = ui_watermark u4"
    using decrypted_starts [OF u4(4,2,3,5) assms(1)] by blast
  have "ui_started u2 = []"
    using u2(6) assms(4) by (simp add: core_def fresh_process_def)
  moreover have "(ui_step V)\<^sup>*\<^sup>* (boot V u) u5"
    using u1(1) u2(1) d u4(1) u5(1) by (meson rtranclp.rtrancl_into_rtrancl)
  ultimately show ?thesis
    using u5 u4(6,7) by auto
qed

section \<open>Two taps on the greeting\<close>

text \<open>The setup page of a card without the third partition, on which nothing has happened yet.\<close>

lemma tap_greeting:
  assumes "ui_page u = ShownSpec PgGreeting" and "app_state (ui_app u) = Setup fp" and "ui_halted u = None"
    and "ui_queue u = AeTouch x y # q" and "en_hit V (ShownSpec PgGreeting) x y = OnButton 0"
  shows "\<exists>m r. ui_step V u (u\<lparr>ui_queue := q @ [AeStartSetup], ui_memory := m, ui_resets := r\<rparr>)"
proof -
  have "\<not> is_screensaver_active (ui_app u)"
    using assms(2) by (simp add: is_screensaver_active_def)
  then have "drain_event V 0 (AeTouch x y) (u\<lparr>ui_queue := q\<rparr>) =
      u\<lparr>ui_queue := q @ [AeStartSetup], ui_memory := ui_memory u, ui_resets := Suc (ui_resets u)\<rparr>"
    using assms by (simp add: drain_event_def handle_touch_def greeting_touch_def send_def)
  then show ?thesis
    using ui_step.event [OF assms(3,4), of V 0] by metis
qed

lemma start_setup_spawns:
  assumes "panel_works V" and "app_state (ui_app u) = Setup fp" and "ui_halted u = None" and "\<not> ui_partitioned u"
    and "ui_queue u = AeStartSetup # q"
  shows "\<exists>v. ui_step V u v \<and> ui_threads v = ui_threads u @ [ThStorageSetup] \<and> ui_queue v = q \<and> ui_halted v = None \<and>
    app_state (ui_app v) = Setup fp \<and> \<not> ui_partitioned v"
proof -
  let ?v = "drain_event V 0 AeStartSetup (u\<lparr>ui_queue := q\<rparr>)"
  have "ui_step V u ?v"
    by (rule ui_step.event [OF assms(3,5)])
  then show ?thesis
    using assms
    by (intro exI [of _ ?v])
      (simp add: drain_event_def handle_event_def handle_setup_def needs_storage_setup_def Let_def apply_effect_def
        apply_show_progress_def try_render_page_transition_def set_page_def on_app_def spawn_def)
qed

lemma double_tap:
  assumes "panel_works V" and "ui_page u = ShownSpec PgGreeting" and "app_state (ui_app u) = Setup fp"
    and "\<not> ui_partitioned u" and "ui_halted u = None" and "ui_queue u = []" and "ui_threads u = []"
    and "en_hit V (ShownSpec PgGreeting) x y = OnButton 0"
  shows "\<exists>v. (ui_step V)\<^sup>*\<^sup>* u v \<and> ui_threads v = [ThStorageSetup, ThStorageSetup]"
proof -
  let ?t = "AeTouch x y"
  let ?u1 = "u\<lparr>ui_queue := [?t]\<rparr>" and ?u2 = "u\<lparr>ui_queue := [?t, ?t]\<rparr>"
  have s1: "ui_step V u ?u1" "ui_step V ?u1 ?u2"
    using ui_step.arrival [of u ?t V] ui_step.arrival [of ?u1 ?t V] assms by (simp_all add: send_def)
  obtain m r where s2: "ui_step V ?u2 (u\<lparr>ui_queue := [?t, AeStartSetup], ui_memory := m, ui_resets := r\<rparr>)" (is "ui_step V _ ?u3")
    using tap_greeting [of ?u2 fp x y "[?t]" V] assms by auto
  obtain m' r' where s3: "ui_step V ?u3 (u\<lparr>ui_queue := [AeStartSetup, AeStartSetup], ui_memory := m', ui_resets := r'\<rparr>)"
      (is "ui_step V _ ?u4")
    using tap_greeting [of ?u3 fp x y "[AeStartSetup]" V] assms by auto
  obtain u5 where u5: "ui_step V ?u4 u5" "ui_threads u5 = [ThStorageSetup]" "ui_queue u5 = [AeStartSetup]" "ui_halted u5 = None"
    "app_state (ui_app u5) = Setup fp" "\<not> ui_partitioned u5"
    using start_setup_spawns [of V ?u4 fp "[AeStartSetup]"] assms by auto
  obtain u6 where u6: "ui_step V u5 u6" "ui_threads u6 = [ThStorageSetup, ThStorageSetup]"
    using start_setup_spawns [OF assms(1) u5(5,4,6,3)] u5(2) by auto
  have "(ui_step V)\<^sup>*\<^sup>* u u6"
    using s1 s2 s3 u5(1) u6(1) by (meson converse_rtranclp_into_rtranclp rtranclp.rtrancl_refl)
  with u6(2) show ?thesis
    by blast
qed

lemma boot_greeting:
  assumes "panel_works V" and "fresh_process u" and "is_first_boot (ui_partitioned u) (ui_keys u)"
    and "verify_partitions_early (ui_keys u) = Inr ()" and "\<not> en_rootfs_mismatch V"
  shows "ui_page (boot V u) = ShownSpec PgGreeting" "app_state (ui_app (boot V u)) = Setup None"
    "ui_partitioned (boot V u) = ui_partitioned u" "ui_halted (boot V u) = None" "ui_queue (boot V u) = []"
    "ui_threads (boot V u) = []"
  using assms
  by (simp_all add: boot_def Let_def recover_watermark_config_def should_recover_watermark_config_def fresh_process_def
      set_page_def app_new_def)

end
