(* ===== verification/Ui_Samples.thy ===== *)
theory Ui_Samples
  imports Samples Ui_Unlock
begin

text \<open>
  Concrete crates, files and a process for the properties about keys, storage and the user interface,
  and a run from boot to a started signer, evaluated on the model.
\<close>

section \<open>Crates whose text needs no escaping\<close>

definition nibble_char :: "u8 \<Rightarrow> char" where
  "nibble_char n = char_of (65 + unat n)"

definition char_nibble :: "char \<Rightarrow> u8" where
  "char_nibble c = word_of_nat (of_char c - 65)"

definition nibbles :: "bytes \<Rightarrow> string" where
  "nibbles bs = concat (map (\<lambda>b. [nibble_char (b div 16), nibble_char (b mod 16)]) bs)"

fun from_nibbles :: "string \<Rightarrow> bytes" where
  "from_nibbles (h # l # cs) = (char_nibble h * 16 + char_nibble l) # from_nibbles cs"
| "from_nibbles _ = []"

lemma unat_nibbles: "unat (b div 16) < 16" "unat (b mod 16) < 16" for b :: u8
  using unat_u8_less [of b] by (simp_all add: unat_div unat_mod less_mult_imp_div_less)

lemma char_nibble_inverse: "unat n < 16 \<Longrightarrow> char_nibble (nibble_char n) = n"
  by (simp add: char_nibble_def nibble_char_def)

lemma nibble_plain: "unat n < 16 \<Longrightarrow> plain_char (nibble_char n)"
proof -
  assume "unat n < 16"
  then have "of_char (nibble_char n) = 65 + unat n"
    by (simp add: nibble_char_def)
  then show ?thesis
    using \<open>unat n < 16\<close> by (auto simp: plain_char_def)
qed

lemma from_nibbles_inverse: "from_nibbles (nibbles bs) = bs"
proof (induction bs)
  case (Cons b bs)
  have "b div 16 * 16 + b mod 16 = b"
    by (metis div_mult_mod_eq)
  with Cons show ?case
    by (simp add: nibbles_def char_nibble_inverse unat_nibbles)
qed (simp add: nibbles_def)

lemma nibbles_plain: "list_all plain_char (nibbles bs)"
  by (induction bs) (simp_all add: nibbles_def nibble_plain unat_nibbles)

definition plain_crates :: crates where
  "plain_crates = sample_crates\<lparr>bs58_encode := nibbles, bs58_decode := (\<lambda>s. Inr (from_nibbles s))\<rparr>"

lemma plain_crates_lawful [simp]: "bs58_lawful plain_crates" "bs58_plain plain_crates"
  by (simp_all add: bs58_lawful_def bs58_plain_def plain_crates_def from_nibbles_inverse nibbles_plain)

section \<open>Keys on an empty partition\<close>

definition sample_entries :: json_entries where
  "sample_entries t = (case read_entries t of Some es \<Rightarrow> Inr es | None \<Rightarrow> Inl ''syntax'')"

lemma sample_entries_reads [simp]: "json_reads sample_entries"
  by (simp add: json_reads_def sample_entries_def)

definition sample_wallet_json :: wallet_json where
  "sample_wallet_json =
     \<lparr>wj_texts = sample_entries, wj_publics = (\<lambda>_. Inr []), wj_print_texts = (\<lambda>_. Inr ''[]''),
      wj_print_publics = (\<lambda>_. Inr ''[]'')\<rparr>"

definition empty_keys :: keys_dir where
  "empty_keys =
     \<lparr>kd_files = Map.empty, kd_past = [Map.empty], kd_dirty = [], kd_outcomes = (\<lambda>_. IoOk), kd_clock = 0\<rparr>"

definition sample_random :: "key_role \<Rightarrow> string + 32 barray" where
  "sample_random role = Inr (barray_of [case role of Consensus \<Rightarrow> 7 | Companion \<Rightarrow> 8])"

definition sample_pin :: bytes where
  "sample_pin = [1, 2, 3, 4, 5]"

lemma sample_pin_other: "[6] \<noteq> sample_pin"
  by (simp add: sample_pin_def)

lemma empty_keys_settled: "settled Map.empty empty_keys"
  by (simp add: settled_def calm_def empty_keys_def)

lemma sample_keys_generated:
  "\<exists>json d'. generate_and_encrypt_keys plain_crates sample_blst sample_ciphers sample_wallet_json sample_random (barray_of [3])
     (barray_of [4]) sample_pin empty_keys = (Inr json, d')"
proof (rule keygen_returns [OF empty_keys_settled])
  show "\<forall>role. is_ok (unencrypted_generate plain_crates sample_blst (sample_random role) None)"
    by (simp add: unencrypted_generate_def generate_key_def sample_random_def sample_blst_def Let_def)
  show "is_ok (blob_encrypt sample_ciphers (barray_of [3]) (barray_of [4]) sample_pin t)" for t
    by (simp add: blob_encrypt_def derive_key_def sample_ciphers_def sample_pin_def)
qed (simp_all add: sample_wallet_json_def)

section \<open>A process\<close>

text \<open>One key, whatever the text says.\<close>

definition tiny_crates :: crates where
  "tiny_crates =
     sample_crates\<lparr>bs58_decode := (\<lambda>s. Inr (BLSK_PREFIX @ replicate 32 7 @ take 4 (BLSK_PREFIX @ replicate 32 7)))\<rparr>"

definition tiny_wallet_json :: wallet_json where
  "tiny_wallet_json = sample_wallet_json\<lparr>wj_texts := (\<lambda>t. Inr [(''consensus'', t)])\<rparr>"

definition tiny_blob :: bytes where
  "tiny_blob = (case blob_encrypt sample_ciphers (barray_of [3]) (barray_of [4]) sample_pin ''k'' of Inr b \<Rightarrow> b | Inl _ \<Rightarrow> [])"

definition tiny_keys :: keys_dir where
  "tiny_keys = empty_keys\<lparr>kd_files := [SECRET_KEYS_ENC_V2_PATH \<mapsto> tiny_blob, SETUP_MARKER \<mapsto> []]\<rparr>"

definition sample_setup_json :: setup_json where
  "sample_setup_json =
     \<lparr>js_config = (\<lambda>t. Inr \<lparr>wc_chain = \<lparr>cc_id = ''NetX'', cc_level = 5, cc_name = ''main'', cc_blocks_per_cycle = 10\<rparr>\<rparr>),
      js_print_chain = (\<lambda>i n b. if i = ''NetX'' \<and> n = ''main'' \<and> b = 10 then Inr ''chain'' else Inl ''print''),
      js_chain = (\<lambda>t. Inr \<lparr>ci_id = ''NetX'', ci_name = ''main'', ci_blocks_per_cycle = Some 10\<rparr>)\<rparr>"

definition sample_sysfs :: "string \<Rightarrow> string option" where
  "sample_sysfs p =
     (if p = ''/sys/block/mmcblk0/size'' then Some (show_nat 16777216)
        else if p = ''/sys/block/mmcblk0/mmcblk0p2/start'' then Some (show_nat 532480)
        else if p = ''/sys/block/mmcblk0/mmcblk0p2/size'' then Some (show_nat 131072)
        else if p = ''/sys/block/mmcblk0/queue/discard_granularity'' then Some (show_nat 4194304) else None)"

definition sample_storage :: storage_env where
  "sample_storage =
     \<lparr>se_sysfs = sample_sysfs,
      se_exists = (\<lambda>_ _. True), se_answer = (\<lambda>_ _. ExitOk)\<rparr>"

text \<open>On the PIN page, columns up to 255 are digits, and the next ones the other keys.\<close>

definition sample_hit :: "shown_page \<Rightarrow> int \<Rightarrow> int \<Rightarrow> touch_target" where
  "sample_hit pg x y =
     (if pg \<noteq> ShownSpec PgPinVerify then OnButton 0
      else if x = 256 then OnPinKey PinEnter else if x = 257 then OnPinKey PinClear else if x = 258 then OnPinKey PinBackspace
      else OnPinKey (PinDigit (word_of_int x)))"

definition sample_env :: "(32 barray, 48 barray, 96 barray) env" where
  "sample_env =
     \<lparr>en_crates = tiny_crates, en_blst = sample_blst, en_ciphers = sample_ciphers, en_setup_json = sample_setup_json,
      en_wallet_json = tiny_wallet_json, en_storage = sample_storage,
      en_calls = \<lparr>pc_setgid = True, pc_setgroups = True, pc_setuid = True\<rparr>,
      en_mounts = (\<lambda>_. Some ''/dev/mmcblk0p4 /data f2fs rw 0 0''), en_rootfs_mismatch = False,
      en_remount = Inr (), en_chown = Inr (), en_display = (\<lambda>_. DisplayOk), en_hit = sample_hit\<rparr>"

definition sample_ui :: "nat \<Rightarrow> keys_dir \<Rightarrow> bool \<Rightarrow> (32 barray, 48 barray) ui" where
  "sample_ui user d partitioned =
     \<lparr>ui_app = app_new False, ui_queue = [], ui_page = ShownScreensaver, ui_memory = fresh_memory,
      ui_watermark = Lock False None, ui_fs = sample_fs, ui_keys = d, ui_partitioned = partitioned,
      ui_ids = \<lparr>uid = user, gid = user, supplementary = []\<rparr>, ui_keys_ro = False, ui_started = [], ui_threads = [],
      ui_resets = 0, ui_awake = True, ui_frames = 0, ui_halted = None\<rparr>"

lemma sample_fresh [simp]: "fresh_process (sample_ui user d partitioned)"
  by (simp add: fresh_process_def sample_ui_def)

lemma sample_panel [simp]: "panel_works sample_env"
  by (simp add: panel_works_def sample_env_def)

lemma sample_keypad [simp]: "keypad_works sample_env"
  unfolding keypad_works_def
proof
  fix key
  have "sample_hit (ShownSpec PgPinVerify)
      (case key of PinDigit d \<Rightarrow> uint d | PinBackspace \<Rightarrow> 258 | PinClear \<Rightarrow> 257 | PinEnter \<Rightarrow> 256) 0 = OnPinKey key"
  proof (cases key)
    case (PinDigit d)
    have "uint d < 256"
      using uint_lt2p [of d] by simp
    then show ?thesis
      using PinDigit by (simp add: sample_hit_def)
  qed (simp_all add: sample_hit_def)
  then show "\<exists>x y. en_hit sample_env (ShownSpec PgPinVerify) x y = OnPinKey key"
    by (auto simp: sample_env_def)
qed

definition tiny_loaded :: "string + (32 barray, 48 barray) key_manager \<times> (public_key_hash \<rightharpoonup> 32 barray)" where
  "tiny_loaded = load_secret_keys tiny_crates sample_blst (wj_texts tiny_wallet_json) ''k''"

definition tiny_km :: "(32 barray, 48 barray) key_manager" where
  "tiny_km = (case tiny_loaded of Inr (km, _) \<Rightarrow> km | Inl _ \<Rightarrow> km_new)"

lemma tiny_loaded_ok: "is_ok tiny_loaded"
  and tiny_blob_opens: "blob_decrypt sample_ciphers sample_pin tiny_blob = Inr ''k''"
  by code_simp+

lemma tiny_marks_ok:
  "is_ok (fst (create_high_watermark tiny_crates signer_config_default (list_keys tiny_crates tiny_km) (snd (projr tiny_loaded))
     chain sample_fs))"
  by code_simp

lemma sample_mounted: "data_is_mounted ''/dev/mmcblk0p4 /data f2fs rw 0 0''"
  by (simp add: data_is_mounted_def lines_of_def split_whitespace_def fields_steps)

lemma tiny_unlockable: "unlockable sample_env sample_pin ''k'' tiny_km (sample_ui user tiny_keys partitioned)"
proof -
  obtain km macs where e: "tiny_loaded = Inr (km, macs)"
    using tiny_loaded_ok by (auto simp: is_ok_iff)
  have "tiny_km = km"
    unfolding tiny_km_def e by simp
  with e have l: "tiny_loaded = Inr (tiny_km, macs)"
    by simp
  have "load_secret_keys tiny_crates sample_blst (wj_texts tiny_wallet_json) ''k'' = Inr (tiny_km, macs)"
    using l by (simp only: tiny_loaded_def)
  moreover have "is_ok (fst (create_high_watermark tiny_crates signer_config_default (list_keys tiny_crates tiny_km) macs chain
      sample_fs))" for chain
    using tiny_marks_ok [of chain] unfolding l sum.sel snd_conv .
  ultimately have "loadable sample_env ''k'' tiny_km (sample_ui user tiny_keys partitioned)"
    unfolding loadable_def by (intro conjI exI [of _ macs] allI) (simp_all add: sample_env_def sample_ui_def sample_mounted del: is_ok.simps)
  then show ?thesis
    using tiny_blob_opens
    by (simp add: unlockable_def sample_env_def sample_ui_def tiny_keys_def empty_keys_def calm_def
        SECRET_KEYS_ENC_PATH_def SECRET_KEYS_ENC_V2_PATH_def SETUP_MARKER_def)
qed

lemma tiny_ordinary:
  "\<not> is_first_boot (ui_partitioned (sample_ui user tiny_keys True)) (ui_keys (sample_ui user tiny_keys True))"
  "0 < uid (ui_ids (sample_ui 1000 tiny_keys True))" "clean (ui_keys (sample_ui user tiny_keys True))"
  by (simp_all add: is_first_boot_def needs_storage_setup_def sample_ui_def tiny_keys_def kd_exists_def clean_def empty_keys_def)

lemma tiny_unlocks:
  "\<exists>v. (ui_step sample_env)\<^sup>*\<^sup>* (boot sample_env (sample_ui 1000 tiny_keys True)) v \<and> ui_started v = [tiny_km]"
  using right_pin_unlocks [OF sample_panel sample_keypad _ sample_fresh tiny_ordinary(2,1) tiny_unlockable]
  by (auto simp: sample_pin_def MAX_PIN_LENGTH_def)

lemma greeting_booted:
  "ui_page (boot sample_env (sample_ui 0 empty_keys False)) = ShownSpec PgGreeting"
  "app_state (ui_app (boot sample_env (sample_ui 0 empty_keys False))) = Setup None"
  "\<not> ui_partitioned (boot sample_env (sample_ui 0 empty_keys False))"
  "ui_halted (boot sample_env (sample_ui 0 empty_keys False)) = None"
  "ui_queue (boot sample_env (sample_ui 0 empty_keys False)) = []"
  "ui_threads (boot sample_env (sample_ui 0 empty_keys False)) = []"
proof -
  have "is_first_boot (ui_partitioned (sample_ui 0 empty_keys False)) (ui_keys (sample_ui 0 empty_keys False))"
    "verify_partitions_early (ui_keys (sample_ui 0 empty_keys False)) = Inr ()" "\<not> en_rootfs_mismatch sample_env"
    by (simp_all add: is_first_boot_def needs_storage_setup_def sample_ui_def verify_partitions_early_def encrypted_keys_exist_def
        kd_exists_def empty_keys_def sample_env_def)
  note b = boot_greeting [OF sample_panel sample_fresh this]
  show "ui_page (boot sample_env (sample_ui 0 empty_keys False)) = ShownSpec PgGreeting"
    "app_state (ui_app (boot sample_env (sample_ui 0 empty_keys False))) = Setup None"
    "\<not> ui_partitioned (boot sample_env (sample_ui 0 empty_keys False))"
    "ui_halted (boot sample_env (sample_ui 0 empty_keys False)) = None"
    "ui_queue (boot sample_env (sample_ui 0 empty_keys False)) = []"
    "ui_threads (boot sample_env (sample_ui 0 empty_keys False)) = []"
    using b by (simp_all add: sample_ui_def)
qed

section \<open>A legacy key file\<close>

definition legacy_blob :: bytes where
  "legacy_blob =
     (case scrypt sample_ciphers sample_pin (replicate 22 1) of
        Inr k \<Rightarrow> LEGACY_SALT_LEN # replicate 22 1 @ replicate 12 4 @ bytes_of k @ ascii ''k'' | Inl _ \<Rightarrow> [])"

definition legacy_map :: "path \<rightharpoonup> bytes" where
  "legacy_map = [SECRET_KEYS_ENC_PATH \<mapsto> legacy_blob]"

definition legacy_keys :: keys_dir where
  "legacy_keys = empty_keys\<lparr>kd_files := legacy_map, kd_past := [legacy_map]\<rparr>"

definition tried_map :: "path \<rightharpoonup> bytes" where
  "tried_map = [SECRET_KEYS_ENC_PATH \<mapsto> legacy_blob, MIGRATION_ATTEMPTS_PATH \<mapsto> ascii (show_nat (unat (3 :: u32)))]"

definition tried_keys :: keys_dir where
  "tried_keys = empty_keys\<lparr>kd_files := tried_map, kd_past := [tried_map]\<rparr>"

lemma legacy_opens: "decrypt_with_format sample_ciphers sample_pin legacy_blob = Inr (''k'', V1Legacy)"
  and tiny_encrypted: "is_ok (blob_encrypt sample_ciphers (barray_of [3]) (barray_of [4]) sample_pin ''k'')"
  by code_simp+

lemma tiny_encrypts: "blob_encrypt sample_ciphers (barray_of [3]) (barray_of [4]) sample_pin ''k'' = Inr tiny_blob"
  using tiny_encrypted by (auto simp: tiny_blob_def is_ok_iff)

lemma legacy_text: "valid_text ''k''"
  unfolding valid_text_def by code_simp

lemma legacy_settled: "settled legacy_map legacy_keys" and tried_settled: "settled tried_map tried_keys"
  by (simp_all add: settled_def calm_def legacy_keys_def tried_keys_def empty_keys_def)

lemma legacy_file:
  "legacy_map SECRET_KEYS_ENC_PATH = Some legacy_blob" "legacy_map SECRET_KEYS_ENC_V2_PATH = None" "counter_of legacy_map < 3"
  by (simp_all add: legacy_map_def counter_of_def)

lemma tried_file:
  "tried_map SECRET_KEYS_ENC_PATH = Some legacy_blob" "tried_map SECRET_KEYS_ENC_V2_PATH = None" "counter_of tried_map = 3"
  using counter_of_written [of "[SECRET_KEYS_ENC_PATH \<mapsto> legacy_blob]" 3] by (simp_all add: tried_map_def)

text \<open>The sample cipher accepts one key only, so one PIN only.\<close>

lemma sample_opens_only:
  assumes "decrypt_with_format sample_ciphers pin b = Inr (K, f)"
  shows "opens_only sample_ciphers pin K b"
  unfolding opens_only_def
proof (intro conjI allI impI)
  fix pin' assume "pin' \<noteq> pin"
  then have "scrypt sample_ciphers pin' salt \<noteq> Inr k" if "scrypt sample_ciphers pin salt = Inr k" for salt k
    using sample_kdf that unfolding kdf_injective_def by metis
  moreover have "k' = k" if "aes_gcm_decrypt sample_ciphers k n c = Inr x" "aes_gcm_decrypt sample_ciphers k' n c = Inr x'"
    for k k' n c x x'
    using that by (auto simp: sample_ciphers_def bytes_of_inject split: if_splits)
  ultimately show "\<not> is_ok (decrypt_with_format sample_ciphers pin' b)"
    using assms unfolding decrypt_with_format_def
    by (auto simp: result_simps Let_def derive_key_def is_ok_iff split: if_splits prod.splits)
qed (use assms in blast)

lemma legacy_kept: "keys_kept sample_ciphers sample_pin ''k'' legacy_keys"
  by (rule settled_kept [OF legacy_settled])
    (use sample_opens_only [OF legacy_opens] in \<open>auto simp: recoverable_def legacy_file(1,2)\<close>)

definition staged_keys :: keys_dir where
  "staged_keys = snd (decrypt_secret_keys sample_ciphers (barray_of [3]) (barray_of [4]) sample_pin legacy_keys)"

lemma staged_reached: "(keys_step sample_ciphers)\<^sup>*\<^sup>* legacy_keys staged_keys"
  unfolding staged_keys_def by (rule r_into_rtranclp, rule keys_step.unlock)

lemma staged_has_v2: "kd_files staged_keys SECRET_KEYS_ENC_V2_PATH = Some tiny_blob"
proof -
  have "counter_of legacy_map < MIGRATION_ATTEMPT_THRESHOLD"
    using threshold_steps legacy_file(3) by blast
  from stage_settled [OF legacy_settled legacy_file(1,2) legacy_opens this tiny_encrypts] show ?thesis
    by (auto simp: staged_keys_def settled_def)
qed

section \<open>The other inputs\<close>

lemma sample_keys_unlock:
  "\<exists>json d1 out d3. generate_and_encrypt_keys plain_crates sample_blst sample_ciphers sample_wallet_json sample_random (barray_of [3])
       (barray_of [4]) sample_pin empty_keys = (Inr json, d1) \<and>
     decrypt_secret_keys sample_ciphers (barray_of [5]) (barray_of [6]) sample_pin d1 = (Inr out, d3)"
proof -
  obtain json d1 where g: "generate_and_encrypt_keys plain_crates sample_blst sample_ciphers sample_wallet_json sample_random
      (barray_of [3]) (barray_of [4]) sample_pin empty_keys = (Inr json, d1)"
    using sample_keys_generated by blast
  have "keys_kept sample_ciphers sample_pin json d1"
    using keygen_ok [OF g empty_keys_settled _ plain_crates_lawful sample_blst_lawful(1) sample_entries_reads sample_aead sample_kdf]
    by simp
  moreover have "calm d1 \<and> kd_files d1 SECRET_KEYS_ENC_PATH = None"
    using keygen_calm [OF g empty_keys_settled] by simp
  ultimately show ?thesis
    using unlock_returns [of sample_ciphers sample_pin json d1 "barray_of [5]" "barray_of [6]"] g by (auto simp: legacy_at_def)
qed

lemma parse_u64_show: "n < 2 ^ 64 \<Longrightarrow> parse_u64 (show_nat n) = Some (word_of_nat n)"
proof -
  assume n: "n < 2 ^ 64"
  obtain c cs where s: "show_nat n = c # cs"
    by (cases "show_nat n") auto
  then have "c \<noteq> CHR ''+''"
    using show_nat_digits [of c n] by auto
  then show ?thesis
    using parse_digits_show [OF n] by (simp add: parse_u64_def parse_unsigned_def s)
qed

lemma sample_sysfs_read:
  "sample_sysfs p = Some (show_nat n) \<Longrightarrow> n < 2 ^ 64 \<Longrightarrow> read_sysfs_u64 sample_storage p = Inr (word_of_nat n)"
  by (simp add: read_sysfs_u64_def sample_storage_def parse_u64_show)

lemma sample_card: "card sample_storage 16777216 532480 131072"
proof -
  have "read_sysfs_u64 sample_storage ''/sys/block/mmcblk0/size'' = Inr 16777216"
    "read_sysfs_u64 sample_storage ''/sys/block/mmcblk0/mmcblk0p2/start'' = Inr 532480"
    "read_sysfs_u64 sample_storage ''/sys/block/mmcblk0/mmcblk0p2/size'' = Inr 131072"
    using sample_sysfs_read [of "''/sys/block/mmcblk0/size''" 16777216]
      sample_sysfs_read [of "''/sys/block/mmcblk0/mmcblk0p2/start''" 532480]
      sample_sysfs_read [of "''/sys/block/mmcblk0/mmcblk0p2/size''" 131072]
    by (simp_all add: sample_sysfs_def)
  moreover have "detect_discard_granularity sample_storage = Some 4194304"
    by (simp add: detect_discard_granularity_def sample_storage_def sample_sysfs_def parse_u64_show)
  ultimately show ?thesis
    by (simp add: card_def)
qed

lemma sample_json_lawful: "json_lawful sample_setup_json"
proof -
  have "valid_text ''chain''"
    unfolding valid_text_def by code_simp
  then show ?thesis
    by (auto simp: json_lawful_def sample_setup_json_def split: if_splits)
qed

definition config_keys :: keys_dir where
  "config_keys = empty_keys\<lparr>kd_files := [config_path \<mapsto> ascii ''config'']\<rparr>"

lemma config_processed:
  "case fst (process_watermark_config sample_setup_json config_keys) of Configured name level \<Rightarrow> level = 5 | _ \<Rightarrow> False"
  by code_simp

end
