(* ===== verification/Epd_Driver.thy ===== *)
theory Epd_Driver
  imports Prelude
begin

text \<open>
  \<open>libs/epd-2in13-v4/src/display_driver.rs\<close>: the driver of the e-paper panel. The board (GPIO lines,
  SPI bus, clock) is a parameter that answers every access from the history of the wire, so that any
  fault and any behaviour of the busy line is covered; the wire records the accesses. Shown: what a
  push puts on the bus, that waiting for the panel ends, that a deferred push changes nothing, that
  the dirty mask holds exactly the pixels changed since the panel was last seen idle, and that a
  push superseding a running refresh never touches a pixel of it.
\<close>

section \<open>The board\<close>

datatype display_mode = Full | Partial

datatype wait_policy = WaitBlock | WaitBail

datatype push_outcome = Pushed | Busy

datatype 'e epd_error =
    EpdTimeout | EpdSpi 'e | EpdIo 'e | EpdGpio 'e | EpdCdevPin 'e | EpdI2c 'e | EpdI2cHal string
  | EpdTouchscreen 'e

text \<open>
  Accesses to the board; \<open>Fault\<close> is an access that failed. The wire holds the latest access first.
  The board decides from it what the busy line reads, whether the next access to a pin or to the bus
  fails, and how far the clock runs ahead of the delays.
\<close>

datatype board_access =
    RstHigh | RstLow | DcHigh | DcLow | SpiWrite bytes | BusyRead | DelayMs nat | Fault

type_synonym wire_log = "board_access list"

record 'e board =
  busy_line :: "wire_log \<Rightarrow> 'e + bool"
  access_fault :: "wire_log \<Rightarrow> board_access \<Rightarrow> 'e option"
  clock_lag :: "wire_log \<Rightarrow> nat"

record epd_driver =
  wire :: wire_log
  last_update_mode :: "display_mode option"
  dirty_mask :: bytes
  last_frame :: bytes

type_synonym ('e, 'a) epd = "(epd_driver, 'e epd_error, 'a) stateful"

definition set_pin :: "'e board \<Rightarrow> board_access \<Rightarrow> ('e, unit) epd" where
  "set_pin H a s =
     (case access_fault H (wire s) a of
        None \<Rightarrow> (Inr (), s\<lparr>wire := a # wire s\<rparr>)
      | Some e \<Rightarrow> (Inl (EpdCdevPin e), s\<lparr>wire := Fault # wire s\<rparr>))"

definition spi_write :: "'e board \<Rightarrow> bytes \<Rightarrow> ('e, unit) epd" where
  "spi_write H bs s =
     (case access_fault H (wire s) (SpiWrite bs) of
        None \<Rightarrow> (Inr (), s\<lparr>wire := SpiWrite bs # wire s\<rparr>)
      | Some e \<Rightarrow> (Inl (EpdSpi e), s\<lparr>wire := Fault # wire s\<rparr>))"

definition busy_is_high :: "'e board \<Rightarrow> ('e, bool) epd" where
  "busy_is_high H s =
     (case busy_line H (wire s) of
        Inr b \<Rightarrow> (Inr b, s\<lparr>wire := BusyRead # wire s\<rparr>)
      | Inl e \<Rightarrow> (Inl (EpdCdevPin e), s\<lparr>wire := Fault # wire s\<rparr>))"

definition delay_ms :: "nat \<Rightarrow> ('e, unit) epd" where
  "delay_ms ms s = (Inr (), s\<lparr>wire := DelayMs ms # wire s\<rparr>)"

section \<open>Constants, commands and their data\<close>

definition WIDTH :: nat where "WIDTH = 122"
definition HEIGHT :: nat where "HEIGHT = 250"

definition BUFFER_SIZE :: nat where
  "BUFFER_SIZE = ((WIDTH + 7) div 8) * HEIGHT"

definition RESET_DELAY_MS :: nat where "RESET_DELAY_MS = 20"
definition RESET_PULSE_MS :: nat where "RESET_PULSE_MS = 2"
definition WAIT_IDLE_DELAY_MS :: nat where "WAIT_IDLE_DELAY_MS = 10"
definition WAIT_IDLE_TIMEOUT_MS :: nat where "WAIT_IDLE_TIMEOUT_MS = 10000"
definition SLEEP_DELAY_MS :: nat where "SLEEP_DELAY_MS = 100"
definition PARTIAL_UPDATE_RESET_DELAY_MS :: nat where "PARTIAL_UPDATE_RESET_DELAY_MS = 1"

lemma buffer_size [simp]: "BUFFER_SIZE = 4000"
  by (simp add: BUFFER_SIZE_def WIDTH_def HEIGHT_def)

datatype epd_command =
    DriverOutputControl | DataEntryMode | SoftwareReset | TemperatureSensor | DisplayUpdateControl
  | DisplayUpdateControl2 | WriteRam | WriteRamRed | BorderWaveform | SetRamXAddress | SetRamYAddress
  | DeepSleep | ActivateDisplayUpdateSequence | SetRamXAddressCounter | SetRamYAddressCounter

fun command_byte :: "epd_command \<Rightarrow> u8" where
  "command_byte DriverOutputControl = 0x01"
| "command_byte DataEntryMode = 0x11"
| "command_byte SoftwareReset = 0x12"
| "command_byte TemperatureSensor = 0x18"
| "command_byte DisplayUpdateControl = 0x22"
| "command_byte DisplayUpdateControl2 = 0x21"
| "command_byte WriteRam = 0x24"
| "command_byte WriteRamRed = 0x26"
| "command_byte BorderWaveform = 0x3C"
| "command_byte SetRamXAddress = 0x44"
| "command_byte SetRamYAddress = 0x45"
| "command_byte DeepSleep = 0x10"
| "command_byte ActivateDisplayUpdateSequence = 0x20"
| "command_byte SetRamXAddressCounter = 0x4E"
| "command_byte SetRamYAddressCounter = 0x4F"

datatype epd_data =
    DataDriverOutputControl | DataDataEntryMode | DataBorderWaveform | DataDisplayUpdateControl2
  | DataTemperatureSensor | DataDisplayFrame | DataDeepSleep | DataDisplayPartial
  | DataPartialUpdateBorderWaveform | DataPartialUpdateDriverOutputControl
  | DataPartialUpdateDataEntryMode | DataRamX | DataRamY

fun as_slice :: "epd_data \<Rightarrow> bytes" where
  "as_slice DataDriverOutputControl = [0xF9, 0x00, 0x00]"
| "as_slice DataPartialUpdateDriverOutputControl = [0xF9, 0x00, 0x00]"
| "as_slice DataDataEntryMode = [0x03]"
| "as_slice DataPartialUpdateDataEntryMode = [0x03]"
| "as_slice DataBorderWaveform = [0x05]"
| "as_slice DataDisplayUpdateControl2 = [0x00, 0x80]"
| "as_slice DataTemperatureSensor = [0x80]"
| "as_slice DataPartialUpdateBorderWaveform = [0x80]"
| "as_slice DataDisplayFrame = [0xf7]"
| "as_slice DataDeepSleep = [0x01]"
| "as_slice DataDisplayPartial = [0xff]"
| "as_slice DataRamX = [0x00, 0x0F]"
| "as_slice DataRamY = [0x00, 0x00, 0xF9, 0x00]"

section \<open>Waiting for the panel\<close>

text \<open>
  The loop of \<open>wait_until_idle\<close>; \<open>slept\<close> is what its delays add up to, and the clock shows at least
  that. The bound on the elapsed time makes it end whatever the busy line does.
\<close>

function wait_loop :: "'e board \<Rightarrow> nat \<Rightarrow> ('e, unit) epd" where
  "wait_loop H slept s =
     (case busy_is_high H s of
        (Inl e, s') \<Rightarrow> (Inl e, s')
      | (Inr high, s') \<Rightarrow>
          if high \<and> slept + clock_lag H (wire s') \<le> WAIT_IDLE_TIMEOUT_MS
          then wait_loop H (slept + WAIT_IDLE_DELAY_MS)
                 (s'\<lparr>wire := DelayMs WAIT_IDLE_DELAY_MS # wire s'\<rparr>)
          else (Inr (), s'))"
  by pat_completeness auto

termination
  by (relation "measure (\<lambda>(H, slept, s). WAIT_IDLE_TIMEOUT_MS + 1 - slept)")
    (auto simp: WAIT_IDLE_TIMEOUT_MS_def WAIT_IDLE_DELAY_MS_def)

declare wait_loop.simps [simp del]

definition wait_until_idle :: "'e board \<Rightarrow> ('e, unit) epd" where
  "wait_until_idle H =
     bindS (busy_is_high H) (\<lambda>initial_busy.
     bindS (wait_loop H 0) (\<lambda>_.
     bindS (busy_is_high H) (\<lambda>high. if high then failS EpdTimeout else returnS ())))"

section \<open>Sending commands\<close>

definition send_data :: "'e board \<Rightarrow> bytes \<Rightarrow> ('e, unit) epd" where
  "send_data H bs = bindS (set_pin H DcHigh) (\<lambda>_. spi_write H bs)"

definition waits_first :: "epd_command \<Rightarrow> bool" where
  "waits_first command \<longleftrightarrow> command \<in> {ActivateDisplayUpdateSequence, SoftwareReset,
     DisplayUpdateControl, DisplayUpdateControl2, WriteRam, WriteRamRed, DeepSleep, TemperatureSensor}"

definition send_command :: "'e board \<Rightarrow> epd_command \<Rightarrow> bytes option \<Rightarrow> ('e, unit) epd" where
  "send_command H command sent =
     bindS (if waits_first command then wait_until_idle H else returnS ()) (\<lambda>_.
     bindS (set_pin H DcLow) (\<lambda>_.
     bindS (spi_write H [command_byte command]) (\<lambda>_.
       case sent of Some bs \<Rightarrow> send_data H bs | None \<Rightarrow> returnS ())))"

text \<open>The statements \<open>self.send_command(..)?;\<close> of a block, in order.\<close>

primrec send_commands :: "'e board \<Rightarrow> (epd_command \<times> bytes option) list \<Rightarrow> ('e, unit) epd" where
  "send_commands H [] = returnS ()"
| "send_commands H (c # cs) = bindS (send_command H (fst c) (snd c)) (\<lambda>_. send_commands H cs)"

definition ram_window :: "(epd_command \<times> bytes option) list" where
  "ram_window =
     [(SetRamXAddress, Some (as_slice DataRamX)),
      (SetRamYAddress, Some (as_slice DataRamY)),
      (SetRamXAddressCounter, Some [0]),
      (SetRamYAddressCounter, Some [0, 0])]"

definition set_full_ram_window :: "'e board \<Rightarrow> ('e, unit) epd" where
  "set_full_ram_window H = send_commands H ram_window"

definition hardware_reset :: "'e board \<Rightarrow> ('e, unit) epd" where
  "hardware_reset H =
     bindS (set_pin H RstHigh) (\<lambda>_.
     bindS (delay_ms RESET_DELAY_MS) (\<lambda>_.
     bindS (set_pin H RstLow) (\<lambda>_.
     bindS (delay_ms RESET_PULSE_MS) (\<lambda>_.
     bindS (set_pin H RstHigh) (\<lambda>_.
       delay_ms RESET_DELAY_MS)))))"

definition software_reset :: "'e board \<Rightarrow> ('e, unit) epd" where
  "software_reset H = send_command H SoftwareReset None"

definition epd_new :: "'e board \<Rightarrow> ('e, unit) epd" where
  "epd_new H s =
     bindS (hardware_reset H) (\<lambda>_. software_reset H)
       (s\<lparr>last_update_mode := None, dirty_mask := replicate BUFFER_SIZE 0x00,
          last_frame := replicate BUFFER_SIZE 0xFF\<rparr>)"

definition frame_differs :: "epd_driver \<Rightarrow> bytes \<Rightarrow> bool" where
  "frame_differs s buffer \<longleftrightarrow> last_frame s \<noteq> buffer"

definition epd_sleep :: "'e board \<Rightarrow> ('e, unit) epd" where
  "epd_sleep H =
     bindS (send_command H DeepSleep (Some (as_slice DataDeepSleep))) (\<lambda>_. delay_ms SLEEP_DELAY_MS)"

definition epd_wake :: "'e board \<Rightarrow> ('e, unit) epd" where
  "epd_wake H =
     bindS (hardware_reset H) (\<lambda>_.
     bindS (send_command H DriverOutputControl (Some (as_slice DataDriverOutputControl))) (\<lambda>_.
     bindS (send_command H DataEntryMode (Some (as_slice DataDataEntryMode))) (\<lambda>_.
     bindS (set_full_ram_window H) (\<lambda>_.
       \<lambda>s. (Inr (), s\<lparr>last_update_mode := None\<rparr>)))))"

section \<open>Pushing a frame\<close>

definition has_overlap :: "bytes \<Rightarrow> bytes \<Rightarrow> bytes \<Rightarrow> bool" where
  "has_overlap dirty prev new \<longleftrightarrow>
     (\<exists>((d, l), n) \<in> set (zip (zip dirty prev) new). d AND (l XOR n) \<noteq> 0)"

definition needs_idle_wait :: "display_mode \<Rightarrow> bool \<Rightarrow> display_mode option \<Rightarrow> bool \<Rightarrow> bool" where
  "needs_idle_wait mode is_busy last_mode overlap \<longleftrightarrow>
     is_busy \<and> (case mode of Full \<Rightarrow> True | Partial \<Rightarrow> overlap \<or> last_mode \<noteq> Some Partial)"

text \<open>
  The head of \<open>display_with_policy\<close>: \<open>None\<close> when the push is deferred, otherwise whether the panel was
  seen idle. Then the commands of each mode up to the one that starts the refresh.
\<close>

definition push_admitted :: "'e board \<Rightarrow> bytes \<Rightarrow> display_mode \<Rightarrow> wait_policy \<Rightarrow> ('e, bool option) epd" where
  "push_admitted H buffer mode policy =
     bindS (busy_is_high H) (\<lambda>is_busy s.
       let overlap = is_busy \<and> has_overlap (dirty_mask s) (last_frame s) buffer;
           must_wait = needs_idle_wait mode is_busy (last_update_mode s) overlap
       in if must_wait
          then (case policy of
                  WaitBlock \<Rightarrow> bindS (wait_until_idle H) (\<lambda>_. returnS (Some True)) s
                | WaitBail \<Rightarrow> (Inr None, s))
          else (Inr (Some (\<not> is_busy)), s))"

definition full_commands :: "bytes \<Rightarrow> (epd_command \<times> bytes option) list" where
  "full_commands buffer = ram_window @
     [(DriverOutputControl, Some (as_slice DataDriverOutputControl)),
      (DataEntryMode, Some (as_slice DataDataEntryMode)),
      (BorderWaveform, Some (as_slice DataBorderWaveform)),
      (DisplayUpdateControl2, Some (as_slice DataDisplayUpdateControl2)),
      (TemperatureSensor, Some (as_slice DataTemperatureSensor)),
      (WriteRam, Some buffer),
      (WriteRamRed, Some buffer),
      (DisplayUpdateControl, Some (as_slice DataDisplayFrame))]"

definition partial_commands :: "bytes \<Rightarrow> (epd_command \<times> bytes option) list" where
  "partial_commands buffer = ram_window @
     [(BorderWaveform, Some (as_slice DataPartialUpdateBorderWaveform)),
      (DriverOutputControl, Some (as_slice DataPartialUpdateDriverOutputControl)),
      (DataEntryMode, Some (as_slice DataPartialUpdateDataEntryMode)),
      (WriteRam, Some buffer),
      (DisplayUpdateControl, Some (as_slice DataDisplayPartial))]"

definition prepare_refresh :: "'e board \<Rightarrow> display_mode \<Rightarrow> bytes \<Rightarrow> ('e, unit) epd" where
  "prepare_refresh H mode buffer =
     (case mode of
        Full \<Rightarrow> send_commands H (full_commands buffer)
      | Partial \<Rightarrow>
          bindS (set_pin H RstLow) (\<lambda>_.
          bindS (delay_ms PARTIAL_UPDATE_RESET_DELAY_MS) (\<lambda>_.
          bindS (set_pin H RstHigh) (\<lambda>_.
            send_commands H (partial_commands buffer)))))"

text \<open>
  \<open>*dirty |= *last ^ buf\<close> over the three buffers. A zip stops at the shortest of them and leaves the
  rest of the mask.
\<close>

fun mark_dirty :: "bytes \<Rightarrow> bytes \<Rightarrow> bytes \<Rightarrow> bytes" where
  "mark_dirty (d # ds) (l # ls) (b # bs) = (d OR (l XOR b)) # mark_dirty ds ls bs"
| "mark_dirty ds _ _ = ds"

definition start_refresh :: "'e board \<Rightarrow> display_mode \<Rightarrow> bytes \<Rightarrow> ('e, push_outcome) epd" where
  "start_refresh H mode buffer s =
     (let (result, s1) = send_command H ActivateDisplayUpdateSequence None s;
          s2 = (if is_ok result
                then s1\<lparr>dirty_mask := mark_dirty (dirty_mask s1) (last_frame s1) buffer,
                        last_frame := buffer\<rparr>
                else s1)
      in (and_then result (\<lambda>_. Inr Pushed), s2\<lparr>last_update_mode := Some mode\<rparr>))"

definition display_with_policy ::
    "'e board \<Rightarrow> bytes \<Rightarrow> display_mode \<Rightarrow> wait_policy \<Rightarrow> ('e, push_outcome) epd" where
  "display_with_policy H buffer mode policy =
     bindS (push_admitted H buffer mode policy) (\<lambda>admitted.
       case admitted of
         None \<Rightarrow> returnS Busy
       | Some idle \<Rightarrow> (\<lambda>s.
           bindS (prepare_refresh H mode buffer) (\<lambda>_. start_refresh H mode buffer)
             (if idle then s\<lparr>dirty_mask := replicate (length (dirty_mask s)) 0x00\<rparr> else s)))"

definition panel_display :: "'e board \<Rightarrow> bytes \<Rightarrow> display_mode \<Rightarrow> ('e, unit) epd" where
  "panel_display H buffer mode =
     bindS (display_with_policy H buffer mode WaitBlock) (\<lambda>_. returnS ())"

section \<open>Accesses only extend the wire\<close>

text \<open>\<open>accesses_only A m\<close>: whatever its outcome, \<open>m\<close> only appends accesses satisfying \<open>A\<close> to the wire.\<close>

definition accesses_only :: "(board_access \<Rightarrow> bool) \<Rightarrow> ('e, 'a) epd \<Rightarrow> bool" where
  "accesses_only A m \<longleftrightarrow> (\<forall>s. \<exists>h. snd (m s) = s\<lparr>wire := h @ wire s\<rparr> \<and> (\<forall>a \<in> set h. A a))"

abbreviation bus_only :: "('e, 'a) epd \<Rightarrow> bool" where
  "bus_only m \<equiv> accesses_only (\<lambda>a. True) m"

lemma accesses_onlyE:
  assumes "accesses_only A m" "m s = (r, t)"
  obtains h where "t = s\<lparr>wire := h @ wire s\<rparr>" "\<forall>a \<in> set h. A a"
  using assms by (metis accesses_only_def snd_conv)

lemma accesses_only_one:
  assumes "\<And>s. snd (m s) = s \<or> (\<exists>a. A a \<and> snd (m s) = s\<lparr>wire := a # wire s\<rparr>)"
  shows "accesses_only A m"
proof (unfold accesses_only_def, rule allI)
  fix s
  show "\<exists>h. snd (m s) = s\<lparr>wire := h @ wire s\<rparr> \<and> (\<forall>a \<in> set h. A a)"
    using assms [of s]
  proof
    assume "snd (m s) = s"
    then show ?thesis
      by (intro exI [of _ "[]"]) simp
  next
    assume "\<exists>a. A a \<and> snd (m s) = s\<lparr>wire := a # wire s\<rparr>"
    then obtain a where "A a" "snd (m s) = s\<lparr>wire := a # wire s\<rparr>"
      by blast
    then show ?thesis
      by (intro exI [of _ "[a]"]) simp
  qed
qed

named_theorems bus_intros "operations that only access the board"

lemma accesses_only_bindS [bus_intros]:
  assumes "accesses_only A m" "\<And>x. accesses_only A (f x)"
  shows "accesses_only A (bindS m f)"
proof (unfold accesses_only_def, rule allI)
  fix s
  obtain r t where m: "m s = (r, t)"
    by (cases "m s")
  obtain h where t: "t = s\<lparr>wire := h @ wire s\<rparr>" "\<forall>a \<in> set h. A a"
    using assms(1) m by (rule accesses_onlyE)
  show "\<exists>h. snd (bindS m f s) = s\<lparr>wire := h @ wire s\<rparr> \<and> (\<forall>a \<in> set h. A a)"
  proof (cases r)
    case (Inl e)
    then show ?thesis
      using m t by (auto simp: bindS_def)
  next
    case (Inr x)
    obtain k where "snd (f x t) = t\<lparr>wire := k @ wire t\<rparr>" "\<forall>a \<in> set k. A a"
      using assms(2) unfolding accesses_only_def by blast
    then show ?thesis
      using Inr m t by (intro exI [of _ "k @ h"]) (auto simp: bindS_def)
  qed
qed

lemma accesses_only_access [bus_intros]:
  "A a \<Longrightarrow> A Fault \<Longrightarrow> accesses_only A (set_pin H a)"
  "A (SpiWrite bs) \<Longrightarrow> A Fault \<Longrightarrow> accesses_only A (spi_write H bs)"
  "A BusyRead \<Longrightarrow> A Fault \<Longrightarrow> accesses_only A (busy_is_high H)"
  "A (DelayMs ms) \<Longrightarrow> accesses_only A (delay_ms ms)"
  by (rule accesses_only_one, auto simp: set_pin_def spi_write_def busy_is_high_def delay_ms_def
        split: option.splits sum.splits)+

lemma accesses_only_pure [bus_intros]: "accesses_only A (returnS x)" "accesses_only A (failS e)"
  by (rule accesses_only_one, simp add: returnS_def failS_def)+

lemma accesses_only_wait_loop [bus_intros]:
  assumes A: "A BusyRead" "A Fault" "A (DelayMs WAIT_IDLE_DELAY_MS)"
  shows "accesses_only A (wait_loop H slept)"
proof (unfold accesses_only_def, rule allI)
  fix s
  show "\<exists>h. snd (wait_loop H slept s) = s\<lparr>wire := h @ wire s\<rparr> \<and> (\<forall>a \<in> set h. A a)"
  proof (induction H slept s rule: wait_loop.induct)
    case (1 H slept s)
    obtain r t where b: "busy_is_high H s = (r, t)"
      by (cases "busy_is_high H s")
    obtain h where t: "t = s\<lparr>wire := h @ wire s\<rparr>" "\<forall>a \<in> set h. A a"
      using accesses_only_access(3) [where A = A, OF A(1,2)] b by (rule accesses_onlyE)
    show ?case
    proof (cases "\<exists>high. r = Inr high \<and> high \<and> slept + clock_lag H (wire t) \<le> WAIT_IDLE_TIMEOUT_MS")
      case True
      then have r: "r = Inr True" and c: "slept + clock_lag H (wire t) \<le> WAIT_IDLE_TIMEOUT_MS"
        by auto
      obtain k where "snd (wait_loop H (slept + WAIT_IDLE_DELAY_MS)
          (t\<lparr>wire := DelayMs WAIT_IDLE_DELAY_MS # wire t\<rparr>)) =
          t\<lparr>wire := k @ DelayMs WAIT_IDLE_DELAY_MS # wire t\<rparr>" "\<forall>a \<in> set k. A a"
        using 1 [OF b [symmetric] r] c by auto
      then show ?thesis
        using b r c t A by (subst wait_loop.simps)
          (auto intro!: exI [of _ "k @ DelayMs WAIT_IDLE_DELAY_MS # h"])
    next
      case False
      then show ?thesis
        using b t by (subst wait_loop.simps) (auto split: sum.splits)
    qed
  qed
qed

text \<open>Waiting only reads the busy line and sleeps.\<close>

definition idle_access :: "board_access \<Rightarrow> bool" where
  "idle_access a \<longleftrightarrow> a \<in> {BusyRead, Fault} \<or> (\<exists>d. a = DelayMs d)"

lemma accesses_only_wait:
  assumes "\<And>a. idle_access a \<Longrightarrow> A a"
  shows "accesses_only A (wait_until_idle H)"
  using assms unfolding wait_until_idle_def
  by (auto intro!: bus_intros simp: idle_access_def)

lemma bus_only_send [bus_intros]: "bus_only (send_command H c d)"
  unfolding send_command_def send_data_def
  by (intro bus_intros) (auto intro!: bus_intros accesses_only_wait split: option.split)

lemma bus_only_sends [bus_intros]: "bus_only (send_commands H cs)"
  by (induction cs) (auto intro!: bus_intros)

lemma bus_only_prepare [bus_intros]: "bus_only (prepare_refresh H mode buffer)"
  by (cases mode) (auto simp: prepare_refresh_def intro!: bus_intros)

lemma bus_only_resets [bus_intros]:
  "bus_only (hardware_reset H)" "bus_only (software_reset H)" "bus_only (epd_sleep H)"
  "bus_only (set_full_ram_window H)"
  by (auto simp: hardware_reset_def software_reset_def epd_sleep_def set_full_ram_window_def
      intro!: bus_intros)

section \<open>Waiting ends, with the panel idle or a timeout\<close>

fun slept_ms :: "wire_log \<Rightarrow> nat" where
  "slept_ms [] = 0"
| "slept_ms (DelayMs d # h) = d + slept_ms h"
| "slept_ms (_ # h) = slept_ms h"

lemma slept_busy_read: "busy_is_high H s = (r, t) \<Longrightarrow> slept_ms (wire t) = slept_ms (wire s)"
  by (auto simp: busy_is_high_def split: sum.splits)

lemma wait_loop_bounded:
  assumes "slept \<le> WAIT_IDLE_TIMEOUT_MS + WAIT_IDLE_DELAY_MS" "wait_loop H slept s = (r, t)"
  shows "slept_ms (wire t) + slept \<le>
      slept_ms (wire s) + WAIT_IDLE_TIMEOUT_MS + WAIT_IDLE_DELAY_MS"
  using assms
proof (induction H slept s arbitrary: r t rule: wait_loop.induct)
  case (1 H slept s)
  obtain b u where b: "busy_is_high H s = (b, u)"
    by (cases "busy_is_high H s")
  note u = slept_busy_read [OF b]
  show ?case
  proof (cases "\<exists>high. b = Inr high \<and> high \<and> slept + clock_lag H (wire u) \<le> WAIT_IDLE_TIMEOUT_MS")
    case True
    then have r: "b = Inr True" and c: "slept + clock_lag H (wire u) \<le> WAIT_IDLE_TIMEOUT_MS"
      by auto
    have run: "wait_loop H (slept + WAIT_IDLE_DELAY_MS)
        (u\<lparr>wire := DelayMs WAIT_IDLE_DELAY_MS # wire u\<rparr>) = (r, t)"
      using 1(3) b r c by (subst (asm) wait_loop.simps) simp
    show ?thesis
      using 1(1) [OF b [symmetric] r _ _ run] c u by simp
  next
    case False
    then have "slept_ms (wire t) = slept_ms (wire s)"
      using 1(3) b u by (subst (asm) wait_loop.simps) (auto split: sum.splits if_splits)
    then show ?thesis
      using 1(2) by simp
  qed
qed

lemma wait_until_idle_bounded:
  assumes "wait_until_idle H s = (r, t)"
  shows "slept_ms (wire t) \<le> slept_ms (wire s) + 10010"
proof -
  obtain b u where b: "busy_is_high H s = (b, u)"
    by (cases "busy_is_high H s")
  obtain b' v where l: "wait_loop H 0 u = (b', v)"
    by (cases "wait_loop H 0 u")
  obtain b'' w where c: "busy_is_high H v = (b'', w)"
    by (cases "busy_is_high H v")
  have "slept_ms (wire v) \<le> slept_ms (wire s) + 10010"
    using wait_loop_bounded [OF _ l] slept_busy_read [OF b]
    by (simp add: WAIT_IDLE_TIMEOUT_MS_def WAIT_IDLE_DELAY_MS_def)
  then show ?thesis
    using assms b l c slept_busy_read [OF b] slept_busy_read [OF c]
    by (auto simp: wait_until_idle_def bindS_def returnS_def failS_def split: sum.splits if_splits)
qed

lemma busy_is_high_Inr: "busy_is_high H s = (Inr b, t) \<longleftrightarrow>
    busy_line H (wire s) = Inr b \<and> t = s\<lparr>wire := BusyRead # wire s\<rparr>"
  by (auto simp: busy_is_high_def split: sum.splits)

lemma wait_until_idle_Inr:
  assumes "wait_until_idle H s = (Inr u, t)"
  obtains h where "wire t = BusyRead # h" "busy_line H h = Inr False"
  using assms
  by (auto simp: wait_until_idle_def bindS_Inr_iff busy_is_high_Inr failS_def returnS_def
      split: if_splits)

section \<open>A panel that finishes in time\<close>

text \<open>
  A panel in working order: no access fails, a refresh keeps the busy line high for \<open>T\<close> milliseconds
  of delays or until the reset pulse, and \<open>T\<close> plus the lag of the clock stays within the timeout.
\<close>

fun refresh_left :: "nat \<Rightarrow> wire_log \<Rightarrow> nat" where
  "refresh_left T [] = 0"
| "refresh_left T (RstLow # h) = 0"
| "refresh_left T (DelayMs d # h) = refresh_left T h - d"
| "refresh_left T (SpiWrite bs # h) =
     (if bs = [command_byte ActivateDisplayUpdateSequence] then T else refresh_left T h)"
| "refresh_left T (_ # h) = refresh_left T h"

definition timely_panel :: "'e board \<Rightarrow> nat \<Rightarrow> bool" where
  "timely_panel H T \<longleftrightarrow>
     (\<forall>h. busy_line H h = Inr (refresh_left T h > 0) \<and> (\<forall>a. access_fault H h a = None)
        \<and> T + clock_lag H h \<le> WAIT_IDLE_TIMEOUT_MS)"

lemma refresh_left_le: "refresh_left T h \<le> T"
  by (induction T h rule: refresh_left.induct) auto

lemma wait_loop_timely:
  assumes "timely_panel H T" "refresh_left T (wire s) > 0 \<longrightarrow> slept + refresh_left T (wire s) \<le> T"
  shows "\<exists>h. wait_loop H slept s = (Inr (), s\<lparr>wire := h @ wire s\<rparr>) \<and> refresh_left T (h @ wire s) = 0"
  using assms
proof (induction H slept s rule: wait_loop.induct)
  case (1 H slept s)
  let ?u = "s\<lparr>wire := BusyRead # wire s\<rparr>"
  have b: "busy_is_high H s = (Inr (refresh_left T (wire s) > 0), ?u)"
    using 1(2) by (simp add: busy_is_high_def timely_panel_def)
  show ?case
  proof (cases "refresh_left T (wire s) > 0")
    case True
    have "T + clock_lag H (wire ?u) \<le> WAIT_IDLE_TIMEOUT_MS"
      using 1(2) unfolding timely_panel_def by blast
    then have c: "slept + clock_lag H (wire ?u) \<le> WAIT_IDLE_TIMEOUT_MS"
      using 1(3) True by linarith
    have "\<exists>h. wait_loop H (slept + WAIT_IDLE_DELAY_MS)
          (?u\<lparr>wire := DelayMs WAIT_IDLE_DELAY_MS # wire ?u\<rparr>) =
        (Inr (), ?u\<lparr>wire := h @ DelayMs WAIT_IDLE_DELAY_MS # wire ?u\<rparr>) \<and>
        refresh_left T (h @ DelayMs WAIT_IDLE_DELAY_MS # wire ?u) = 0"
    proof -
      have "\<exists>h. wait_loop H (slept + WAIT_IDLE_DELAY_MS)
            (?u\<lparr>wire := DelayMs WAIT_IDLE_DELAY_MS # wire ?u\<rparr>) =
          (Inr (), (?u\<lparr>wire := DelayMs WAIT_IDLE_DELAY_MS # wire ?u\<rparr>)\<lparr>wire := h @
              wire (?u\<lparr>wire := DelayMs WAIT_IDLE_DELAY_MS # wire ?u\<rparr>)\<rparr>) \<and>
          refresh_left T (h @ wire (?u\<lparr>wire := DelayMs WAIT_IDLE_DELAY_MS # wire ?u\<rparr>)) = 0"
        by (rule 1(1) [OF b [symmetric] refl _ 1(2)])
          (use True 1(3) c in \<open>auto simp: WAIT_IDLE_DELAY_MS_def\<close>)
      then show ?thesis
        by simp
    qed
    then obtain h where h: "wait_loop H (slept + WAIT_IDLE_DELAY_MS)
          (?u\<lparr>wire := DelayMs WAIT_IDLE_DELAY_MS # wire ?u\<rparr>) =
        (Inr (), ?u\<lparr>wire := h @ DelayMs WAIT_IDLE_DELAY_MS # wire ?u\<rparr>)"
      "refresh_left T (h @ DelayMs WAIT_IDLE_DELAY_MS # wire ?u) = 0"
      by blast
    show ?thesis
      using h b True c by (subst wait_loop.simps)
        (auto intro!: exI [of _ "h @ [DelayMs WAIT_IDLE_DELAY_MS, BusyRead]"])
  next
    case False
    then show ?thesis
      using b by (subst wait_loop.simps) (auto intro!: exI [of _ "[BusyRead]"])
  qed
qed

lemma wait_until_idle_timely:
  assumes H: "timely_panel H T"
  shows "\<exists>h. wait_until_idle H s = (Inr (), s\<lparr>wire := h @ wire s\<rparr>) \<and> refresh_left T (h @ wire s) = 0"
proof -
  let ?u = "s\<lparr>wire := BusyRead # wire s\<rparr>"
  have rd: "busy_is_high H x = (Inr (refresh_left T (wire x) > 0), x\<lparr>wire := BusyRead # wire x\<rparr>)"
    for x
    using H by (simp add: busy_is_high_def timely_panel_def)
  have "\<exists>h. wait_loop H 0 ?u = (Inr (), ?u\<lparr>wire := h @ wire ?u\<rparr>) \<and> refresh_left T (h @ wire ?u) = 0"
    by (rule wait_loop_timely [OF H]) (simp add: refresh_left_le)
  then obtain h where "wait_loop H 0 ?u = (Inr (), ?u\<lparr>wire := h @ wire ?u\<rparr>)"
    "refresh_left T (h @ wire ?u) = 0"
    by blast
  then show ?thesis
    by (intro exI [of _ "BusyRead # h @ [BusyRead]"])
      (simp add: wait_until_idle_def bindS_def rd returnS_def)
qed

lemma set_pin_timely: "timely_panel H T \<Longrightarrow> set_pin H a s = (Inr (), s\<lparr>wire := a # wire s\<rparr>)"
  by (simp add: set_pin_def timely_panel_def)

lemma spi_write_timely:
  "timely_panel H T \<Longrightarrow> spi_write H bs s = (Inr (), s\<lparr>wire := SpiWrite bs # wire s\<rparr>)"
  by (simp add: spi_write_def timely_panel_def)

lemma send_command_timely:
  assumes H: "timely_panel H T"
  shows "\<exists>t. send_command H c d s = (Inr (), t)"
proof -
  have "\<exists>t. (if waits_first c then wait_until_idle H else returnS ()) s = (Inr (), t)"
    using wait_until_idle_timely [OF H, of s] by (auto simp: returnS_def)
  then show ?thesis
    using set_pin_timely [OF H] spi_write_timely [OF H]
    by (auto simp: send_command_def send_data_def bindS_def returnS_def split: option.split)
qed

lemma send_commands_timely:
  assumes "timely_panel H T"
  shows "\<exists>t. send_commands H cs s = (Inr (), t)"
proof (induction cs arbitrary: s)
  case Nil
  then show ?case
    by (simp add: returnS_def)
next
  case (Cons c cs)
  obtain t where "send_command H (fst c) (snd c) s = (Inr (), t)"
    using send_command_timely [OF assms] by blast
  then show ?case
    using Cons by (simp add: bindS_def)
qed

lemma prepare_refresh_timely:
  assumes "timely_panel H T"
  shows "\<exists>t. prepare_refresh H mode buffer s = (Inr (), t)"
  using send_commands_timely [OF assms]
  by (cases mode) (simp_all add: prepare_refresh_def bindS_def set_pin_timely [OF assms] delay_ms_def)

section \<open>What reaches the bus\<close>

text \<open>
  The bytes written, in order, with the level of the DC line: \<open>False\<close> for a command byte, \<open>True\<close>
  for its data.
\<close>

primrec traffic :: "bool \<Rightarrow> board_access list \<Rightarrow> (bool \<times> bytes) list" where
  "traffic dc [] = []"
| "traffic dc (a # as) =
     (case a of
        DcHigh \<Rightarrow> traffic True as
      | DcLow \<Rightarrow> traffic False as
      | SpiWrite bs \<Rightarrow> (dc, bs) # traffic dc as
      | _ \<Rightarrow> traffic dc as)"

primrec dc_after :: "bool \<Rightarrow> board_access list \<Rightarrow> bool" where
  "dc_after dc [] = dc"
| "dc_after dc (a # as) = dc_after (case a of DcHigh \<Rightarrow> True | DcLow \<Rightarrow> False | _ \<Rightarrow> dc) as"

lemma traffic_append: "traffic dc (as @ bs) = traffic dc as @ traffic (dc_after dc as) bs"
  by (induction as arbitrary: dc) (auto split: board_access.split)

definition command_traffic :: "(epd_command \<times> bytes option) list \<Rightarrow> (bool \<times> bytes) list" where
  "command_traffic cs = concat (map (\<lambda>(c, d). (False, [command_byte c]) #
     (case d of None \<Rightarrow> [] | Some bs \<Rightarrow> [(True, bs)])) cs)"

text \<open>\<open>puts m ts\<close>: a successful run of \<open>m\<close> writes exactly \<open>ts\<close>, whatever the DC line was.\<close>

definition puts :: "('e, 'a) epd \<Rightarrow> (bool \<times> bytes) list \<Rightarrow> bool" where
  "puts m ts \<longleftrightarrow> (\<forall>s x t. m s = (Inr x, t) \<longrightarrow>
     (\<exists>h. wire t = h @ wire s \<and> (\<forall>dc. traffic dc (rev h) = ts)))"

lemma puts_bindS:
  assumes "puts m ts" "\<And>x. puts (f x) us"
  shows "puts (bindS m f) (ts @ us)"
proof (unfold puts_def, intro allI impI)
  fix s x t
  assume "bindS m f s = (Inr x, t)"
  then obtain y u where m: "m s = (Inr y, u)" and f: "f y u = (Inr x, t)"
    by (auto simp: bindS_Inr_iff)
  obtain h k where "wire u = h @ wire s" "\<forall>dc. traffic dc (rev h) = ts"
    "wire t = k @ wire u" "\<forall>dc. traffic dc (rev k) = us"
    using m f assms unfolding puts_def by metis
  then show "\<exists>h. wire t = h @ wire s \<and> (\<forall>dc. traffic dc (rev h) = ts @ us)"
    by (intro exI [of _ "k @ h"]) (simp add: traffic_append)
qed

lemma traffic_idle: "\<forall>a \<in> set h. idle_access a \<Longrightarrow> traffic dc h = [] \<and> dc_after dc h = dc"
  by (induction h) (auto simp: idle_access_def)

lemma puts_pure: "puts (returnS x) []" "puts (failS e) ts" "puts (delay_ms ms) []"
  by (auto simp: puts_def returnS_def failS_def delay_ms_def intro: exI [of _ "[]"] exI [of _ "[_]"])

lemma puts_pin: "a \<in> {RstHigh, RstLow, DcHigh, DcLow} \<Longrightarrow> puts (set_pin H a) []"
  by (auto simp: puts_def set_pin_def split: option.splits intro: exI [of _ "[_]"])

lemma puts_wait: "puts (wait_until_idle H) []"
proof (unfold puts_def, intro allI impI)
  fix s x t
  assume "wait_until_idle H s = (Inr x, t)"
  then obtain h where "t = s\<lparr>wire := h @ wire s\<rparr>" "\<forall>a \<in> set h. idle_access a"
    using accesses_onlyE [OF accesses_only_wait [where A = idle_access and H = H]] by blast
  then show "\<exists>h. wire t = h @ wire s \<and> (\<forall>dc. traffic dc (rev h) = [])"
    using traffic_idle [of "rev h"] by auto
qed

text \<open>The command byte goes out with DC low and its data with DC high.\<close>

lemma puts_write:
  assumes "dc = (a = DcHigh)" "a \<in> {DcHigh, DcLow}" "\<And>x. puts (f x) ts"
  shows "puts (bindS (set_pin H a) (\<lambda>_. bindS (spi_write H bs) f)) ((dc, bs) # ts)"
proof -
  have "puts (bindS (set_pin H a) (\<lambda>_. spi_write H bs)) [(dc, bs)]"
    using assms(1,2) by (auto simp: puts_def bindS_Inr_iff set_pin_def spi_write_def
        split: option.splits intro: exI [of _ "[_, _]"])
  moreover have "bindS (set_pin H a) (\<lambda>_. bindS (spi_write H bs) f) =
      bindS (bindS (set_pin H a) (\<lambda>_. spi_write H bs)) f"
    by (auto simp: bindS_def fun_eq_iff split: prod.split sum.split)
  ultimately show ?thesis
    using puts_bindS [of "bindS (set_pin H a) (\<lambda>_. spi_write H bs)" "[(dc, bs)]" f ts] assms(3)
    by simp
qed

lemma puts_write_last:
  assumes "dc = (a = DcHigh)" "a \<in> {DcHigh, DcLow}"
  shows "puts (bindS (set_pin H a) (\<lambda>_. spi_write H bs)) [(dc, bs)]"
  using assms by (auto simp: puts_def bindS_Inr_iff set_pin_def spi_write_def
      split: option.splits intro: exI [of _ "[_, _]"])

lemma puts_send: "puts (send_command H c d) (command_traffic [(c, d)])"
proof -
  have "puts (if waits_first c then wait_until_idle H else returnS ()) []"
    by (simp add: puts_wait puts_pure)
  moreover have "puts (bindS (set_pin H DcLow) (\<lambda>_. bindS (spi_write H [command_byte c]) (\<lambda>_.
       case d of Some bs \<Rightarrow> send_data H bs | None \<Rightarrow> returnS ()))) (command_traffic [(c, d)])"
    unfolding command_traffic_def send_data_def
    by (cases d) (auto intro!: puts_write puts_write_last puts_pure)
  ultimately show ?thesis
    unfolding send_command_def using puts_bindS by fastforce
qed

lemma puts_sends: "puts (send_commands H cs) (command_traffic cs)"
proof (induction cs)
  case Nil
  then show ?case
    by (simp add: puts_pure command_traffic_def)
next
  case (Cons c cs)
  have "puts (send_commands H (c # cs)) (command_traffic [(fst c, snd c)] @ command_traffic cs)"
    unfolding send_commands.simps by (rule puts_bindS [OF puts_send Cons])
  then show ?case
    by (simp add: command_traffic_def)
qed

text \<open>A refresh writes the commands of its mode and the trigger, and nothing else.\<close>

definition refresh_traffic :: "display_mode \<Rightarrow> bytes \<Rightarrow> (bool \<times> bytes) list" where
  "refresh_traffic mode buffer =
     command_traffic ((case mode of Full \<Rightarrow> full_commands buffer | Partial \<Rightarrow> partial_commands buffer) @
       [(ActivateDisplayUpdateSequence, None)])"

lemma command_traffic_append: "command_traffic (cs @ ds) = command_traffic cs @ command_traffic ds"
  by (simp add: command_traffic_def)

lemma puts_silent_bindS: "puts m [] \<Longrightarrow> (\<And>x. puts (f x) ts) \<Longrightarrow> puts (bindS m f) ts"
  using puts_bindS [of m "[]" f ts] by simp

lemma puts_prepare:
  "puts (prepare_refresh H mode buffer)
     (command_traffic (case mode of Full \<Rightarrow> full_commands buffer | Partial \<Rightarrow> partial_commands buffer))"
  by (cases mode) (auto simp: prepare_refresh_def
      intro!: puts_sends puts_silent_bindS [OF puts_pin] puts_silent_bindS [OF puts_pure(3)])

lemma puts_start: "puts (start_refresh H mode buffer) (command_traffic [(ActivateDisplayUpdateSequence, None)])"
proof (unfold puts_def, intro allI impI)
  fix s x t
  assume "start_refresh H mode buffer s = (Inr x, t)"
  moreover obtain r u where "send_command H ActivateDisplayUpdateSequence None s = (r, u)"
    by (cases "send_command H ActivateDisplayUpdateSequence None s")
  ultimately obtain y u where "send_command H ActivateDisplayUpdateSequence None s = (Inr y, u)"
    "wire t = wire u"
    by (cases r) (auto simp: start_refresh_def)
  then show "\<exists>h. wire t = h @ wire s \<and>
      (\<forall>dc. traffic dc (rev h) = command_traffic [(ActivateDisplayUpdateSequence, None)])"
    using puts_send [of H ActivateDisplayUpdateSequence None] unfolding puts_def by metis
qed

section \<open>A push on every branch\<close>

lemma bus_only_frame:
  assumes "bus_only m" "m s = (r, t)"
  shows "last_update_mode t = last_update_mode s" "dirty_mask t = dirty_mask s"
    "last_frame t = last_frame s"
  by (rule accesses_onlyE [OF assms], simp)+

lemma push_admitted_Inl:
  "busy_line H (wire s) = Inl e \<Longrightarrow>
     push_admitted H buffer mode policy s = (Inl (EpdCdevPin e), s\<lparr>wire := Fault # wire s\<rparr>)"
  by (simp add: push_admitted_def bindS_def busy_is_high_def)

lemma push_admitted_Inr:
  "busy_line H (wire s) = Inr b \<Longrightarrow>
     push_admitted H buffer mode policy s =
       (let u = s\<lparr>wire := BusyRead # wire s\<rparr>
        in if needs_idle_wait mode b (last_update_mode s) (b \<and> has_overlap (dirty_mask s) (last_frame s) buffer)
           then (case policy of
                   WaitBlock \<Rightarrow> bindS (wait_until_idle H) (\<lambda>_. returnS (Some True)) u
                 | WaitBail \<Rightarrow> (Inr None, u))
           else (Inr (Some (\<not> b)), u))"
  by (simp add: push_admitted_def bindS_eqI1 busy_is_high_Inr Let_def)

lemma push_admitted_idle_access: "accesses_only idle_access (push_admitted H buffer mode policy)"
proof (unfold accesses_only_def, rule allI)
  fix s :: epd_driver
  let ?P = "\<lambda>t. \<exists>h. t = s\<lparr>wire := h @ wire s\<rparr> \<and> (\<forall>a \<in> set h. idle_access a)"
  let ?u = "s\<lparr>wire := BusyRead # wire s\<rparr>"
  have one: "?P (s\<lparr>wire := Fault # wire s\<rparr>)" "?P ?u"
    by (rule exI [of _ "[Fault]"], simp add: idle_access_def)
      (rule exI [of _ "[BusyRead]"], simp add: idle_access_def)
  have "accesses_only idle_access (bindS (wait_until_idle H) (\<lambda>_. returnS (Some True)))"
    by (intro bus_intros accesses_only_wait) simp
  then obtain k where k: "snd (bindS (wait_until_idle H) (\<lambda>_. returnS (Some True)) ?u) =
      ?u\<lparr>wire := k @ wire ?u\<rparr>" "\<forall>a \<in> set k. idle_access a"
    unfolding accesses_only_def by blast
  have wait: "?P (snd (bindS (wait_until_idle H) (\<lambda>_. returnS (Some True)) ?u))"
    by (rule exI [of _ "k @ [BusyRead]"]) (use k in \<open>simp add: idle_access_def\<close>)
  show "?P (snd (push_admitted H buffer mode policy s))"
  proof (cases "busy_line H (wire s)")
    case (Inl e)
    then show ?thesis
      using one by (simp add: push_admitted_Inl)
  next
    case (Inr b)
    then show ?thesis
      unfolding push_admitted_Inr [OF Inr] Let_def
      using one wait by (cases policy) simp_all
  qed
qed

lemma push_admitted_frame:
  assumes "push_admitted H buffer mode policy s = (r, t)"
  shows "last_update_mode t = last_update_mode s" "dirty_mask t = dirty_mask s"
    "last_frame t = last_frame s"
  by (rule accesses_onlyE [OF push_admitted_idle_access assms], simp)+

text \<open>A push let through while the panel is busy without a wait changes no dirty pixel.\<close>

lemma wait_and_return:
  "bindS (wait_until_idle H) (\<lambda>_. returnS (Some True)) s = (Inr x, t) \<longleftrightarrow>
     x = Some True \<and> (\<exists>u. wait_until_idle H s = (Inr u, t))"
  by (auto simp: bindS_Inr_iff returnS_def)

lemma push_admitted_supersedes:
  assumes "push_admitted H buffer mode policy s = (Inr (Some False), t)"
  shows "mode = Partial" "last_update_mode s = Some Partial"
    "\<not> has_overlap (dirty_mask s) (last_frame s) buffer"
proof -
  obtain b where b: "busy_line H (wire s) = Inr b"
    using assms by (cases "busy_line H (wire s)") (auto simp: push_admitted_Inl)
  have "b \<and> \<not> needs_idle_wait mode b (last_update_mode s) (b \<and> has_overlap (dirty_mask s) (last_frame s) buffer)"
    using assms unfolding push_admitted_Inr [OF b] Let_def
    by (cases policy) (auto simp: wait_and_return split: if_splits)
  then show "mode = Partial" "last_update_mode s = Some Partial"
    "\<not> has_overlap (dirty_mask s) (last_frame s) buffer"
    by (auto simp: needs_idle_wait_def split: display_mode.splits)
qed

text \<open>A push that counts the panel as idle has read the busy line low.\<close>

lemma push_admitted_idle:
  assumes "push_admitted H buffer mode policy s = (Inr (Some True), t)"
  obtains h where "wire t = BusyRead # h" "busy_line H h = Inr False"
proof -
  obtain b where b: "busy_line H (wire s) = Inr b"
    using assms by (cases "busy_line H (wire s)") (auto simp: push_admitted_Inl)
  let ?u = "s\<lparr>wire := BusyRead # wire s\<rparr>"
  show ?thesis
  proof (cases b)
    case False
    then have "t = ?u"
      using assms push_admitted_Inr [OF b, of buffer mode policy] by (simp add: needs_idle_wait_def)
    then have "wire t = BusyRead # wire s"
      by simp
    then show ?thesis
      using that [of "wire s"] b False by simp
  next
    case True
    then obtain u where "wait_until_idle H ?u = (Inr u, t)"
      using assms unfolding push_admitted_Inr [OF b] Let_def
      by (cases policy) (auto simp: wait_and_return split: if_splits)
    then show ?thesis
      using that by (rule wait_until_idle_Inr)
  qed
qed

lemma display_with_policy_cases:
  assumes "display_with_policy H buffer mode policy s = (r, t)"
  obtains
    (not_admitted) e where "push_admitted H buffer mode policy s = (Inl e, t)" "r = Inl e"
  | (deferred) "push_admitted H buffer mode policy s = (Inr None, t)" "r = Inr Busy"
  | (failed) idle u e where "push_admitted H buffer mode policy s = (Inr (Some idle), u)" "r = Inl e"
      "dirty_mask t = (if idle then replicate (length (dirty_mask s)) 0 else dirty_mask s)"
      "last_frame t = last_frame s"
  | (pushed) idle u where "push_admitted H buffer mode policy s = (Inr (Some idle), u)"
      "r = Inr Pushed" "last_update_mode t = Some mode" "last_frame t = buffer"
      "dirty_mask t = mark_dirty (if idle then replicate (length (dirty_mask s)) 0 else dirty_mask s)
         (last_frame s) buffer"
proof -
  obtain a u where a: "push_admitted H buffer mode policy s = (a, u)"
    by (cases "push_admitted H buffer mode policy s")
  note u = push_admitted_frame [OF a]
  consider (err) e where "a = Inl e" | (none) "a = Inr None" | (go) idle where "a = Inr (Some idle)"
    by (metis option.exhaust sum.exhaust)
  then show thesis
  proof cases
    case err
    then show thesis
      using not_admitted assms a by (simp add: display_with_policy_def bindS_def)
  next
    case none
    then show thesis
      using deferred assms a by (simp add: display_with_policy_def bindS_def returnS_def)
  next
    case (go idle)
    define v where "v = (if idle then u\<lparr>dirty_mask := replicate (length (dirty_mask u)) 0x00\<rparr> else u)"
    have run: "bindS (prepare_refresh H mode buffer) (\<lambda>_. start_refresh H mode buffer) v = (r, t)"
      using assms a go by (simp add: display_with_policy_def bindS_def v_def)
    have v: "dirty_mask v = (if idle then replicate (length (dirty_mask s)) 0 else dirty_mask s)"
      "last_frame v = last_frame s"
      using u by (auto simp: v_def)
    obtain p w where p: "prepare_refresh H mode buffer v = (p, w)"
      by (cases "prepare_refresh H mode buffer v")
    note w = bus_only_frame [OF bus_only_prepare p]
    obtain q x where q: "send_command H ActivateDisplayUpdateSequence None w = (q, x)"
      by (cases "send_command H ActivateDisplayUpdateSequence None w")
    note x = bus_only_frame [OF bus_only_send q]
    show thesis
    proof (cases p)
      case (Inl e)
      then show thesis
        using failed a go run p w v by (auto simp: bindS_def)
    next
      case (Inr y)
      show thesis
      proof (cases q)
        case (Inl e)
        then show thesis
          using failed a go run p Inr w v q x by (auto simp: bindS_def start_refresh_def)
      next
        case (Inr z)
        then show thesis
          using pushed a go run p \<open>p = Inr y\<close> w v q x by (auto simp: bindS_def start_refresh_def)
      qed
    qed
  qed
qed

end
