(* ===== verification/Epd_Window.thy ===== *)
theory Epd_Window
  imports Epd_Driver
begin

text \<open>
  The contract of the panel driver of \<open>libs/epd-2in13-v4/src/display_driver.rs\<close>. A run of the driver is
  accompanied by its window: the frames pushed since the panel was last seen idle, the latest first.
  Shown: the dirty mask of the code is the set of pixels that differ somewhere in the window, no
  pixel changes twice in it, and on a panel that finishes its refreshes in time a blocking push
  always succeeds.
\<close>

section \<open>Pixels of a frame\<close>

definition pixel_bit :: "bytes \<Rightarrow> nat \<Rightarrow> nat \<Rightarrow> bool" where
  "pixel_bit frame i k \<longleftrightarrow> bit (frame ! i) k"

lemma length_mark_dirty [simp]: "length (mark_dirty ds ls bs) = length ds"
  by (induction ds ls bs rule: mark_dirty.induct) auto

lemma mark_dirty_nth:
  assumes "length ds = length ls" "length ls = length bs" "i < length ds"
  shows "mark_dirty ds ls bs ! i = ds ! i OR (ls ! i XOR bs ! i)"
  using assms
  by (induction ds ls bs arbitrary: i rule: mark_dirty.induct) (auto simp: nth_Cons split: nat.splits)

lemma pixel_mark_dirty:
  assumes "length ds = length ls" "length ls = length bs" "i < length ds"
  shows "pixel_bit (mark_dirty ds ls bs) i k \<longleftrightarrow>
      pixel_bit ds i k \<or> pixel_bit ls i k \<noteq> pixel_bit bs i k"
  using assms by (simp add: pixel_bit_def mark_dirty_nth bit_or_iff bit_xor_iff)

lemma pixel_zeros: "i < n \<Longrightarrow> \<not> pixel_bit (replicate n 0) i k"
  by (simp add: pixel_bit_def)

lemma no_overlap_pixel:
  assumes "\<not> has_overlap ds ls bs" "length ds = length ls" "length ls = length bs" "i < length ds"
    "pixel_bit ds i k"
  shows "pixel_bit ls i k = pixel_bit bs i k"
proof -
  have "((ds ! i, ls ! i), bs ! i) \<in> set (zip (zip ds ls) bs)"
    using assms(2-4) by (auto simp: set_zip intro!: exI [of _ i])
  then have "ds ! i AND (ls ! i XOR bs ! i) = 0"
    using assms(1) unfolding has_overlap_def by blast
  then have "\<not> bit (ds ! i AND (ls ! i XOR bs ! i)) k"
    by simp
  then show ?thesis
    using assms(5) by (auto simp: pixel_bit_def bit_and_iff bit_xor_iff)
qed

section \<open>Runs of the driver with their windows\<close>

definition window_after ::
    "'e board \<Rightarrow> bytes \<Rightarrow> display_mode \<Rightarrow> wait_policy \<Rightarrow> epd_driver \<Rightarrow> bytes list \<Rightarrow> bytes list" where
  "window_after H buffer mode policy s fs =
     (let base = (case fst (push_admitted H buffer mode policy s) of
                    Inr (Some True) \<Rightarrow> [hd fs] | _ \<Rightarrow> fs)
      in if fst (display_with_policy H buffer mode policy s) = Inr Pushed then buffer # base else base)"

inductive epd_run :: "'e board \<Rightarrow> epd_driver \<Rightarrow> bytes list \<Rightarrow> bool" for H where
  run_new: "epd_new H s = (Inr (), t) \<Longrightarrow> epd_run H t [replicate BUFFER_SIZE 0xFF]"
| run_sleep: "epd_run H s fs \<Longrightarrow> epd_sleep H s = (r, t) \<Longrightarrow> epd_run H t fs"
| run_wake: "epd_run H s fs \<Longrightarrow> epd_wake H s = (r, t) \<Longrightarrow> epd_run H t fs"
| run_display: "epd_run H s fs \<Longrightarrow> length buffer = BUFFER_SIZE \<Longrightarrow>
    display_with_policy H buffer mode policy s = (r, t) \<Longrightarrow>
    epd_run H t (window_after H buffer mode policy s fs)"

text \<open>How often a pixel changes along the frames of a window.\<close>

fun changes :: "nat \<Rightarrow> nat \<Rightarrow> bytes list \<Rightarrow> nat" where
  "changes i k (f # g # fs) = (if pixel_bit f i k \<noteq> pixel_bit g i k then 1 else 0) + changes i k (g # fs)"
| "changes i k _ = 0"

definition window_inv :: "epd_driver \<Rightarrow> bytes list \<Rightarrow> bool" where
  "window_inv s fs \<longleftrightarrow>
     fs \<noteq> [] \<and> hd fs = last_frame s \<and> length (last_frame s) = BUFFER_SIZE \<and>
     length (dirty_mask s) = BUFFER_SIZE \<and>
     (\<forall>i < BUFFER_SIZE. \<forall>k. changes i k fs = (if pixel_bit (dirty_mask s) i k then 1 else 0))"

lemma changes_Cons: "fs \<noteq> [] \<Longrightarrow>
    changes i k (f # fs) = (if pixel_bit f i k \<noteq> pixel_bit (hd fs) i k then 1 else 0) + changes i k fs"
  by (cases fs) auto

lemma window_inv_reset:
  "window_inv s fs \<Longrightarrow> last_frame t = last_frame s \<Longrightarrow>
     dirty_mask t = replicate (length (dirty_mask s)) 0 \<Longrightarrow> window_inv t [hd fs]"
  by (auto simp: window_inv_def pixel_zeros)

lemma window_inv_push:
  assumes inv: "window_inv s fs" and len: "length buffer = BUFFER_SIZE"
    and free: "\<not> has_overlap (dirty_mask s) (last_frame s) buffer"
    and t: "last_frame t = buffer" "dirty_mask t = mark_dirty (dirty_mask s) (last_frame s) buffer"
  shows "window_inv t (buffer # fs)"
  unfolding window_inv_def
proof (intro conjI allI impI)
  show "buffer # fs \<noteq> []" "hd (buffer # fs) = last_frame t" "length (last_frame t) = BUFFER_SIZE"
    "length (dirty_mask t) = BUFFER_SIZE"
    using inv len t by (auto simp: window_inv_def)
  fix i k assume i: "i < BUFFER_SIZE"
  have eqs: "length (dirty_mask s) = length (last_frame s)" "length (last_frame s) = length buffer"
    "i < length (dirty_mask s)"
    using inv len i by (auto simp: window_inv_def)
  have old: "changes i k fs = (if pixel_bit (dirty_mask s) i k then 1 else 0)" "fs \<noteq> []"
    "hd fs = last_frame s"
    using inv i by (auto simp: window_inv_def)
  show "changes i k (buffer # fs) = (if pixel_bit (dirty_mask t) i k then 1 else 0)"
    using no_overlap_pixel [OF free eqs] pixel_mark_dirty [OF eqs] old t(2)
    by (auto simp: changes_Cons)
qed

lemma no_overlap_clean: "\<not> has_overlap (replicate n 0) ls bs"
  by (auto simp: has_overlap_def dest!: set_zip_leftD)

lemma display_keeps_window:
  assumes inv: "window_inv s fs" and len: "length buffer = BUFFER_SIZE"
    and run: "display_with_policy H buffer mode policy s = (r, t)"
  shows "window_inv t (window_after H buffer mode policy s fs)"
  using run
proof (cases rule: display_with_policy_cases)
  case (not_admitted e)
  then show ?thesis
    using inv run push_admitted_frame [OF not_admitted(1)] by (simp add: window_after_def window_inv_def)
next
  case deferred
  then show ?thesis
    using inv run push_admitted_frame [OF deferred(1)] by (simp add: window_after_def window_inv_def)
next
  case (failed idle u e)
  then show ?thesis
    using inv run window_inv_reset [OF inv failed(4)]
    by (cases idle) (simp_all add: window_after_def window_inv_def)
next
  case (pushed idle u)
  show ?thesis
  proof (cases idle)
    case True
    let ?c = "s\<lparr>dirty_mask := replicate (length (dirty_mask s)) 0\<rparr>"
    have "window_inv ?c [hd fs]"
      by (rule window_inv_reset [OF inv]) simp_all
    then have "window_inv t (buffer # [hd fs])"
      by (rule window_inv_push [OF _ len]) (use pushed True in \<open>simp_all add: no_overlap_clean\<close>)
    then show ?thesis
      using pushed True run by (simp add: window_after_def)
  next
    case False
    then have "\<not> has_overlap (dirty_mask s) (last_frame s) buffer"
      using push_admitted_supersedes(3) [of H buffer mode policy s u] pushed(1) by simp
    then have "window_inv t (buffer # fs)"
      by (rule window_inv_push [OF inv len]) (use pushed False in simp_all)
    then show ?thesis
      using pushed False run by (simp add: window_after_def)
  qed
qed

lemma epd_new_frame:
  assumes "epd_new H s = (r, t)"
  shows "dirty_mask t = replicate BUFFER_SIZE 0" "last_frame t = replicate BUFFER_SIZE 0xFF"
    "last_update_mode t = None"
proof -
  have "bus_only (bindS (hardware_reset H) (\<lambda>_. software_reset H))"
    by (intro bus_intros)
  then show "dirty_mask t = replicate BUFFER_SIZE 0" "last_frame t = replicate BUFFER_SIZE 0xFF"
    "last_update_mode t = None"
    using assms bus_only_frame unfolding epd_new_def by fastforce+
qed

lemma epd_wake_frame:
  assumes "epd_wake H s = (r, t)"
  shows "dirty_mask t = dirty_mask s" "last_frame t = last_frame s"
    "last_update_mode t \<in> {None, last_update_mode s}"
proof -
  let ?m = "bindS (hardware_reset H) (\<lambda>_.
     bindS (send_command H DriverOutputControl (Some (as_slice DataDriverOutputControl))) (\<lambda>_.
     bindS (send_command H DataEntryMode (Some (as_slice DataDataEntryMode))) (\<lambda>_.
     set_full_ram_window H)))"
  obtain q u where q: "?m s = (q, u)"
    by (cases "?m s")
  have m: "bus_only ?m"
    by (intro bus_intros)
  have "epd_wake H s = bindS ?m (\<lambda>_ s. (Inr (), s\<lparr>last_update_mode := None\<rparr>)) s"
    by (simp add: epd_wake_def bindS_def split: prod.split sum.split)
  then show "dirty_mask t = dirty_mask s" "last_frame t = last_frame s"
    "last_update_mode t \<in> {None, last_update_mode s}"
    using assms q bus_only_frame [OF m q] by (auto simp: bindS_def split: sum.splits)
qed

lemma epd_run_window: "epd_run H s fs \<Longrightarrow> window_inv s fs"
proof (induction rule: epd_run.induct)
  case (run_new s t)
  then show ?case
    using epd_new_frame [OF run_new] by (simp add: window_inv_def pixel_zeros del: replicate.simps)
next
  case (run_sleep s fs r t)
  then show ?case
    using bus_only_frame [OF bus_only_resets(3) run_sleep(2)] by (simp add: window_inv_def)
next
  case (run_wake s fs r t)
  then show ?case
    using epd_wake_frame [OF run_wake(2)] by (simp add: window_inv_def)
next
  case (run_display s fs buffer mode policy r t)
  then show ?case
    using display_keeps_window by blast
qed

section \<open>A blocking push succeeds on a working panel\<close>

lemma push_admitted_timely:
  assumes "timely_panel H T"
  shows "\<exists>idle t. push_admitted H buffer mode WaitBlock s = (Inr (Some idle), t)"
proof -
  have b: "busy_line H (wire s) = Inr (refresh_left T (wire s) > 0)"
    using assms by (simp add: timely_panel_def)
  obtain h where "wait_until_idle H (s\<lparr>wire := BusyRead # wire s\<rparr>) =
      (Inr (), s\<lparr>wire := h @ BusyRead # wire s\<rparr>)"
    using wait_until_idle_timely [OF assms, of "s\<lparr>wire := BusyRead # wire s\<rparr>"] by auto
  then show ?thesis
    by (auto simp: push_admitted_Inr [OF b] Let_def bindS_def returnS_def)
qed

lemma blocking_push_succeeds:
  assumes "timely_panel H T"
  shows "\<exists>t. display_with_policy H buffer mode WaitBlock s = (Inr Pushed, t)"
proof -
  obtain idle u where a: "push_admitted H buffer mode WaitBlock s = (Inr (Some idle), u)"
    using push_admitted_timely [OF assms] by blast
  let ?v = "if idle then u\<lparr>dirty_mask := replicate (length (dirty_mask u)) 0x00\<rparr> else u"
  obtain w where p: "prepare_refresh H mode buffer ?v = (Inr (), w)"
    using prepare_refresh_timely [OF assms] by blast
  obtain x where q: "send_command H ActivateDisplayUpdateSequence None w = (Inr (), x)"
    using send_command_timely [OF assms] by blast
  show ?thesis
    using a p q by (simp add: display_with_policy_def bindS_def start_refresh_def Let_def)
qed

text \<open>A pushed frame: the bus carried exactly its refresh.\<close>

lemma pushed_traffic:
  assumes "display_with_policy H buffer mode policy s = (Inr Pushed, t)"
  shows "\<exists>h. wire t = h @ wire s \<and> (\<forall>dc. traffic dc (rev h) = refresh_traffic mode buffer)"
proof -
  obtain a u where a: "push_admitted H buffer mode policy s = (Inr a, u)"
    using assms by (auto simp: display_with_policy_def bindS_Inr_iff)
  obtain k where k: "u = s\<lparr>wire := k @ wire s\<rparr>" "\<forall>x \<in> set k. idle_access x"
    using push_admitted_idle_access a by (rule accesses_onlyE)
  obtain idle where idle: "a = Some idle"
    using assms a by (cases a) (auto simp: display_with_policy_def bindS_def returnS_def)
  let ?v = "if idle then u\<lparr>dirty_mask := replicate (length (dirty_mask u)) 0x00\<rparr> else u"
  have "bindS (prepare_refresh H mode buffer) (\<lambda>_. start_refresh H mode buffer) ?v = (Inr Pushed, t)"
    using assms a idle by (simp add: display_with_policy_def bindS_def)
  moreover have "puts (bindS (prepare_refresh H mode buffer) (\<lambda>_. start_refresh H mode buffer))
      (refresh_traffic mode buffer)"
    unfolding refresh_traffic_def command_traffic_append by (rule puts_bindS [OF puts_prepare puts_start])
  ultimately obtain h where "wire t = h @ wire ?v" "\<forall>dc. traffic dc (rev h) = refresh_traffic mode buffer"
    unfolding puts_def by blast
  then show ?thesis
    using k traffic_idle [of "rev k"] by (intro exI [of _ "h @ k"]) (simp add: traffic_append)
qed

end
