(* ===== verification/Epd_Updates.thy ===== *)
theory Epd_Updates
  imports Epd_Display
begin

text \<open>
  The contract of \<open>Display\<close> (\<open>libs/epd-2in13-v4/src/display.rs\<close>) and of the touch screen. A run of the
  display, with any drawing between its updates, is accompanied by the log of the refreshes that
  succeeded, the latest first. Shown: the counter of the code counts the partial refreshes since the
  last full one, repainting in place never causes a full refresh after the first, a page transition
  never leaves more than a thousand partial ones behind, and what an update leaves on every outcome.
\<close>

section \<open>An update on every outcome\<close>

lemma on_driver_cases:
  assumes "on_driver m d = (r, d')"
  obtains s where "m (driver d) = (r, s)" "d' = d\<lparr>driver := s\<rparr>"
  using assms by (cases "m (driver d)") (auto simp: on_driver_def)

text \<open>The refresh an update asks the driver for.\<close>

definition planned :: "refresh_opportunity \<Rightarrow> epd_display \<Rightarrow> refresh_action" where
  "planned opportunity d = rd_action (decide (frame_differs (driver d) (buffer d)) (has_ever_pushed d)
     (partials_since_full d) opportunity)"

lemma planned_Skip: "planned opportunity d = Skip \<Longrightarrow> last_frame (driver d) = buffer d"
  by (auto simp: planned_def decide_def frame_differs_def Let_def split: if_splits)

lemma display_push_cases:
  assumes "display_push H opportunity policy d = (r, d')"
  obtains
    (skipped) "planned opportunity d = Skip" "r = Inr UpdateDone" "d' = d"
  | (busy) mode s where "planned opportunity d = Push mode" "r = Inr UpdateBusy"
      "display_with_policy H (buffer d) mode policy (driver d) = (Inr Busy, s)" "d' = d\<lparr>driver := s\<rparr>"
  | (failed) mode s e where "planned opportunity d = Push mode" "r = Inl e"
      "display_with_policy H (buffer d) mode policy (driver d) = (Inl e, s)" "d' = d\<lparr>driver := s\<rparr>"
  | (pushed) mode s where "planned opportunity d = Push mode" "r = Inr UpdateDone"
      "display_with_policy H (buffer d) mode policy (driver d) = (Inr Pushed, s)"
      "d' = d\<lparr>driver := s, has_ever_pushed := True, partials_since_full :=
         (case mode of Full \<Rightarrow> 0 | Partial \<Rightarrow> saturating_inc_u16 (partials_since_full d))\<rparr>"
proof -
  let ?dec = "decide (frame_differs (driver d) (buffer d)) (has_ever_pushed d)
     (partials_since_full d) opportunity"
  show thesis
  proof (cases "planned opportunity d")
    case Skip
    moreover have "rd_partials_since_full ?dec = partials_since_full d"
      using Skip by (auto simp: planned_def decide_def Let_def)
    ultimately show thesis
      using skipped assms by (simp add: display_push_def planned_def Let_def)
  next
    case (Push mode)
    have next_count: "rd_partials_since_full ?dec =
        (case mode of Full \<Rightarrow> 0 | Partial \<Rightarrow> saturating_inc_u16 (partials_since_full d))"
      using Push by (simp add: planned_def decide_def Let_def)
    obtain q s where q: "display_with_policy H (buffer d) mode policy (driver d) = (q, s)"
      by (cases "display_with_policy H (buffer d) mode policy (driver d)")
    have run: "(r, d') = (case q of Inl e \<Rightarrow> (Inl e, d\<lparr>driver := s\<rparr>)
        | Inr outcome \<Rightarrow> if outcome = Busy then (Inr UpdateBusy, d\<lparr>driver := s\<rparr>)
            else (Inr UpdateDone, d\<lparr>driver := s, has_ever_pushed := True,
                    partials_since_full := rd_partials_since_full ?dec\<rparr>))"
      using assms Push q
      by (simp add: display_push_def planned_def Let_def bindS_def on_driver_def split: sum.splits)
    show thesis
    proof (cases q)
      case (Inl e)
      then show thesis
        using failed [OF Push] run q by simp
    next
      case (Inr outcome)
      then show thesis
        using busy [OF Push] pushed [OF Push] run q next_count by (cases outcome) auto
    qed
  qed
qed

text \<open>After a successful update the panel holds the frame of the buffer.\<close>

lemma push_done_shows_buffer:
  assumes "display_push H opportunity policy d = (Inr UpdateDone, d')"
  shows "last_frame (driver d') = buffer d'" "buffer d' = buffer d" "rotation d' = rotation d"
proof -
  have "last_frame (driver d') = buffer d' \<and> buffer d' = buffer d \<and> rotation d' = rotation d"
    using assms
  proof (cases rule: display_push_cases)
    case skipped
    then show ?thesis
      using planned_Skip by simp
  next
    case (pushed mode s)
    from pushed(3) have "last_frame s = buffer d"
      by (cases rule: display_with_policy_cases) simp_all
    then show ?thesis
      using pushed(4) by simp
  qed simp_all
  then show "last_frame (driver d') = buffer d'" "buffer d' = buffer d" "rotation d' = rotation d"
    by simp_all
qed

text \<open>A deferred update has only looked at the busy line.\<close>

lemma push_busy_changes_nothing:
  assumes "display_push H opportunity policy d = (Inr UpdateBusy, d')"
  shows "\<exists>h. d' = d\<lparr>driver := (driver d)\<lparr>wire := h @ wire (driver d)\<rparr>\<rparr> \<and> (\<forall>a \<in> set h. idle_access a)"
  using assms
proof (cases rule: display_push_cases)
  case (busy mode s)
  from busy(3) have "push_admitted H (buffer d) mode policy (driver d) = (Inr None, s)"
    by (cases rule: display_with_policy_cases) simp_all
  then obtain h where "s = (driver d)\<lparr>wire := h @ wire (driver d)\<rparr>" "\<forall>a \<in> set h. idle_access a"
    using accesses_onlyE [OF push_admitted_idle_access] by blast
  then show ?thesis
    using busy(4) by blast
qed simp_all

text \<open>A failed update is retried by the next one: the display forgets nothing.\<close>

lemma push_failed_keeps_display:
  assumes "display_push H opportunity policy d = (Inl e, d')"
  shows "buffer d' = buffer d" "partials_since_full d' = partials_since_full d"
    "has_ever_pushed d' = has_ever_pushed d" "last_frame (driver d') = last_frame (driver d)"
    "planned opportunity d' = planned opportunity d"
proof -
  have all: "buffer d' = buffer d \<and> partials_since_full d' = partials_since_full d \<and>
      has_ever_pushed d' = has_ever_pushed d \<and> last_frame (driver d') = last_frame (driver d)"
    using assms
  proof (cases rule: display_push_cases)
    case (failed mode s e')
    from failed(3) have "last_frame s = last_frame (driver d)"
      using push_admitted_frame(3) by (cases rule: display_with_policy_cases) auto
    then show ?thesis
      using failed(4) by simp
  qed simp_all
  then show "buffer d' = buffer d" "partials_since_full d' = partials_since_full d"
    "has_ever_pushed d' = has_ever_pushed d" "last_frame (driver d') = last_frame (driver d)"
    by simp_all
  then show "planned opportunity d' = planned opportunity d"
    by (simp add: planned_def frame_differs_def)
qed

text \<open>With a working panel a blocking update is always done.\<close>

lemma blocking_update_done:
  assumes "timely_panel H T"
  shows "\<exists>d'. display_push H opportunity WaitBlock d = (Inr UpdateDone, d')"
proof -
  obtain r d' where run: "display_push H opportunity WaitBlock d = (r, d')"
    by (cases "display_push H opportunity WaitBlock d")
  then have "r = Inr UpdateDone"
  proof (cases rule: display_push_cases)
    case (busy mode s)
    then show ?thesis
      using blocking_push_succeeds [OF assms, of "buffer d" mode "driver d"] by simp
  next
    case (failed mode s e)
    then show ?thesis
      using blocking_push_succeeds [OF assms, of "buffer d" mode "driver d"] by simp
  qed simp_all
  then show ?thesis
    using run by blast
qed

section \<open>Runs of the display\<close>

inductive display_run :: "'e board \<Rightarrow> epd_display \<Rightarrow> display_mode list \<Rightarrow> bool" for H where
  dr_new: "display_run H (display_new drv rot) []"
| dr_draw: "display_run H d log \<Longrightarrow> display_run H (d\<lparr>buffer := frame\<rparr>) log"
| dr_sleep: "display_run H d log \<Longrightarrow> display_sleep H d = (r, d') \<Longrightarrow> display_run H d' log"
| dr_wake: "display_run H d log \<Longrightarrow> display_wake H d = (r, d') \<Longrightarrow> display_run H d' log"
| dr_push: "display_run H d log \<Longrightarrow> display_push H opportunity policy d = (r, d') \<Longrightarrow>
    display_run H d'
      (case planned opportunity d of Push mode \<Rightarrow> if r = Inr UpdateDone then mode # log else log
         | Skip \<Rightarrow> log)"

definition partials_behind :: "display_mode list \<Rightarrow> nat" where
  "partials_behind log = length (takeWhile (\<lambda>m. m = Partial) log)"

definition refresh_log_inv :: "epd_display \<Rightarrow> display_mode list \<Rightarrow> bool" where
  "refresh_log_inv d log \<longleftrightarrow>
     has_ever_pushed d = (log \<noteq> []) \<and> (log \<noteq> [] \<longrightarrow> last log = Full) \<and>
     unat (partials_since_full d) = min 65535 (partials_behind log)"

lemma planned_Full_first: "\<not> has_ever_pushed d \<Longrightarrow> planned opportunity d = Push Full"
  by (simp add: planned_def decide_def Let_def)

lemma push_keeps_log:
  assumes inv: "refresh_log_inv d log" and run: "display_push H opportunity policy d = (r, d')"
  shows "refresh_log_inv d'
    (case planned opportunity d of Push mode \<Rightarrow> if r = Inr UpdateDone then mode # log else log
       | Skip \<Rightarrow> log)"
  using run
proof (cases rule: display_push_cases)
  case (pushed mode s)
  show ?thesis
  proof (cases mode)
    case Full
    then show ?thesis
      using pushed inv by (simp add: refresh_log_inv_def partials_behind_def)
  next
    case Partial
    then have "log \<noteq> []"
      using pushed(1) inv planned_Full_first [of d opportunity] by (auto simp: refresh_log_inv_def)
    then show ?thesis
      using pushed inv Partial
      by (simp add: refresh_log_inv_def partials_behind_def unat_saturating_inc_u16)
  qed
qed (use inv in \<open>simp_all add: refresh_log_inv_def\<close>)

lemma on_driver_log: "refresh_log_inv d log \<Longrightarrow> on_driver m d = (r, d') \<Longrightarrow> refresh_log_inv d' log"
  by (erule on_driver_cases) (simp add: refresh_log_inv_def)

lemma display_run_log: "display_run H d log \<Longrightarrow> refresh_log_inv d log"
proof (induction rule: display_run.induct)
  case (dr_new drv rot)
  then show ?case
    by (simp add: refresh_log_inv_def display_new_def partials_behind_def)
next
  case (dr_draw d log frame)
  then show ?case
    by (simp add: refresh_log_inv_def)
next
  case (dr_sleep d log r d')
  then show ?case
    unfolding display_sleep_def by (blast intro: on_driver_log)
next
  case (dr_wake d log r d')
  then show ?case
    unfolding display_wake_def by (blast intro: on_driver_log)
next
  case (dr_push d log opportunity policy r d')
  then show ?case
    by (blast intro: push_keeps_log)
qed

lemma unat_u16_le_iff: "PARTIALS_BETWEEN_FULLS \<le> n \<longleftrightarrow> 1000 \<le> unat n"
  by (simp add: PARTIALS_BETWEEN_FULLS_def word_le_nat_alt)

lemma in_place_never_full:
  assumes "display_run H d log" "log \<noteq> []"
  shows "planned InPlace d \<noteq> Push Full"
  using display_run_log [OF assms(1)] assms(2)
  by (simp add: refresh_log_inv_def planned_def decide_def Let_def)

lemma transition_bounds_partials:
  assumes run: "display_run H d log" and ok: "display_push H Transition policy d = (Inr UpdateDone, d')"
  shows "partials_behind (case planned Transition d of Push mode \<Rightarrow> mode # log | Skip \<Rightarrow> log) \<le> 1000"
proof (cases "partials_behind log < 1000")
  case True
  then show ?thesis
    by (auto simp: partials_behind_def split: refresh_action.split)
next
  case False
  then have "1000 \<le> unat (partials_since_full d)"
    using display_run_log [OF run] by (simp add: refresh_log_inv_def)
  then have "planned Transition d = Push Full"
    by (simp add: planned_def decide_def Let_def unat_u16_le_iff)
  then show ?thesis
    by (simp add: partials_behind_def)
qed

section \<open>Touches\<close>

text \<open>The pixel of the panel at the point a touch reports is the same in both rotations.\<close>

lemma touch_hits_panel_pixel:
  "panel_point rot (touch_event_to_point rot ev) = (int WIDTH - 1 - ev_x ev, int HEIGHT - 1 - ev_y ev)"
  by (cases rot) simp_all

lemma touch_in_size:
  assumes "0 \<le> ev_x ev" "ev_x ev < int WIDTH" "0 \<le> ev_y ev" "ev_y ev < int HEIGHT"
  shows "in_size (display_size rot) (touch_event_to_point rot ev)"
  using assms by (cases rot) (auto simp: in_size_def)

text \<open>
  An answer with a finger on the panel. While one stays down, whatever errors occur, at most one
  point is sent.
\<close>

definition finger_answer :: "'e + 9 barray \<Rightarrow> bool" where
  "finger_answer answer \<longleftrightarrow> (case answer of Inl e \<Rightarrow> True | Inr data \<Rightarrow> bytes_of data ! 0 AND 0x0F \<noteq> 0)"

definition fingers_down :: "('e + ('e + 9 barray) \<times> 'e option) list \<Rightarrow> bool" where
  "fingers_down edges \<longleftrightarrow>
     list_all (\<lambda>edge. case edge of Inl e \<Rightarrow> True | Inr (answer, cleared) \<Rightarrow> finger_answer answer) edges"

lemma finger_read:
  assumes "finger_answer answer" "read_and_clear_touch_data answer cleared down = (r, down')"
  shows "down \<longrightarrow> down' \<and> (\<forall>ev. r \<noteq> Inr (Some ev))" "r = Inr (Some ev) \<longrightarrow> down'"
proof -
  have "unat (b AND 0x0F) = 0 \<longleftrightarrow> b AND 0x0F = 0" for b :: u8
    by (simp add: unat_eq_zero)
  then show "down \<longrightarrow> down' \<and> (\<forall>ev. r \<noteq> Inr (Some ev))" "r = Inr (Some ev) \<longrightarrow> down'"
    using assms by (auto simp: read_and_clear_touch_data_def finger_answer_def Let_def
        split: sum.splits option.splits if_splits)
qed

lemma held_finger_sends_nothing:
  assumes "fingers_down edges"
  shows "touch_thread rot True edges = []"
  using assms
proof (induction edges)
  case Nil
  then show ?case
    by simp
next
  case (Cons edge edges)
  have rest: "touch_thread rot True edges = []"
    using Cons by (simp add: fingers_down_def)
  show ?case
  proof (cases edge)
    case (Inl e)
    then show ?thesis
      using rest by simp
  next
    case (Inr p)
    obtain answer cleared where p: "p = (answer, cleared)"
      by (cases p)
    obtain r down' where r: "read_and_clear_touch_data answer cleared True = (r, down')"
      by (cases "read_and_clear_touch_data answer cleared True")
    have "finger_answer answer"
      using Cons.prems Inr p by (simp add: fingers_down_def)
    then have "down'" "\<forall>ev. r \<noteq> Inr (Some ev)"
      using finger_read(1) [OF _ r] by auto
    then show ?thesis
      using rest Inr p r by (auto split: sum.split option.split)
  qed
qed

lemma held_finger_sends_one:
  assumes "fingers_down edges"
  shows "length (touch_thread rot down edges) \<le> 1"
  using assms
proof (induction edges arbitrary: down)
  case Nil
  then show ?case
    by simp
next
  case (Cons edge edges)
  have ih: "length (touch_thread rot dn edges) \<le> 1" for dn
    using Cons by (simp add: fingers_down_def)
  have held: "touch_thread rot True edges = []"
    using Cons.prems by (intro held_finger_sends_nothing) (simp add: fingers_down_def)
  show ?case
  proof (cases edge)
    case (Inl e)
    then show ?thesis
      using ih by simp
  next
    case (Inr p)
    obtain answer cleared where p: "p = (answer, cleared)"
      by (cases p)
    obtain r down' where r: "read_and_clear_touch_data answer cleared down = (r, down')"
      by (cases "read_and_clear_touch_data answer cleared down")
    have "finger_answer answer"
      using Cons.prems Inr p by (simp add: fingers_down_def)
    then have "r = Inr (Some ev) \<longrightarrow> down'" for ev
      using finger_read(2) [OF _ r] by auto
    then show ?thesis
      using ih held Inr p r by (auto split: sum.split option.split)
  qed
qed

end
