(* ===== verification/Peripherals.thy ===== *)
theory Peripherals
  imports Text
begin

text \<open>
  The shared peripherals of the signer process: the activity LED (\<open>rpi-signer/src/led.rs\<close>), the CPU
  frequency (\<open>rpi-signer/src/cpu_freq.rs\<close>) and the rotating log (\<open>rpi-signer/src/log_writer.rs\<close>).
  Several connections use them at once, each operation under the lock of its state, so a history is
  a sequence of operations in any order; the deferred switch-off of the LED is a pending thread that
  may run at any later moment. Shown: the LED is lit whenever a session is open and goes out when the
  last pending thread has run, the CPU runs at full speed exactly while a session is boosted, the log
  stays within twice its size while its disk works, and one failed reopening stops rotation for good.
\<close>

section \<open>The activity LED\<close>

definition MIN_ON_DURATION :: nat where "MIN_ON_DURATION = 200"

text \<open>
  Times are milliseconds. The attempted writes to \<open>brightness\<close> are recorded, the latest first: the code
  ignores their outcome. A pending thread is the generation it was started for and when it wakes up.
\<close>

record led =
  led_active :: u32
  led_generation :: u64
  led_on_at :: "nat option"
  led_writes :: "bool list"
  led_pending :: "(u64 \<times> nat) list"

definition saturating_inc_u32 :: "u32 \<Rightarrow> u32" where
  "saturating_inc_u32 n = (if n = - 1 then n else n + 1)"

text \<open>The first write switches the LED off; its failure is the failure of \<open>init\<close>.\<close>

definition led_init :: "'e + unit \<Rightarrow> 'e + led" where
  "led_init written =
     and_then written (\<lambda>_. Inr \<lparr>led_active = 0, led_generation = 0, led_on_at = None,
       led_writes = [False], led_pending = []\<rparr>)"

definition led_on :: "nat \<Rightarrow> led \<Rightarrow> led" where
  "led_on now s =
     (let s1 = s\<lparr>led_active := saturating_inc_u32 (led_active s)\<rparr>
      in if led_active s1 \<noteq> 1 then s1
         else s1\<lparr>led_generation := led_generation s1 + 1, led_on_at := Some now,
                 led_writes := True # led_writes s1\<rparr>)"

definition led_off :: "nat \<Rightarrow> led \<Rightarrow> led" where
  "led_off now s =
     (if led_active s = 0 then s
      else
        let s1 = s\<lparr>led_active := led_active s - 1\<rparr>
        in if 0 < led_active s1 then s1
           else
             let on_at = (case led_on_at s1 of Some t \<Rightarrow> t | None \<Rightarrow> now);
                 remaining = MIN_ON_DURATION - (now - on_at)
             in s1\<lparr>led_on_at := None,
                   led_pending := (led_generation s1, now + remaining) # led_pending s1\<rparr>)"

definition led_thread :: "u64 \<Rightarrow> led \<Rightarrow> led" where
  "led_thread generation s =
     (if led_active s \<noteq> 0 \<or> led_generation s \<noteq> generation then s
      else s\<lparr>led_writes := False # led_writes s\<rparr>)"

text \<open>Any interleaving of sessions and threads; a thread runs once its hold is over.\<close>

inductive led_run :: "nat \<Rightarrow> led \<Rightarrow> bool" where
  led_start: "led_init (Inr ()) = (Inr s :: unit + led) \<Longrightarrow> led_run now s"
| led_time: "led_run now s \<Longrightarrow> now \<le> now' \<Longrightarrow> led_run now' s"
| led_session_on: "led_run now s \<Longrightarrow> led_run now (led_on now s)"
| led_session_off: "led_run now s \<Longrightarrow> led_run now (led_off now s)"
| led_thread_runs: "led_run now s \<Longrightarrow> led_pending s = before @ (g, due) # later \<Longrightarrow> due \<le> now \<Longrightarrow>
    led_run now (led_thread g (s\<lparr>led_pending := before @ later\<rparr>))"

definition led_inv :: "led \<Rightarrow> bool" where
  "led_inv s \<longleftrightarrow> led_writes s \<noteq> [] \<and>
     (led_active s \<noteq> 0 \<longrightarrow> hd (led_writes s)) \<and>
     (led_active s = 0 \<and> hd (led_writes s) \<longrightarrow> (\<exists>due. (led_generation s, due) \<in> set (led_pending s)))"

lemma saturating_inc_u32_not_0: "saturating_inc_u32 n \<noteq> 0"
  by (auto simp: saturating_inc_u32_def) (metis add_eq_0_iff2)

lemma saturating_inc_u32_1: "saturating_inc_u32 n = 1 \<longleftrightarrow> n = 0"
  by (auto simp: saturating_inc_u32_def)

lemma led_on_inv: "led_inv s \<Longrightarrow> led_inv (led_on now s)"
  by (auto simp: led_inv_def led_on_def Let_def saturating_inc_u32_not_0 saturating_inc_u32_1)

lemma led_off_inv: "led_inv s \<Longrightarrow> led_inv (led_off now s)"
  by (auto simp: led_inv_def led_off_def Let_def word_gt_0)

lemma led_thread_inv:
  "led_inv s \<Longrightarrow> led_pending s = before @ (g, due) # later \<Longrightarrow>
     led_inv (led_thread g (s\<lparr>led_pending := before @ later\<rparr>))"
  by (auto simp: led_inv_def led_thread_def)

lemma led_run_inv: "led_run now s \<Longrightarrow> led_inv s"
proof (induction rule: led_run.induct)
  case (led_start s now)
  then have "s = \<lparr>led_active = 0, led_generation = 0, led_on_at = None, led_writes = [False],
      led_pending = []\<rparr>"
    by (simp add: led_init_def)
  then show ?case
    by (simp add: led_inv_def)
qed (blast intro: led_on_inv led_off_inv led_thread_inv)+

section \<open>The CPU frequency\<close>

record cpu_boost =
  cb_min_freq :: string
  cb_max_freq :: string
  cb_active :: u32
  cb_writes :: "string list"

definition cpu_init :: "'e + string \<Rightarrow> 'e + string \<Rightarrow> 'e + unit \<Rightarrow> 'e + cpu_boost" where
  "cpu_init min_file max_file written =
     and_then min_file (\<lambda>min_freq.
     and_then max_file (\<lambda>max_freq.
     and_then written (\<lambda>_.
       Inr \<lparr>cb_min_freq = trim min_freq, cb_max_freq = trim max_freq, cb_active = 0,
            cb_writes = [trim min_freq]\<rparr>)))"

definition boost :: "cpu_boost \<Rightarrow> cpu_boost" where
  "boost s =
     (let s1 = s\<lparr>cb_active := saturating_inc_u32 (cb_active s)\<rparr>
      in if cb_active s1 = 1 then s1\<lparr>cb_writes := cb_max_freq s1 # cb_writes s1\<rparr> else s1)"

definition restore :: "cpu_boost \<Rightarrow> cpu_boost" where
  "restore s =
     (if cb_active s = 0 then s
      else
        let s1 = s\<lparr>cb_active := cb_active s - 1\<rparr>
        in if cb_active s1 = 0 then s1\<lparr>cb_writes := cb_min_freq s1 # cb_writes s1\<rparr> else s1)"

text \<open>A history of the controller: \<open>True\<close> for a \<open>boost\<close>, \<open>False\<close> for a \<open>restore\<close>.\<close>

definition cpu_run :: "bool list \<Rightarrow> cpu_boost \<Rightarrow> cpu_boost" where
  "cpu_run = fold (\<lambda>b. if b then boost else restore)"

definition cpu_inv :: "string \<Rightarrow> string \<Rightarrow> cpu_boost \<Rightarrow> bool" where
  "cpu_inv lo hi s \<longleftrightarrow> cb_min_freq s = lo \<and> cb_max_freq s = hi \<and> cb_writes s \<noteq> [] \<and>
     hd (cb_writes s) = (if cb_active s = 0 then lo else hi)"

lemma boost_inv: "cpu_inv lo hi s \<Longrightarrow> cpu_inv lo hi (boost s)"
  by (auto simp: cpu_inv_def boost_def Let_def saturating_inc_u32_not_0 saturating_inc_u32_1)

lemma restore_inv: "cpu_inv lo hi s \<Longrightarrow> cpu_inv lo hi (restore s)"
  by (auto simp: cpu_inv_def restore_def Let_def)

lemma cpu_run_inv: "cpu_inv lo hi s \<Longrightarrow> cpu_inv lo hi (cpu_run ops s)"
  by (induction ops arbitrary: s) (auto simp: cpu_run_def intro: boost_inv restore_inv)

text \<open>Open sessions by the balance of the history; a \<open>restore\<close> with none open is ignored.\<close>

fun sessions :: "nat \<Rightarrow> bool list \<Rightarrow> nat" where
  "sessions n [] = n"
| "sessions n (True # ops) = sessions (n + 1) ops"
| "sessions n (False # ops) = sessions (n - 1) ops"

lemma sessions_le: "sessions n ops \<le> n + length ops"
  by (induction n ops rule: sessions.induct) auto

lemma unat_saturating_inc_u32:
  "unat n + 1 < 2 ^ 32 \<Longrightarrow> unat (saturating_inc_u32 n) = unat n + 1"
proof -
  assume small: "unat n + 1 < 2 ^ 32"
  have "unat (- 1 :: u32) = 2 ^ 32 - 1"
    by (simp add: unsigned_minus_1_eq_mask mask_eq_exp_minus_1)
  then have "n \<noteq> - 1"
    using small by auto
  then have "n + 1 \<noteq> 0"
    by (metis add_eq_0_iff2)
  then show ?thesis
    using \<open>n \<noteq> - 1\<close> by (simp add: saturating_inc_u32_def unatSuc add.commute)
qed

lemma boost_active: "cb_active (boost s) = saturating_inc_u32 (cb_active s)"
  by (simp add: boost_def Let_def)

lemma cpu_run_sessions:
  assumes "unat (cb_active s) + length ops < 2 ^ 32"
  shows "unat (cb_active (cpu_run ops s)) = sessions (unat (cb_active s)) ops"
  using assms
proof (induction ops arbitrary: s)
  case Nil
  then show ?case
    by (simp add: cpu_run_def)
next
  case (Cons b ops)
  show ?case
  proof (cases b)
    case True
    have a: "unat (cb_active (boost s)) = unat (cb_active s) + 1"
      using Cons.prems unat_saturating_inc_u32 [of "cb_active s"]
      by (simp add: boost_active)
    show ?thesis
      using Cons.IH [of "boost s"] Cons.prems a True by (simp add: cpu_run_def)
  next
    case False
    have a: "unat (cb_active (restore s)) = unat (cb_active s) - 1"
      by (auto simp: restore_def Let_def unat_minus_one)
    show ?thesis
      using Cons.IH [of "restore s"] Cons.prems a False by (simp add: cpu_run_def)
  qed
qed

section \<open>The rotating log\<close>

definition MAX_LOG_SIZE :: nat where "MAX_LOG_SIZE = 512 * 1024"

text \<open>
  The log directory: which file is the current log and which the old one, and the length of every
  file ever created. An open handle keeps its file when that is renamed. Only lengths matter here.
\<close>

record log_dir =
  log_current :: "nat option"
  log_old :: "nat option"
  log_sizes :: "nat \<Rightarrow> nat"
  log_fresh :: nat

record log_writer =
  lw_file :: nat
  lw_bytes_written :: nat

text \<open>
  What the disk answers during one write: whether flush, rename and open work, and how many bytes
  are written, \<open>None\<close> for an error. Renaming an absent file fails whatever the disk answers.
\<close>

record log_answers =
  la_flush :: bool
  la_rename :: bool
  la_open :: bool
  la_write :: "nat option"

text \<open>Opening creates the file when it is absent.\<close>

definition log_open :: "log_dir \<Rightarrow> nat \<times> log_dir" where
  "log_open d =
     (case log_current d of
        Some f \<Rightarrow> (f, d)
      | None \<Rightarrow> (log_fresh d, d\<lparr>log_current := Some (log_fresh d),
                     log_sizes := (log_sizes d)(log_fresh d := 0), log_fresh := log_fresh d + 1\<rparr>))"

definition rotating_writer_new :: "bool \<Rightarrow> bool \<Rightarrow> log_dir \<Rightarrow> (log_writer \<times> log_dir) option" where
  "rotating_writer_new opened metadata_ok d =
     (if \<not> opened then None
      else let (f, d') = log_open d
           in Some (\<lparr>lw_file = f, lw_bytes_written = (if metadata_ok then log_sizes d' f else 0)\<rparr>, d'))"

definition rotate :: "log_answers \<Rightarrow> log_writer \<times> log_dir \<Rightarrow> bool \<times> log_writer \<times> log_dir" where
  "rotate A wd =
     (let (w, d) = wd in
      if \<not> la_flush A then (False, w, d)
      else
        case log_current d of
          None \<Rightarrow> (False, w, d)
        | Some f \<Rightarrow>
            if \<not> la_rename A then (False, w, d)
            else
              let d1 = d\<lparr>log_current := None, log_old := Some f\<rparr>
              in if \<not> la_open A then (False, w, d1)
                 else let (f', d2) = log_open d1
                      in (True, w\<lparr>lw_file := f', lw_bytes_written := 0\<rparr>, d2))"

definition write_with_rotation ::
    "log_answers \<Rightarrow> nat \<Rightarrow> nat \<Rightarrow> log_writer \<times> log_dir \<Rightarrow> nat \<times> log_writer \<times> log_dir" where
  "write_with_rotation A len max_size wd =
     (let (w, d) = (if max_size < lw_bytes_written (fst wd) + len then snd (rotate A wd) else wd)
      in case la_write A of
           Some n \<Rightarrow> (min n len, w\<lparr>lw_bytes_written := lw_bytes_written w + min n len\<rparr>,
                      d\<lparr>log_sizes := (log_sizes d)(lw_file w := log_sizes d (lw_file w) + min n len)\<rparr>)
         | None \<Rightarrow> (len, w, d))"

text \<open>\<open>RotatingWriter::write\<close>: a poisoned lock drops the record; the result is always \<open>Ok\<close>.\<close>

definition log_write :: "bool \<Rightarrow> log_answers \<Rightarrow> nat \<Rightarrow> log_writer \<times> log_dir \<Rightarrow> nat \<times> log_writer \<times> log_dir" where
  "log_write poisoned A len wd =
     (if poisoned then (len, wd) else write_with_rotation A len MAX_LOG_SIZE wd)"

lemma log_write_returns: "fst (log_write poisoned A len wd) \<le> len"
  by (auto simp: log_write_def write_with_rotation_def Let_def split: prod.split option.split)

subsection \<open>The bound on the disk\<close>

definition log_inv :: "log_writer \<times> log_dir \<Rightarrow> bool" where
  "log_inv wd \<longleftrightarrow> (case wd of (w, d) \<Rightarrow>
     log_current d = Some (lw_file w) \<and> log_sizes d (lw_file w) = lw_bytes_written w \<and>
     lw_bytes_written w \<le> MAX_LOG_SIZE \<and> lw_file w < log_fresh d \<and>
     (\<forall>f. log_old d = Some f \<longrightarrow> f < log_fresh d \<and> f \<noteq> lw_file w \<and> log_sizes d f \<le> MAX_LOG_SIZE))"

definition log_disk_works :: "log_answers \<Rightarrow> bool" where
  "log_disk_works A \<longleftrightarrow> la_flush A \<and> la_rename A \<and> la_open A"

lemma log_write_inv:
  assumes inv: "log_inv wd" and A: "log_disk_works A" and len: "len \<le> MAX_LOG_SIZE"
  shows "log_inv (snd (log_write poisoned A len wd))"
proof (cases poisoned)
  case True
  then show ?thesis
    using inv by (simp add: log_write_def)
next
  case False
  obtain w d where wd: "wd = (w, d)"
    by (cases wd)
  show ?thesis
  proof (cases "MAX_LOG_SIZE < lw_bytes_written w + len")
    case True
    then show ?thesis
      using inv A len False wd
      by (cases "la_write A")
        (auto simp: log_write_def write_with_rotation_def rotate_def log_open_def log_disk_works_def
          log_inv_def Let_def)
  next
    case no: False
    then show ?thesis
      using inv A len False wd
      by (cases "la_write A")
        (auto simp: log_write_def write_with_rotation_def log_inv_def Let_def)
  qed
qed

primrec log_writes :: "(log_answers \<times> nat) list \<Rightarrow> log_writer \<times> log_dir \<Rightarrow> log_writer \<times> log_dir" where
  "log_writes [] wd = wd"
| "log_writes (r # rs) wd = log_writes rs (snd (log_write False (fst r) (snd r) wd))"

definition log_bytes :: "log_dir \<Rightarrow> nat" where
  "log_bytes d = (case log_current d of Some f \<Rightarrow> log_sizes d f | None \<Rightarrow> 0) +
     (case log_old d of Some f \<Rightarrow> log_sizes d f | None \<Rightarrow> 0)"

lemma log_writes_inv:
  "log_inv wd \<Longrightarrow> list_all (\<lambda>r. log_disk_works (fst r) \<and> snd r \<le> MAX_LOG_SIZE) rs \<Longrightarrow>
     log_inv (log_writes rs wd)"
proof (induction rs arbitrary: wd)
  case (Cons r rs)
  have "log_inv (snd (log_write False (fst r) (snd r) wd))"
    using Cons.prems by (intro log_write_inv) simp_all
  then show ?case
    using Cons by simp
qed simp

lemma log_inv_bytes: "log_inv wd \<Longrightarrow> log_bytes (snd wd) \<le> 2 * MAX_LOG_SIZE"
  by (cases wd) (auto simp: log_inv_def log_bytes_def split: option.splits)

subsection \<open>A failed reopening\<close>

text \<open>
  When the rename worked and the reopening did not, the handle is on the old log and no file is left
  to rename: every later rotation fails, and the old log takes all that is written.
\<close>

definition rotation_stuck :: "log_writer \<times> log_dir \<Rightarrow> bool" where
  "rotation_stuck wd \<longleftrightarrow> (case wd of (w, d) \<Rightarrow> log_current d = None \<and> log_old d = Some (lw_file w))"

lemma failed_reopen_sticks:
  assumes "log_inv wd" "MAX_LOG_SIZE < lw_bytes_written (fst wd) + len"
    "la_flush A" "la_rename A" "\<not> la_open A"
  shows "rotation_stuck (snd (log_write False A len wd))"
  using assms by (cases wd; cases "la_write A")
    (auto simp: log_write_def write_with_rotation_def rotate_def log_inv_def rotation_stuck_def Let_def)

lemma stuck_write:
  assumes "rotation_stuck wd" "la_write A = Some len"
  shows "rotation_stuck (snd (log_write False A len wd)) \<and>
    log_bytes (snd (snd (log_write False A len wd))) = log_bytes (snd wd) + len"
  using assms by (cases wd)
    (auto simp: log_write_def write_with_rotation_def rotate_def rotation_stuck_def log_bytes_def Let_def)

lemma stuck_writes:
  assumes "rotation_stuck wd" "list_all (\<lambda>r. la_write (fst r) = Some (snd r)) rs"
  shows "log_bytes (snd (log_writes rs wd)) = log_bytes (snd wd) + sum_list (map snd rs)"
  using assms
proof (induction rs arbitrary: wd)
  case Nil
  then show ?case
    by simp
next
  case (Cons r rs)
  then have "rotation_stuck (snd (log_write False (fst r) (snd r) wd))"
    "log_bytes (snd (snd (log_write False (fst r) (snd r) wd))) = log_bytes (snd wd) + snd r"
    using stuck_write [of wd "fst r" "snd r"] by auto
  then show ?case
    using Cons by simp
qed

end
