(* ===== verification/Provenance.thy ===== *)
theory Provenance
  imports Storage_Setup Crates File_System
begin

text \<open>
  Where the image on a card came from: the flash manifest (\<open>libs/flash-manifest\<close>), the maintainer's
  release signature (\<open>libs/release-signature\<close>), mounting the boot partition (\<open>rpi-signer/src/util.rs\<close>),
  the first-boot check of the root file system (\<open>rpi-signer/src/rootfs_check.rs\<close>) and the rows of the
  image screen (\<open>rpi-signer/src/image_info.rs\<close>). Shown: a signature that was made verifies and one that
  verifies is over the digest of that image, the check compares the bytes of the partition with the
  hash of the manifest and nothing else, it never mounts the boot partition writable and always asks
  for its unmounting, and the screen never claims a signature the host did not record.
\<close>

section \<open>The flash manifest\<close>

record flash_manifest =
  fm_card_id :: string
  fm_flashed_at :: string
  fm_host_version :: string
  fm_image_sha256 :: string
  fm_image_version :: "string option"
  fm_channel :: "string option"
  fm_rootfs_sha256 :: "string option"
  fm_signed :: "string option"

definition SIGNED_VERIFIED :: string where "SIGNED_VERIFIED = ''verified''"
definition SIGNED_UNSIGNED :: string where "SIGNED_UNSIGNED = ''unsigned''"
definition SIGNED_UNAVAILABLE :: string where "SIGNED_UNAVAILABLE = ''unavailable''"

section \<open>The release signature\<close>

text \<open>The hex and ed25519-dalek crates, and what they document.\<close>

record release_crates =
  hex_encode :: "bytes \<Rightarrow> string"
  hex_decode :: "string \<Rightarrow> bytes option"
  ed_public :: "32 barray \<Rightarrow> 32 barray"
  ed_sign :: "32 barray \<Rightarrow> 32 barray \<Rightarrow> 64 barray"
  ed_signature_from_slice :: "bytes \<Rightarrow> 64 barray option"
  ed_key_valid :: "32 barray \<Rightarrow> bool"
  ed_verify_strict :: "32 barray \<Rightarrow> 32 barray \<Rightarrow> 64 barray \<Rightarrow> bool"

definition release_laws :: "release_crates \<Rightarrow> bool" where
  "release_laws R \<longleftrightarrow>
     (\<forall>b. hex_decode R (hex_encode R b) = Some b) \<and>
     (\<forall>seed m. ed_signature_from_slice R (bytes_of (ed_sign R seed m)) = Some (ed_sign R seed m)) \<and>
     (\<forall>seed. ed_key_valid R (ed_public R seed)) \<and>
     (\<forall>seed m. ed_verify_strict R (ed_public R seed) m (ed_sign R seed m))"

datatype signature_error = MalformedDigest | MalformedSignature | MalformedKey | VerificationFailed

fun signature_error_text :: "signature_error \<Rightarrow> string" where
  "signature_error_text MalformedDigest = ''image hash is not a valid 32-byte SHA-256''"
| "signature_error_text MalformedSignature = ''release signature is not valid 64-byte hex''"
| "signature_error_text MalformedKey = ''maintainer public key is invalid''"
| "signature_error_text VerificationFailed =
     ''release signature does not match the image '' @ text_of [0xE2, 0x80, 0x94] @
       '' do not flash this image''"

definition signed_message :: "release_crates \<Rightarrow> string \<Rightarrow> signature_error + 32 barray" where
  "signed_message R image_sha256_hex =
     and_then (ok_or MalformedDigest (hex_decode R image_sha256_hex)) (\<lambda>digest.
       ok_or MalformedDigest (try_barray digest))"

definition sidecar_path :: "string \<Rightarrow> string" where
  "sidecar_path img = img @ ''.sig''"

definition release_public_key :: "release_crates \<Rightarrow> 32 barray \<Rightarrow> 32 barray" where
  "release_public_key R seed = ed_public R seed"

definition release_sign :: "release_crates \<Rightarrow> 32 barray \<Rightarrow> string \<Rightarrow> signature_error + string" where
  "release_sign R seed image_sha256_hex =
     and_then (signed_message R image_sha256_hex) (\<lambda>digest.
       Inr (hex_encode R (bytes_of (ed_sign R seed digest))))"

definition release_verify ::
    "release_crates \<Rightarrow> 32 barray \<Rightarrow> string \<Rightarrow> string \<Rightarrow> signature_error + unit" where
  "release_verify R pubkey image_sha256_hex signature_hex =
     and_then (signed_message R image_sha256_hex) (\<lambda>digest.
     and_then (ok_or MalformedSignature (hex_decode R signature_hex)) (\<lambda>sig_bytes.
     and_then (ok_or MalformedSignature (ed_signature_from_slice R sig_bytes)) (\<lambda>signature.
       if \<not> ed_key_valid R pubkey then Inl MalformedKey
       else if ed_verify_strict R pubkey digest signature then Inr () else Inl VerificationFailed)))"

lemma sign_then_verify:
  assumes "release_laws R" "release_sign R seed h = Inr sig"
  shows "release_verify R (release_public_key R seed) h sig = Inr ()"
proof -
  obtain digest where "signed_message R h = Inr digest" "sig = hex_encode R (bytes_of (ed_sign R seed digest))"
    using assms(2) by (auto simp: release_sign_def and_then_Inr_iff)
  then show ?thesis
    using assms(1) by (simp add: release_laws_def release_verify_def release_public_key_def)
qed

lemma verify_binds_digest:
  assumes "release_verify R pubkey h sig = Inr ()"
  shows "\<exists>digest s. signed_message R h = Inr digest \<and> ed_verify_strict R pubkey digest s"
  using assms by (auto simp: release_verify_def and_then_Inr_iff split: if_splits)

section \<open>The boot partition\<close>

definition BOOT_PARTITION :: string where "BOOT_PARTITION = ''/dev/mmcblk0p1''"
definition ROOTFS_PARTITION :: string where "ROOTFS_PARTITION = ''/dev/mmcblk0p2''"
definition BOOT_MOUNT_POINT :: string where "BOOT_MOUNT_POINT = ''/tmp/boot''"

datatype boot_op =
    ReadMounts | BootMkdir | BootRun string "string list" | BootSync | BootRmdir | ReadManifest

text \<open>The answers of the system, from the number of operations before.\<close>

record boot_env =
  be_mounts :: "nat \<Rightarrow> io_error + string"
  be_mkdir :: "nat \<Rightarrow> io_error + unit"
  be_run :: "string \<Rightarrow> string list \<Rightarrow> nat \<Rightarrow> command_result"
  be_manifest :: "nat \<Rightarrow> io_error + string"

type_synonym 'a boot_io = "(boot_op list, string, 'a) stateful"

definition did :: "boot_op \<Rightarrow> (nat \<Rightarrow> string + 'a) \<Rightarrow> 'a boot_io" where
  "did op answer tr = (answer (length tr), tr @ [op])"

definition run_command :: "boot_env \<Rightarrow> string \<Rightarrow> string list \<Rightarrow> unit boot_io" where
  "run_command E cmd args =
     did (BootRun cmd args) (\<lambda>n. case be_run E cmd args n of
        NotRun e \<Rightarrow> Inl (''Failed to run '' @ cmd @ '': '' @ e)
      | ExitError stderr \<Rightarrow> Inl (cmd @ '' failed: '' @ stderr)
      | ExitOk \<Rightarrow> Inr ())"

datatype boot_mount_mode = MountReadOnly | MountReadWrite

definition is_mounted :: "boot_env \<Rightarrow> string \<Rightarrow> bool boot_io" where
  "is_mounted E p = did ReadMounts (\<lambda>n. case be_mounts E n of
     Inl _ \<Rightarrow> Inr False
   | Inr contents \<Rightarrow>
       Inr (list_ex (\<lambda>line. case split_char CHR '' '' line of _ # q # _ \<Rightarrow> q = p | _ \<Rightarrow> False)
         (lines_of contents)))"

definition mount_boot_partition :: "boot_env \<Rightarrow> boot_mount_mode \<Rightarrow> unit boot_io" where
  "mount_boot_partition E mode =
     bindS (did BootMkdir (\<lambda>n. map_err (\<lambda>e. ''Failed to create mount point: '' @ io_error_text e) (be_mkdir E n))) (\<lambda>_.
     bindS (is_mounted E BOOT_MOUNT_POINT) (\<lambda>mounted.
       if mounted then
         (if mode = MountReadWrite
          then run_command E ''/bin/mount'' [''-o'', ''remount,rw'', BOOT_MOUNT_POINT]
          else returnS ())
       else
         run_command E ''/bin/mount'' [''-t'', ''vfat'', ''-o'',
           (case mode of MountReadOnly \<Rightarrow> ''ro'' | MountReadWrite \<Rightarrow> ''rw''), BOOT_PARTITION, BOOT_MOUNT_POINT]))"

definition unmount_boot_partition :: "boot_env \<Rightarrow> unit boot_io" where
  "unmount_boot_partition E =
     bindS (did BootSync (\<lambda>_. Inr ())) (\<lambda>_.
     bindS (run_command E ''/bin/umount'' [BOOT_MOUNT_POINT]) (\<lambda>_.
       did BootRmdir (\<lambda>_. Inr ())))"

section \<open>The check of the root file system\<close>

datatype rootfs_check = Verified | Mismatch string string | Skipped string

text \<open>Is \<open>/\<close> mounted read-only: the last entry for it decides.\<close>

definition root_entry_readonly :: "string \<Rightarrow> bool option" where
  "root_entry_readonly line =
     (case split_whitespace line of
        _ # mount_point # _ # options # _ \<Rightarrow>
          (if mount_point = ''/'' then Some (list_ex (\<lambda>p. p = ''ro'') (split_char CHR '','' options)) else None)
      | _ \<Rightarrow> None)"

definition rootfs_mounted_readonly :: "string \<Rightarrow> bool" where
  "rootfs_mounted_readonly proc_mounts =
     (let entries = List.map_filter root_entry_readonly (lines_of proc_mounts)
      in if entries = [] then False else last entries)"

definition is_hardened :: "io_error + string \<Rightarrow> bool" where
  "is_hardened mounts = (case mounts of Inl _ \<Rightarrow> False | Inr m \<Rightarrow> rootfs_mounted_readonly m)"

text \<open>serde_json is the parameter \<open>parse\<close>.\<close>

definition expected_rootfs_hash ::
    "(string \<Rightarrow> string + flash_manifest) \<Rightarrow> string \<Rightarrow> string + string option" where
  "expected_rootfs_hash parse manifest_json =
     (case parse manifest_json of
        Inr manifest \<Rightarrow> Inr (fm_rootfs_sha256 manifest)
      | Inl e \<Rightarrow> Inl (''cannot parse the flash manifest: '' @ e))"

text \<open>
  A device to hash: opening, its size by seeking to the end, rewinding, and the successive reads, an
  empty one ending it. The second result is the percentages reported.
\<close>

record block_device =
  bd_open :: "io_error + unit"
  bd_size :: "io_error + nat"
  bd_rewind :: "io_error + unit"
  bd_reads :: "(io_error + bytes) list"

fun hash_loop :: "nat \<Rightarrow> nat \<Rightarrow> nat \<Rightarrow> (io_error + bytes) list \<Rightarrow> (io_error + bytes) \<times> nat list" where
  "hash_loop whole so_far last_percent [] = (Inr [], [])"
| "hash_loop whole so_far last_percent (Inl e # rs) = (Inl e, [])"
| "hash_loop whole so_far last_percent (Inr bs # rs) =
     (if bs = [] then (Inr [], [])
      else
        let so_far' = so_far + length bs;
            percent = (if whole = 0 then last_percent else min (so_far' * 100 div whole) 100);
            (r, ps) = hash_loop whole so_far' percent rs
        in (and_then r (\<lambda>cs. Inr (bs @ cs)),
            (if percent \<noteq> last_percent then [percent] else []) @ ps))"

definition sha256_hex_of ::
    "crates \<Rightarrow> release_crates \<Rightarrow> string \<Rightarrow> block_device \<Rightarrow> (string + string) \<times> nat list" where
  "sha256_hex_of X R p dev =
     (case bd_open dev of
        Inl e \<Rightarrow> (Inl (''failed to open '' @ p @ '': '' @ io_error_text e), [])
      | Inr _ \<Rightarrow>
          case bd_size dev of
            Inl e \<Rightarrow> (Inl (''failed to size '' @ p @ '': '' @ io_error_text e), [])
          | Inr whole \<Rightarrow>
              case bd_rewind dev of
                Inl e \<Rightarrow> (Inl (''failed to rewind '' @ p @ '': '' @ io_error_text e), [])
              | Inr _ \<Rightarrow>
                  case hash_loop whole 0 255 (bd_reads dev) of
                    (Inl e, ps) \<Rightarrow> (Inl (''failed to read '' @ p @ '': '' @ io_error_text e), ps)
                  | (Inr bs, ps) \<Rightarrow> (Inr (hex_encode R (bytes_of (sha256 X bs))), ps))"

definition staged_manifest_hash ::
    "(string \<Rightarrow> string + flash_manifest) \<Rightarrow> boot_env \<Rightarrow> string option boot_io" where
  "staged_manifest_hash parse E =
     bindS (mount_boot_partition E MountReadOnly) (\<lambda>_ tr.
       let content = be_manifest E (length tr);
           tr2 = snd (unmount_boot_partition E (tr @ [ReadManifest]))
       in ((case content of
              Inr json \<Rightarrow> expected_rootfs_hash parse json
            | Inl e \<Rightarrow> if io_error_kind e = NotFound then Inr None
                       else Inl (''cannot read the flash manifest: '' @ io_error_text e)), tr2))"

definition verify_rootfs ::
    "crates \<Rightarrow> release_crates \<Rightarrow> (string \<Rightarrow> string + flash_manifest) \<Rightarrow> boot_env \<Rightarrow> block_device
      \<Rightarrow> boot_op list \<Rightarrow> rootfs_check \<times> nat list \<times> boot_op list" where
  "verify_rootfs X R parse E dev tr =
     (let tr1 = tr @ [ReadMounts]
      in case be_mounts E (length tr) of
           Inl e \<Rightarrow> (Skipped (''cannot read /proc/mounts: '' @ io_error_text e), [], tr1)
         | Inr mounts \<Rightarrow>
             if \<not> rootfs_mounted_readonly mounts
             then (Skipped ''rootfs is mounted read-write; its bytes are expected to change'', [], tr1)
             else
               case staged_manifest_hash parse E tr1 of
                 (Inr None, tr2) \<Rightarrow> (Skipped ''flash manifest records no rootfs hash'', [], tr2)
               | (Inl e, tr2) \<Rightarrow> (Skipped e, [], tr2)
               | (Inr (Some expected), tr2) \<Rightarrow>
                   case sha256_hex_of X R ROOTFS_PARTITION dev of
                     (Inl e, ps) \<Rightarrow> (Skipped (''cannot hash '' @ ROOTFS_PARTITION @ '': '' @ e), ps, tr2)
                   | (Inr actual, ps) \<Rightarrow>
                       ((if eq_ignore_ascii_case actual expected then Verified
                         else Mismatch expected actual), ps, tr2))"

text \<open>The percentages reported rise, to at most a hundred.\<close>

lemma hash_loop_percents:
  assumes "hash_loop whole n lastp rs = (r, ps)" "lastp = 255 \<or> lastp = min (n * 100 div whole) 100"
  shows "sorted_wrt (<) ps \<and> (\<forall>q \<in> set ps. q \<le> 100 \<and> (lastp = 255 \<or> lastp < q))"
  using assms
proof (induction rs arbitrary: n lastp r ps)
  case Nil
  then show ?case
    by simp
next
  case (Cons x rs)
  show ?case
  proof (cases x)
    case (Inl e)
    then show ?thesis
      using Cons.prems by simp
  next
    case (Inr bs)
    show ?thesis
    proof (cases "bs = []")
      case True
      then show ?thesis
        using Cons.prems Inr by simp
    next
      case False
      define n' where "n' = n + length bs"
      define q where "q = (if whole = 0 then lastp else min (n' * 100 div whole) 100)"
      obtain r' ps' where rec: "hash_loop whole n' q rs = (r', ps')"
        by (cases "hash_loop whole n' q rs")
      have "hash_loop whole n lastp (x # rs) =
          (let (r, ps) = hash_loop whole n' q rs
           in (and_then r (\<lambda>cs. Inr (bs @ cs)), (if q \<noteq> lastp then [q] else []) @ ps))"
        using Inr False by (simp only: hash_loop.simps n'_def q_def Let_def if_False)
      then have ps: "ps = (if q \<noteq> lastp then [q] else []) @ ps'"
        using Cons.prems(1) rec by simp
      have q: "q = 255 \<or> q = min (n' * 100 div whole) 100"
        using Cons.prems(2) by (auto simp: q_def)
      have ih: "sorted_wrt (<) ps' \<and> (\<forall>p \<in> set ps'. p \<le> 100 \<and> (q = 255 \<or> q < p))"
        by (rule Cons.IH [OF rec q])
      show ?thesis
      proof (cases "whole = 0")
        case True
        then show ?thesis
          using ih ps by (simp add: q_def)
      next
        case False
        then have q': "q = min (n' * 100 div whole) 100"
          by (simp add: q_def)
        have "n * 100 div whole \<le> n' * 100 div whole"
          by (rule div_le_mono) (simp add: n'_def)
        then have "lastp = 255 \<or> lastp \<le> q"
          using Cons.prems(2) q' by auto
        moreover have "q \<le> 100"
          using q' by simp
        ultimately show ?thesis
          using ih ps by (auto split: if_splits)
      qed
    qed
  qed
qed

lemma hash_loop_step:
  assumes "bs \<noteq> []"
  shows "\<exists>q. fst (hash_loop whole n lastp (Inr bs # rs)) =
    and_then (fst (hash_loop whole (n + length bs) q rs)) (\<lambda>cs. Inr (bs @ cs))"
proof -
  let ?q = "if whole = 0 then lastp else min ((n + length bs) * 100 div whole) 100"
  have "hash_loop whole n lastp (Inr bs # rs) =
      (let (r, ps) = hash_loop whole (n + length bs) ?q rs
       in (and_then r (\<lambda>cs. Inr (bs @ cs)), (if ?q \<noteq> lastp then [?q] else []) @ ps))"
    using assms by (simp only: hash_loop.simps Let_def if_False)
  then show ?thesis
    by (intro exI [of _ ?q]) (simp only: Let_def case_prod_beta fst_conv)
qed

text \<open>Without a read error the hash is over everything read.\<close>

lemma hash_loop_reads:
  "list_all (\<lambda>bs. bs \<noteq> []) chunks \<Longrightarrow>
     fst (hash_loop whole n lastp (map Inr chunks @ [Inr []])) = Inr (concat chunks)"
proof (induction chunks arbitrary: n lastp)
  case (Cons bs chunks)
  obtain q where "fst (hash_loop whole n lastp (Inr bs # map Inr chunks @ [Inr []])) =
      and_then (fst (hash_loop whole (n + length bs) q (map Inr chunks @ [Inr []]))) (\<lambda>cs. Inr (bs @ cs))"
    using hash_loop_step [of bs whole n lastp "map Inr chunks @ [Inr []]"] Cons.prems by auto
  then show ?case
    using Cons by simp
qed simp

text \<open>The boot partition is only ever mounted read-only here, and its unmounting always follows.\<close>

definition mounts_writable :: "boot_op \<Rightarrow> bool" where
  "mounts_writable op \<longleftrightarrow> (\<exists>args. op = BootRun ''/bin/mount'' args \<and>
     (\<exists>a \<in> set args. a = ''rw'' \<or> a = ''remount,rw''))"

lemma mount_readonly_trace:
  assumes "mount_boot_partition E MountReadOnly tr = (r, tr')"
  obtains ops where "tr' = tr @ ops" "\<forall>op \<in> set ops. \<not> mounts_writable op"
  using assms
  by (auto simp: mount_boot_partition_def bindS_def did_def is_mounted_def run_command_def returnS_def
      mounts_writable_def BOOT_PARTITION_def BOOT_MOUNT_POINT_def split: sum.splits if_splits command_result.splits)

lemma unmount_trace:
  obtains ops where "snd (unmount_boot_partition E tr) =
      tr @ [BootSync, BootRun ''/bin/umount'' [BOOT_MOUNT_POINT]] @ ops" "set ops \<subseteq> {BootRmdir}"
proof (cases "be_run E ''/bin/umount'' [BOOT_MOUNT_POINT] (Suc (length tr))")
  case ExitOk
  then show thesis
    using that [of "[BootRmdir]"] by (simp add: unmount_boot_partition_def bindS_def did_def run_command_def)
qed (use that [of "[]"] in \<open>simp_all add: unmount_boot_partition_def bindS_def did_def run_command_def\<close>)

lemma staged_manifest_trace:
  assumes "staged_manifest_hash parse E tr = (r, tr')"
  shows "\<exists>ops. tr' = tr @ ops \<and> (\<forall>op \<in> set ops. \<not> mounts_writable op) \<and>
    (ReadManifest \<in> set ops \<longrightarrow> BootRun ''/bin/umount'' [BOOT_MOUNT_POINT] \<in> set ops)"
proof -
  obtain m tr1 where m: "mount_boot_partition E MountReadOnly tr = (m, tr1)"
    by (cases "mount_boot_partition E MountReadOnly tr")
  obtain ops1 where ops1: "tr1 = tr @ ops1" "\<forall>op \<in> set ops1. \<not> mounts_writable op"
    using m by (rule mount_readonly_trace)
  have no_read: "ReadManifest \<notin> set ops1"
    using m ops1(1)
    by (auto simp: mount_boot_partition_def bindS_def did_def is_mounted_def run_command_def returnS_def
        split: sum.splits if_splits command_result.splits)
  show ?thesis
  proof (cases m)
    case (Inl e)
    then show ?thesis
      using assms m ops1 no_read by (auto simp: staged_manifest_hash_def bindS_def)
  next
    case (Inr u)
    obtain ops2 where ops2: "snd (unmount_boot_partition E (tr1 @ [ReadManifest])) =
        (tr1 @ [ReadManifest]) @ [BootSync, BootRun ''/bin/umount'' [BOOT_MOUNT_POINT]] @ ops2"
      "set ops2 \<subseteq> {BootRmdir}"
      by (rule unmount_trace)
    have "tr' = tr @ ops1 @ [ReadManifest, BootSync, BootRun ''/bin/umount'' [BOOT_MOUNT_POINT]] @ ops2"
      using assms m Inr ops1(1) ops2(1) by (simp add: staged_manifest_hash_def bindS_def Let_def)
    then show ?thesis
      using ops1(2) ops2(2)
      by (intro exI [of _ "ops1 @ [ReadManifest, BootSync, BootRun ''/bin/umount'' [BOOT_MOUNT_POINT]] @ ops2"])
        (auto simp: mounts_writable_def)
  qed
qed

lemma verify_rootfs_trace:
  assumes "verify_rootfs X R parse E dev tr = (c, ps, tr')"
  shows "\<exists>ops. tr' = tr @ ops \<and> (\<forall>op \<in> set ops. \<not> mounts_writable op) \<and>
    (ReadManifest \<in> set ops \<longrightarrow> BootRun ''/bin/umount'' [BOOT_MOUNT_POINT] \<in> set ops)"
proof -
  obtain r tr2 where r: "staged_manifest_hash parse E (tr @ [ReadMounts]) = (r, tr2)"
    by (cases "staged_manifest_hash parse E (tr @ [ReadMounts])")
  obtain ops where ops: "tr2 = (tr @ [ReadMounts]) @ ops" "\<forall>op \<in> set ops. \<not> mounts_writable op"
    "ReadManifest \<in> set ops \<longrightarrow> BootRun ''/bin/umount'' [BOOT_MOUNT_POINT] \<in> set ops"
    using staged_manifest_trace [OF r] by blast
  have "tr' = tr @ [ReadMounts] \<or> tr' = tr2"
    using assms r by (auto simp: verify_rootfs_def Let_def split: sum.splits if_splits option.splits prod.splits)
  then show ?thesis
  proof
    assume "tr' = tr @ [ReadMounts]"
    then show ?thesis
      by (intro exI [of _ "[ReadMounts]"]) (simp add: mounts_writable_def)
  next
    assume "tr' = tr2"
    then show ?thesis
      using ops by (intro exI [of _ "ReadMounts # ops"]) (auto simp: mounts_writable_def)
  qed
qed

text \<open>The verdict: only a read-only root with a recorded hash is compared, and with that hash.\<close>

lemma verified_means:
  assumes "verify_rootfs X R parse E dev tr = (Verified, ps, tr')"
  shows "\<exists>mounts expected whole bs. be_mounts E (length tr) = Inr mounts \<and>
    rootfs_mounted_readonly mounts \<and>
    staged_manifest_hash parse E (tr @ [ReadMounts]) = (Inr (Some expected), tr') \<and>
    bd_size dev = Inr whole \<and> hash_loop whole 0 255 (bd_reads dev) = (Inr bs, ps) \<and>
    eq_ignore_ascii_case (hex_encode R (bytes_of (sha256 X bs))) expected"
  using assms
  by (auto simp: verify_rootfs_def sha256_hex_of_def Let_def
      split: sum.splits if_splits option.splits prod.splits)

lemma mismatch_means:
  assumes "verify_rootfs X R parse E dev tr = (Mismatch expected actual, ps, tr')"
  shows "staged_manifest_hash parse E (tr @ [ReadMounts]) = (Inr (Some expected), tr') \<and>
    sha256_hex_of X R ROOTFS_PARTITION dev = (Inr actual, ps) \<and> \<not> eq_ignore_ascii_case actual expected"
  using assms
  by (auto simp: verify_rootfs_def Let_def split: sum.splits if_splits option.splits prod.splits)

section \<open>The image screen\<close>

record row =
  row_label :: string
  row_value :: string

definition UNKNOWN_VALUE :: string where "UNKNOWN_VALUE = ''Unknown''"
definition ABSENT :: string where "ABSENT = text_of [0xE2, 0x80, 0x94]"

definition parse_manifest :: "(string \<Rightarrow> string + flash_manifest) \<Rightarrow> string \<Rightarrow> flash_manifest option" where
  "parse_manifest parse raw = (let trimmed = trim raw in if trimmed = [] then None else ok (parse trimmed))"

text \<open>\<open>build_commit\<close>: the hash embedded by the build, if it is one.\<close>

definition build_commit :: "string option \<Rightarrow> string option" where
  "build_commit embedded =
     (case embedded of
        Some hash \<Rightarrow> if hash \<noteq> [] \<and> hash \<noteq> ''unknown'' then Some hash else None
      | None \<Rightarrow> None)"

definition version_known :: "flash_manifest option \<Rightarrow> string option \<Rightarrow> string option" where
  "version_known manifest commit =
     (case Option.bind manifest (\<lambda>m. map_option (\<lambda>v. (v, fm_channel m)) (fm_image_version m)) of
        Some (version, Some channel) \<Rightarrow> Some (version @ '' ('' @ channel @ '')'')
      | Some (version, None) \<Rightarrow> Some version
      | None \<Rightarrow> commit)"

definition version_display :: "flash_manifest option \<Rightarrow> string option \<Rightarrow> string" where
  "version_display manifest commit =
     (case version_known manifest commit of Some v \<Rightarrow> v | None \<Rightarrow> UNKNOWN_VALUE)"

definition signed_known :: "string option \<Rightarrow> string option" where
  "signed_known verdict =
     (case verdict of
        Some value \<Rightarrow>
          if value = SIGNED_VERIFIED then Some ''Verified''
          else if value = SIGNED_UNSIGNED then Some ''Unsigned''
          else if value = SIGNED_UNAVAILABLE then Some ''Unavailable''
          else None
      | None \<Rightarrow> None)"

definition signed_display :: "string option \<Rightarrow> string" where
  "signed_display verdict = (case signed_known verdict of Some w \<Rightarrow> w | None \<Rightarrow> UNKNOWN_VALUE)"

definition flashed_display :: "flash_manifest option \<Rightarrow> string" where
  "flashed_display manifest =
     (case manifest of
        Some m \<Rightarrow> (case split_once CHR ''T'' (fm_flashed_at m) of
            Some (date, _) \<Rightarrow> date | None \<Rightarrow> fm_flashed_at m)
      | None \<Rightarrow> ABSENT)"

definition posture_rows :: "flash_manifest option \<Rightarrow> bool \<Rightarrow> string option \<Rightarrow> row list" where
  "posture_rows manifest hardened commit =
     [\<lparr>row_label = ''Version'', row_value = version_display manifest commit\<rparr>,
      \<lparr>row_label = ''Mode'', row_value = (if hardened then ''Hardened'' else ''Dev'')\<rparr>,
      \<lparr>row_label = ''Signed'', row_value = signed_display (Option.bind manifest fm_signed)\<rparr>,
      \<lparr>row_label = ''Flashed'', row_value = flashed_display manifest\<rparr>]"

definition checksum_rows :: "flash_manifest option \<Rightarrow> row list" where
  "checksum_rows manifest =
     [\<lparr>row_label = ''Image'', row_value = (case manifest of Some m \<Rightarrow> fm_image_sha256 m | None \<Rightarrow> ABSENT)\<rparr>,
      \<lparr>row_label = ''Rootfs'', row_value =
         (case Option.bind manifest fm_rootfs_sha256 of Some h \<Rightarrow> h | None \<Rightarrow> ABSENT)\<rparr>,
      \<lparr>row_label = ''Host'', row_value = (case manifest of Some m \<Rightarrow> fm_host_version m | None \<Rightarrow> ABSENT)\<rparr>,
      \<lparr>row_label = ''Card ID'', row_value = (case manifest of Some m \<Rightarrow> fm_card_id m | None \<Rightarrow> ABSENT)\<rparr>]"

definition image_info :: "(string \<Rightarrow> string + flash_manifest) \<Rightarrow> string option \<Rightarrow> io_error + string
      \<Rightarrow> flash_manifest option \<times> bool" where
  "image_info parse environment mounts =
     (Option.bind environment (parse_manifest parse), is_hardened mounts)"

lemma signed_never_overclaims:
  "\<lparr>row_label = ''Signed'', row_value = ''Verified''\<rparr> \<in> set (posture_rows manifest hardened commit) \<longleftrightarrow>
     (\<exists>m. manifest = Some m \<and> fm_signed m = Some SIGNED_VERIFIED)"
  by (cases manifest) (auto simp: posture_rows_def signed_display_def signed_known_def UNKNOWN_VALUE_def
      SIGNED_VERIFIED_def SIGNED_UNSIGNED_def SIGNED_UNAVAILABLE_def split: option.splits)

end
