(* ===== verification/Network_Status.thy ===== *)
theory Network_Status
  imports Text
begin

text \<open>
  \<open>rpi-signer/src/network_status.rs\<close>: is the USB link up, is the host there, is the baker active. The
  files of sysfs and procfs and the list of interface addresses are parameters. Shown: the host
  counts as reachable only with an address, carrier not lost and a complete neighbour entry, the
  entry the kernel prints for a neighbour is read back, and the baker is active for exactly a minute.
\<close>

section \<open>Numbers in a radix\<close>

text \<open>\<open>u32::from_str_radix(s, 16)\<close>: an optional plus sign, at least one digit, no overflow.\<close>

fun parse_hex_digits :: "nat \<Rightarrow> nat \<Rightarrow> string \<Rightarrow> nat option" where
  "parse_hex_digits bound acc [] = Some acc"
| "parse_hex_digits bound acc (c # cs) =
     (case hex_value c of None \<Rightarrow> None
      | Some d \<Rightarrow> if acc * 16 + d < bound then parse_hex_digits bound (acc * 16 + d) cs else None)"

definition parse_hex_u32 :: "string \<Rightarrow> u32 option" where
  "parse_hex_u32 s =
     (case (if s \<noteq> [] \<and> hd s = CHR ''+'' then tl s else s) of
        [] \<Rightarrow> None
      | digits \<Rightarrow> map_option word_of_nat (parse_hex_digits (2 ^ 32) 0 digits))"

definition unwrap_or :: "'a \<Rightarrow> 'a option \<Rightarrow> 'a" where
  "unwrap_or d m = (case m of Some x \<Rightarrow> x | None \<Rightarrow> d)"

section \<open>The neighbour table\<close>

definition ARP_FLAG_COMPLETE :: u32 where "ARP_FLAG_COMPLETE = 0x2"
definition INTERFACE_NAME :: string where "INTERFACE_NAME = ''usb0''"
definition HOST_IP :: string where "HOST_IP = ''169.254.1.2''"
definition BAKER_ACTIVITY_TIMEOUT :: nat where "BAKER_ACTIVITY_TIMEOUT = 60000"

definition parse_arp_flags :: "string \<Rightarrow> u32" where
  "parse_arp_flags s =
     (let trimmed = trim s
      in case (case strip_prefix ''0x'' trimmed of Some h \<Rightarrow> Some h | None \<Rightarrow> strip_prefix ''0X'' trimmed) of
           Some h \<Rightarrow> unwrap_or 0 (parse_hex_u32 h)
         | None \<Rightarrow> unwrap_or 0 (parse_u32 trimmed))"

text \<open>The columns of a line are IP address, hardware type, flags, hardware address, mask, device.\<close>

definition arp_line_complete :: "string \<Rightarrow> string \<Rightarrow> string \<Rightarrow> bool" where
  "arp_line_complete host_ip interface line =
     (case split_whitespace line of
        ip # _ # flags # _ # _ # dev # _ \<Rightarrow>
          ip = host_ip \<and> dev = interface \<and> parse_arp_flags flags AND ARP_FLAG_COMPLETE \<noteq> 0
      | _ \<Rightarrow> False)"

definition arp_has_complete_neighbour :: "string \<Rightarrow> string \<Rightarrow> string \<Rightarrow> bool" where
  "arp_has_complete_neighbour arp_table host_ip interface =
     list_ex (arp_line_complete host_ip interface) (drop 1 (lines_of arp_table))"

section \<open>The link\<close>

definition link_is_up :: "string \<Rightarrow> bool option \<Rightarrow> bool" where
  "link_is_up operstate carrier =
     (let op = trim operstate
      in eq_ignore_ascii_case op ''up'' \<or> eq_ignore_ascii_case op ''unknown'' \<and> carrier = Some True)"

definition host_reachable_from :: "string \<Rightarrow> string \<Rightarrow> string \<Rightarrow> bool option \<Rightarrow> bool" where
  "host_reachable_from arp_table host_ip interface carrier =
     (if carrier = Some False then False else arp_has_complete_neighbour arp_table host_ip interface)"

text \<open>
  What the kernel shows: whether the interface directory exists, the two files in it, the neighbour
  table, and the interface addresses (name, address family is IPv4, address) of \<open>getifaddrs\<close>, \<open>None\<close>
  when it fails.
\<close>

record net_files =
  nf_is_dir :: bool
  nf_operstate :: "string option"
  nf_carrier :: "string option"
  nf_arp :: "string option"
  nf_addresses :: "(string \<times> bool \<times> u32) list option"

definition read_carrier :: "net_files \<Rightarrow> bool option" where
  "read_carrier F =
     (case nf_carrier F of
        None \<Rightarrow> None
      | Some raw \<Rightarrow> if trim raw = ''1'' then Some True else if trim raw = ''0'' then Some False else None)"

definition interface_has_ipv4 :: "net_files \<Rightarrow> string \<Rightarrow> bool" where
  "interface_has_ipv4 F interface =
     (case nf_addresses F of
        None \<Rightarrow> False
      | Some as \<Rightarrow> list_ex (\<lambda>(name, ipv4, ip). name = interface \<and> ipv4 \<and> drop_bit 24 ip \<noteq> 127) as)"

definition interface_configured :: "net_files \<Rightarrow> string \<Rightarrow> bool option \<Rightarrow> bool" where
  "interface_configured F interface carrier =
     (if \<not> nf_is_dir F then False
      else if \<not> link_is_up (unwrap_or '''' (nf_operstate F)) carrier then False
      else interface_has_ipv4 F interface)"

definition host_reachable :: "net_files \<Rightarrow> string \<Rightarrow> string \<Rightarrow> bool option \<Rightarrow> bool" where
  "host_reachable F host_ip interface carrier =
     (if carrier = Some False then False
      else case nf_arp F of
             None \<Rightarrow> False
           | Some contents \<Rightarrow> host_reachable_from contents host_ip interface carrier)"

text \<open>Times are milliseconds since the epoch; \<open>duration_since\<close> fails for a time in the future.\<close>

definition baker_active_at :: "nat option \<Rightarrow> nat \<Rightarrow> bool" where
  "baker_active_at last_baker_request now =
     (case last_baker_request of
        None \<Rightarrow> False
      | Some last_time \<Rightarrow> if last_time \<le> now then now - last_time < BAKER_ACTIVITY_TIMEOUT else False)"

record network_status =
  ns_interface_configured :: bool
  ns_host_reachable :: bool
  ns_baker_active :: bool

definition check_with :: "net_files \<Rightarrow> nat option \<Rightarrow> nat \<Rightarrow> string \<Rightarrow> string \<Rightarrow> network_status" where
  "check_with F last_baker_request now interface host_ip =
     (let carrier = read_carrier F;
          configured = interface_configured F interface carrier
      in \<lparr>ns_interface_configured = configured,
          ns_host_reachable = (if configured then host_reachable F host_ip interface carrier else False),
          ns_baker_active = baker_active_at last_baker_request now\<rparr>)"

definition network_check :: "net_files \<Rightarrow> nat option \<Rightarrow> nat \<Rightarrow> network_status" where
  "network_check F last_baker_request now = check_with F last_baker_request now INTERFACE_NAME HOST_IP"

section \<open>What a status means\<close>

lemma reachable_needs_everything:
  assumes "ns_host_reachable (check_with F seen now interface host_ip)"
  shows "ns_interface_configured (check_with F seen now interface host_ip)"
    "read_carrier F \<noteq> Some False"
    "\<exists>table line. nf_arp F = Some table \<and> line \<in> set (lines_of table) \<and>
       arp_line_complete host_ip interface line"
  using assms
  by (auto simp: check_with_def host_reachable_def host_reachable_from_def Let_def list_ex_iff
      arp_has_complete_neighbour_def split: if_splits option.splits dest!: in_set_dropD)

lemma unplugged_is_offline:
  assumes "read_carrier F = Some False"
  shows "\<not> ns_host_reachable (check_with F seen now interface host_ip)"
  using reachable_needs_everything(2) assms by blast

lemma down_is_not_configured:
  assumes "trim (unwrap_or '''' (nf_operstate F)) = ''down''"
  shows "\<not> ns_interface_configured (check_with F seen now interface host_ip)"
  using assms
  by (simp add: check_with_def interface_configured_def link_is_up_def eq_ignore_ascii_case_def
      to_ascii_lowercase_def Let_def)

lemma baker_active_iff:
  "baker_active_at seen now \<longleftrightarrow> (\<exists>t. seen = Some t \<and> t \<le> now \<and> now < t + 60000)"
  by (auto simp: baker_active_at_def BAKER_ACTIVITY_TIMEOUT_def split: option.split)

section \<open>A line of the kernel's table\<close>

text \<open>
  Printable fields separated by blanks are split back; so is the line the kernel prints for a
  neighbour, and the flags it prints in hexadecimal are read back.
\<close>

definition printable :: "char \<Rightarrow> bool" where
  "printable c \<longleftrightarrow> 0x21 \<le> (of_char c :: nat) \<and> (of_char c :: nat) < 0x7F"

lemma fields_from_word:
  "list_all printable w \<Longrightarrow> fields_from acc (w @ s) = fields_from (rev w @ acc) s"
proof (induction w arbitrary: acc)
  case (Cons c w)
  have "fields_from acc (c # w @ s) = fields_from (c # acc) (w @ s)"
    using Cons.prems by (simp add: fields_steps printable_def)
  then show ?case
    using Cons by simp
qed simp

lemma fields_from_blanks: "list_all (\<lambda>c. c = CHR '' '') b \<Longrightarrow> fields_from [] (b @ s) = fields_from [] s"
  by (induction b) (simp_all add: fields_steps)

definition field_word :: "string \<Rightarrow> bool" where
  "field_word w \<longleftrightarrow> w \<noteq> [] \<and> list_all printable w"

definition blanks :: "string \<Rightarrow> bool" where
  "blanks b \<longleftrightarrow> b \<noteq> [] \<and> list_all (\<lambda>c. c = CHR '' '') b"

text \<open>Words with blanks before each.\<close>

primrec columns :: "(string \<times> string) list \<Rightarrow> string" where
  "columns [] = []"
| "columns (p # ps) = fst p @ snd p @ columns ps"

lemma split_columns:
  assumes "list_all (\<lambda>(b, w). blanks b \<and> field_word w) ps"
  shows "split_whitespace (columns ps) = map snd ps"
proof -
  have "fields_from acc (columns ps) = (if acc = [] then [] else [rev acc]) @ map snd ps"
    if "list_all (\<lambda>(b, w). blanks b \<and> field_word w) ps" for acc
    using that
  proof (induction ps arbitrary: acc)
    case Nil
    then show ?case
      by (simp add: fields_steps)
  next
    case (Cons p ps)
    obtain b w where p: "p = (b, w)"
      by (cases p)
    obtain b' where b: "b = CHR '' '' # b'" "list_all (\<lambda>c. c = CHR '' '') b'"
      using Cons.prems p by (cases b) (auto simp: blanks_def)
    have w: "w \<noteq> []" "list_all printable w"
      using Cons.prems p by (auto simp: field_word_def)
    have "fields_from [] (b' @ w @ columns ps) = w # map snd ps"
      using Cons w by (simp add: fields_from_blanks [OF b(2)] fields_from_word)
    then show ?case
      using p b(1) by (simp add: fields_steps)
  qed
  from this [OF assms, of "[]"] show ?thesis
    by (simp add: split_whitespace_def)
qed

lemma split_row:
  assumes "field_word w" "list_all (\<lambda>(b, w). blanks b \<and> field_word w) ps"
  shows "split_whitespace (w @ columns ps) = w # map snd ps"
proof -
  have "split_whitespace (columns ((CHR '' '' # [], w) # ps)) = map snd (([CHR '' ''], w) # ps)"
    by (rule split_columns) (use assms in \<open>simp add: blanks_def\<close>)
  then show ?thesis
    by (simp add: split_whitespace_def fields_steps)
qed

lemma strip_printable_end:
  assumes "printable c"
  shows "strip_one (map rev white_space) (c # s) = None"
proof (rule strip_one_None, intro ballI impI)
  fix w assume w: "w \<in> set (map rev white_space)" "w \<noteq> []"
  then have "(of_char (hd w) :: nat) < 0x21 \<or> 0x7F < (of_char (hd w) :: nat)"
    by (auto simp: white_space_def text_of_def)
  then show "hd w \<noteq> c"
    using assms by (auto simp: printable_def)
qed

lemma trim_printable:
  assumes "list_all printable s"
  shows "trim s = s"
proof (cases s rule: rev_cases)
  case Nil
  then show ?thesis
    by (simp add: trim_def strip_all_id)
next
  case (snoc t c)
  obtain d u where s: "s = d # u"
    using snoc by (metis append_is_Nil_conv list.exhaust not_Cons_self2)
  have "strip_one white_space s = None"
    using assms s strip_printable [of d u] by (simp add: printable_def)
  moreover have "strip_one (map rev white_space) (rev s) = None"
    using assms snoc strip_printable_end [of c "rev t"] by simp
  ultimately have "strip_one white_space s = None" "strip_one (map rev white_space) (rev s) = None"
    by simp_all
  then show ?thesis
    by (simp add: trim_def strip_all_id)
qed

text \<open>The line of a neighbour, as the kernel prints it, is read back with its flags.\<close>

lemma kernel_line_read_back:
  assumes "field_word ip" "field_word hw" "field_word flags" "field_word mac" "field_word msk" "field_word dev"
    and "blanks b1" "blanks b2" "blanks b3" "blanks b4" "blanks b5"
  shows "arp_line_complete ip dev
      (ip @ columns [(b1, hw), (b2, flags), (b3, mac), (b4, msk), (b5, dev)]) \<longleftrightarrow>
    parse_arp_flags flags AND ARP_FLAG_COMPLETE \<noteq> 0"
  using split_row [of ip "[(b1, hw), (b2, flags), (b3, mac), (b4, msk), (b5, dev)]"] assms
  by (simp add: arp_line_complete_def)

lemma printed_flags: "parse_arp_flags ''0x2'' = 2" "parse_arp_flags ''0x0'' = 0" "parse_arp_flags ''0x6'' = 6"
  by (simp_all add: parse_arp_flags_def trim_printable printable_def strip_prefix_def parse_hex_u32_def
      hex_value_def unwrap_or_def Let_def)

end
