(* ===== verification/Panel_Samples.thy ===== *)
theory Panel_Samples
  imports Epd_Updates Peripherals Provenance Network_Status
begin

text \<open>
  Concrete inputs for the properties of the display, the log and the check of the root file system: a
  panel whose refresh takes two seconds, a run of the driver and of the display on it, a full log and
  a card whose manifest records the hash of its root file system.
\<close>

section \<open>The panel\<close>

definition sample_board :: "unit board" where
  "sample_board = \<lparr>busy_line = (\<lambda>h. Inr (refresh_left 2000 h > 0)), access_fault = (\<lambda>h a. None),
     clock_lag = (\<lambda>h. 0)\<rparr>"

lemma sample_board_timely: "timely_panel sample_board 2000"
  by (simp add: timely_panel_def sample_board_def WAIT_IDLE_TIMEOUT_MS_def)

lemma epd_new_timely:
  assumes "timely_panel H T"
  shows "\<exists>t. epd_new H s = (Inr (), t)"
  using send_command_timely [OF assms]
  by (auto simp: epd_new_def hardware_reset_def software_reset_def bindS_def set_pin_timely [OF assms]
      delay_ms_def)

definition sample_driver :: epd_driver where
  "sample_driver = \<lparr>wire = [], last_update_mode = None, dirty_mask = [], last_frame = []\<rparr>"

text \<open>A black frame pushed onto the white panel.\<close>

lemma sample_epd_run:
  obtains s fs where "epd_run sample_board s (replicate BUFFER_SIZE 0 # fs)"
proof -
  obtain t where t: "epd_new sample_board sample_driver = (Inr (), t)"
    using epd_new_timely [OF sample_board_timely] by blast
  obtain u where u: "display_with_policy sample_board (replicate BUFFER_SIZE 0) Full WaitBlock t =
      (Inr Pushed, u)"
    using blocking_push_succeeds [OF sample_board_timely] by blast
  have "epd_run sample_board u
      (window_after sample_board (replicate BUFFER_SIZE 0) Full WaitBlock t [replicate BUFFER_SIZE 0xFF])"
    using t u by (intro run_display run_new) auto
  then show thesis
    using that u by (simp add: window_after_def Let_def)
qed

definition sample_display :: epd_display where
  "sample_display = display_new sample_driver Deg90"

text \<open>The first update, a full refresh.\<close>

lemma sample_display_run:
  obtains d where "display_run sample_board d [Full]"
proof -
  obtain d' where d': "display_push sample_board Transition WaitBlock sample_display = (Inr UpdateDone, d')"
    using blocking_update_done [OF sample_board_timely] by blast
  have start: "display_run sample_board sample_display []"
    unfolding sample_display_def by (rule dr_new)
  have "planned Transition sample_display = Push Full"
    by (rule planned_Full_first) (simp add: sample_display_def display_new_def)
  then show thesis
    using that [of d'] dr_push [OF start d'] by simp
qed

section \<open>The log\<close>

text \<open>A log filled up to its limit; a disk that works, and one whose opening of the new file fails.\<close>

definition sample_log :: "log_writer \<times> log_dir" where
  "sample_log = (\<lparr>lw_file = 0, lw_bytes_written = MAX_LOG_SIZE\<rparr>,
     \<lparr>log_current = Some 0, log_old = None, log_sizes = (\<lambda>f. MAX_LOG_SIZE), log_fresh = 1\<rparr>)"

definition sample_answers :: "bool \<Rightarrow> log_answers" where
  "sample_answers opens = \<lparr>la_flush = True, la_rename = True, la_open = opens, la_write = Some 100\<rparr>"

lemma sample_log_inv: "log_inv sample_log"
  by (simp add: sample_log_def log_inv_def)

section \<open>The root file system\<close>

definition sample_release :: release_crates where
  "sample_release = \<lparr>hex_encode = text_of, hex_decode = (\<lambda>s. None), ed_public = (\<lambda>seed. seed),
     ed_sign = (\<lambda>seed m. barray_of []), ed_signature_from_slice = (\<lambda>b. None), ed_key_valid = (\<lambda>k. True),
     ed_verify_strict = (\<lambda>k m s. True)\<rparr>"

definition sample_parse :: "crates \<Rightarrow> string \<Rightarrow> string + flash_manifest" where
  "sample_parse X raw = Inr \<lparr>fm_card_id = ''card'', fm_flashed_at = ''now'', fm_host_version = ''1'',
     fm_image_sha256 = ''h'', fm_image_version = None, fm_channel = None,
     fm_rootfs_sha256 = Some (text_of (bytes_of (sha256 X [1, 2]))), fm_signed = None\<rparr>"

definition sample_boot_env :: boot_env where
  "sample_boot_env = \<lparr>be_mounts = (\<lambda>n. Inr (if n = 0 then ''/dev/root / ext4 ro 0 0'' else '''')),
     be_mkdir = (\<lambda>n. Inr ()), be_run = (\<lambda>c args n. ExitOk), be_manifest = (\<lambda>n. Inr ''manifest'')\<rparr>"

definition sample_rootfs :: block_device where
  "sample_rootfs = \<lparr>bd_open = Inr (), bd_size = Inr 2, bd_rewind = Inr (), bd_reads = [Inr [1, 2], Inr []]\<rparr>"

lemma sample_mount_fields:
  "split_whitespace ''/dev/root / ext4 ro 0 0'' = [''/dev/root'', ''/'', ''ext4'', ''ro'', ''0'', ''0'']"
  using split_row [of "''/dev/root''" "map (\<lambda>w. ('' '', w)) [''/'', ''ext4'', ''ro'', ''0'', ''0'']"]
  by (simp add: columns_def field_word_def blanks_def printable_def)

lemma sample_mounts_readonly: "rootfs_mounted_readonly ''/dev/root / ext4 ro 0 0''"
proof -
  have "lines_of ''/dev/root / ext4 ro 0 0'' = [''/dev/root / ext4 ro 0 0'']"
    by (simp add: lines_of_def)
  moreover have "split_char CHR '','' ''ro'' = [''ro'']"
    by (simp add: split_char_def)
  ultimately show ?thesis
    by (auto simp: rootfs_mounted_readonly_def root_entry_readonly_def sample_mount_fields
        List.map_filter_def)
qed

lemma eq_ignore_ascii_case_refl: "eq_ignore_ascii_case s s"
  by (simp add: eq_ignore_ascii_case_def)

lemma sample_verified:
  "\<exists>tr. verify_rootfs X sample_release (sample_parse X) sample_boot_env sample_rootfs [] = (Verified, [100], tr)"
  by (simp add: verify_rootfs_def sample_boot_env_def sample_mounts_readonly staged_manifest_hash_def
      mount_boot_partition_def is_mounted_def did_def bindS_def run_command_def lines_of_def
      expected_rootfs_hash_def sample_parse_def sha256_hex_of_def sample_rootfs_def sample_release_def
      eq_ignore_ascii_case_refl Let_def)

end
