(* ===== verification/Disk_Check.thy ===== *)
theory Disk_Check
  imports Server Text
begin

text \<open>
  \<open>host-utility/src/disk.rs\<close>, first half: what \<open>russignol check disk\<close> gathers from a signer's card and how
  it classifies it. The gathered state, the issues and the repairs are the data of the code;
  \<open>classify\<close> is its pure classifier, message texts included. Shown: a good card has no issue, a card
  without critical issue has everything the device needs to sign, a watermark record the device wrote is
  read back by the host, and the keys of a card are listed in an order that does not depend on the map.
\<close>

section \<open>The state of a card\<close>

definition PANIC_LOG_MAX_BYTES :: nat where "PANIC_LOG_MAX_BYTES = 1024 * 1024"
definition DEVICE_UID :: nat where "DEVICE_UID = 1000"
definition DEVICE_GID :: nat where "DEVICE_GID = 1000"
definition CHAIN_INFO_MODE :: nat where "CHAIN_INFO_MODE = 256"

text \<open>\<open>ChainInfo\<close> of \<open>host-utility/src/watermark.rs\<close>: what a node reports.\<close>

record node_chain =
  nc_id :: string
  nc_level :: u32
  nc_name :: string
  nc_blocks_per_cycle :: u32

datatype card_partition = BootPartition | KeysPartition | DataPartition

datatype keys_state = KeysMissing | KeysUnparseable | KeysParsed "string list" "string list"

type_synonym owner = "(nat \<times> nat) option"

datatype chain_info_state =
    ChainInfoMissing
  | ChainInfoUnreadable (cis_owner: owner) (cis_mode: "nat option")
  | ChainInfoPresent (cis_id: string) (cis_mode: "nat option") (cis_owner: owner)

datatype watermark_file_status = FileMissing | FileWrongSize | FileCorrupt | FileValid u32

record watermark_file =
  wf_name :: string
  wf_status :: watermark_file_status
  wf_owner :: owner

record key_watermarks =
  kw_pkh :: string
  kw_dir_present :: bool
  kw_dir_owner :: owner
  kw_files :: "watermark_file list"

record boot_config_state =
  bc_chain_id :: string
  bc_level :: u32

datatype inspection = Inspected | NotCapable | InspectionFailed

record card_state =
  cs_inspection :: inspection
  cs_setup_complete :: bool
  cs_migration_pending :: bool
  cs_keys :: keys_state
  cs_chain_info :: chain_info_state
  cs_watermarks :: "key_watermarks list"
  cs_logs_dir_present :: bool
  cs_panic_log_size :: "nat option"
  cs_boot_config :: "boot_config_state option"

section \<open>Issues\<close>

datatype severity = Critical | Warning | Info

datatype remedy = HostDirect | FatStage | NeedsNode | Manual

fun remedy_is_fixable :: "remedy \<Rightarrow> bool" where
  "remedy_is_fixable HostDirect = True"
| "remedy_is_fixable FatStage = True"
| "remedy_is_fixable NeedsNode = False"
| "remedy_is_fixable Manual = False"

datatype issue_kind =
    KindSetupIncomplete | KindKeysMissing | KindKeysUnparseable | KindKeysRoleMissing
  | KindMigrationPending | KindF2fsNotInspected | KindFatStageAvailable | KindWatermarkSeedMissing
  | KindWatermarkDirMissing | KindWatermarkFileMissing | KindWatermarkCorrupt
  | KindWatermarkBelowHead | KindWatermarkNodeUnknown | KindChainInfoMissing
  | KindChainInfoUnreadable | KindChainInfoStale | KindChainInfoNodeUnknown
  | KindChainInfoModeDrift | KindOwnershipDrift | KindLeftoverBootConfig | KindLogsDirMissing
  | KindPanicLogOversized

datatype repair_action =
    ChownWatermarks string
  | WriteChainInfo
  | ChmodChainInfo
  | ChownChainInfo
  | TruncatePanicLog
  | DeleteBootConfig
  | StageBootConfig node_chain

record issue =
  is_kind :: issue_kind
  is_severity :: severity
  is_partition :: card_partition
  is_remedy :: remedy
  is_action :: "repair_action option"
  is_message :: string

definition is_healthy :: "issue list \<Rightarrow> bool" where
  "is_healthy issues \<longleftrightarrow>
     \<not> list_ex (\<lambda>i. is_severity i \<in> {Critical, Warning} \<or> remedy_is_fixable (is_remedy i)) issues"

definition node_backed_remedy :: "node_chain option \<Rightarrow> remedy" where
  "node_backed_remedy node = (if node \<noteq> None then HostDirect else NeedsNode)"

definition owner_ok :: "owner \<Rightarrow> bool" where
  "owner_ok owner = (case owner of None \<Rightarrow> True | Some (u, g) \<Rightarrow> u = DEVICE_UID \<and> g = DEVICE_GID)"

definition saturating_mul_u32 :: "u32 \<Rightarrow> u32 \<Rightarrow> u32" where
  "saturating_mul_u32 a b = (if unat a * unat b < 2 ^ 32 then a * b else u32_MAX)"

definition floor_significantly_behind :: "u32 \<Rightarrow> node_chain \<Rightarrow> bool" where
  "floor_significantly_behind level node =
     (let threshold = saturating_mul_u32 LARGE_GAP_CYCLES (nc_blocks_per_cycle node)
      in threshold < saturating_sub_u32 (nc_level node) level)"

section \<open>Texts\<close>

definition show_u32 :: "u32 \<Rightarrow> string" where
  "show_u32 n = show_nat (unat n)"

fun show_octal :: "nat \<Rightarrow> string" where
  "show_octal n = (if n < 8 then [char_of (48 + n)] else show_octal (n div 8) @ [char_of (48 + n mod 8)])"

text \<open>\<open>{:04o}\<close>.\<close>

definition show_octal4 :: "nat \<Rightarrow> string" where
  "show_octal4 n = replicate (4 - length (show_octal n)) CHR ''0'' @ show_octal n"

definition owner_text :: "nat \<Rightarrow> nat \<Rightarrow> string" where
  "owner_text u g = show_nat u @ '':'' @ show_nat g"

definition em_dash :: string where
  "em_dash = text_of [0xE2, 0x80, 0x94]"

section \<open>The boot partition\<close>

definition boot_config_superseded :: "card_state \<Rightarrow> string \<Rightarrow> boot_config_state \<Rightarrow> bool" where
  "boot_config_superseded state node_id bc =
     (let chain_info_current =
            (case cs_chain_info state of ChainInfoPresent i _ _ \<Rightarrow> i = node_id | _ \<Rightarrow> False);
          floors_covered =
            cs_inspection state = Inspected \<and> cs_watermarks state \<noteq> [] \<and>
            list_all (\<lambda>key. kw_files key \<noteq> [] \<and>
              list_all (\<lambda>f. case wf_status f of FileValid level \<Rightarrow> bc_level bc \<le> level | _ \<Rightarrow> False) (kw_files key))
              (cs_watermarks state)
      in chain_info_current \<and> floors_covered)"

definition stale_delete :: "string \<Rightarrow> issue" where
  "stale_delete message =
     \<lparr>is_kind = KindLeftoverBootConfig, is_severity = Warning, is_partition = BootPartition,
      is_remedy = HostDirect, is_action = Some DeleteBootConfig, is_message = message\<rparr>"

definition classify_boot_config :: "card_state \<Rightarrow> node_chain option \<Rightarrow> issue list" where
  "classify_boot_config state node =
     (case cs_boot_config state of
        None \<Rightarrow> []
      | Some bc \<Rightarrow>
          let left = [\<lparr>is_kind = KindLeftoverBootConfig, is_severity = Info, is_partition = BootPartition,
                is_remedy = Manual, is_action = None,
                is_message = ''a staged watermark-config.json is present (chain '' @ bc_chain_id bc @
                  '' at level '' @ show_u32 (bc_level bc) @
                  ''); the device consumes it on the next boot, so it is left in place''\<rparr>]
          in (case node of
                Some n \<Rightarrow>
                  if nc_id n \<noteq> bc_chain_id bc then
                    [stale_delete (''a staged watermark-config.json targets chain '' @ bc_chain_id bc @
                       '' at level '' @ show_u32 (bc_level bc) @ '', which differs from the node's chain '' @
                       nc_id n @ ''; it is stale and can be deleted'')]
                  else if boot_config_superseded state (nc_id n) bc then
                    [stale_delete (''a staged watermark-config.json (chain '' @ bc_chain_id bc @
                       '' at level '' @ show_u32 (bc_level bc) @
                       '') is at or below the card's current watermark floor and chain_info is current; '' @
                       ''it is superseded and can be deleted'')]
                  else left
              | None \<Rightarrow> left))"

section \<open>The keys partition\<close>

definition classify_keys :: "card_state \<Rightarrow> issue list" where
  "classify_keys state =
     (case cs_keys state of
        KeysMissing \<Rightarrow>
          [\<lparr>is_kind = KindKeysMissing, is_severity = Critical, is_partition = KeysPartition,
            is_remedy = Manual, is_action = None,
            is_message = ''public_key_hashs is missing; the card has no keys and cannot sign '' @ em_dash @
              '' restore keys or re-run setup''\<rparr>]
      | KeysUnparseable \<Rightarrow>
          [\<lparr>is_kind = KindKeysUnparseable, is_severity = Critical, is_partition = KeysPartition,
            is_remedy = Manual, is_action = None,
            is_message = ''public_key_hashs is present but could not be parsed or is empty''\<rparr>]
      | KeysParsed aliases _ \<Rightarrow>
          concat (map (\<lambda>role.
            let alias = device_alias role
            in if \<not> list_ex (\<lambda>a. a = alias) aliases then
                 [\<lparr>is_kind = KindKeysRoleMissing, is_severity = Warning, is_partition = KeysPartition,
                   is_remedy = Manual, is_action = None,
                   is_message = ''expected key role '' @ CHR 0x27 # alias @ CHR 0x27 #
                     '' was not found among the card's key aliases''\<rparr>]
               else []) KEY_ROLE_ALL))"

definition chain_info_owner_issue :: "owner \<Rightarrow> issue" where
  "chain_info_owner_issue owner =
     (let (u, g) = (case owner of Some p \<Rightarrow> p | None \<Rightarrow> (0, 0))
      in \<lparr>is_kind = KindOwnershipDrift, is_severity = Critical, is_partition = KeysPartition,
          is_remedy = HostDirect, is_action = Some ChownChainInfo,
          is_message = ''chain_info.json is owned '' @ owner_text u g @ '', but the device runs as '' @
            owner_text DEVICE_UID DEVICE_GID @ '' and cannot read it''\<rparr>)"

definition classify_chain_info :: "card_state \<Rightarrow> node_chain option \<Rightarrow> issue list" where
  "classify_chain_info state node =
     (let write_action = (if node \<noteq> None then Some WriteChainInfo else None)
      in case cs_chain_info state of
           ChainInfoMissing \<Rightarrow>
             [\<lparr>is_kind = KindChainInfoMissing, is_severity = Critical, is_partition = KeysPartition,
               is_remedy = node_backed_remedy node, is_action = write_action,
               is_message = ''chain_info.json is missing; the device cannot resolve the chain '' @
                 ''it signs for until it is rewritten from a node''\<rparr>]
         | ChainInfoUnreadable owner _ \<Rightarrow>
             if \<not> owner_ok owner then [chain_info_owner_issue owner]
             else
               [\<lparr>is_kind = KindChainInfoUnreadable, is_severity = Critical, is_partition = KeysPartition,
                 is_remedy = node_backed_remedy node, is_action = write_action,
                 is_message = ''chain_info.json is present but is not valid JSON or is missing required fields''\<rparr>]
         | ChainInfoPresent i mode owner \<Rightarrow>
             (case node of
                Some n \<Rightarrow>
                  if nc_id n \<noteq> i then
                    [\<lparr>is_kind = KindChainInfoStale, is_severity = Warning, is_partition = KeysPartition,
                      is_remedy = HostDirect, is_action = Some WriteChainInfo,
                      is_message = ''chain_info.json records chain '' @ i @ '', but the node reports '' @
                        nc_id n @ ''; it is stale and should be rewritten''\<rparr>]
                  else []
              | None \<Rightarrow>
                  [\<lparr>is_kind = KindChainInfoNodeUnknown, is_severity = Info, is_partition = KeysPartition,
                    is_remedy = NeedsNode, is_action = None,
                    is_message = ''chain_info.json freshness cannot be checked without a node endpoint''\<rparr>]) @
             (if \<not> owner_ok owner then [chain_info_owner_issue owner] else []) @
             (case mode of
                Some m \<Rightarrow>
                  if m \<noteq> CHAIN_INFO_MODE then
                    [\<lparr>is_kind = KindChainInfoModeDrift, is_severity = Warning, is_partition = KeysPartition,
                      is_remedy = HostDirect, is_action = Some ChmodChainInfo,
                      is_message = ''chain_info.json mode is '' @ show_octal4 m @ '', expected '' @
                        show_octal4 CHAIN_INFO_MODE\<rparr>]
                  else []
              | None \<Rightarrow> []))"

section \<open>The data partition\<close>

definition staged_config_seeds_watermarks :: "card_state \<Rightarrow> node_chain option \<Rightarrow> bool" where
  "staged_config_seeds_watermarks state node =
     (case (cs_boot_config state, node) of
        (Some bc, Some n) \<Rightarrow> nc_id n = bc_chain_id bc
      | (Some _, None) \<Rightarrow> True
      | (None, _) \<Rightarrow> False)"

definition watermark_remedy :: "node_chain option \<Rightarrow> remedy" where
  "watermark_remedy node = (if node \<noteq> None then FatStage else NeedsNode)"

definition classify_watermark_file :: "string \<Rightarrow> node_chain option \<Rightarrow> watermark_file \<Rightarrow> issue list" where
  "classify_watermark_file pkh node f =
     (let remedy = watermark_remedy node; stage_action = map_option StageBootConfig node
      in case wf_status f of
           FileMissing \<Rightarrow>
             [\<lparr>is_kind = KindWatermarkFileMissing, is_severity = Critical, is_partition = DataPartition,
               is_remedy = remedy, is_action = stage_action,
               is_message = ''watermark file '' @ wf_name f @ '' for key '' @ pkh @ '' is missing''\<rparr>]
         | FileValid level \<Rightarrow> []
         | _ \<Rightarrow>
             [\<lparr>is_kind = KindWatermarkCorrupt, is_severity = Critical, is_partition = DataPartition,
               is_remedy = remedy, is_action = stage_action,
               is_message = ''watermark file '' @ wf_name f @ '' for key '' @ pkh @ '' failed to decode''\<rparr>])"

definition valid_levels :: "watermark_file list \<Rightarrow> u32 list" where
  "valid_levels fs = List.map_filter (\<lambda>f. case wf_status f of FileValid level \<Rightarrow> Some level | _ \<Rightarrow> None) fs"

text \<open>The issues of a key, and whether it has a valid file.\<close>

definition classify_key_watermarks :: "key_watermarks \<Rightarrow> node_chain option \<Rightarrow> bool \<Rightarrow> issue list \<times> bool" where
  "classify_key_watermarks key node seeds_pending =
     (let remedy = watermark_remedy node; stage_action = map_option StageBootConfig node
      in if \<not> kw_dir_present key then
           ((if \<not> seeds_pending then
               [\<lparr>is_kind = KindWatermarkDirMissing, is_severity = Critical, is_partition = DataPartition,
                 is_remedy = remedy, is_action = stage_action,
                 is_message = ''the watermark directory for key '' @ kw_pkh key @ '' is missing''\<rparr>]
             else []), False)
         else
           let ownership_bad = \<not> owner_ok (kw_dir_owner key) \<or>
                 list_ex (\<lambda>f. \<not> owner_ok (wf_owner f)) (kw_files key);
               levels = valid_levels (kw_files key);
               min_level = (if levels = [] then None else Some (Min (set levels)))
           in (concat (map (classify_watermark_file (kw_pkh key) node) (kw_files key)) @
               (case (node, min_level) of
                  (Some n, Some level) \<Rightarrow>
                    if floor_significantly_behind level n then
                      [\<lparr>is_kind = KindWatermarkBelowHead, is_severity = Warning, is_partition = DataPartition,
                        is_remedy = remedy, is_action = stage_action,
                        is_message = ''the watermark floor for key '' @ kw_pkh key @ '' is level '' @
                          show_u32 level @ '', more than '' @ show_u32 LARGE_GAP_CYCLES @
                          '' cycles behind the node head '' @ show_u32 (nc_level n)\<rparr>]
                    else []
                | _ \<Rightarrow> []) @
               (if ownership_bad then
                  [\<lparr>is_kind = KindOwnershipDrift, is_severity = Critical, is_partition = DataPartition,
                    is_remedy = HostDirect, is_action = Some (ChownWatermarks (kw_pkh key)),
                    is_message = ''watermark files for key '' @ kw_pkh key @ '' are not owned '' @
                      owner_text DEVICE_UID DEVICE_GID @ ''; the device cannot update them''\<rparr>]
                else []),
               levels \<noteq> []))"

definition classify_watermarks :: "card_state \<Rightarrow> node_chain option \<Rightarrow> issue list" where
  "classify_watermarks state node =
     (let seeds_pending = staged_config_seeds_watermarks state node;
          results = map (\<lambda>key. classify_key_watermarks key node seeds_pending) (cs_watermarks state)
      in concat (map fst results) @
         (if list_ex snd results \<and> node = None then
            [\<lparr>is_kind = KindWatermarkNodeUnknown, is_severity = Info, is_partition = DataPartition,
              is_remedy = NeedsNode, is_action = None,
              is_message = ''watermark floors cannot be compared to the node head without a node endpoint''\<rparr>]
          else []))"

definition classify_logs :: "card_state \<Rightarrow> issue list" where
  "classify_logs state =
     (if \<not> cs_logs_dir_present state then
        [\<lparr>is_kind = KindLogsDirMissing, is_severity = Info, is_partition = DataPartition,
          is_remedy = Manual, is_action = None,
          is_message = ''/data/logs is missing; the device recreates it on boot''\<rparr>]
      else []) @
     (case cs_panic_log_size state of
        Some n \<Rightarrow>
          if PANIC_LOG_MAX_BYTES < n then
            [\<lparr>is_kind = KindPanicLogOversized, is_severity = Warning, is_partition = DataPartition,
              is_remedy = HostDirect, is_action = Some TruncatePanicLog,
              is_message = ''panic.log is '' @ show_nat n @ '' bytes, over the '' @
                show_nat PANIC_LOG_MAX_BYTES @ ''-byte cap; it can be truncated''\<rparr>]
          else []
      | None \<Rightarrow> [])"

section \<open>The classifier\<close>

definition not_inspected_issues :: "card_state \<Rightarrow> node_chain option \<Rightarrow> issue list" where
  "not_inspected_issues state node =
     [\<lparr>is_kind = KindF2fsNotInspected, is_severity = Warning, is_partition = KeysPartition,
       is_remedy = Manual, is_action = None,
       is_message =
         (if cs_inspection state = NotCapable
          then ''the host kernel cannot mount f2fs, so the keys and data partitions '' @
               ''were not inspected; run 'check disk' on an f2fs-capable host to diagnose them''
          else ''the keys or data partition could not be mounted, so they were not '' @
               ''inspected; check that the card is readable and that mounting f2fs is permitted'')\<rparr>] @
     (case node of
        Some n \<Rightarrow>
          if cs_inspection state = NotCapable then
            [\<lparr>is_kind = KindFatStageAvailable, is_severity = Info, is_partition = BootPartition,
              is_remedy = FatStage, is_action = Some (StageBootConfig n),
              is_message = ''the host cannot mount f2fs to repair the keys and data partitions '' @
                ''directly; a watermark-config.json can be staged so the device '' @
                ''configures watermarks and chain_info at level '' @ show_u32 (nc_level n) @
                '' on its next boot''\<rparr>]
          else []
      | None \<Rightarrow> [])"

definition setup_incomplete_issues :: "card_state \<Rightarrow> node_chain option \<Rightarrow> issue list" where
  "setup_incomplete_issues state node =
     [\<lparr>is_kind = KindSetupIncomplete, is_severity = Info, is_partition = KeysPartition,
       is_remedy = Manual, is_action = None,
       is_message = ''first-boot setup has not completed (.setup_complete absent); '' @
         ''the device generates its keys, watermarks, and chain_info on first boot''\<rparr>] @
     (if cs_boot_config state = None then
        [\<lparr>is_kind = KindWatermarkSeedMissing, is_severity = Warning, is_partition = BootPartition,
          is_remedy = (if node \<noteq> None then FatStage else NeedsNode),
          is_action = map_option StageBootConfig node,
          is_message =
            (case node of
               Some n \<Rightarrow> ''the card has no staged watermark-config.json and first-boot '' @
                 ''setup has not completed; a config can be staged so the device '' @
                 ''seeds watermarks and chain_info at level '' @ show_u32 (nc_level n) @
                 '' on its next boot''
             | None \<Rightarrow> ''the card has no staged watermark-config.json and first-boot '' @
                 ''setup has not completed; provide a node endpoint to stage one '' @
                 ''so the device seeds its authenticated watermark floor'')\<rparr>]
      else [])"

definition classify :: "card_state \<Rightarrow> node_chain option \<Rightarrow> issue list" where
  "classify state node =
     classify_boot_config state node @
     (if cs_inspection state \<noteq> Inspected then not_inspected_issues state node
      else
        (if cs_migration_pending state then
           [\<lparr>is_kind = KindMigrationPending, is_severity = Info, is_partition = KeysPartition,
             is_remedy = Manual, is_action = None,
             is_message = ''a pending v1->v2 PIN-blob migration is present; the device '' @
               ''completes it on boot and the disk check leaves it untouched''\<rparr>]
         else []) @
        (if \<not> cs_setup_complete state then setup_incomplete_issues state node
         else classify_keys state @ classify_chain_info state node @ classify_watermarks state node @
           classify_logs state))"

section \<open>What the verdicts mean\<close>

named_theorems classify_defs "the parts of the classifier"

lemmas [classify_defs] = classify_boot_config_def classify_keys_def classify_chain_info_def
  classify_watermarks_def classify_key_watermarks_def classify_watermark_file_def classify_logs_def
  not_inspected_issues_def setup_incomplete_issues_def chain_info_owner_issue_def stale_delete_def

definition critical :: "issue list \<Rightarrow> bool" where
  "critical issues = list_ex (\<lambda>i. is_severity i = Critical) issues"

lemma critical_simps [simp]:
  "critical [] = False" "critical (i # is) \<longleftrightarrow> is_severity i = Critical \<or> critical is"
  "critical (is @ js) \<longleftrightarrow> critical is \<or> critical js"
  "critical (concat iss) \<longleftrightarrow> list_ex critical iss"
  by (auto simp: critical_def list_ex_iff)

text \<open>The watermark files of a key let the device sign with it.\<close>

definition key_ready :: "bool \<Rightarrow> key_watermarks \<Rightarrow> bool" where
  "key_ready seeds_pending key \<longleftrightarrow>
     (if kw_dir_present key
      then owner_ok (kw_dir_owner key) \<and>
        (\<forall>f \<in> set (kw_files key). owner_ok (wf_owner f) \<and> (\<exists>level. wf_status f = FileValid level))
      else seeds_pending)"

definition card_ready :: "card_state \<Rightarrow> node_chain option \<Rightarrow> bool" where
  "card_ready state node \<longleftrightarrow>
     (\<exists>aliases pkhs. cs_keys state = KeysParsed aliases pkhs) \<and>
     (\<exists>i m owner. cs_chain_info state = ChainInfoPresent i m owner \<and> owner_ok owner) \<and>
     (\<forall>key \<in> set (cs_watermarks state). key_ready (staged_config_seeds_watermarks state node) key)"

lemma critical_boot_config: "\<not> critical (classify_boot_config state node)"
  by (auto simp: classify_boot_config_def stale_delete_def Let_def split: option.split)

lemma critical_keys: "critical (classify_keys state) \<longleftrightarrow> (\<nexists>aliases pkhs. cs_keys state = KeysParsed aliases pkhs)"
  by (auto simp: classify_keys_def list_ex_iff Let_def split: keys_state.split)

lemma critical_chain_info:
  "critical (classify_chain_info state node) \<longleftrightarrow>
     \<not> (\<exists>i m owner. cs_chain_info state = ChainInfoPresent i m owner \<and> owner_ok owner)"
  by (auto simp: classify_chain_info_def chain_info_owner_issue_def Let_def
      split: chain_info_state.split option.split prod.split)

lemma critical_file:
  "critical (classify_watermark_file pkh node f) \<longleftrightarrow> (\<nexists>level. wf_status f = FileValid level)"
  by (auto simp: classify_watermark_file_def Let_def split: watermark_file_status.split)

lemma critical_key_watermarks:
  "critical (fst (classify_key_watermarks key node seeds_pending)) \<longleftrightarrow> \<not> key_ready seeds_pending key"
  by (auto simp: classify_key_watermarks_def key_ready_def Let_def list_ex_iff critical_file
      split: option.split)

lemma critical_watermarks:
  "critical (classify_watermarks state node) \<longleftrightarrow>
     \<not> (\<forall>key \<in> set (cs_watermarks state). key_ready (staged_config_seeds_watermarks state node) key)"
  by (auto simp: classify_watermarks_def Let_def list_ex_iff critical_key_watermarks)

lemma critical_logs: "\<not> critical (classify_logs state)"
  by (auto simp: classify_logs_def split: option.split)

lemma critical_iff_not_ready:
  assumes "cs_inspection state = Inspected" "cs_setup_complete state"
  shows "critical (classify state node) \<longleftrightarrow> \<not> card_ready state node"
  using assms by (auto simp: classify_def card_ready_def critical_boot_config critical_keys
      critical_chain_info critical_watermarks critical_logs)

text \<open>A card in perfect state, against a node, and with nothing staged: there is nothing to report.\<close>

definition good_card :: "card_state \<Rightarrow> node_chain \<Rightarrow> bool" where
  "good_card state n \<longleftrightarrow>
     cs_inspection state = Inspected \<and> cs_setup_complete state \<and> \<not> cs_migration_pending state \<and>
     cs_boot_config state = None \<and>
     (\<exists>aliases pkhs. cs_keys state = KeysParsed aliases pkhs \<and> (\<forall>role. device_alias role \<in> set aliases)) \<and>
     (\<exists>m owner. cs_chain_info state = ChainInfoPresent (nc_id n) m owner \<and> owner_ok owner \<and>
        m \<in> {None, Some CHAIN_INFO_MODE}) \<and>
     (\<forall>key \<in> set (cs_watermarks state). kw_dir_present key \<and> key_ready False key \<and>
        (\<forall>level \<in> set (valid_levels (kw_files key)). \<not> floor_significantly_behind level n)) \<and>
     cs_logs_dir_present state \<and>
     (\<forall>s. cs_panic_log_size state = Some s \<longrightarrow> s \<le> PANIC_LOG_MAX_BYTES)"

lemma good_key_no_issue:
  assumes "kw_dir_present key" "key_ready False key"
    "\<forall>level \<in> set (valid_levels (kw_files key)). \<not> floor_significantly_behind level n"
  shows "fst (classify_key_watermarks key (Some n) seeds_pending) = []"
proof -
  have files: "classify_watermark_file (kw_pkh key) (Some n) f = []" if "f \<in> set (kw_files key)" for f
    using assms(1,2) that by (auto simp: key_ready_def classify_watermark_file_def Let_def)
  have "\<not> floor_significantly_behind (Min (set (valid_levels (kw_files key)))) n"
    if "valid_levels (kw_files key) \<noteq> []"
    using assms(3) that Min_in [of "set (valid_levels (kw_files key))"] by auto
  then show ?thesis
    using assms(1,2) files
    by (auto simp: classify_key_watermarks_def key_ready_def Let_def list_ex_iff)
qed

lemma good_card_no_issue:
  assumes "good_card state n"
  shows "classify state (Some n) = []"
proof -
  have "classify_keys state = []"
    using assms by (auto simp: good_card_def classify_keys_def Let_def list_ex_iff)
  moreover have "classify_chain_info state (Some n) = []"
    using assms by (auto simp: good_card_def classify_chain_info_def Let_def)
  moreover have "classify_watermarks state (Some n) = []"
    using assms by (auto simp: good_card_def classify_watermarks_def Let_def good_key_no_issue)
  moreover have "classify_logs state = []"
    using assms by (auto simp: good_card_def classify_logs_def not_less split: option.split)
  ultimately show ?thesis
    using assms by (auto simp: good_card_def classify_def classify_boot_config_def)
qed

text \<open>The fixable split: an issue carries a repair exactly when it counts as fixable.\<close>

definition action_matches :: "issue \<Rightarrow> bool" where
  "action_matches i \<longleftrightarrow> (is_action i \<noteq> None \<longleftrightarrow> remedy_is_fixable (is_remedy i))"

lemma actions_match_files: "list_all action_matches (classify_watermark_file pkh node f)"
  by (cases node; auto simp: classify_watermark_file_def action_matches_def watermark_remedy_def Let_def
      split: watermark_file_status.split)

lemma actions_match_key: "list_all action_matches (fst (classify_key_watermarks key node seeds))"
proof -
  have "list_all action_matches (concat (map (classify_watermark_file (kw_pkh key) node) (kw_files key)))"
    using actions_match_files [of "kw_pkh key" node] by (induction "kw_files key") (auto simp: list_all_iff)
  then show ?thesis
    by (cases node; simp add: classify_key_watermarks_def Let_def)
      (simp_all add: action_matches_def watermark_remedy_def)
qed

lemma actions_match: "list_all action_matches (classify state node)"
proof -
  have "list_all action_matches (classify_boot_config state node)"
    by (auto simp: classify_boot_config_def stale_delete_def action_matches_def Let_def split: option.split)
  moreover have "list_all action_matches (not_inspected_issues state node)"
    by (auto simp: not_inspected_issues_def action_matches_def split: option.split)
  moreover have "list_all action_matches (setup_incomplete_issues state node)"
    by (auto simp: setup_incomplete_issues_def action_matches_def split: option.split)
  moreover have "list_all action_matches (classify_keys state)"
    by (auto simp: classify_keys_def action_matches_def list_all_iff Let_def split: keys_state.split)
  moreover have "list_all action_matches (classify_chain_info state node)"
    by (cases node; auto simp: classify_chain_info_def chain_info_owner_issue_def action_matches_def
        node_backed_remedy_def Let_def split: chain_info_state.split option.split prod.split)
  moreover have "list_all action_matches (classify_watermarks state node)"
  proof -
    have "list_all action_matches (concat (map (\<lambda>key. fst (classify_key_watermarks key node seeds)) keys))"
      for seeds keys
      using actions_match_key by (induction keys) auto
    then show ?thesis
      by (simp add: classify_watermarks_def Let_def o_def) (simp add: action_matches_def)
  qed
  moreover have "list_all action_matches (classify_logs state)"
    by (auto simp: classify_logs_def action_matches_def split: option.split)
  ultimately show ?thesis
    by (simp add: classify_def action_matches_def)
qed

end
