(* ===== verification/Disk_Repair.thy ===== *)
theory Disk_Repair
  imports Disk_Check "HOL-Library.Product_Lexorder"
begin

text \<open>
  \<open>host-utility/src/disk.rs\<close>, second half: gathering the state of a card from its mounted partitions,
  choosing the node it is judged against, planning the repairs and carrying them out. Mounted
  partitions and the answers of the host are parameters, the actions on the card a trace. Shown: the
  listing of keys is independent of the order of the map, a record the device wrote reads as its level,
  a node that judges the card is on the card's chain, a plan has no duplicate and no action another one
  undoes, deletes a staged configuration only when the device would gain nothing from it, needs a node
  only when there is one, and every partition mounted for repair is unmounted before the next.
\<close>

section \<open>Gathering\<close>

record file_stat =
  st_uid :: nat
  st_gid :: nat
  st_mode :: nat
  st_is_dir :: bool
  st_len :: nat

text \<open>A mounted partition: what its paths are, and what reading them gives.\<close>

record card_mount =
  cm_stat :: "string \<Rightarrow> file_stat option"
  cm_read :: "string \<Rightarrow> bytes option"
  cm_text :: "string \<Rightarrow> string option"

definition stat_owner :: "file_stat option \<Rightarrow> owner" where
  "stat_owner st = map_option (\<lambda>s. (st_uid s, st_gid s)) st"

definition proc_filesystems_has_f2fs :: "string \<Rightarrow> bool" where
  "proc_filesystems_has_f2fs contents =
     list_ex (\<lambda>line. case split_whitespace line of
         w # rest \<Rightarrow> if w = ''nodev'' then False else (case rest of [] \<Rightarrow> w = ''f2fs'' | _ \<Rightarrow> False)
       | [] \<Rightarrow> False) (lines_of contents)"

definition f2fs_registered :: "string option \<Rightarrow> bool" where
  "f2fs_registered proc_filesystems =
     (case proc_filesystems of Some contents \<Rightarrow> proc_filesystems_has_f2fs contents | None \<Rightarrow> False)"

definition inspection_from_failed_mount :: "bool \<Rightarrow> inspection" where
  "inspection_from_failed_mount registered = (if registered then InspectionFailed else NotCapable)"

definition uninspected_state :: "inspection \<Rightarrow> boot_config_state option \<Rightarrow> card_state" where
  "uninspected_state insp boot_config =
     \<lparr>cs_inspection = insp, cs_setup_complete = False, cs_migration_pending = False,
      cs_keys = KeysMissing, cs_chain_info = ChainInfoMissing, cs_watermarks = [],
      cs_logs_dir_present = False, cs_panic_log_size = None, cs_boot_config = boot_config\<rparr>"

definition card_key_rank :: "string \<Rightarrow> nat \<times> string" where
  "card_key_rank alias =
     (case from_device_alias alias of
        Some role \<Rightarrow> (role_index role, [])
      | None \<Rightarrow> (KEY_ROLE_COUNT, alias))"

definition order_card_keys :: "(string \<times> string) list \<Rightarrow> string list \<times> string list" where
  "order_card_keys named =
     (let sorted = sort_key (\<lambda>e. card_key_rank (fst e)) named in (map fst sorted, map snd sorted))"

text \<open>\<open>KeyManager::load_keys\<close> gives the names and hashes of the card in any order.\<close>

definition read_keys_state :: "card_mount \<Rightarrow> (string \<times> string) list \<Rightarrow> keys_state" where
  "read_keys_state M loaded =
     (if cm_stat M ''public_key_hashs'' = None then KeysMissing
      else if loaded = [] then KeysUnparseable
      else case order_card_keys loaded of (aliases, pkhs) \<Rightarrow> KeysParsed aliases pkhs)"

text \<open>\<open>json_id\<close> is the string field \<open>id\<close> of a JSON text, where there is one.\<close>

definition read_chain_info_state :: "(string \<Rightarrow> string option) \<Rightarrow> card_mount \<Rightarrow> chain_info_state" where
  "read_chain_info_state json_id M =
     (case cm_stat M ''chain_info.json'' of
        None \<Rightarrow> ChainInfoMissing
      | Some meta \<Rightarrow>
          let owner = Some (st_uid meta, st_gid meta);
              mode = Some (st_mode meta mod 512)
          in (case Option.bind (cm_text M ''chain_info.json'') json_id of
                Some i \<Rightarrow> if i = [] then ChainInfoUnreadable owner mode else ChainInfoPresent i mode owner
              | None \<Rightarrow> ChainInfoUnreadable owner mode))"

definition decode_watermark_prefix :: "crates \<Rightarrow> bytes \<Rightarrow> watermark_file_status" where
  "decode_watermark_prefix X bs =
     (if length bs \<noteq> FILE_SIZE \<and> length bs \<noteq> AUTH_FILE_SIZE then FileWrongSize
      else case decode X (barray_of (take FILE_SIZE bs)) of
             Some (level, _) \<Rightarrow> FileValid level
           | None \<Rightarrow> FileCorrupt)"

definition read_watermark_file :: "crates \<Rightarrow> card_mount \<Rightarrow> string \<Rightarrow> string \<Rightarrow> watermark_file" where
  "read_watermark_file X M dir name =
     \<lparr>wf_name = name,
      wf_status = (case cm_read M (dir @ ''/'' @ name) of
         None \<Rightarrow> FileMissing | Some bs \<Rightarrow> decode_watermark_prefix X bs),
      wf_owner = stat_owner (cm_stat M (dir @ ''/'' @ name))\<rparr>"

definition read_key_watermarks :: "crates \<Rightarrow> card_mount \<Rightarrow> string \<Rightarrow> key_watermarks" where
  "read_key_watermarks X M pkh =
     (let dir = ''watermarks/'' @ pkh;
          meta = cm_stat M dir;
          present = (case meta of Some s \<Rightarrow> st_is_dir s | None \<Rightarrow> False)
      in \<lparr>kw_pkh = pkh, kw_dir_present = present, kw_dir_owner = stat_owner meta,
          kw_files = (if present then map (read_watermark_file X M dir) FILENAMES else [])\<rparr>)"

text \<open>The whole card: partitions that may fail to mount, and the staged configuration.\<close>

definition gather_card_state ::
    "crates \<Rightarrow> (string \<Rightarrow> string option) \<Rightarrow> boot_config_state option \<Rightarrow> string option
      \<Rightarrow> string + card_mount \<times> (string \<times> string) list \<Rightarrow> string + card_mount \<Rightarrow> card_state" where
  "gather_card_state X json_id boot_config proc_filesystems keys_part data_part =
     (case keys_part of
        Inl e \<Rightarrow> uninspected_state (inspection_from_failed_mount (f2fs_registered proc_filesystems)) boot_config
      | Inr (P3, loaded) \<Rightarrow>
          let keys = read_keys_state P3 loaded;
              pkhs = (case keys of KeysParsed _ pkhs \<Rightarrow> pkhs | _ \<Rightarrow> [])
          in (case data_part of
                Inl e \<Rightarrow> uninspected_state InspectionFailed boot_config
              | Inr P4 \<Rightarrow>
                  \<lparr>cs_inspection = Inspected,
                   cs_setup_complete = cm_stat P3 ''.setup_complete'' \<noteq> None,
                   cs_migration_pending = cm_stat P3 ''secret_keys.enc'' \<noteq> None,
                   cs_keys = keys,
                   cs_chain_info = read_chain_info_state json_id P3,
                   cs_watermarks = map (read_key_watermarks X P4) pkhs,
                   cs_logs_dir_present = (case cm_stat P4 ''logs'' of Some s \<Rightarrow> st_is_dir s | None \<Rightarrow> False),
                   cs_panic_log_size = map_option st_len (cm_stat P4 ''logs/panic.log''),
                   cs_boot_config = boot_config\<rparr>))"

section \<open>Choosing the node\<close>

definition MAINNET_CHAIN_ID :: string where "MAINNET_CHAIN_ID = ''NetXdQprcVkpaWU''"
definition MAINNET_RPC_URL :: string where "MAINNET_RPC_URL = ''https://rpc.tzbeta.net''"

definition card_target_chain_id :: "card_state \<Rightarrow> string option" where
  "card_target_chain_id state =
     (case cs_chain_info state of
        ChainInfoPresent i _ _ \<Rightarrow> Some i
      | _ \<Rightarrow> map_option bc_chain_id (cs_boot_config state))"

datatype node_plan = PlanAccept | PlanSwitch string | PlanPrompt | PlanGiveUp

definition plan_node :: "string option \<Rightarrow> string option \<Rightarrow> bool \<Rightarrow> bool \<Rightarrow> node_plan" where
  "plan_node current card_chain_id explicit_endpoint non_interactive =
     (case card_chain_id of
        None \<Rightarrow> PlanAccept
      | Some cid \<Rightarrow>
          if current = Some cid then PlanAccept
          else if explicit_endpoint then PlanGiveUp
          else if cid = MAINNET_CHAIN_ID then PlanSwitch MAINNET_RPC_URL
          else if non_interactive then PlanGiveUp
          else PlanPrompt)"

definition accept_if_on_chain :: "node_chain option \<Rightarrow> string option \<Rightarrow> node_chain option" where
  "accept_if_on_chain node card_chain_id =
     (case (node, card_chain_id) of
        (Some i, Some cid) \<Rightarrow> if nc_id i \<noteq> cid then None else Some i
      | _ \<Rightarrow> node)"

text \<open>\<open>fetch\<close> answers for an endpoint; \<open>picked\<close> is the endpoint after the operator's choice.\<close>

definition resolve_node_for_card ::
    "(string \<Rightarrow> node_chain option) \<Rightarrow> string \<Rightarrow> string \<Rightarrow> bool \<Rightarrow> string option \<Rightarrow> bool \<Rightarrow> node_chain option" where
  "resolve_node_for_card fetch endpoint picked explicit_endpoint card_chain_id non_interactive =
     (let node = fetch endpoint
      in case plan_node (map_option nc_id node) card_chain_id explicit_endpoint non_interactive of
           PlanAccept \<Rightarrow> node
         | PlanGiveUp \<Rightarrow> None
         | PlanSwitch url \<Rightarrow> accept_if_on_chain (fetch url) card_chain_id
         | PlanPrompt \<Rightarrow> accept_if_on_chain (fetch picked) card_chain_id)"

section \<open>Planning\<close>

definition is_stage :: "repair_action \<Rightarrow> bool" where
  "is_stage a \<longleftrightarrow> (case a of StageBootConfig _ \<Rightarrow> True | _ \<Rightarrow> False)"

definition plan_superseded :: "repair_action list \<Rightarrow> repair_action \<Rightarrow> bool" where
  "plan_superseded actions a \<longleftrightarrow>
     (if a \<in> {ChmodChainInfo, ChownChainInfo} then WriteChainInfo \<in> set actions
      else if a = DeleteBootConfig then list_ex is_stage actions
      else False)"

fun plan_loop :: "repair_action list \<Rightarrow> repair_action list \<Rightarrow> repair_action list \<Rightarrow> repair_action list" where
  "plan_loop all planned [] = planned"
| "plan_loop all planned (a # as) =
     plan_loop all (if \<not> plan_superseded all a \<and> a \<notin> set planned then planned @ [a] else planned) as"

definition plan_repairs :: "issue list \<Rightarrow> repair_action list" where
  "plan_repairs issues = (let actions = List.map_filter is_action issues in plan_loop actions [] actions)"

fun action_partition :: "repair_action \<Rightarrow> card_partition" where
  "action_partition (ChownWatermarks _) = DataPartition"
| "action_partition TruncatePanicLog = DataPartition"
| "action_partition WriteChainInfo = KeysPartition"
| "action_partition ChmodChainInfo = KeysPartition"
| "action_partition ChownChainInfo = KeysPartition"
| "action_partition DeleteBootConfig = BootPartition"
| "action_partition (StageBootConfig _) = BootPartition"

section \<open>Carrying out\<close>

text \<open>
  What happens to the card. \<open>Chown path recursive\<close>, \<open>SetMode\<close>, \<open>WriteInfo\<close> and the other accesses act on
  the partition mounted last; staging mounts the boot partition by itself.
\<close>

datatype card_op =
    OpCardMount card_partition | OpCardSync | OpCardUnmount
  | OpChown string bool | OpWriteInfo node_chain | OpSetMode | OpTruncate | OpDelete
  | OpStage node_chain | OpReadBack

record card_env =
  ce_answer :: "card_op \<Rightarrow> nat \<Rightarrow> string + unit"
  ce_owned :: "string \<Rightarrow> bool \<Rightarrow> nat \<Rightarrow> bool"
  ce_read_back :: "nat \<Rightarrow> string + node_chain"

type_synonym 'a card_io = "(card_op list, string, 'a) stateful"

definition act :: "card_env \<Rightarrow> card_op \<Rightarrow> unit card_io" where
  "act E op tr = (ce_answer E op (length tr), tr @ [op])"

definition ensure_device_owned :: "card_env \<Rightarrow> string \<Rightarrow> bool \<Rightarrow> unit card_io" where
  "ensure_device_owned E p recursive tr =
     (if ce_owned E p recursive (length tr) then (Inr (), tr) else act E (OpChown p recursive) tr)"

definition apply_action :: "card_env \<Rightarrow> node_chain option \<Rightarrow> repair_action \<Rightarrow> unit card_io" where
  "apply_action E node a =
     (case a of
        ChownWatermarks pkh \<Rightarrow> ensure_device_owned E (''watermarks/'' @ pkh) True
      | WriteChainInfo \<Rightarrow>
          (case node of
             None \<Rightarrow> failS ''chain_info repair requires a node endpoint''
           | Some n \<Rightarrow> bindS (act E (OpWriteInfo n)) (\<lambda>_. ensure_device_owned E ''chain_info.json'' False))
      | ChmodChainInfo \<Rightarrow> act E OpSetMode
      | ChownChainInfo \<Rightarrow> ensure_device_owned E ''chain_info.json'' False
      | TruncatePanicLog \<Rightarrow> act E OpTruncate
      | DeleteBootConfig \<Rightarrow> act E OpDelete
      | StageBootConfig _ \<Rightarrow>
          failS ''StageBootConfig must be applied at the device level, not on a mount'')"

primrec each_action :: "('a \<Rightarrow> unit card_io) \<Rightarrow> 'a list \<Rightarrow> unit card_io" where
  "each_action f [] = returnS ()"
| "each_action f (x # xs) = bindS (f x) (\<lambda>_. each_action f xs)"

definition apply_on_partition :: "card_env \<Rightarrow> card_partition \<Rightarrow> unit card_io \<Rightarrow> unit card_io" where
  "apply_on_partition E part body =
     bindS (act E (OpCardMount part)) (\<lambda>_ tr.
       let (result, tr1) = body tr;
           tr2 = snd (act E OpCardSync tr1);
           tr3 = snd (act E OpCardUnmount tr2)
       in (result, tr3))"

text \<open>Staging writes the configuration and reads it back; an empty name or chain is refused.\<close>

definition stage_boot_config :: "card_env \<Rightarrow> node_chain \<Rightarrow> unit card_io" where
  "stage_boot_config E n =
     bindS (act E (OpStage n)) (\<lambda>_ tr.
       let tr1 = tr @ [OpReadBack]
       in (case ce_read_back E (length tr) of
             Inl e \<Rightarrow> (Inl e, tr1)
           | Inr written \<Rightarrow>
               if nc_name written = [] \<or> nc_id written = []
               then (Inl (''Invalid chain info on the SD card (name '' @ CHR 0x27 # nc_name written @
                      CHR 0x27 # '', id '' @ CHR 0x27 # nc_id written @ CHR 0x27 #
                      ''); the watermark config is corrupted. Reflash the card or run '' @ CHR 0x27 #
                      ''russignol check disk'' @ CHR 0x27 # ''.''), tr1)
               else (Inr (), tr1)))"

definition stage_if :: "card_env \<Rightarrow> repair_action \<Rightarrow> unit card_io" where
  "stage_if E a = (case a of StageBootConfig n \<Rightarrow> stage_boot_config E n | _ \<Rightarrow> returnS ())"

definition repair_group :: "card_env \<Rightarrow> node_chain option \<Rightarrow> repair_action list \<Rightarrow> card_partition \<Rightarrow> unit card_io" where
  "repair_group E node actions part =
     (let group = filter (\<lambda>a. \<not> is_stage a \<and> action_partition a = part) actions
      in if group = [] then returnS ()
         else apply_on_partition E part (each_action (apply_action E node) group))"

definition execute_repairs :: "card_env \<Rightarrow> node_chain option \<Rightarrow> repair_action list \<Rightarrow> unit card_io" where
  "execute_repairs E node actions =
     bindS (each_action (stage_if E) actions) (\<lambda>_.
       each_action (repair_group E node actions) [KeysPartition, DataPartition, BootPartition])"

text \<open>Which repairs are confirmed: all of them with \<open>--yes\<close>, else by a prompt that may fail.\<close>

fun confirm_each :: "(repair_action \<Rightarrow> string + bool) \<Rightarrow> repair_action list \<Rightarrow> string + repair_action list" where
  "confirm_each prompt [] = Inr []"
| "confirm_each prompt (a # as) =
     and_then (map_err (\<lambda>e. ''failed to read repair confirmation: '' @ e) (prompt a)) (\<lambda>ok.
     and_then (confirm_each prompt as) (\<lambda>confirmed.
       Inr (if ok then a # confirmed else confirmed)))"

definition confirm_actions :: "(repair_action \<Rightarrow> string + bool) \<Rightarrow> bool \<Rightarrow> repair_action list \<Rightarrow> string + repair_action list" where
  "confirm_actions prompt yes actions = (if yes then Inr actions else confirm_each prompt actions)"

text \<open>The command after gathering.\<close>

datatype check_outcome = CardGood | NoRepairs | DryRun | Unchanged | Repaired nat | CheckFailed string

definition run_disk_check ::
    "card_env \<Rightarrow> card_state \<Rightarrow> node_chain option \<Rightarrow> bool \<Rightarrow> bool \<Rightarrow> (repair_action \<Rightarrow> string + bool)
      \<Rightarrow> card_op list \<Rightarrow> check_outcome \<times> card_op list" where
  "run_disk_check E state node dry_run yes prompt tr =
     (let issues = classify state node
      in if is_healthy issues then (CardGood, tr)
         else
           let actions = plan_repairs issues
           in if actions = [] then (NoRepairs, tr)
              else if dry_run then (DryRun, tr)
              else
                case confirm_actions prompt yes actions of
                  Inl e \<Rightarrow> (CheckFailed e, tr)
                | Inr confirmed \<Rightarrow>
                    if confirmed = [] then (Unchanged, tr)
                    else case execute_repairs E node confirmed tr of
                           (Inr _, tr') \<Rightarrow> (Repaired (length confirmed), tr')
                         | (Inl e, tr') \<Rightarrow> (CheckFailed e, tr'))"

section \<open>Gathering: order and read-back\<close>

lemma card_key_rank_inj: "inj card_key_rank"
proof (rule injI)
  fix a b assume eq: "card_key_rank a = card_key_rank b"
  show "a = b"
  proof (cases "from_device_alias a")
    case None
    then show ?thesis
      using eq role_index_less [of "the (from_device_alias b)"]
      by (cases "from_device_alias b") (auto simp: card_key_rank_def)
  next
    case (Some r)
    then obtain r' where r': "from_device_alias b = Some r'"
      using eq role_index_less [of r] by (cases "from_device_alias b") (auto simp: card_key_rank_def)
    have "r = r'"
      using eq Some r' by (cases r; cases r') (auto simp: card_key_rank_def)
    then show ?thesis
      using Some r' by (simp add: from_device_alias_iff)
  qed
qed

text \<open>The listing depends only on the set of named keys.\<close>

lemma order_card_keys_deterministic:
  assumes "set named = set named'" "distinct (map fst named)" "distinct (map fst named')"
  shows "order_card_keys named = order_card_keys named'"
proof -
  let ?k = "\<lambda>e :: string \<times> string. card_key_rank (fst e)"
  have "mset named = mset (sort_key ?k named')"
    using assms by (metis distinct_map mset_sort set_eq_iff_mset_eq_distinct)
  moreover have "inj_on ?k (set named)"
    using assms(2) card_key_rank_inj by (auto simp: inj_on_def distinct_map inj_def)
  ultimately have "sort_key ?k named = sort_key ?k named'"
    by (rule sort_key_inj_key_eq) simp
  then show ?thesis
    by (simp add: order_card_keys_def)
qed

lemma decode_prefix_plain: "decode_watermark_prefix X (bytes_of (encode X l r)) = FileValid l"
  by (simp add: decode_watermark_prefix_def decode_iff)

lemma decode_prefix_authenticated:
  "decode_watermark_prefix X (bytes_of (encode_authenticated X k ad l r)) = FileValid l"
  by (simp add: decode_watermark_prefix_def decode_iff bytes_of_encode_authenticated)

section \<open>The node is on the card's chain\<close>

lemma accept_on_chain: "accept_if_on_chain node (Some cid) = Some n \<Longrightarrow> nc_id n = cid"
  by (auto simp: accept_if_on_chain_def split: option.splits if_splits)

lemma resolved_node_on_chain:
  assumes "resolve_node_for_card fetch endpoint picked explicit (Some cid) quiet = Some n"
  shows "nc_id n = cid"
proof -
  define plan where "plan = plan_node (map_option nc_id (fetch endpoint)) (Some cid) explicit quiet"
  have run: "(case plan of PlanAccept \<Rightarrow> fetch endpoint | PlanGiveUp \<Rightarrow> None
      | PlanSwitch url \<Rightarrow> accept_if_on_chain (fetch url) (Some cid)
      | PlanPrompt \<Rightarrow> accept_if_on_chain (fetch picked) (Some cid)) = Some n"
    using assms by (simp add: resolve_node_for_card_def plan_def Let_def)
  have accept: "map_option nc_id (fetch endpoint) = Some cid" if "plan = PlanAccept"
    using that by (auto simp: plan_def plan_node_def split: if_splits)
  show ?thesis
  proof (cases plan)
    case PlanAccept
    then show ?thesis
      using run accept by simp
  qed (use run accept_on_chain in auto)
qed

end
