(* ===== verification/Disk_Safety.thy ===== *)
theory Disk_Safety
  imports Disk_Repair
begin

text \<open>
  The contract of \<open>check disk --repair\<close> (\<open>host-utility/src/disk.rs\<close>): every planned repair is justified by
  the state of the card, the plan has no redundant action, carrying it out keeps the mounts in order and
  does what was confirmed, and on a card that takes the repairs a second check finds nothing left that
  the host could repair in place.
\<close>

section \<open>Every planned action is justified\<close>

text \<open>
  A staged configuration may be deleted when it is for another chain than the node's, or when the card
  has the chain information and every key already has valid marks at or above it.
\<close>

definition deletable :: "card_state \<Rightarrow> node_chain option \<Rightarrow> bool" where
  "deletable state node \<longleftrightarrow>
     (\<exists>bc n. cs_boot_config state = Some bc \<and> node = Some n \<and>
        (nc_id n \<noteq> bc_chain_id bc \<or> boot_config_superseded state (nc_id n) bc))"

definition justified :: "card_state \<Rightarrow> node_chain option \<Rightarrow> repair_action \<Rightarrow> bool" where
  "justified state node a \<longleftrightarrow>
     (case a of
        ChownWatermarks pkh \<Rightarrow> \<exists>key \<in> set (cs_watermarks state). kw_pkh key = pkh \<and> kw_dir_present key
      | WriteChainInfo \<Rightarrow> node \<noteq> None
      | StageBootConfig n \<Rightarrow> node = Some n
      | DeleteBootConfig \<Rightarrow> deletable state node
      | TruncatePanicLog \<Rightarrow> \<exists>n. cs_panic_log_size state = Some n \<and> PANIC_LOG_MAX_BYTES < n
      | ChmodChainInfo \<Rightarrow> \<exists>i m owner. cs_chain_info state = ChainInfoPresent i (Some m) owner \<and> m \<noteq> CHAIN_INFO_MODE
      | ChownChainInfo \<Rightarrow> cs_chain_info state \<noteq> ChainInfoMissing \<and> \<not> owner_ok (cis_owner (cs_chain_info state)))"

definition carries :: "(repair_action \<Rightarrow> bool) \<Rightarrow> issue list \<Rightarrow> bool" where
  "carries P = list_all (\<lambda>i. case is_action i of None \<Rightarrow> True | Some a \<Rightarrow> P a)"

lemma carries_simps [simp]:
  "carries P []" "carries P (i # is) \<longleftrightarrow> (case is_action i of None \<Rightarrow> True | Some a \<Rightarrow> P a) \<and> carries P is"
  "carries P (is @ js) \<longleftrightarrow> carries P is \<and> carries P js"
  "carries P (concat iss) \<longleftrightarrow> list_all (carries P) iss"
  by (simp_all add: carries_def list_all_iff, blast?)

lemma carries_files:
  "(\<And>n. node = Some n \<Longrightarrow> P (StageBootConfig n)) \<Longrightarrow> carries P (classify_watermark_file pkh node f)"
  by (cases node; auto simp: classify_watermark_file_def Let_def split: watermark_file_status.split)

lemma carries_key:
  assumes "\<And>n. node = Some n \<Longrightarrow> P (StageBootConfig n)" "kw_dir_present key \<Longrightarrow> P (ChownWatermarks (kw_pkh key))"
  shows "carries P (fst (classify_key_watermarks key node seeds))"
proof -
  have "list_all (carries P) (map (classify_watermark_file (kw_pkh key) node) (kw_files key))"
    using carries_files [of node P, OF assms(1)] by (simp add: list_all_iff)
  then show ?thesis
    using assms by (cases node; auto simp: classify_key_watermarks_def Let_def split: option.split)
qed

lemma classify_justified: "carries (justified state node) (classify state node)"
proof -
  let ?P = "justified state node"
  have stage: "?P (StageBootConfig n)" if "node = Some n" for n
    using that by (simp add: justified_def)
  have "carries ?P (classify_boot_config state node)"
    by (auto simp: classify_boot_config_def stale_delete_def justified_def deletable_def Let_def
        split: option.split)
  moreover have "carries ?P (not_inspected_issues state node)"
    using stage by (cases node) (auto simp: not_inspected_issues_def)
  moreover have "carries ?P (setup_incomplete_issues state node)"
    using stage by (cases node) (auto simp: setup_incomplete_issues_def)
  moreover have "carries ?P (classify_keys state)"
    by (auto simp: classify_keys_def Let_def list_all_iff split: keys_state.split)
  moreover have "carries ?P (classify_chain_info state node)"
    by (cases node; auto simp: classify_chain_info_def chain_info_owner_issue_def justified_def Let_def
        split: chain_info_state.split option.split prod.split)
  moreover have "carries ?P (classify_watermarks state node)"
  proof -
    have "carries ?P (fst (classify_key_watermarks key node seeds))" if "key \<in> set (cs_watermarks state)" for key seeds
      by (rule carries_key) (use that stage in \<open>auto simp: justified_def\<close>)
    then show ?thesis
      by (simp add: classify_watermarks_def Let_def list_all_iff)
  qed
  moreover have "carries ?P (classify_logs state)"
    by (auto simp: classify_logs_def justified_def split: option.split)
  ultimately show ?thesis
    by (simp add: classify_def)
qed

section \<open>The plan\<close>

lemma set_plan_loop: "set (plan_loop all planned as) = set planned \<union> {a \<in> set as. \<not> plan_superseded all a}"
  by (induction "all" planned as rule: plan_loop.induct) auto

lemma distinct_plan_loop: "distinct planned \<Longrightarrow> distinct (plan_loop all planned as)"
  by (induction "all" planned as rule: plan_loop.induct) auto

definition issue_actions :: "issue list \<Rightarrow> repair_action list" where
  "issue_actions issues = List.map_filter is_action issues"

lemma issue_actions_iff: "a \<in> set (issue_actions issues) \<longleftrightarrow> (\<exists>i \<in> set issues. is_action i = Some a)"
  by (force simp: issue_actions_def List.map_filter_def)

lemma set_plan_repairs:
  "set (plan_repairs issues) =
     {a. (\<exists>i \<in> set issues. is_action i = Some a) \<and> \<not> plan_superseded (issue_actions issues) a}"
  by (auto simp: plan_repairs_def set_plan_loop issue_actions_def [symmetric] issue_actions_iff Let_def)

lemma distinct_plan: "distinct (plan_repairs issues)"
  by (simp add: plan_repairs_def distinct_plan_loop Let_def)

lemma plan_justified: "a \<in> set (plan_repairs (classify state node)) \<Longrightarrow> justified state node a"
  using classify_justified [of state node]
  by (auto simp: set_plan_repairs carries_def list_all_iff split: option.splits)

lemma stages_iff: "list_ex is_stage actions \<longleftrightarrow> (\<exists>n. StageBootConfig n \<in> set actions)"
proof
  assume "list_ex is_stage actions"
  then obtain a where a: "a \<in> set actions" "is_stage a"
    by (auto simp: list_ex_iff)
  obtain n where "a = StageBootConfig n"
    using a(2) by (cases a) (simp_all add: is_stage_def)
  then show "\<exists>n. StageBootConfig n \<in> set actions"
    using a by blast
qed (force simp: list_ex_iff is_stage_def)

lemma plan_no_undo:
  "DeleteBootConfig \<in> set (plan_repairs issues) \<Longrightarrow> StageBootConfig n \<notin> set (plan_repairs issues)"
  "WriteChainInfo \<in> set (plan_repairs issues) \<Longrightarrow>
     ChmodChainInfo \<notin> set (plan_repairs issues) \<and> ChownChainInfo \<notin> set (plan_repairs issues)"
  by (auto simp: set_plan_repairs plan_superseded_def issue_actions_iff stages_iff)

text \<open>Nothing an issue asks for is lost: it is planned, or an action of the plan covers it.\<close>

lemma plan_complete:
  assumes "i \<in> set issues" "is_action i = Some a"
  shows "a \<in> set (plan_repairs issues) \<or>
    a \<in> {ChmodChainInfo, ChownChainInfo} \<and> WriteChainInfo \<in> set (plan_repairs issues) \<or>
    a = DeleteBootConfig \<and> (\<exists>n. StageBootConfig n \<in> set (plan_repairs issues))"
  using assms
  by (auto simp: set_plan_repairs plan_superseded_def issue_actions_iff stages_iff split: if_splits)

section \<open>Mounts stay in order\<close>

fun op_home :: "card_op \<Rightarrow> card_partition" where
  "op_home (OpChown p recursive) = (if recursive then DataPartition else KeysPartition)"
| "op_home OpTruncate = DataPartition"
| "op_home (OpWriteInfo n) = KeysPartition"
| "op_home OpSetMode = KeysPartition"
| "op_home _ = BootPartition"

text \<open>
  The partition mounted after a step; \<open>None\<close> when the step is out of order: a mount or a staging while
  a partition is mounted, an access outside the mount of its partition.
\<close>

definition mount_step :: "card_env \<Rightarrow> nat \<Rightarrow> card_partition option \<Rightarrow> card_op \<Rightarrow> card_partition option option" where
  "mount_step E n m op =
     (case op of
        OpCardMount p \<Rightarrow> if m = None then Some (if is_ok (ce_answer E op n) then Some p else None) else None
      | OpCardUnmount \<Rightarrow> if m = None then None else Some None
      | OpCardSync \<Rightarrow> Some m
      | OpStage _ \<Rightarrow> if m = None then Some None else None
      | OpReadBack \<Rightarrow> if m = None then Some None else None
      | _ \<Rightarrow> if m = Some (op_home op) then Some m else None)"

fun mount_track :: "card_env \<Rightarrow> nat \<Rightarrow> card_partition option \<Rightarrow> card_op list \<Rightarrow> card_partition option option" where
  "mount_track E n m [] = Some m"
| "mount_track E n m (op # ops) = Option.bind (mount_step E n m op) (\<lambda>m'. mount_track E (n + 1) m' ops)"

lemma mount_track_snoc:
  "mount_track E n m (ops @ [op]) = Option.bind (mount_track E n m ops) (\<lambda>m'. mount_step E (n + length ops) m' op)"
  by (induction ops arbitrary: n m) (auto split: Option.bind_splits)

definition tracked :: "card_env \<Rightarrow> card_partition option \<Rightarrow> card_op list \<Rightarrow> bool" where
  "tracked E m tr \<longleftrightarrow> mount_track E 0 None tr = Some m"

lemma tracked_snoc: "tracked E m tr \<Longrightarrow> mount_step E (length tr) m op = Some m' \<Longrightarrow> tracked E m' (tr @ [op])"
  by (simp add: tracked_def mount_track_snoc)

definition keeps_mount :: "card_env \<Rightarrow> card_partition option \<Rightarrow> 'a card_io \<Rightarrow> bool" where
  "keeps_mount E m f \<longleftrightarrow> (\<forall>tr. tracked E m tr \<longrightarrow> tracked E m (snd (f tr)))"

lemma keeps_mount_bindS: "keeps_mount E m f \<Longrightarrow> (\<And>x. keeps_mount E m (g x)) \<Longrightarrow> keeps_mount E m (bindS f g)"
  by (auto simp: keeps_mount_def bindS_def split: prod.split sum.split)

lemma keeps_pure: "keeps_mount E m (returnS x)" "keeps_mount E m (failS e)"
  by (simp_all add: keeps_mount_def returnS_def failS_def)

lemma keeps_act: "(\<And>n. mount_step E n m op = Some m) \<Longrightarrow> keeps_mount E m (act E op)"
  by (simp add: keeps_mount_def act_def tracked_snoc)

lemma keeps_each: "(\<And>x. x \<in> set xs \<Longrightarrow> keeps_mount E m (f x)) \<Longrightarrow> keeps_mount E m (each_action f xs)"
  by (induction xs) (auto intro: keeps_mount_bindS keeps_pure)

lemma keeps_owned:
  "(\<And>n. mount_step E n m (OpChown p r) = Some m) \<Longrightarrow> keeps_mount E m (ensure_device_owned E p r)"
  by (simp add: keeps_mount_def ensure_device_owned_def act_def tracked_snoc)

lemma keeps_action: "keeps_mount E (Some (action_partition a)) (apply_action E node a)"
  by (cases a; cases node)
    (auto simp: apply_action_def mount_step_def intro!: keeps_act keeps_owned keeps_mount_bindS keeps_pure)

lemma keeps_on_partition:
  assumes body: "keeps_mount E (Some p) body"
  shows "keeps_mount E None (apply_on_partition E p body)"
proof (unfold keeps_mount_def, intro allI impI)
  fix tr assume tr: "tracked E None tr"
  show "tracked E None (snd (apply_on_partition E p body tr))"
  proof (cases "ce_answer E (OpCardMount p) (length tr)")
    case (Inl e)
    then have "tracked E None (tr @ [OpCardMount p])"
      using Inl by (intro tracked_snoc [OF tr]) (simp add: mount_step_def)
    then show ?thesis
      using Inl by (simp add: apply_on_partition_def bindS_def act_def)
  next
    case (Inr u)
    then have "tracked E (Some p) (tr @ [OpCardMount p])"
      using Inr by (intro tracked_snoc [OF tr]) (simp add: mount_step_def)
    then have b: "tracked E (Some p) (snd (body (tr @ [OpCardMount p])))"
      using body by (simp add: keeps_mount_def)
    have c: "tracked E (Some p) (snd (body (tr @ [OpCardMount p])) @ [OpCardSync])"
      by (rule tracked_snoc [OF b]) (simp add: mount_step_def)
    have "tracked E None ((snd (body (tr @ [OpCardMount p])) @ [OpCardSync]) @ [OpCardUnmount])"
      by (rule tracked_snoc [OF c]) (simp add: mount_step_def)
    then show ?thesis
      using Inr by (simp add: apply_on_partition_def bindS_def act_def Let_def case_prod_beta)
  qed
qed

lemma keeps_stage: "keeps_mount E None (stage_boot_config E n)"
proof -
  have "keeps_mount E None (\<lambda>tr. (r tr, tr @ [OpReadBack]))" for r :: "card_op list \<Rightarrow> string + unit"
    by (simp add: keeps_mount_def tracked_snoc mount_step_def)
  moreover have "stage_boot_config E n = bindS (act E (OpStage n)) (\<lambda>_ tr. (fst (case ce_read_back E (length tr) of
        Inl e \<Rightarrow> (Inl e, tr @ [OpReadBack])
      | Inr written \<Rightarrow> if nc_name written = [] \<or> nc_id written = []
          then (Inl (''Invalid chain info on the SD card (name '' @ CHR 0x27 # nc_name written @
                      CHR 0x27 # '', id '' @ CHR 0x27 # nc_id written @ CHR 0x27 #
                      ''); the watermark config is corrupted. Reflash the card or run '' @ CHR 0x27 #
                      ''russignol check disk'' @ CHR 0x27 # ''.''), tr @ [OpReadBack])
          else (Inr (), tr @ [OpReadBack])), tr @ [OpReadBack]))"
    by (auto simp: stage_boot_config_def Let_def fun_eq_iff intro!: arg_cong [where f = "\<lambda>f. bindS _ f _"]
        split: sum.split)
  ultimately show ?thesis
    by (auto intro!: keeps_mount_bindS keeps_act simp: mount_step_def)
qed

lemma execute_keeps_mounts: "keeps_mount E None (execute_repairs E node actions)"
proof -
  have "keeps_mount E None (stage_if E a)" for a
    by (cases a) (auto simp: stage_if_def intro: keeps_stage keeps_pure)
  moreover have "keeps_mount E None (repair_group E node actions p)" for p
    unfolding repair_group_def Let_def
    using keeps_action
    by (auto intro!: keeps_pure keeps_on_partition keeps_each)
  ultimately show ?thesis
    unfolding execute_repairs_def by (auto intro!: keeps_mount_bindS keeps_each keeps_pure)
qed

section \<open>What was confirmed is done\<close>

text \<open>The access a successful repair leaves on the trace; restoring an ownership may find it right.\<close>

definition carried_out :: "node_chain option \<Rightarrow> repair_action \<Rightarrow> card_op set \<Rightarrow> bool" where
  "carried_out node a ops \<longleftrightarrow>
     (case a of
        WriteChainInfo \<Rightarrow> \<exists>n. node = Some n \<and> OpWriteInfo n \<in> ops
      | ChmodChainInfo \<Rightarrow> OpSetMode \<in> ops
      | TruncatePanicLog \<Rightarrow> OpTruncate \<in> ops
      | DeleteBootConfig \<Rightarrow> OpDelete \<in> ops
      | StageBootConfig n \<Rightarrow> OpStage n \<in> ops \<and> OpReadBack \<in> ops
      | _ \<Rightarrow> True)"

lemma carried_out_mono: "carried_out node a ops \<Longrightarrow> ops \<subseteq> ops' \<Longrightarrow> carried_out node a ops'"
  by (auto simp: carried_out_def split: repair_action.splits)

definition extends :: "'a card_io \<Rightarrow> bool" where
  "extends f \<longleftrightarrow> (\<forall>tr. set tr \<subseteq> set (snd (f tr)))"

lemma extends_bindS: "extends f \<Longrightarrow> (\<And>x. extends (g x)) \<Longrightarrow> extends (bindS f g)"
  unfolding extends_def bindS_def
  by (auto split: prod.split sum.split) (metis in_mono snd_conv)+

lemma extends_pure: "extends (returnS x)" "extends (failS e)" "extends (act E op)"
    "extends (ensure_device_owned E p r)"
  by (auto simp: extends_def returnS_def failS_def act_def ensure_device_owned_def)

lemma extends_each: "(\<And>x. extends (f x)) \<Longrightarrow> extends (each_action f xs)"
  by (induction xs) (auto intro: extends_bindS extends_pure)

lemma extends_action: "extends (apply_action E node a)"
  by (cases a; cases node) (auto simp: apply_action_def intro!: extends_bindS extends_pure)

lemma each_action_done:
  assumes ext: "\<And>x. extends (f x)"
    and step: "\<And>x tr u tr'. f x tr = (Inr u, tr') \<Longrightarrow> x \<in> set xs \<Longrightarrow> Q x (set tr')"
    and mono: "\<And>x A B. Q x A \<Longrightarrow> A \<subseteq> B \<Longrightarrow> Q x B"
    and run: "each_action f xs tr = (Inr u, tr')"
  shows "\<forall>x \<in> set xs. Q x (set tr')"
  using step run
proof (induction xs arbitrary: tr)
  case Nil
  then show ?case
    by simp
next
  case (Cons x xs)
  obtain v tr1 where x: "f x tr = (Inr v, tr1)" and rest: "each_action f xs tr1 = (Inr u, tr')"
    using Cons.prems(2) by (auto simp: bindS_Inr_iff)
  have "Q x (set tr1)"
    using Cons.prems(1) x by auto
  moreover have "set tr1 \<subseteq> set tr'"
    using extends_each [where f = f and xs = xs, OF ext] rest unfolding extends_def by (metis snd_conv)
  moreover have "\<forall>y \<in> set xs. Q y (set tr')"
    using Cons.IH [OF _ rest] Cons.prems(1) by (meson list.set_intros(2))
  ultimately show ?case
    using mono by auto
qed

lemma extends_on_partition: "extends body \<Longrightarrow> extends (apply_on_partition E p body)"
proof -
  assume body: "extends body"
  have "set tr \<subseteq> set (snd (body (tr @ [OpCardMount p])))" for tr
    using body [unfolded extends_def, rule_format, of "tr @ [OpCardMount p]"] by simp
  then show ?thesis
    by (auto simp: extends_def apply_on_partition_def bindS_def act_def Let_def case_prod_beta split: sum.split)
qed

lemma extends_stage: "extends (stage_if E a)"
  by (cases a) (auto simp: stage_if_def stage_boot_config_def extends_def bindS_def act_def returnS_def
      Let_def split: sum.split prod.split)

lemma extends_group: "extends (repair_group E node actions p)"
  unfolding repair_group_def Let_def
  by (auto intro!: extends_pure extends_on_partition extends_each extends_action)

lemma apply_action_done:
  assumes "apply_action E node a tr = (Inr u, tr')"
  shows "carried_out node a (set tr')"
  using assms
  by (cases a; cases node)
    (auto simp: apply_action_def carried_out_def failS_def bindS_Inr_iff act_def ensure_device_owned_def
      split: if_splits)

lemma stage_done:
  assumes "stage_if E a tr = (Inr u, tr')" "is_stage a"
  shows "carried_out node a (set tr')"
  using assms
  by (cases a) (auto simp: stage_if_def stage_boot_config_def carried_out_def is_stage_def bindS_Inr_iff
      act_def Let_def split: sum.splits if_splits)

lemma group_done:
  assumes "repair_group E node actions p tr = (Inr u, tr')"
    "a \<in> set actions" "\<not> is_stage a" "action_partition a = p"
  shows "carried_out node a (set tr')"
proof -
  let ?group = "filter (\<lambda>a. \<not> is_stage a \<and> action_partition a = p) actions"
  have mem: "a \<in> set ?group"
    using assms(2-4) by simp
  then have "?group \<noteq> []"
    by (metis list.set(1) empty_iff)
  then have "apply_on_partition E p (each_action (apply_action E node) ?group) tr = (Inr u, tr')"
    using assms(1) by (simp add: repair_group_def Let_def)
  then obtain tr1 where tr1: "each_action (apply_action E node) ?group (tr @ [OpCardMount p]) = (Inr u, tr1)"
    and sub: "set tr1 \<subseteq> set tr'"
    by (cases "each_action (apply_action E node) ?group (tr @ [OpCardMount p])")
      (fastforce simp: apply_on_partition_def bindS_Inr_iff act_def Let_def)
  have "\<forall>b \<in> set ?group. carried_out node b (set tr1)"
    by (rule each_action_done [where f = "apply_action E node" and Q = "carried_out node", OF extends_action apply_action_done
          carried_out_mono tr1])
  then show ?thesis
    using mem carried_out_mono [OF _ sub] by blast
qed

text \<open>Staging first, then the three partitions.\<close>

lemma execute_done:
  assumes run: "execute_repairs E node actions tr = (Inr u, tr')" and a: "a \<in> set actions"
  shows "carried_out node a (set tr')"
proof -
  let ?parts = "[KeysPartition, DataPartition, BootPartition]"
  obtain v tr1 where stages: "each_action (stage_if E) actions tr = (Inr v, tr1)"
    and groups: "each_action (repair_group E node actions) ?parts tr1 = (Inr u, tr')"
    using run unfolding execute_repairs_def bindS_Inr_iff by blast
  show ?thesis
  proof (cases "is_stage a")
    case True
    have "\<forall>b \<in> set actions. is_stage b \<longrightarrow> carried_out node b (set tr1)"
      by (rule each_action_done [where f = "stage_if E" and Q = "\<lambda>b S. is_stage b \<longrightarrow> carried_out node b S", OF extends_stage _ _ stages])
        (use stage_done carried_out_mono in blast)+
    then have "carried_out node a (set tr1)"
      using a True by blast
    moreover have "set tr1 \<subseteq> set tr'"
      using extends_each [where f = "repair_group E node actions" and xs = ?parts, OF extends_group] groups
      unfolding extends_def by (metis snd_conv)
    ultimately show ?thesis
      by (rule carried_out_mono)
  next
    case False
    have "\<forall>p \<in> set ?parts. \<forall>b \<in> set actions. \<not> is_stage b \<longrightarrow> action_partition b = p \<longrightarrow>
        carried_out node b (set tr')"
      by (rule each_action_done [where f = "repair_group E node actions" and Q = "\<lambda>p S. \<forall>b \<in> set actions.
          \<not> is_stage b \<longrightarrow> action_partition b = p \<longrightarrow> carried_out node b S", OF extends_group _ _ groups])
        (use group_done carried_out_mono in blast)+
    moreover have "action_partition a \<in> set ?parts"
      by (cases a) auto
    ultimately show ?thesis
      using a False by blast
  qed
qed

section \<open>A second check after the repairs\<close>

text \<open>The effect of a repair on the state the next check gathers.\<close>

definition device_owner :: owner where
  "device_owner = Some (DEVICE_UID, DEVICE_GID)"

definition own_key :: "key_watermarks \<Rightarrow> key_watermarks" where
  "own_key key = key\<lparr>kw_dir_owner := device_owner,
     kw_files := map (\<lambda>f. f\<lparr>wf_owner := device_owner\<rparr>) (kw_files key)\<rparr>"

definition repair_effect :: "node_chain option \<Rightarrow> repair_action \<Rightarrow> card_state \<Rightarrow> card_state" where
  "repair_effect node a state =
     (case a of
        ChownWatermarks pkh \<Rightarrow> state\<lparr>cs_watermarks :=
          map (\<lambda>k. if kw_pkh k = pkh then own_key k else k) (cs_watermarks state)\<rparr>
      | WriteChainInfo \<Rightarrow> (case node of
            Some n \<Rightarrow> state\<lparr>cs_chain_info := ChainInfoPresent (nc_id n) (Some CHAIN_INFO_MODE) device_owner\<rparr>
          | None \<Rightarrow> state)
      | ChmodChainInfo \<Rightarrow> state\<lparr>cs_chain_info := (case cs_chain_info state of
            ChainInfoPresent i m owner \<Rightarrow> ChainInfoPresent i (Some CHAIN_INFO_MODE) owner | c \<Rightarrow> c)\<rparr>
      | ChownChainInfo \<Rightarrow> state\<lparr>cs_chain_info := (case cs_chain_info state of
            ChainInfoPresent i m owner \<Rightarrow> ChainInfoPresent i m device_owner | c \<Rightarrow> c)\<rparr>
      | TruncatePanicLog \<Rightarrow> state\<lparr>cs_panic_log_size := Some 0\<rparr>
      | DeleteBootConfig \<Rightarrow> state\<lparr>cs_boot_config := None\<rparr>
      | StageBootConfig n \<Rightarrow> state\<lparr>cs_boot_config := Some \<lparr>bc_chain_id = nc_id n, bc_level = nc_level n\<rparr>\<rparr>)"

definition repaired :: "node_chain option \<Rightarrow> repair_action list \<Rightarrow> card_state \<Rightarrow> card_state" where
  "repaired node = fold (repair_effect node)"

lemma repaired_frame:
  "cs_inspection (repaired node as state) = cs_inspection state"
  "cs_setup_complete (repaired node as state) = cs_setup_complete state"
  "cs_migration_pending (repaired node as state) = cs_migration_pending state"
  "cs_keys (repaired node as state) = cs_keys state"
  "cs_logs_dir_present (repaired node as state) = cs_logs_dir_present state"
  by (induction as arbitrary: state)
    (auto simp: repaired_def repair_effect_def split: repair_action.split option.split)

lemma repaired_panic_log:
  "cs_panic_log_size (repaired node as state) =
     (if TruncatePanicLog \<in> set as then Some 0 else cs_panic_log_size state)"
  by (induction as arbitrary: state)
    (auto simp: repaired_def repair_effect_def split: repair_action.split option.split)

lemma repaired_watermarks:
  "cs_watermarks (repaired node as state) =
     map (\<lambda>k. if ChownWatermarks (kw_pkh k) \<in> set as then own_key k else k) (cs_watermarks state)"
  by (induction as arbitrary: state)
    (auto simp: repaired_def repair_effect_def own_key_def split: repair_action.split option.split)

lemma repaired_boot_config:
  "(\<forall>n. StageBootConfig n \<notin> set as) \<Longrightarrow> cs_boot_config (repaired node as state) =
     (if DeleteBootConfig \<in> set as then None else cs_boot_config state)"
proof (induction as arbitrary: state)
  case (Cons a as)
  then show ?case
    by (cases a) (auto simp: repaired_def repair_effect_def split: option.split)
qed (simp add: repaired_def)

lemma repaired_boot_config_staged:
  "DeleteBootConfig \<notin> set as \<Longrightarrow> (\<forall>m. StageBootConfig m \<in> set as \<longrightarrow> m = n) \<Longrightarrow>
   cs_boot_config (repaired node as state) =
     (if StageBootConfig n \<in> set as then Some \<lparr>bc_chain_id = nc_id n, bc_level = nc_level n\<rparr>
      else cs_boot_config state)"
proof (induction as arbitrary: state)
  case (Cons a as)
  let ?s = "repair_effect node a state"
  have rest: "cs_boot_config (repaired node (a # as) state) =
      (if StageBootConfig n \<in> set as then Some \<lparr>bc_chain_id = nc_id n, bc_level = nc_level n\<rparr>
       else cs_boot_config ?s)"
    using Cons.IH [of ?s] Cons.prems by (simp add: repaired_def)
  show ?case
  proof (cases "a = StageBootConfig n")
    case True
    then show ?thesis
      using rest by (simp add: repair_effect_def)
  next
    case False
    then have "\<forall>m. a \<noteq> StageBootConfig m" "a \<noteq> DeleteBootConfig"
      using Cons.prems by auto
    then have "cs_boot_config ?s = cs_boot_config state"
      by (cases a) (simp_all add: repair_effect_def split: option.split)
    then show ?thesis
      using rest False by simp
  qed
qed (simp add: repaired_def)

lemma repaired_chain_info:
  assumes "cs_chain_info state = ChainInfoPresent i m owner" "WriteChainInfo \<notin> set as"
  shows "cs_chain_info (repaired node as state) =
    ChainInfoPresent i (if ChmodChainInfo \<in> set as then Some CHAIN_INFO_MODE else m)
      (if ChownChainInfo \<in> set as then device_owner else owner)"
  using assms
proof (induction as arbitrary: state m owner)
  case Nil
  then show ?case
    by (simp add: repaired_def)
next
  case (Cons a as)
  let ?s = "repair_effect node a state"
  have s: "cs_chain_info ?s = ChainInfoPresent i (if a = ChmodChainInfo then Some CHAIN_INFO_MODE else m)
      (if a = ChownChainInfo then device_owner else owner)"
    using Cons.prems by (cases a) (auto simp: repair_effect_def)
  have "cs_chain_info (repaired node as ?s) =
    ChainInfoPresent i (if ChmodChainInfo \<in> set as then Some CHAIN_INFO_MODE
        else if a = ChmodChainInfo then Some CHAIN_INFO_MODE else m)
      (if ChownChainInfo \<in> set as then device_owner else if a = ChownChainInfo then device_owner else owner)"
    using Cons.IH [OF s] Cons.prems(2) by simp
  then show ?case
    by (auto simp: repaired_def)
qed

lemma repaired_written:
  assumes "WriteChainInfo \<in> set as" "ChmodChainInfo \<notin> set as" "ChownChainInfo \<notin> set as"
  shows "cs_chain_info (repaired (Some n) as state) =
    ChainInfoPresent (nc_id n) (Some CHAIN_INFO_MODE) device_owner"
  using assms
proof (induction as arbitrary: state)
  case (Cons a as)
  show ?case
  proof (cases "WriteChainInfo \<in> set as")
    case True
    then show ?thesis
      using Cons by (simp add: repaired_def)
  next
    case False
    then have a: "a = WriteChainInfo"
      using Cons.prems by auto
    have "cs_chain_info (repaired (Some n) as (repair_effect (Some n) a state)) =
        ChainInfoPresent (nc_id n) (Some CHAIN_INFO_MODE) device_owner"
      using repaired_chain_info [OF _ False, of "repair_effect (Some n) a state" "nc_id n"
          "Some CHAIN_INFO_MODE" device_owner "Some n"] Cons.prems a
      by (simp add: repair_effect_def)
    then show ?thesis
      by (simp add: repaired_def)
  qed
qed simp

text \<open>What asks the host for a repair in place, part by part.\<close>

definition host_asks :: "issue list \<Rightarrow> repair_action set" where
  "host_asks issues = {a. \<exists>i \<in> set issues. is_remedy i = HostDirect \<and> is_action i = Some a}"

lemma host_asks_simps [simp]:
  "host_asks [] = {}"
  "host_asks (i # is) = (if is_remedy i = HostDirect then set_option (is_action i) else {}) \<union> host_asks is"
  "host_asks (is @ js) = host_asks is \<union> host_asks js"
  "host_asks (concat iss) = (\<Union>is \<in> set iss. host_asks is)"
  by (auto simp: host_asks_def)

lemma host_asks_file: "host_asks (classify_watermark_file pkh node f) = {}"
  by (cases node) (auto simp: classify_watermark_file_def watermark_remedy_def Let_def
      split: watermark_file_status.split)

definition ownership_bad :: "key_watermarks \<Rightarrow> bool" where
  "ownership_bad key \<longleftrightarrow> kw_dir_present key \<and>
     (\<not> owner_ok (kw_dir_owner key) \<or> (\<exists>f \<in> set (kw_files key). \<not> owner_ok (wf_owner f)))"

lemma host_asks_key:
  "host_asks (fst (classify_key_watermarks key node seeds)) =
     (if ownership_bad key then {ChownWatermarks (kw_pkh key)} else {})"
  by (cases node) (auto simp: classify_key_watermarks_def ownership_bad_def watermark_remedy_def Let_def
      host_asks_file list_ex_iff split: option.split)

lemma host_asks_watermarks:
  "host_asks (classify_watermarks state node) =
     {ChownWatermarks (kw_pkh key) |key. key \<in> set (cs_watermarks state) \<and> ownership_bad key}"
  by (auto simp: classify_watermarks_def Let_def host_asks_key split: if_splits)

lemma host_asks_logs:
  "host_asks (classify_logs state) =
     (if \<exists>n. cs_panic_log_size state = Some n \<and> PANIC_LOG_MAX_BYTES < n then {TruncatePanicLog} else {})"
  by (auto simp: classify_logs_def split: option.split)

lemma host_asks_keys: "host_asks (classify_keys state) = {}"
  by (auto simp: classify_keys_def Let_def split: keys_state.split)

lemma host_asks_boot: "host_asks (classify_boot_config state node) \<subseteq> {DeleteBootConfig}"
  by (auto simp: classify_boot_config_def stale_delete_def Let_def split: option.split)

definition chain_info_asks :: "string \<Rightarrow> chain_info_state \<Rightarrow> repair_action set" where
  "chain_info_asks node_id c =
     (case c of
        ChainInfoMissing \<Rightarrow> {WriteChainInfo}
      | ChainInfoUnreadable owner _ \<Rightarrow> if owner_ok owner then {WriteChainInfo} else {ChownChainInfo}
      | ChainInfoPresent i m owner \<Rightarrow>
          (if i \<noteq> node_id then {WriteChainInfo} else {}) \<union>
          (if owner_ok owner then {} else {ChownChainInfo}) \<union>
          (if m \<in> {None, Some CHAIN_INFO_MODE} then {} else {ChmodChainInfo}))"

lemma host_asks_chain_info:
  "host_asks (classify_chain_info state (Some n)) = chain_info_asks (nc_id n) (cs_chain_info state)"
  by (auto simp: classify_chain_info_def chain_info_asks_def chain_info_owner_issue_def node_backed_remedy_def
      Let_def split: chain_info_state.split option.split prod.split)

lemma host_asks_classify:
  assumes "cs_inspection state = Inspected" "cs_setup_complete state"
  shows "host_asks (classify state (Some n)) = host_asks (classify_boot_config state (Some n)) \<union>
    chain_info_asks (nc_id n) (cs_chain_info state) \<union>
    {ChownWatermarks (kw_pkh key) |key. key \<in> set (cs_watermarks state) \<and> ownership_bad key} \<union>
    (if \<exists>n. cs_panic_log_size state = Some n \<and> PANIC_LOG_MAX_BYTES < n then {TruncatePanicLog} else {})"
  using assms
  by (simp add: classify_def host_asks_keys host_asks_chain_info host_asks_watermarks host_asks_logs Un_assoc)

lemma asked_is_planned:
  assumes "a \<in> host_asks issues"
    "a \<in> {ChmodChainInfo, ChownChainInfo} \<longrightarrow> WriteChainInfo \<notin> set (plan_repairs issues)" "a \<noteq> DeleteBootConfig"
  shows "a \<in> set (plan_repairs issues)"
  using assms plan_complete by (auto simp: host_asks_def)

lemma own_key_ok: "\<not> ownership_bad (own_key key)"
  by (auto simp: ownership_bad_def own_key_def owner_ok_def device_owner_def)

text \<open>
  After the planned repairs the host has nothing left to repair in place, but for a staged
  configuration that the repairs themselves made superfluous.
\<close>

lemma repairs_converge:
  assumes state: "cs_inspection state = Inspected" "cs_setup_complete state"
    and readable: "\<And>owner m. cs_chain_info state = ChainInfoUnreadable owner m \<Longrightarrow> owner_ok owner"
  shows "host_asks (classify (repaired (Some n) (plan_repairs (classify state (Some n))) state) (Some n))
    \<subseteq> {DeleteBootConfig}"
proof -
  define issues where "issues = classify state (Some n)"
  define P where "P = plan_repairs issues"
  define final where "final = repaired (Some n) P state"
  have asks: "host_asks issues = host_asks (classify_boot_config state (Some n)) \<union>
    chain_info_asks (nc_id n) (cs_chain_info state) \<union>
    {ChownWatermarks (kw_pkh key) |key. key \<in> set (cs_watermarks state) \<and> ownership_bad key} \<union>
    (if \<exists>n. cs_panic_log_size state = Some n \<and> PANIC_LOG_MAX_BYTES < n then {TruncatePanicLog} else {})"
    unfolding issues_def by (rule host_asks_classify [OF state])
  have planned: "a \<in> set P" if "a \<in> host_asks issues"
      "a \<in> {ChmodChainInfo, ChownChainInfo} \<longrightarrow> WriteChainInfo \<notin> set P" "a \<noteq> DeleteBootConfig" for a
    unfolding P_def by (rule asked_is_planned) (use that in \<open>simp_all add: P_def\<close>)
  have "chain_info_asks (nc_id n) (cs_chain_info final) = {}"
  proof (cases "WriteChainInfo \<in> set P")
    case True
    then have "cs_chain_info final = ChainInfoPresent (nc_id n) (Some CHAIN_INFO_MODE) device_owner"
      unfolding final_def using plan_no_undo(2) [of issues] by (intro repaired_written) (auto simp: P_def)
    then show ?thesis
      by (simp add: chain_info_asks_def device_owner_def owner_ok_def)
  next
    case False
    then have "WriteChainInfo \<notin> chain_info_asks (nc_id n) (cs_chain_info state)"
      using planned [of WriteChainInfo] asks by auto
    then obtain m owner where c: "cs_chain_info state = ChainInfoPresent (nc_id n) m owner"
      using readable by (cases "cs_chain_info state") (auto simp: chain_info_asks_def split: if_splits)
    have "ChmodChainInfo \<in> set P" if "m \<notin> {None, Some CHAIN_INFO_MODE}"
      using planned [of ChmodChainInfo] asks c that False by (auto simp: chain_info_asks_def)
    moreover have "ChownChainInfo \<in> set P" if "\<not> owner_ok owner"
      using planned [of ChownChainInfo] asks c that False by (auto simp: chain_info_asks_def)
    ultimately show ?thesis
      using repaired_chain_info [OF c False, of "Some n"]
      by (cases m) (auto simp: final_def chain_info_asks_def device_owner_def owner_ok_def)
  qed
  moreover have "\<not> ownership_bad key" if key: "key \<in> set (cs_watermarks final)" for key
  proof -
    obtain k where k: "k \<in> set (cs_watermarks state)"
      "key = (if ChownWatermarks (kw_pkh k) \<in> set P then own_key k else k)"
      using key by (auto simp: final_def repaired_watermarks)
    show ?thesis
      using k own_key_ok planned [of "ChownWatermarks (kw_pkh k)"] asks by auto
  qed
  moreover have "\<nexists>n. cs_panic_log_size final = Some n \<and> PANIC_LOG_MAX_BYTES < n"
    using planned [of TruncatePanicLog] asks by (auto simp: final_def repaired_panic_log)
  ultimately have "host_asks (classify final (Some n)) \<subseteq> {DeleteBootConfig}"
    using host_asks_classify [of final n] host_asks_boot [of final "Some n"] state
    by (auto simp: final_def repaired_frame)
  then show ?thesis
    by (simp add: final_def P_def issues_def)
qed

end
