(* ===== verification/Disk_Runs.thy ===== *)
theory Disk_Runs
  imports Disk_Safety
begin

text \<open>
  \<open>check disk\<close> as a whole (\<open>run_disk_check\<close> of \<open>host-utility/src/disk.rs\<close>): every access to the card comes
  from a repair that was planned and confirmed, whatever the operator answers and whichever access
  fails; a dry run makes none; and repairing a sample card.
\<close>

section \<open>Accesses come from confirmed repairs\<close>

lemma adds_act [adds_intros]: "P op \<Longrightarrow> adds_only P (act E op)"
  by (simp add: adds_only_def act_def)

lemma adds_owned [adds_intros]: "P (OpChown p r) \<Longrightarrow> adds_only P (ensure_device_owned E p r)"
  by (simp add: adds_only_def ensure_device_owned_def act_def)

lemma adds_each [adds_intros]:
  "(\<And>x. x \<in> set xs \<Longrightarrow> adds_only P (f x)) \<Longrightarrow> adds_only P (each_action f xs)"
  by (induction xs) (auto intro: adds_intros)

lemma adds_on_partition [adds_intros]:
  assumes "P (OpCardMount p)" "P OpCardSync" "P OpCardUnmount" "adds_only P body"
  shows "adds_only P (apply_on_partition E p body)"
proof (unfold adds_only_def, rule allI)
  fix tr
  obtain ops where "snd (body (tr @ [OpCardMount p])) = (tr @ [OpCardMount p]) @ ops" "list_all P ops"
    using assms(4) [unfolded adds_only_def, rule_format, of "tr @ [OpCardMount p]"] by blast
  then show "\<exists>ops. snd (apply_on_partition E p body tr) = tr @ ops \<and> list_all P ops"
    using assms(1-3)
    by (cases "ce_answer E (OpCardMount p) (length tr)")
      (simp_all add: apply_on_partition_def bindS_def act_def Let_def case_prod_beta)
qed

lemma adds_stage [adds_intros]:
  "P (OpStage n) \<Longrightarrow> P OpReadBack \<Longrightarrow> adds_only P (stage_boot_config E n)"
  by (simp add: adds_only_def stage_boot_config_def bindS_def act_def Let_def split: sum.split)

text \<open>What the access is for: the repair it belongs to, if it changes anything.\<close>

fun asked_by :: "node_chain option \<Rightarrow> repair_action list \<Rightarrow> card_op \<Rightarrow> bool" where
  "asked_by node actions OpDelete = (DeleteBootConfig \<in> set actions)"
| "asked_by node actions (OpStage n) = (StageBootConfig n \<in> set actions)"
| "asked_by node actions (OpWriteInfo n) = (WriteChainInfo \<in> set actions \<and> node = Some n)"
| "asked_by node actions OpSetMode = (ChmodChainInfo \<in> set actions)"
| "asked_by node actions OpTruncate = (TruncatePanicLog \<in> set actions)"
| "asked_by node actions (OpChown p recursive) =
     (if recursive then \<exists>pkh. ChownWatermarks pkh \<in> set actions \<and> p = ''watermarks/'' @ pkh
      else p = ''chain_info.json'' \<and> (ChownChainInfo \<in> set actions \<or> WriteChainInfo \<in> set actions))"
| "asked_by node actions op = True"

lemma adds_action:
  assumes "a \<in> set actions"
  shows "adds_only (asked_by node actions) (apply_action E node a)"
  by (cases a; cases node) (use assms in \<open>auto simp: apply_action_def intro!: adds_intros\<close>)

lemma adds_execute: "adds_only (asked_by node actions) (execute_repairs E node actions)"
proof -
  have "adds_only (asked_by node actions) (stage_if E a)" if "a \<in> set actions" for a
    by (cases a) (use that in \<open>auto simp: stage_if_def intro!: adds_intros\<close>)
  moreover have "adds_only (asked_by node actions) (repair_group E node actions p)" for p
    unfolding repair_group_def Let_def by (auto intro!: adds_intros adds_action)
  ultimately show ?thesis
    unfolding execute_repairs_def by (auto intro!: adds_intros)
qed

lemma confirm_each_subset: "confirm_each prompt as = Inr bs \<Longrightarrow> set bs \<subseteq> set as"
proof (induction as arbitrary: bs)
  case (Cons a as)
  then obtain ok cs where cs: "confirm_each prompt as = Inr cs" "bs = (if ok then a # cs else cs)"
    by (auto simp: and_then_Inr_iff)
  then show ?case
    using Cons.IH [OF cs(1)] by auto
qed simp

lemma confirm_actions_subset: "confirm_actions prompt yes as = Inr bs \<Longrightarrow> set bs \<subseteq> set as"
  by (cases yes) (auto simp: confirm_actions_def dest: confirm_each_subset)

lemma asked_by_mono:
  "asked_by node as op \<Longrightarrow> set as \<subseteq> set bs \<Longrightarrow> asked_by node bs op"
  by (cases op) (auto split: if_splits)

section \<open>A run of the command\<close>

text \<open>Either nothing was accessed, or the confirmed part of the plan was carried out.\<close>

lemma run_disk_check_cases:
  assumes "run_disk_check E state node dry_run yes prompt tr = (outcome, tr')"
  obtains (untouched) "tr' = tr" "\<And>k. outcome \<noteq> Repaired k"
  | (executed) confirmed where "\<not> dry_run"
      "confirm_actions prompt yes (plan_repairs (classify state node)) = Inr confirmed"
      "snd (execute_repairs E node confirmed tr) = tr'"
      "\<And>k. outcome = Repaired k \<Longrightarrow>
         \<exists>u. execute_repairs E node confirmed tr = (Inr u, tr') \<and> k = length confirmed"
proof -
  let ?plan = "plan_repairs (classify state node)"
  show thesis
  proof (cases "is_healthy (classify state node) \<or> ?plan = [] \<or> dry_run")
    case True
    then have "tr' = tr \<and> (\<forall>k. outcome \<noteq> Repaired k)"
      using assms by (auto simp: run_disk_check_def Let_def split: if_splits)
    then show thesis
      by (intro untouched) auto
  next
    case False
    then have run: "(case confirm_actions prompt yes ?plan of
          Inl e \<Rightarrow> (CheckFailed e, tr)
        | Inr confirmed \<Rightarrow>
            if confirmed = [] then (Unchanged, tr)
            else case execute_repairs E node confirmed tr of
                   (Inr _, tr') \<Rightarrow> (Repaired (length confirmed), tr')
                 | (Inl e, tr') \<Rightarrow> (CheckFailed e, tr')) = (outcome, tr')"
      using assms by (simp add: run_disk_check_def Let_def)
    show thesis
    proof (cases "confirm_actions prompt yes ?plan")
      case (Inl e)
      then show thesis
        using run untouched by auto
    next
      case (Inr confirmed)
      show thesis
      proof (cases "confirmed = []")
        case True
        then show thesis
          using run Inr untouched by auto
      next
        case no: False
        obtain r tr1 where x: "execute_repairs E node confirmed tr = (r, tr1)"
          by (cases "execute_repairs E node confirmed tr")
        show thesis
          by (rule executed [OF _ Inr]) (use False run Inr no x in \<open>auto split: sum.splits\<close>)
      qed
    qed
  qed
qed

lemma run_asked:
  assumes "run_disk_check E state node dry_run yes prompt [] = (outcome, tr)" "op \<in> set tr"
  shows "asked_by node (plan_repairs (classify state node)) op"
  using assms(1)
proof (cases rule: run_disk_check_cases)
  case untouched
  then show ?thesis
    using assms(2) by simp
next
  case (executed confirmed)
  obtain ops where "snd (execute_repairs E node confirmed []) = [] @ ops" "list_all (asked_by node confirmed) ops"
    using adds_execute [of node confirmed E, unfolded adds_only_def, rule_format, of "[]"] by blast
  then have "asked_by node confirmed op"
    using executed(3) assms(2) by (auto simp: list_all_iff)
  then show ?thesis
    using asked_by_mono confirm_actions_subset [OF executed(2)] by blast
qed

lemma run_mounts:
  assumes "run_disk_check E state node dry_run yes prompt [] = (outcome, tr)"
  shows "mount_track E 0 None tr = Some None"
proof -
  have start: "tracked E None []"
    by (simp add: tracked_def)
  show ?thesis
    using assms
  proof (cases rule: run_disk_check_cases)
    case untouched
    then show ?thesis
      by simp
  next
    case (executed confirmed)
    have "tracked E None (snd (execute_repairs E node confirmed []))"
      using execute_keeps_mounts [of E node confirmed] start unfolding keeps_mount_def by blast
    then show ?thesis
      using executed(3) by (simp add: tracked_def)
  qed
qed

lemma run_done:
  assumes "run_disk_check E state node dry_run True prompt [] = (Repaired k, tr)"
    "a \<in> set (plan_repairs (classify state node))"
  shows "carried_out node a (set tr)"
  using assms(1)
proof (cases rule: run_disk_check_cases)
  case untouched
  then show ?thesis
    using untouched(2) [of k] by simp
next
  case (executed confirmed)
  then have c: "confirmed = plan_repairs (classify state node)"
    by (simp add: confirm_actions_def)
  obtain u where "execute_repairs E node confirmed [] = (Inr u, tr)"
    using executed(4) [OF refl] by blast
  then show ?thesis
    using execute_done assms(2) c by blast
qed

lemma dry_run_untouched:
  "run_disk_check E state node True yes prompt tr = (outcome, tr') \<Longrightarrow> tr' = tr"
  by (erule run_disk_check_cases) simp_all

section \<open>A sample card\<close>

text \<open>
  A card that was set up for a chain \<open>C\<close>, with the chain information owned by root, one key whose
  second mark file is gone, and a large panic log.
\<close>

definition sample_node :: node_chain where
  "sample_node = \<lparr>nc_id = ''C'', nc_level = 5000, nc_name = ''net'', nc_blocks_per_cycle = 100\<rparr>"

definition sample_card :: card_state where
  "sample_card = \<lparr>cs_inspection = Inspected, cs_setup_complete = True, cs_migration_pending = False,
     cs_keys = KeysParsed [device_alias Consensus, device_alias Companion] [''tz4A'', ''tz4B''],
     cs_chain_info = ChainInfoPresent ''C'' (Some CHAIN_INFO_MODE) (Some (0, 0)),
     cs_watermarks = [\<lparr>kw_pkh = ''tz4A'', kw_dir_present = True, kw_dir_owner = Some (1000, 1000),
       kw_files = [\<lparr>wf_name = ''block'', wf_status = FileValid 4990, wf_owner = Some (1000, 1000)\<rparr>,
                   \<lparr>wf_name = ''attestation'', wf_status = FileMissing, wf_owner = None\<rparr>]\<rparr>],
     cs_logs_dir_present = True, cs_panic_log_size = Some 2000000, cs_boot_config = None\<rparr>"

definition working_card :: card_env where
  "working_card = \<lparr>ce_answer = (\<lambda>op n. Inr ()), ce_owned = (\<lambda>p r n. False),
     ce_read_back = (\<lambda>n. Inr sample_node)\<rparr>"

lemma sample_card_simps [simp]:
  "cs_inspection sample_card = Inspected" "cs_setup_complete sample_card"
  "cs_chain_info sample_card = ChainInfoPresent ''C'' (Some CHAIN_INFO_MODE) (Some (0, 0))"
  by (simp_all add: sample_card_def)

lemma sample_actions:
  "List.map_filter is_action (classify sample_card (Some sample_node)) =
     [ChownChainInfo, StageBootConfig sample_node, TruncatePanicLog]"
  by (simp add: classify_def classify_defs sample_card_def sample_node_def KEY_ROLE_ALL_def owner_ok_def
      DEVICE_UID_def DEVICE_GID_def CHAIN_INFO_MODE_def PANIC_LOG_MAX_BYTES_def valid_levels_def
      List.map_filter_def floor_significantly_behind_def saturating_mul_u32_def LARGE_GAP_CYCLES_def
      saturating_sub_u32_def Let_def staged_config_seeds_watermarks_def)

lemma sample_plan:
  "plan_repairs (classify sample_card (Some sample_node)) =
     [ChownChainInfo, StageBootConfig sample_node, TruncatePanicLog]"
  by (simp add: plan_repairs_def sample_actions Let_def plan_superseded_def)

lemma sample_repaired:
  assumes "run_disk_check working_card sample_card (Some sample_node) False True prompt [] = (outcome, tr)"
  shows "outcome = Repaired 3"
proof -
  have "\<not> is_healthy (classify sample_card (Some sample_node))"
  proof
    assume "is_healthy (classify sample_card (Some sample_node))"
    moreover have "critical (classify sample_card (Some sample_node))"
      by (subst critical_iff_not_ready) (simp_all add: card_ready_def sample_card_def key_ready_def)
    ultimately show False
      by (auto simp: is_healthy_def critical_def list_ex_iff)
  qed
  moreover have "nc_name sample_node \<noteq> []" "nc_id sample_node \<noteq> []"
    by (simp_all add: sample_node_def)
  ultimately show ?thesis
    using assms
    by (auto simp: numeral_3_eq_3 run_disk_check_def sample_plan confirm_actions_def execute_repairs_def stage_if_def
        stage_boot_config_def repair_group_def apply_on_partition_def apply_action_def
        ensure_device_owned_def act_def working_card_def is_stage_def bindS_def returnS_def
        Let_def)
qed

end
