(* ===== verification/Nomadic_Keys.thy ===== *)
theory Nomadic_Keys
  imports Wallet
begin

text \<open>
  \<open>host-utility/src/migrate_keys.rs\<close>: turning the wallet of a Nomadic Labs card into the files of a
  russignol card. serde_json, the ciphers and the temporary directory are parameters; prompts and the
  eCryptfs mount are left out. Shown: the two roles are filled with two different source keys, chosen as
  the operator, the chain or the order of the source says; an address that disagrees with the source's own
  list stops the migration; and the blob that comes out opens under the new PIN only, into a text the
  device loads as exactly these two keys under their roles.
\<close>

section \<open>The source wallet\<close>

definition UNENCRYPTED_PREFIX :: string where
  "UNENCRYPTED_PREFIX = ''unencrypted:''"

definition SECRET_KEYS_ENC_V2_FILENAME :: string where
  "SECRET_KEYS_ENC_V2_FILENAME = ''secret_keys.enc.v2''"

text \<open>
  serde_json reading an array: for every element its \<open>name\<close> and its \<open>value\<close>, \<open>None\<close> when missing or no
  string.
\<close>

type_synonym octez_json = "bytes \<Rightarrow> string + (string option \<times> string option) list"

type_synonym source_entries = "(string \<times> string) list"

fun octez_entries :: "(string option \<times> string option) list \<Rightarrow> string + source_entries" where
  "octez_entries [] = Inr []"
| "octez_entries ((name_field, value_field) # es) =
     and_then (ok_or (''source secret_keys entry missing '' @ CHR 0x27 # ''name'' @ [CHR 0x27]) name_field) (\<lambda>name.
     and_then (ok_or (''source secret_keys entry missing '' @ CHR 0x27 # ''value'' @ [CHR 0x27]) value_field) (\<lambda>value.
     and_then (ok_or (''key '' @ CHR 0x27 # name @ CHR 0x27 # '' is not an unencrypted secret key'')
                (strip_prefix UNENCRYPTED_PREFIX value)) (\<lambda>blsk.
       if take 4 blsk \<noteq> ''BLsk''
       then Inl (''key '' @ CHR 0x27 # name @ CHR 0x27 # '' is not a BLS secret key (expected BLsk'' @
              text_of [0xE2, 0x80, 0xA6] @ '')'')
       else and_then (octez_entries es) (\<lambda>rest. Inr ((name, value) # rest)))))"

definition parse_octez_secret_keys :: "octez_json \<Rightarrow> bytes \<Rightarrow> string + source_entries" where
  "parse_octez_secret_keys J json =
     and_then (map_err (\<lambda>_. ''source secret_keys is not valid JSON'') (J json)) octez_entries"

definition parse_pkh_map :: "octez_json \<Rightarrow> bytes \<Rightarrow> string + (string \<rightharpoonup> string)" where
  "parse_pkh_map J json =
     and_then (map_err (\<lambda>_. ''source public_key_hashs is not valid JSON'') (J json)) (\<lambda>es.
       Inr (fold (\<lambda>e m. case e of (Some name, Some value) \<Rightarrow> m(name \<mapsto> value) | _ \<Rightarrow> m) es Map.empty))"

definition source_pkh_bytes :: "io_error + bytes \<Rightarrow> string + bytes option" where
  "source_pkh_bytes r =
     (case r of
        Inr bs \<Rightarrow> Inr (Some bs)
      | Inl e \<Rightarrow>
          if io_error_kind e = NotFound then Inr None
          else Inl (''source public_key_hashs exists but could not be read ('' @ io_error_text e @
                 ''); refusing to migrate with the tamper cross-check disabled''))"

section \<open>The public material\<close>

record derived_pub =
  dp_source_name :: string
  dp_pkh :: string
  dp_pk :: string

definition parse_unencrypted_bls ::
    "crates \<Rightarrow> ('sk, 'pk, 'sg) blst \<Rightarrow> string \<Rightarrow> string + ('sk, 'pk) unencrypted" where
  "parse_unencrypted_bls X B value =
     and_then (ok_or ''value is not an unencrypted secret key'' (strip_prefix UNENCRYPTED_PREFIX value))
       (\<lambda>blsk. map_err signer_error_text (unencrypted_from_b58check X B blsk))"

definition derive_pub ::
    "crates \<Rightarrow> ('sk, 'pk, 'sg) blst \<Rightarrow> string \<times> string \<Rightarrow> string + derived_pub" where
  "derive_pub X B e =
     and_then (map_err (\<lambda>_. ''invalid BLS secret key for '' @ CHR 0x27 # fst e @ [CHR 0x27])
                 (parse_unencrypted_bls X B (snd e))) (\<lambda>u.
       Inr \<lparr>dp_source_name = fst e, dp_pkh = pkh_to_b58check X (un_public_key_hash u),
            dp_pk = pk_to_b58check X B (un_public_key u)\<rparr>)"

text \<open>\<open>collect\<close> into a \<open>Result\<close>: the first error ends it.\<close>

fun collect :: "('a \<Rightarrow> 'e + 'b) \<Rightarrow> 'a list \<Rightarrow> 'e + 'b list" where
  "collect f [] = Inr []"
| "collect f (x # xs) = and_then (f x) (\<lambda>y. and_then (collect f xs) (\<lambda>ys. Inr (y # ys)))"

definition derive_source_pubs ::
    "crates \<Rightarrow> ('sk, 'pk, 'sg) blst \<Rightarrow> source_entries \<Rightarrow> string + derived_pub list" where
  "derive_source_pubs X B src = collect (derive_pub X B) src"

section \<open>Roles\<close>

record role_mapping =
  rm_consensus :: "string option"
  rm_companion :: "string option"

record role_assignment =
  ra_role :: key_role
  ra_source_name :: string
  ra_secret_value :: string

definition source_alias_for :: "derived_pub list \<Rightarrow> string \<Rightarrow> string option" where
  "source_alias_for derived key =
     map_option dp_source_name (List.find (\<lambda>d. dp_source_name d = key \<or> dp_pkh d = key) derived)"

definition resolve_role_mapping ::
    "derived_pub list \<Rightarrow> role_mapping \<Rightarrow> string option \<Rightarrow> role_mapping" where
  "resolve_role_mapping derived explicit chain_consensus =
     (let normalize = (\<lambda>key. case source_alias_for derived key of Some a \<Rightarrow> a | None \<Rightarrow> key);
          consensus = map_option normalize (rm_consensus explicit);
          companion = map_option normalize (rm_companion explicit);
          given = \<lparr>rm_consensus = consensus, rm_companion = companion\<rparr>
      in if consensus = None \<and> companion = None then
           (case chain_consensus of
              None \<Rightarrow> given
            | Some target \<Rightarrow>
                (case filter (\<lambda>d. dp_pkh d = target) derived of
                   [only] \<Rightarrow> \<lparr>rm_consensus = Some (dp_source_name only), rm_companion = None\<rparr>
                 | _ \<Rightarrow> given))
         else given)"

definition remaining_source_key :: "source_entries \<Rightarrow> string \<Rightarrow> string + string" where
  "remaining_source_key src taken =
     ok_or ''only one key resolves; assign roles with --consensus-key/--companion-key''
       (List.find (\<lambda>n. n \<noteq> taken) (map fst src))"

definition role_sources :: "source_entries \<Rightarrow> role_mapping \<Rightarrow> string + (key_role \<Rightarrow> string)" where
  "role_sources src mapping =
     (case (rm_consensus mapping, rm_companion mapping) of
        (None, None) \<Rightarrow>
          if length src \<noteq> KEY_ROLE_COUNT
          then Inl (''expected exactly '' @ show_nat KEY_ROLE_COUNT @ '' keys on the source card, found '' @
                 show_nat (length src) @ '' (use --consensus-key/--companion-key to disambiguate)'')
          else Inr (\<lambda>role. fst (src ! role_index role))
      | (Some c, Some k) \<Rightarrow> Inr (\<lambda>role. case role of Consensus \<Rightarrow> c | Companion \<Rightarrow> k)
      | (Some c, None) \<Rightarrow>
          and_then (remaining_source_key src c) (\<lambda>rest.
            Inr (\<lambda>role. case role of Consensus \<Rightarrow> c | Companion \<Rightarrow> rest))
      | (None, Some k) \<Rightarrow>
          and_then (remaining_source_key src k) (\<lambda>rest.
            Inr (\<lambda>role. case role of Consensus \<Rightarrow> rest | Companion \<Rightarrow> k)))"

text \<open>The pairs of different roles of the nested loops: there are two roles, so one pair.\<close>

definition assign_roles :: "source_entries \<Rightarrow> role_mapping \<Rightarrow> string + role_assignment list" where
  "assign_roles src mapping =
     and_then (role_sources src mapping) (\<lambda>source_for.
       if source_for Consensus = source_for Companion
       then Inl (device_alias Consensus @ '' and '' @ device_alias Companion @
              '' cannot both be source key '' @ CHR 0x27 # source_for Consensus @ [CHR 0x27])
       else collect (\<lambda>role.
              and_then (ok_or (''source card has no key named '' @ CHR 0x27 # source_for role @ [CHR 0x27])
                         (map_of src (source_for role))) (\<lambda>v.
                Inr \<lparr>ra_role = role, ra_source_name = source_for role, ra_secret_value = v\<rparr>)) KEY_ROLE_ALL)"

section \<open>The migrated card\<close>

fun push_assignments :: "bool \<Rightarrow> role_assignment list \<Rightarrow> string" where
  "push_assignments first [] = []"
| "push_assignments first (a # as) =
     (if first then [] else '','') @ CHR ''{'' # quote # ''name'' @ [quote, CHR '':'', quote] @
       device_alias (ra_role a) @ [quote, CHR '','', quote] @ ''value'' @ [quote, CHR '':'', quote] @
       ra_secret_value a @ [quote, CHR ''}''] @ push_assignments False as"

definition relabeled_secret_keys_json :: "role_assignment list \<Rightarrow> string" where
  "relabeled_secret_keys_json as = CHR ''['' # push_assignments True as @ '']''"

record source_backup =
  sb_pin_blobs :: "(string \<times> bytes) list"
  sb_public_keys :: bytes
  sb_public_key_hashs :: bytes
  sb_source_card_id :: "string option"
  sb_source_chain_id :: "string option"
  sb_source_chain_name :: "string option"

text \<open>
  The stored key of an assignment, after the cross-check against the addresses of the source. The first
  case is the \<open>expect\<close>, a panic no run reaches (lemma \<open>assigned_found\<close>).
\<close>

definition stored_for ::
    "derived_pub list \<Rightarrow> (string \<rightharpoonup> string) option \<Rightarrow> role_assignment \<Rightarrow> string + stored_key" where
  "stored_for derived source_pkh a =
     (case List.find (\<lambda>d. dp_source_name d = ra_source_name a) derived of
        None \<Rightarrow> Inl ''assignment source_name is one of the derived entries''
      | Some p \<Rightarrow>
          (case Option.bind source_pkh (\<lambda>m. m (ra_source_name a)) of
             Some expected \<Rightarrow>
               if expected \<noteq> dp_pkh p
               then Inl (''derived address '' @ dp_pkh p @ '' for '' @ CHR 0x27 # ra_source_name a @ CHR 0x27 #
                      '' does not match source public_key_hashs ('' @ expected @
                      ''); source key material may be inconsistent'')
               else Inr \<lparr>st_alias = device_alias (ra_role a), st_public_key_hash = dp_pkh p,
                         st_public_key = dp_pk p, st_secret_key = None\<rparr>
           | None \<Rightarrow> Inr \<lparr>st_alias = device_alias (ra_role a), st_public_key_hash = dp_pkh p,
                         st_public_key = dp_pk p, st_secret_key = None\<rparr>))"

text \<open>\<open>tmp\<close> is the temporary directory with the answers of the host's file system.\<close>

definition public_files ::
    "wallet_json \<Rightarrow> path \<Rightarrow> stored_key list \<Rightarrow> keys_dir \<Rightarrow> string + bytes \<times> bytes" where
  "public_files W base sts tmp =
     (case bindS (map_errS (\<lambda>e. ''failed to write public keys: '' @ e)
                    (save_public_keys_only W (wallet_new [] (Some base)) sts)) (\<lambda>_.
           bindS (map_errS (\<lambda>_. ''failed to read generated public_keys'')
                    (kd_read (public_keys_file (wallet_new [] (Some base))))) (\<lambda>pks.
           bindS (map_errS (\<lambda>_. ''failed to read generated public_key_hashs'')
                    (kd_read (public_key_hashs_file (wallet_new [] (Some base))))) (\<lambda>pkhs.
             returnS (pks, pkhs)))) tmp of
        (r, _) \<Rightarrow> r)"

definition build_migrated_backup ::
    "crates \<Rightarrow> ('sk, 'pk, 'sg) blst \<Rightarrow> ciphers \<Rightarrow> octez_json \<Rightarrow> wallet_json \<Rightarrow> 16 barray \<Rightarrow> 12 barray
      \<Rightarrow> string + path \<times> keys_dir \<Rightarrow> bytes \<Rightarrow> bytes option \<Rightarrow> bytes \<Rightarrow> role_mapping \<Rightarrow> string option
      \<Rightarrow> string + source_backup" where
  "build_migrated_backup X B C J W salt nonce tempdir source_secret_keys source_public_key_hashs
      new_pin mapping chain_consensus =
     and_then (parse_octez_secret_keys J source_secret_keys) (\<lambda>src.
     and_then (derive_source_pubs X B src) (\<lambda>derived.
     and_then (assign_roles src (resolve_role_mapping derived mapping chain_consensus)) (\<lambda>assignments.
     and_then (case source_public_key_hashs of
                 None \<Rightarrow> Inr None
               | Some bs \<Rightarrow> and_then (parse_pkh_map J bs) (\<lambda>m. Inr (Some m))) (\<lambda>source_pkh.
     and_then (collect (stored_for derived source_pkh) assignments) (\<lambda>sts.
     and_then (map_err (\<lambda>e. ''failed to encrypt secret keys: '' @ io_error_text e)
                 (blob_encrypt C salt nonce new_pin (relabeled_secret_keys_json assignments))) (\<lambda>blob.
     and_then (map_err (\<lambda>_. ''failed to create temp dir for public keys'') tempdir) (\<lambda>(base, tmp).
     and_then (public_files W base sts tmp) (\<lambda>(pks, pkhs).
       Inr \<lparr>sb_pin_blobs = [(SECRET_KEYS_ENC_V2_FILENAME, blob)], sb_public_keys = pks,
            sb_public_key_hashs = pkhs, sb_source_card_id = None, sb_source_chain_id = None,
            sb_source_chain_name = None\<rparr>))))))))"

section \<open>The new PIN\<close>

definition MIN_DEVICE_PIN_LEN :: nat where "MIN_DEVICE_PIN_LEN = 5"
definition MAX_DEVICE_PIN_LEN :: nat where "MAX_DEVICE_PIN_LEN = 10"

definition encode_device_pin :: "string \<Rightarrow> string + bytes" where
  "encode_device_pin pin =
     (if \<not> list_all (\<lambda>b. 0x30 \<le> b \<and> b \<le> (0x39 :: u8)) (ascii pin) then Inl ''PIN must contain only digits 0-9''
      else if \<not> (MIN_DEVICE_PIN_LEN \<le> length pin \<and> length pin \<le> MAX_DEVICE_PIN_LEN)
      then Inl (''PIN must be '' @ show_nat MIN_DEVICE_PIN_LEN @ ''-'' @ show_nat MAX_DEVICE_PIN_LEN @ '' digits'')
      else Inr (map (\<lambda>b. b - 0x30) (ascii pin)))"

section \<open>The roles are filled by two source keys\<close>

lemma collect_Inr: "collect f xs = Inr ys \<longleftrightarrow> list_all2 (\<lambda>x y. f x = Inr y) xs ys"
proof (induction xs arbitrary: ys)
  case (Cons x xs)
  then show ?case
    by (cases ys) (auto simp: and_then_Inr_iff)
qed auto

lemma strip_prefix_Some: "strip_prefix p s = Some t \<longleftrightarrow> s = p @ t"
  by (auto simp: strip_prefix_def) (metis append_take_drop_id)

lemma octez_entries_value:
  assumes "octez_entries es = Inr src" "(n, v) \<in> set src"
  shows "\<exists>k. v = ''unencrypted:'' @ k \<and> take 4 k = ''BLsk''"
  using assms
proof (induction es arbitrary: src rule: octez_entries.induct)
  case (2 name_field value_field es)
  then obtain name v' k rest where e: "strip_prefix UNENCRYPTED_PREFIX v' = Some k" "take 4 k = ''BLsk''"
    "octez_entries es = Inr rest" "src = (name, v') # rest"
    by (auto simp: and_then_Inr_iff ok_or_Inr_iff split: if_splits)
  show ?case
  proof (cases "(n, v) = (name, v')")
    case True
    then show ?thesis
      using e(1,2) by (auto simp: strip_prefix_Some UNENCRYPTED_PREFIX_def)
  next
    case False
    then show ?thesis
      using 2 e by (auto simp: and_then_Inr_iff ok_or_Inr_iff split: if_splits)
  qed
qed simp

text \<open>Two assignments, one for each role, from different entries of the source.\<close>

lemma assign_roles_Inr:
  assumes "assign_roles src mapping = Inr as"
  obtains a b where "as = [a, b]" "ra_role a = Consensus" "ra_role b = Companion"
    "ra_source_name a \<noteq> ra_source_name b"
    "map_of src (ra_source_name a) = Some (ra_secret_value a)"
    "map_of src (ra_source_name b) = Some (ra_secret_value b)"
    "role_sources src mapping = Inr (\<lambda>role. case role of Consensus \<Rightarrow> ra_source_name a | Companion \<Rightarrow> ra_source_name b)"
proof -
  obtain f where f: "role_sources src mapping = Inr f" "f Consensus \<noteq> f Companion"
    and c: "collect (\<lambda>role.
              and_then (ok_or (''source card has no key named '' @ CHR 0x27 # f role @ [CHR 0x27])
                         (map_of src (f role))) (\<lambda>v.
                Inr \<lparr>ra_role = role, ra_source_name = f role, ra_secret_value = v\<rparr>)) KEY_ROLE_ALL = Inr as"
    using assms by (auto simp: assign_roles_def and_then_Inr_iff split: if_splits)
  then obtain v w where "map_of src (f Consensus) = Some v" "map_of src (f Companion) = Some w"
    "as = [\<lparr>ra_role = Consensus, ra_source_name = f Consensus, ra_secret_value = v\<rparr>,
           \<lparr>ra_role = Companion, ra_source_name = f Companion, ra_secret_value = w\<rparr>]"
    by (auto simp: KEY_ROLE_ALL_def and_then_Inr_iff ok_or_Inr_iff)
  moreover have "f = (\<lambda>role. case role of Consensus \<Rightarrow> f Consensus | Companion \<Rightarrow> f Companion)"
    by (rule ext) (simp split: key_role.split)
  ultimately show thesis
    using f by (intro that) auto
qed

text \<open>A role named in the mapping is filled by that key.\<close>

lemma role_sources_honoured:
  assumes "role_sources src mapping = Inr f"
  shows "rm_consensus mapping = Some c \<Longrightarrow> f Consensus = c"
    "rm_companion mapping = Some k \<Longrightarrow> f Companion = k"
  using assms by (auto simp: role_sources_def and_then_Inr_iff split: option.splits if_splits)

text \<open>The address the chain reports labels the key that has it, when nothing was named and only one has.\<close>

lemma chain_labels_consensus:
  assumes "rm_consensus explicit = None" "rm_companion explicit = None"
    "filter (\<lambda>d. dp_pkh d = target) derived = [d]"
  shows "rm_consensus (resolve_role_mapping derived explicit (Some target)) = Some (dp_source_name d)"
  using assms by (simp add: resolve_role_mapping_def Let_def)

lemma named_key_resolved:
  assumes "rm_consensus explicit = Some key"
  shows "rm_consensus (resolve_role_mapping derived explicit chain) =
    Some (case source_alias_for derived key of Some a \<Rightarrow> a | None \<Rightarrow> key)"
  using assms by (simp add: resolve_role_mapping_def Let_def)

section \<open>What the device reads from the migrated blob\<close>

text \<open>Base58 decodes only texts over its alphabet.\<close>

definition bs58_texts_plain :: "crates \<Rightarrow> bool" where
  "bs58_texts_plain X \<longleftrightarrow> (\<forall>s b. bs58_decode X s = Inr b \<longrightarrow> list_all plain_char s)"

lemma parsed_plain:
  assumes "bs58_texts_plain X" "unencrypted_from_b58check X B s = Inr u"
  shows "list_all plain_char s"
  using assms
  by (auto simp: bs58_texts_plain_def unencrypted_from_b58check_def sk_from_b58check_def b58_decode_def
      and_then_Inr_iff map_err_Inr_iff)

text \<open>The text written is the one the device writes for the same keys.\<close>

definition key_of_assignment :: "role_assignment \<Rightarrow> stored_key" where
  "key_of_assignment a =
     \<lparr>st_alias = device_alias (ra_role a), st_public_key_hash = [], st_public_key = [],
      st_secret_key = strip_prefix UNENCRYPTED_PREFIX (ra_secret_value a)\<rparr>"

lemma plain_alias: "list_all plain_char (device_alias role)"
  by (cases role) (simp_all add: plain_char_def)

lemma relabeled_as_device:
  assumes "\<forall>a \<in> set as. \<exists>k. ra_secret_value a = ''unencrypted:'' @ k"
  shows "relabeled_secret_keys_json as = build_secret_keys_json (map key_of_assignment as)"
proof -
  have "push_assignments first as = write_keys first (map key_of_assignment as)" for first
    using assms
  proof (induction as arbitrary: first)
    case (Cons a as)
    then obtain k where k: "ra_secret_value a = ''unencrypted:'' @ k"
      by auto
    have "st_secret_key (key_of_assignment a) = Some k"
      by (simp add: key_of_assignment_def k strip_prefix_Some UNENCRYPTED_PREFIX_def)
    moreover have "st_alias (key_of_assignment a) = device_alias (ra_role a)"
      by (simp add: key_of_assignment_def)
    ultimately show ?case
      using Cons k by (simp add: key_object_def write_escaped_plain plain_alias)
  qed simp
  then show ?thesis
    by (simp add: relabeled_secret_keys_json_def build_secret_keys_json_def)
qed

lemma load_assigned:
  assumes X: "bs58_texts_plain X" and E: "json_reads E"
    and a: "ra_role a = Consensus" "ra_secret_value a = ''unencrypted:'' @ sa" "unencrypted_from_b58check X B sa = Inr ua"
    and b: "ra_role b = Companion" "ra_secret_value b = ''unencrypted:'' @ sb" "unencrypted_from_b58check X B sb = Inr ub"
  shows "valid_text (relabeled_secret_keys_json [a, b]) \<and>
    (\<exists>macs. load_secret_keys X B E (relabeled_secret_keys_json [a, b]) = Inr (device_manager ua ub, macs))"
proof -
  let ?ks = "[key_of_assignment a, key_of_assignment b]"
  have json: "relabeled_secret_keys_json [a, b] = build_secret_keys_json ?ks"
    using relabeled_as_device [of "[a, b]"] a(2) b(2) by simp
  have sks: "st_secret_key (key_of_assignment a) = Some sa" "st_secret_key (key_of_assignment b) = Some sb"
    "st_alias (key_of_assignment a) = ''consensus''" "st_alias (key_of_assignment b) = ''companion''"
    using a b by (simp_all add: key_of_assignment_def strip_prefix_Some UNENCRYPTED_PREFIX_def)
  have plain: "keys_plain ?ks"
    using sks parsed_plain [OF X a(3)] parsed_plain [OF X b(3)] by (simp add: keys_plain_def)
  have "ascii_text ''consensus''" "ascii_text ''companion''"
    using ascii_alias [of Consensus] ascii_alias [of Companion] by simp_all
  then have "valid_text (build_secret_keys_json ?ks)"
    using sks by (intro ascii_text_valid ascii_keys plain) auto
  have w: "written ?ks = [(''consensus'', ''unencrypted:'' @ sa), (''companion'', ''unencrypted:'' @ sb)]"
    using sks by simp
  have "E (build_secret_keys_json ?ks) = Inr (written ?ks)"
    using read_entries_written [OF plain] E unfolding json_reads_def by blast
  moreover have "load_entries X B (written ?ks) km_new = Inr (device_manager ua ub)"
    unfolding w by (simp only: load_entries.simps strip_unencrypted a(3) b(3) sum.case device_manager_def)
  moreover have "written ?ks \<noteq> []"
    unfolding w by simp
  ultimately have "load_secret_keys X B E (build_secret_keys_json ?ks) =
      Inr (device_manager ua ub, mac_keys_from_manager X B (device_manager ua ub))"
    by (simp del: written.simps add: load_secret_keys_def parse_secret_keys_def)
  moreover note \<open>valid_text (build_secret_keys_json ?ks)\<close>
  ultimately show ?thesis
    using json by simp
qed

section \<open>The migration as a whole\<close>

text \<open>The source holds under the name \<open>n\<close> the key of the signer \<open>u\<close>.\<close>

definition source_key ::
    "crates \<Rightarrow> ('sk, 'pk, 'sg) blst \<Rightarrow> source_entries \<Rightarrow> string \<Rightarrow> ('sk, 'pk) unencrypted \<Rightarrow> bool" where
  "source_key X B src n u \<longleftrightarrow>
     (\<exists>sk. map_of src n = Some (''unencrypted:'' @ sk) \<and> unencrypted_from_b58check X B sk = Inr u)"

lemma derive_pub_Inr:
  assumes "derive_pub X B (n, v) = Inr d"
  shows "\<exists>sk u. v = ''unencrypted:'' @ sk \<and> unencrypted_from_b58check X B sk = Inr u \<and>
    dp_source_name d = n \<and> dp_pkh d = pkh_to_b58check X (un_public_key_hash u)"
  using assms
  by (auto simp: derive_pub_def parse_unencrypted_bls_def and_then_Inr_iff map_err_Inr_iff ok_or_Inr_iff
      strip_prefix_Some UNENCRYPTED_PREFIX_def)

lemma assigned_found:
  assumes "list_all2 (\<lambda>e d. derive_pub X B e = Inr d) src derived" "map_of src n = Some v"
  shows "\<exists>d. List.find (\<lambda>d. dp_source_name d = n) derived = Some d \<and> derive_pub X B (n, v) = Inr d"
  using assms
proof (induction rule: list_all2_induct)
  case (Cons e src d derived)
  obtain m w where e: "e = (m, w)"
    by (cases e)
  have "dp_source_name d = m"
    using derive_pub_Inr Cons.hyps(1) unfolding e by blast
  then show ?case
    using Cons e by auto
qed simp

text \<open>An assignment that passes the cross-check is the source key of its name, with the listed address.\<close>

lemma stored_for_Inr:
  assumes "stored_for derived m a = Inr k" "derive_source_pubs X B src = Inr derived"
    "map_of src (ra_source_name a) = Some (ra_secret_value a)"
  obtains sk u where "ra_secret_value a = ''unencrypted:'' @ sk" "unencrypted_from_b58check X B sk = Inr u"
    "source_key X B src (ra_source_name a) u"
    "\<And>mm e. m = Some mm \<Longrightarrow> mm (ra_source_name a) = Some e \<Longrightarrow> e = pkh_to_b58check X (un_public_key_hash u)"
    "st_public_key_hash k = pkh_to_b58check X (un_public_key_hash u)"
proof -
  obtain d where d: "List.find (\<lambda>d. dp_source_name d = ra_source_name a) derived = Some d"
    "derive_pub X B (ra_source_name a, ra_secret_value a) = Inr d"
    using assigned_found [where X = X and B = B] assms(2,3) unfolding derive_source_pubs_def collect_Inr by blast
  obtain sk u where u: "ra_secret_value a = ''unencrypted:'' @ sk" "unencrypted_from_b58check X B sk = Inr u"
    "dp_pkh d = pkh_to_b58check X (un_public_key_hash u)"
    using derive_pub_Inr [OF d(2)] by blast
  have "source_key X B src (ra_source_name a) u"
    unfolding source_key_def using u(1,2) assms(3) by auto
  moreover have "e = pkh_to_b58check X (un_public_key_hash u)"
    if "m = Some mm" "mm (ra_source_name a) = Some e" for mm e
    using assms(1) d(1) u(3) that by (simp add: stored_for_def split: if_splits)
  moreover have "st_public_key_hash k = pkh_to_b58check X (un_public_key_hash u)"
    using assms(1) d(1) u(3) by (auto simp: stored_for_def split: option.splits if_splits)
  ultimately show thesis
    using that u(1,2) by blast
qed

lemma build_migrated_spec:
  assumes run: "build_migrated_backup X B C J W salt nonce tempdir secret hashes pin mapping chain = Inr backup"
    and laws: "aead_lawful C" "kdf_injective C" "bs58_texts_plain X" "json_reads E"
  obtains src derived n1 n2 u1 u2 blob json macs where
    "parse_octez_secret_keys J secret = Inr src" "derive_source_pubs X B src = Inr derived"
    "n1 \<noteq> n2" "source_key X B src n1 u1" "source_key X B src n2 u2"
    "role_sources src (resolve_role_mapping derived mapping chain) =
       Inr (\<lambda>role. case role of Consensus \<Rightarrow> n1 | Companion \<Rightarrow> n2)"
    "\<And>bs m e. hashes = Some bs \<Longrightarrow> parse_pkh_map J bs = Inr m \<Longrightarrow>
       (m n1 = Some e \<longrightarrow> e = pkh_to_b58check X (un_public_key_hash u1)) \<and>
       (m n2 = Some e \<longrightarrow> e = pkh_to_b58check X (un_public_key_hash u2))"
    "sb_pin_blobs backup = [(SECRET_KEYS_ENC_V2_FILENAME, blob)]" "opens_only C pin json blob" "valid_text json"
    "load_secret_keys X B E json = Inr (device_manager u1 u2, macs)"
proof -
  obtain src derived asg spkh ks blob where
    src: "parse_octez_secret_keys J secret = Inr src" and der: "derive_source_pubs X B src = Inr derived"
    and asg: "assign_roles src (resolve_role_mapping derived mapping chain) = Inr asg"
    and spkh: "(case hashes of None \<Rightarrow> Inr None | Some bs \<Rightarrow> and_then (parse_pkh_map J bs) (\<lambda>m. Inr (Some m))) = Inr spkh"
    and ks: "collect (stored_for derived spkh) asg = Inr ks"
    and blob: "blob_encrypt C salt nonce pin (relabeled_secret_keys_json asg) = Inr blob"
    and out: "sb_pin_blobs backup = [(SECRET_KEYS_ENC_V2_FILENAME, blob)]"
    using run unfolding build_migrated_backup_def
    by (auto simp: and_then_Inr_iff map_err_Inr_iff)
  obtain a b where ab: "asg = [a, b]" "ra_role a = Consensus" "ra_role b = Companion"
    "ra_source_name a \<noteq> ra_source_name b"
    "map_of src (ra_source_name a) = Some (ra_secret_value a)"
    "map_of src (ra_source_name b) = Some (ra_secret_value b)"
    "role_sources src (resolve_role_mapping derived mapping chain) =
       Inr (\<lambda>role. case role of Consensus \<Rightarrow> ra_source_name a | Companion \<Rightarrow> ra_source_name b)"
    using asg by (rule assign_roles_Inr)
  obtain k1 k2 where k: "stored_for derived spkh a = Inr k1" "stored_for derived spkh b = Inr k2"
    using ks by (auto simp: ab(1) and_then_Inr_iff)
  obtain sa ua where ua: "ra_secret_value a = ''unencrypted:'' @ sa" "unencrypted_from_b58check X B sa = Inr ua"
    "source_key X B src (ra_source_name a) ua"
    "\<And>mm e. spkh = Some mm \<Longrightarrow> mm (ra_source_name a) = Some e \<Longrightarrow> e = pkh_to_b58check X (un_public_key_hash ua)"
    by (rule stored_for_Inr [OF k(1) der ab(5)]) blast
  obtain sb ub where ub: "ra_secret_value b = ''unencrypted:'' @ sb" "unencrypted_from_b58check X B sb = Inr ub"
    "source_key X B src (ra_source_name b) ub"
    "\<And>mm e. spkh = Some mm \<Longrightarrow> mm (ra_source_name b) = Some e \<Longrightarrow> e = pkh_to_b58check X (un_public_key_hash ub)"
    by (rule stored_for_Inr [OF k(2) der ab(6)]) blast
  obtain macs where load: "valid_text (relabeled_secret_keys_json asg)"
    "load_secret_keys X B E (relabeled_secret_keys_json asg) = Inr (device_manager ua ub, macs)"
    using load_assigned [OF laws(3,4) ab(2) ua(1,2) ab(3) ub(1,2)] unfolding ab(1) by blast
  have "spkh = Some m" if "hashes = Some bs" "parse_pkh_map J bs = Inr m" for bs m
    using spkh that by simp
  then show thesis
    using that [OF src der ab(4) ua(3) ub(3) ab(7) _ out opens_only_encrypt [OF laws(1,2) load(1) blob] load] ua(4) ub(4)
    by blast
qed

text \<open>
  Names are compared, not keys: two entries of the source that hold the same key pass, and the device
  then holds one signer, under the companion's alias.
\<close>

lemma same_key_twice: "signers (device_manager u u) = [(un_public_key_hash u, u)]"
    "key_names (device_manager u u) = [(un_public_key_hash u, ''companion'')]"
  by (simp_all add: device_manager_def add_signer_def km_new_def)

section \<open>The new PIN can be typed\<close>

lemma encode_device_pin_Inr:
  assumes "encode_device_pin s = Inr pin"
  shows "5 \<le> length pin \<and> length pin \<le> 10 \<and> (\<forall>d \<in> set pin. d \<le> 9)" "length pin = length s"
proof -
  have digits: "\<forall>b \<in> set (ascii s). 0x30 \<le> b \<and> b \<le> 0x39" and pin: "pin = map (\<lambda>b. b - 0x30) (ascii s)"
    and len: "5 \<le> length s" "length s \<le> 10"
    using assms by (auto simp: encode_device_pin_def MIN_DEVICE_PIN_LEN_def MAX_DEVICE_PIN_LEN_def
        list_all_iff split: if_splits)
  have "b - 0x30 \<le> 9" if "0x30 \<le> b" "b \<le> 0x39" for b :: u8
    using that by (simp add: word_le_nat_alt unat_sub)
  moreover have "length (ascii s) = length s"
    by (simp add: ascii_def)
  ultimately show "5 \<le> length pin \<and> length pin \<le> 10 \<and> (\<forall>d \<in> set pin. d \<le> 9)" "length pin = length s"
    using digits pin len by auto
qed

end
