(* ===== verification/Card_Restore.thy ===== *)
theory Card_Restore
  imports Nomadic_Keys Partition_Layout Disk_Repair
begin

text \<open>
  \<open>host-utility/src/restore_keys.rs\<close>: moving keys from one card to another. Reading the source card,
  laying out and formatting the target, writing and verifying it, and the flows with two readers and
  with one reader and swapped cards. What the flows do to the cards is a trace; the host, the operator
  and the cards answer from its length. Also \<open>write_watermark_config\<close> and \<open>read_back_and_verify\<close> of
  \<open>host-utility/src/watermark.rs\<close>, \<open>write_chain_info\<close> of \<open>host-utility/src/card_fs.rs\<close> and
  \<open>write_flash_manifest\<close> of \<open>host-utility/src/image.rs\<close>. Texts shown to the operator are left out.
\<close>

section \<open>The trace\<close>

text \<open>Mounting names the partition and whether it is read-only; \<open>Identified\<close> carries what was read.\<close>

datatype restore_op =
    RMount card_partition bool | RUnmount card_partition | RSync
  | RChown | RWrite string bytes | RMode string nat
  | RPartition string | RFormat card_partition
  | RProbe | RFlash | RReread | RSwap | RIdentified "string option" | RConfirm

record restore_env =
  re_answer :: "restore_op \<Rightarrow> nat \<Rightarrow> string + unit"
  re_identity :: "nat \<Rightarrow> string option"
  re_confirmed :: "nat \<Rightarrow> string + bool"
  re_exists :: "string \<Rightarrow> nat \<Rightarrow> bool"

type_synonym 'a rio = "(restore_op list, string, 'a) stateful"

definition rdo :: "restore_env \<Rightarrow> restore_op \<Rightarrow> unit rio" where
  "rdo E op tr = (re_answer E op (length tr), tr @ [op])"

text \<open>An operation whose failure only prints a warning.\<close>

definition rdo_warn :: "restore_env \<Rightarrow> restore_op \<Rightarrow> unit rio" where
  "rdo_warn E op tr = (Inr (), tr @ [op])"

definition liftR :: "string + 'a \<Rightarrow> 'a rio" where
  "liftR r tr = (r, tr)"

section \<open>Reading the source card\<close>

definition is_safe_pin_blob_filename :: "string \<Rightarrow> bool" where
  "is_safe_pin_blob_filename name =
     (if take 15 name \<noteq> ''secret_keys.enc'' then False
      else \<not> list_ex (\<lambda>b. b = CHR ''/'' \<or> b = CHR 0x5C \<or> (of_char b :: nat) < 0x20 \<or> (of_char b :: nat) = 0x7F) name)"

text \<open>
  A directory listing: for every entry an error, or its name (\<open>None\<close> when it is no UTF-8) and what reading
  it gives.
\<close>

type_synonym listing = "(string + string option \<times> (string + bytes)) list"

fun blob_entries :: "listing \<Rightarrow> string + (string \<times> bytes) list" where
  "blob_entries [] = Inr []"
| "blob_entries (Inl e # es) = Inl ''Failed to read directory entry''"
| "blob_entries (Inr (None, c) # es) = blob_entries es"
| "blob_entries (Inr (Some name, c) # es) =
     (if \<not> is_safe_pin_blob_filename name then blob_entries es
      else and_then (map_err (\<lambda>_. ''Failed to read '' @ name) c) (\<lambda>bs.
           and_then (blob_entries es) (\<lambda>rest. Inr ((name, bs) # rest))))"

definition read_pin_blobs :: "string + listing \<Rightarrow> string + (string \<times> bytes) list" where
  "read_pin_blobs dir =
     and_then (map_err (\<lambda>_. ''Failed to read directory'') dir) (\<lambda>es.
     and_then (blob_entries es) (\<lambda>blobs.
       if blobs = [] then Inl ''No keys found on source card -- has this device completed setup?''
       else Inr (sort_key fst blobs)))"

text \<open>
  A source card: its keys partition with the contents read from it, and its card identifier. serde_json
  gives the identifier and the name in a chain information text.
\<close>

record source_card =
  sc_has_keys_partition :: bool
  sc_dir :: "string + listing"
  sc_public_keys :: "string + bytes"
  sc_public_key_hashs :: "string + bytes"
  sc_chain_info :: "string option"
  sc_card_id :: "string option"

definition read_source_files ::
    "(string \<Rightarrow> string option \<times> string option) \<Rightarrow> source_card \<Rightarrow> string + source_backup" where
  "read_source_files json S =
     and_then (read_pin_blobs (sc_dir S)) (\<lambda>pin_blobs.
     and_then (map_err (\<lambda>_. ''Missing public_keys on source card'') (sc_public_keys S)) (\<lambda>pks.
     and_then (map_err (\<lambda>_. ''Missing public_key_hashs on source card'') (sc_public_key_hashs S)) (\<lambda>pkhs.
       let (chain_id, chain_name) = (case sc_chain_info S of Some t \<Rightarrow> json t | None \<Rightarrow> (None, None))
       in Inr \<lparr>sb_pin_blobs = pin_blobs, sb_public_keys = pks, sb_public_key_hashs = pkhs,
               sb_source_card_id = None, sb_source_chain_id = chain_id, sb_source_chain_name = chain_name\<rparr>)))"

definition read_source_card ::
    "restore_env \<Rightarrow> (string \<Rightarrow> string option \<times> string option) \<Rightarrow> source_card \<Rightarrow> source_backup rio" where
  "read_source_card E json S =
     (if \<not> sc_has_keys_partition S
      then failS ''Source card does not appear to be a configured russignol device''
      else bindS (map_errS (\<lambda>_. ''Failed to mount source keys partition'') (rdo E (RMount KeysPartition True))) (\<lambda>_.
        case read_source_files json S of
          Inr data \<Rightarrow>
            bindS (rdo E (RUnmount KeysPartition)) (\<lambda>_.
              returnS (data\<lparr>sb_source_card_id := sc_card_id S\<rparr>))
        | Inl e \<Rightarrow> bindS (rdo_warn E (RUnmount KeysPartition)) (\<lambda>_. failS e)))"

section \<open>Laying out and formatting the target\<close>

text \<open>
  What serde_json finds in the output of sfdisk: the table, its partitions, and of each its start and its
  size. The arithmetic is the wrapping one of the release profile.
\<close>

type_synonym sfdisk_table = "(u64 option \<times> u64 option) list option option"

definition calculate_layout_from_json :: "sfdisk_table \<Rightarrow> u64 \<Rightarrow> string + partition_layout" where
  "calculate_layout_from_json table disk_size_sectors =
     and_then (ok_or (''Missing '' @ CHR 0x27 # ''partitiontable'' @ CHR 0x27 # '' in sfdisk JSON'') table) (\<lambda>t.
     and_then (ok_or (''Missing '' @ CHR 0x27 # ''partitions'' @ CHR 0x27 # '' array'') t) (\<lambda>ps.
       if length ps < 2 then Inl (''Expected at least 2 partitions, found '' @ show_nat (length ps))
       else
         and_then (ok_or ''Missing partition 2 start'' (fst (ps ! 1))) (\<lambda>p2_start.
         and_then (ok_or ''Missing partition 2 size'' (snd (ps ! 1))) (\<lambda>p2_size.
           let p2_end_bytes = (p2_start + p2_size) * SECTOR_SIZE;
               disk_size_bytes = disk_size_sectors * SECTOR_SIZE
           in and_then (ok_or ''attempt to divide by zero''
                (calculate_partition_layout p2_end_bytes MIN_ALIGNMENT disk_size_bytes))
                (\<lambda>r. map_err insufficient_space_text r)))))"

datatype flash_privilege = PrivilegeDirect | PrivilegeSudo

text \<open>\<open>sudo\<close> is the answer of the credential cache, \<open>table\<close> and \<open>sectors\<close> those of sfdisk and sysfs, \<open>appeared\<close> whether the partition devices came up in time.\<close>

definition create_and_format_partitions ::
    "restore_env \<Rightarrow> flash_privilege \<Rightarrow> string + unit \<Rightarrow> string + sfdisk_table \<Rightarrow> string + u64 \<Rightarrow> bool \<Rightarrow> unit rio" where
  "create_and_format_partitions E privilege sudo table sectors appeared =
     bindS (liftR (if privilege = PrivilegeSudo then sudo else Inr ())) (\<lambda>_.
     bindS (liftR (and_then table (\<lambda>t. and_then sectors (calculate_layout_from_json t)))) (\<lambda>layout.
     bindS (rdo E (RPartition (generate_sfdisk_script layout))) (\<lambda>_.
     bindS (rdo_warn E RReread) (\<lambda>_.
       if \<not> appeared then failS ''Partition devices did not appear within 15 seconds''
       else bindS (rdo E (RFormat KeysPartition)) (\<lambda>_. rdo E (RFormat DataPartition))))))"

section \<open>Writing the target\<close>

definition reclaim_mount_ownership :: "restore_env \<Rightarrow> flash_privilege \<Rightarrow> unit rio" where
  "reclaim_mount_ownership E privilege =
     (if privilege = PrivilegeSudo then rdo E RChown else returnS ())"

primrec write_pin_blobs :: "restore_env \<Rightarrow> (string \<times> bytes) list \<Rightarrow> unit rio" where
  "write_pin_blobs E [] = returnS ()"
| "write_pin_blobs E (b # bs) =
     bindS (map_errS (\<lambda>_. ''Failed to write '' @ fst b) (rdo E (RWrite (fst b) (snd b)))) (\<lambda>_. write_pin_blobs E bs)"

text \<open>serde_json printing the identifier, the name and the cycle length; the mode of an existing file is raised first.\<close>

definition CHAIN_INFO_FILENAME :: string where "CHAIN_INFO_FILENAME = ''chain_info.json''"

definition write_chain_info :: "restore_env \<Rightarrow> (node_chain \<Rightarrow> string + bytes) \<Rightarrow> node_chain \<Rightarrow> unit rio" where
  "write_chain_info E print n =
     bindS (liftR (map_err (\<lambda>_. ''failed to serialize chain_info.json'') (print n))) (\<lambda>contents.
     bindS (\<lambda>tr. if re_exists E CHAIN_INFO_FILENAME (length tr)
                 then map_errS (\<lambda>_. ''failed to make '' @ CHAIN_INFO_FILENAME @ '' writable'')
                        (rdo E (RMode CHAIN_INFO_FILENAME 384)) tr
                 else (Inr (), tr)) (\<lambda>_.
     bindS (map_errS (\<lambda>_. ''failed to write '' @ CHAIN_INFO_FILENAME) (rdo E (RWrite CHAIN_INFO_FILENAME contents))) (\<lambda>_.
       map_errS (\<lambda>_. ''failed to set mode on '' @ CHAIN_INFO_FILENAME) (rdo E (RMode CHAIN_INFO_FILENAME CHAIN_INFO_MODE)))))"

definition write_keys_files ::
    "restore_env \<Rightarrow> (node_chain \<Rightarrow> string + bytes) \<Rightarrow> source_backup \<Rightarrow> node_chain \<Rightarrow> unit rio" where
  "write_keys_files E print backup n =
     bindS (map_errS (\<lambda>_. ''Failed to write PIN blobs'') (write_pin_blobs E (sb_pin_blobs backup))) (\<lambda>_.
     bindS (map_errS (\<lambda>_. ''Failed to write public_keys'') (rdo E (RWrite ''public_keys'' (sb_public_keys backup)))) (\<lambda>_.
     bindS (map_errS (\<lambda>_. ''Failed to write public_key_hashs'')
              (rdo E (RWrite ''public_key_hashs'' (sb_public_key_hashs backup)))) (\<lambda>_.
     bindS (map_errS (\<lambda>_. ''Failed to write chain_info.json'') (write_chain_info E print n)) (\<lambda>_.
       map_errS (\<lambda>_. ''Failed to write .setup_complete marker'') (rdo E (RWrite ''.setup_complete'' (ascii ''1'')))))))"

text \<open>A body run on a mounted partition that is unmounted on every outcome.\<close>

definition with_unmount :: "restore_env \<Rightarrow> card_partition \<Rightarrow> 'a rio \<Rightarrow> 'a rio" where
  "with_unmount E p body tr =
     (case body tr of
        (Inl e, tr1) \<Rightarrow> (Inl e, snd (rdo_warn E (RUnmount p) tr1))
      | (Inr x, tr1) \<Rightarrow> bindS (rdo E (RUnmount p)) (\<lambda>_. returnS x) tr1)"

definition write_config_file :: "restore_env \<Rightarrow> (node_chain \<Rightarrow> string + bytes) \<Rightarrow> node_chain \<Rightarrow> unit rio" where
  "write_config_file E print_config n =
     bindS (liftR (map_err (\<lambda>_. ''Failed to serialize config'') (print_config n))) (\<lambda>json.
       map_errS (\<lambda>_. ''Failed to write watermark-config.json'') (rdo E (RWrite ''watermark-config.json'' json)))"

definition write_watermark_config ::
    "restore_env \<Rightarrow> (node_chain \<Rightarrow> string + bytes) \<Rightarrow> node_chain \<Rightarrow> unit rio" where
  "write_watermark_config E print_config n =
     bindS (rdo E (RMount BootPartition False)) (\<lambda>_. with_unmount E BootPartition (write_config_file E print_config n))"

text \<open>\<open>print\<close> and \<open>print_config\<close> are serde_json for the two files.\<close>

definition write_backup_to_target ::
    "restore_env \<Rightarrow> (node_chain \<Rightarrow> string + bytes) \<Rightarrow> (node_chain \<Rightarrow> string + bytes) \<Rightarrow> source_backup
      \<Rightarrow> node_chain \<Rightarrow> flash_privilege \<Rightarrow> unit rio" where
  "write_backup_to_target E print print_config backup n privilege =
     bindS (map_errS (\<lambda>_. ''Failed to mount target keys partition'') (rdo E (RMount KeysPartition False))) (\<lambda>_.
     bindS (reclaim_mount_ownership E privilege) (\<lambda>_.
     bindS (with_unmount E KeysPartition (\<lambda>tr.
              case write_keys_files E print backup n tr of (r, tr1) \<Rightarrow> (r, snd (rdo_warn E RSync tr1)))) (\<lambda>_.
       map_errS (\<lambda>_. ''Failed to stage watermark-config.json on the boot partition'')
         (write_watermark_config E print_config n))))"

section \<open>Verifying the target\<close>

definition unwrap_str :: "string option \<Rightarrow> string" where
  "unwrap_str s = (case s of Some t \<Rightarrow> t | None \<Rightarrow> [])"

text \<open>
  What the keys partition shows when mounted again: for a path its length, for a directory entry its name
  and length (\<open>None\<close> when no UTF-8 or not readable), and the chain information.
\<close>

record keys_view =
  kv_len :: "string \<Rightarrow> nat option"
  kv_dir :: "(string option \<times> nat option) list option"
  kv_exists :: "string \<Rightarrow> bool"
  kv_chain_info :: "string option"

definition require_nonempty :: "keys_view \<Rightarrow> string \<Rightarrow> string + unit" where
  "require_nonempty V name =
     (case kv_len V name of
        None \<Rightarrow> Inl (''missing '' @ name @ '' on target keys partition'')
      | Some n \<Rightarrow> if n = 0 then Inl (name @ '' on target keys partition is empty'') else Inr ())"

text \<open>\<open>json\<close>: \<open>None\<close> for no JSON, else the identifier and the name when they are strings.\<close>

definition verify_keys_partition ::
    "(string \<Rightarrow> (string option \<times> string option) option) \<Rightarrow> keys_view \<Rightarrow> string + unit" where
  "verify_keys_partition json V =
     and_then (require_nonempty V ''public_keys'') (\<lambda>_.
     and_then (require_nonempty V ''public_key_hashs'') (\<lambda>_.
     and_then (ok_or ''failed to read target keys partition'' (kv_dir V)) (\<lambda>dir.
       if \<not> list_ex (\<lambda>(name, len). case (name, len) of
                  (Some n, Some l) \<Rightarrow> take 15 n = ''secret_keys.enc'' \<and> 0 < l | _ \<Rightarrow> False) dir
       then Inl ''no non-empty secret_keys.enc* blob on target keys partition''
       else if \<not> kv_exists V ''.setup_complete''
       then Inl ''.setup_complete marker missing on target keys partition''
       else
         and_then (ok_or ''missing chain_info.json on target keys partition'' (kv_chain_info V)) (\<lambda>t.
         and_then (ok_or ''chain_info.json on target is not valid JSON'' (json t)) (\<lambda>(cid, cname).
           if unwrap_str cid = [] \<or> unwrap_str cname = []
           then Inl ''chain_info.json on target is missing id/name'' else Inr ())))))"

text \<open>\<open>config\<close> is what reading and parsing the staged file gives.\<close>

definition read_watermark_config :: "restore_env \<Rightarrow> string + node_chain \<Rightarrow> node_chain rio" where
  "read_watermark_config E config =
     bindS (rdo E (RMount BootPartition True)) (\<lambda>_.
     bindS (rdo_warn E (RUnmount BootPartition)) (\<lambda>_. liftR config))"

definition read_back_and_verify :: "restore_env \<Rightarrow> string + node_chain \<Rightarrow> unit rio" where
  "read_back_and_verify E config =
     bindS (map_errS (\<lambda>_. ''Failed to read back watermark config'') (read_watermark_config E config)) (\<lambda>cfg.
       if nc_name cfg = [] \<or> nc_id cfg = [] then failS ''Invalid chain info on the SD card'' else returnS ())"

definition verify_target ::
    "restore_env \<Rightarrow> (string \<Rightarrow> (string option \<times> string option) option) \<Rightarrow> keys_view \<Rightarrow> string + node_chain \<Rightarrow> unit rio" where
  "verify_target E json V config =
     bindS (map_errS (\<lambda>_. ''failed to mount target keys partition for verification'') (rdo E (RMount KeysPartition True))) (\<lambda>_.
     bindS (rdo E (RUnmount KeysPartition)) (\<lambda>_.
     bindS (liftR (verify_keys_partition json V)) (\<lambda>_.
       map_errS (\<lambda>_. ''staged watermark-config.json failed verification'') (read_back_and_verify E config))))"

section \<open>The keys of the source\<close>

record named_key =
  nk_alias :: string
  nk_address :: string

definition extract_named_keys :: "octez_json \<Rightarrow> bytes \<Rightarrow> string + named_key list" where
  "extract_named_keys J public_key_hashs =
     and_then (map_err (\<lambda>_. ''Failed to parse public_key_hashs as a JSON array'') (J public_key_hashs)) (\<lambda>es.
       Inr (List.map_filter (\<lambda>e. case e of
              (Some name, Some value) \<Rightarrow>
                if take 3 value = ''tz4'' then Some \<lparr>nk_alias = name, nk_address = value\<rparr> else None
            | _ \<Rightarrow> None) es))"

definition card_ids_match :: "string option \<Rightarrow> string option \<Rightarrow> bool" where
  "card_ids_match source target =
     (case (source, target) of (Some s, Some t) \<Rightarrow> s = t | _ \<Rightarrow> False)"

definition key_format_summary :: "(string \<times> bytes) list \<Rightarrow> string" where
  "key_format_summary pin_blobs =
     (let has_v1 = list_ex (\<lambda>b. fst b = ''secret_keys.enc'') pin_blobs;
          has_v2 = list_ex (\<lambda>b. fst b = ''secret_keys.enc.v2'') pin_blobs
      in if has_v1 \<and> has_v2 then ''v1 + v2 (migration pending)''
         else if has_v2 then ''v2''
         else if has_v1 then ''v1 (legacy)''
         else ''unrecognized'')"

text \<open>The answer of the operator when the networks differ or the source's is unknown.\<close>

definition warn_network_mismatch :: "source_backup \<Rightarrow> node_chain \<Rightarrow> bool \<Rightarrow> string + bool \<Rightarrow> string + bool" where
  "warn_network_mismatch backup n yes answer =
     (if sb_source_chain_id backup = Some (nc_id n) then Inr True else if yes then Inr True else answer)"

text \<open>
  The prompt repeats until the name of the device or a word of refusal is typed; the environment gives what
  comes out of it.
\<close>

definition confirm_restore_operation :: "restore_env \<Rightarrow> bool \<Rightarrow> bool rio" where
  "confirm_restore_operation E yes tr =
     (if yes then (Inr True, tr) else (re_confirmed E (length tr), tr @ [RConfirm]))"

definition is_single_reader_mode :: "string \<Rightarrow> string option \<Rightarrow> string list \<Rightarrow> bool" where
  "is_single_reader_mode restore_from device detected =
     (case device of
        Some dev \<Rightarrow> dev = restore_from
      | None \<Rightarrow> filter (\<lambda>d. d \<noteq> restore_from) detected = [])"

section \<open>The flows\<close>

text \<open>
  What a flow is given besides the source: the node's chain, \<open>--yes\<close>, the write privilege and the
  answers of the outside world for the steps on the target.
\<close>

record flash_job =
  fj_chain :: node_chain
  fj_yes :: bool
  fj_json :: octez_json
  fj_print_chain :: "node_chain \<Rightarrow> string + bytes"
  fj_print_config :: "node_chain \<Rightarrow> string + bytes"
  fj_manifest :: "string + bytes"
  fj_sudo :: "string + unit"
  fj_table :: "string + sfdisk_table"
  fj_sectors :: "string + u64"
  fj_appeared :: bool
  fj_chain_reader :: "string \<Rightarrow> (string option \<times> string option) option"
  fj_view :: keys_view
  fj_config :: "string + node_chain"
  fj_mismatch_answer :: "string + bool"

datatype flow_outcome = CardWritten | Cancelled | StillWaiting

definition write_flash_manifest :: "restore_env \<Rightarrow> string + bytes \<Rightarrow> unit rio" where
  "write_flash_manifest E manifest =
     bindS (rdo E (RMount BootPartition False)) (\<lambda>_.
     bindS (liftR manifest) (\<lambda>json.
       with_unmount E BootPartition (rdo E (RWrite ''flash-manifest.json'' json))))"

text \<open>From flashing on, the same in both modes.\<close>

definition flash_and_write :: "restore_env \<Rightarrow> flash_job \<Rightarrow> source_backup \<Rightarrow> flash_privilege \<Rightarrow> unit rio" where
  "flash_and_write E job backup privilege =
     bindS (rdo E RFlash) (\<lambda>_.
     bindS (rdo_warn E RReread) (\<lambda>_.
     bindS (create_and_format_partitions E privilege (fj_sudo job) (fj_table job) (fj_sectors job) (fj_appeared job)) (\<lambda>_.
     bindS (write_backup_to_target E (fj_print_chain job) (fj_print_config job) backup (fj_chain job) privilege) (\<lambda>_.
     bindS (map_errS (\<lambda>_. ''Failed to write flash manifest'') (write_flash_manifest E (fj_manifest job))) (\<lambda>_.
       verify_target E (fj_chain_reader job) (fj_view job) (fj_config job))))))"

definition run_dual_reader_restore ::
    "restore_env \<Rightarrow> flash_job \<Rightarrow> source_backup \<Rightarrow> flash_privilege \<Rightarrow> flow_outcome rio" where
  "run_dual_reader_restore E job backup privilege =
     bindS (liftR (extract_named_keys (fj_json job) (sb_public_key_hashs backup))) (\<lambda>_.
     bindS (confirm_restore_operation E (fj_yes job)) (\<lambda>ok.
       if \<not> ok then returnS Cancelled
       else bindS (flash_and_write E job backup privilege) (\<lambda>_. returnS CardWritten)))"

text \<open>
  One reader: the source is read until it can be, each failure asking for another card unless it is fatal;
  then cards are swapped until the one in the reader is identified as another. Neither loop ends by
  itself; \<open>reads\<close> are the outcomes of the attempts the operator makes and \<open>fuel\<close> bounds the swaps, and the
  flow is \<open>StillWaiting\<close> when they are used up.
\<close>

datatype 'e read_failure = AbortRead 'e | OtherCard 'e

fun read_until :: "restore_env \<Rightarrow> (string read_failure + source_backup) list \<Rightarrow> source_backup option rio" where
  "read_until E [] = returnS None"
| "read_until E (Inr backup # reads) = returnS (Some backup)"
| "read_until E (Inl (AbortRead e) # reads) = failS e"
| "read_until E (Inl (OtherCard e) # reads) = bindS (rdo_warn E RSwap) (\<lambda>_. read_until E reads)"

definition identify :: "restore_env \<Rightarrow> string option rio" where
  "identify E tr = (Inr (re_identity E (length tr)), tr @ [RIdentified (re_identity E (length tr))])"

fun swap_until_other :: "nat \<Rightarrow> restore_env \<Rightarrow> string option \<Rightarrow> bool rio" where
  "swap_until_other fuel E source_id =
     bindS (identify E) (\<lambda>id.
       if \<not> card_ids_match source_id id then returnS True
       else case fuel of
              0 \<Rightarrow> returnS False
            | Suc n \<Rightarrow> bindS (rdo_warn E RSwap) (\<lambda>_. swap_until_other n E source_id))"

definition run_single_reader_restore ::
    "nat \<Rightarrow> restore_env \<Rightarrow> flash_job \<Rightarrow> (string read_failure + source_backup) list \<Rightarrow> string + flash_privilege
      \<Rightarrow> flow_outcome rio" where
  "run_single_reader_restore fuel E job reads probed =
     bindS (liftR probed) (\<lambda>privilege.
     bindS (read_until E reads) (\<lambda>r.
       case r of
         None \<Rightarrow> returnS StillWaiting
       | Some backup \<Rightarrow>
           bindS (liftR (warn_network_mismatch backup (fj_chain job) (fj_yes job) (fj_mismatch_answer job))) (\<lambda>go.
             if \<not> go then returnS Cancelled
             else
               bindS (identify E) (\<lambda>source_id.
               bindS (rdo_warn E RSwap) (\<lambda>_.
               bindS (swap_until_other fuel E source_id) (\<lambda>swapped.
                 if \<not> swapped then returnS StillWaiting
                 else run_dual_reader_restore E job backup privilege))))))"

section \<open>What is read from the source\<close>

lemma blob_entries_Inr:
  assumes "blob_entries es = Inr blobs"
  shows "set blobs = {(n, bs). is_safe_pin_blob_filename n \<and> Inr (Some n, Inr bs) \<in> set es}"
    and "Inr (Some n, Inl e) \<in> set es \<Longrightarrow> \<not> is_safe_pin_blob_filename n" and "Inl e' \<notin> set es"
  using assms
  by (induction es arbitrary: blobs rule: blob_entries.induct)
    (auto simp: and_then_Inr_iff map_err_Inr_iff split: if_splits)

lemma safe_name:
  assumes "is_safe_pin_blob_filename n"
  shows "take 15 n = ''secret_keys.enc''" "CHR ''/'' \<notin> set n" "CHR 0x5C \<notin> set n"
  using assms by (auto simp: is_safe_pin_blob_filename_def list_ex_iff split: if_splits)

text \<open>Every blob on the card, none twice as often as on the card, in the order of the names.\<close>

lemma read_pin_blobs_Inr:
  assumes "read_pin_blobs (Inr es) = Inr blobs"
  shows "set blobs = {(n, bs). is_safe_pin_blob_filename n \<and> Inr (Some n, Inr bs) \<in> set es}"
    and "sorted (map fst blobs)" and "blobs \<noteq> []"
    and "Inr (Some n, Inl e) \<in> set es \<Longrightarrow> \<not> is_safe_pin_blob_filename n"
proof -
  obtain bs where bs: "blob_entries es = Inr bs" "bs \<noteq> []" "blobs = sort_key fst bs"
    using assms by (auto simp: read_pin_blobs_def and_then_Inr_iff split: if_splits)
  show "set blobs = {(n, bs). is_safe_pin_blob_filename n \<and> Inr (Some n, Inr bs) \<in> set es}"
    using blob_entries_Inr(1) [OF bs(1)] bs(3) by simp
  show "sorted (map fst blobs)"
    using bs(3) by simp
  show "blobs \<noteq> []"
    using bs(2,3) by (metis length_0_conv length_sort)
  show "\<not> is_safe_pin_blob_filename n" if "Inr (Some n, Inl e) \<in> set es"
    using blob_entries_Inr(2) [OF bs(1) that] .
qed

lemma read_source_files_Inr:
  assumes "read_source_files json S = Inr data"
  shows "read_pin_blobs (sc_dir S) = Inr (sb_pin_blobs data) \<and> sc_public_keys S = Inr (sb_public_keys data) \<and>
    sc_public_key_hashs S = Inr (sb_public_key_hashs data)"
proof -
  obtain cid cname where "(case sc_chain_info S of Some t \<Rightarrow> json t | None \<Rightarrow> (None, None)) = (cid, cname)"
    by fastforce
  then show ?thesis
    using assms by (auto simp: read_source_files_def and_then_Inr_iff map_err_Inr_iff)
qed

lemma read_source_card_Inr:
  assumes "read_source_card E json S tr = (Inr backup, tr')"
  shows "read_pin_blobs (sc_dir S) = Inr (sb_pin_blobs backup)"
    and "sc_public_keys S = Inr (sb_public_keys backup)" "sc_public_key_hashs S = Inr (sb_public_key_hashs backup)"
    and "sb_source_card_id backup = sc_card_id S" "sc_has_keys_partition S"
    and "tr' = tr @ [RMount KeysPartition True, RUnmount KeysPartition]"
proof -
  obtain data where d: "read_source_files json S = Inr data" "backup = data\<lparr>sb_source_card_id := sc_card_id S\<rparr>"
    "sc_has_keys_partition S" "tr' = tr @ [RMount KeysPartition True, RUnmount KeysPartition]"
    using assms
    by (auto simp: read_source_card_def bindS_Inr_iff map_err_Inr_iff
        map_errS_def rdo_def rdo_warn_def returnS_def failS_def split: if_splits sum.splits)
  show "read_pin_blobs (sc_dir S) = Inr (sb_pin_blobs backup)"
    "sc_public_keys S = Inr (sb_public_keys backup)" "sc_public_key_hashs S = Inr (sb_public_key_hashs backup)"
    "sb_source_card_id backup = sc_card_id S" "sc_has_keys_partition S"
    "tr' = tr @ [RMount KeysPartition True, RUnmount KeysPartition]"
    using read_source_files_Inr [OF d(1)] d by simp_all
qed

section \<open>Runs that complete\<close>

lemma rdo_Inr: "rdo E op tr = (Inr x, tr') \<longleftrightarrow> re_answer E op (length tr) = Inr () \<and> tr' = tr @ [op]"
  by (auto simp: rdo_def)

lemma rdo_warn_Inr: "rdo_warn E op tr = (Inr x, tr') \<longleftrightarrow> tr' = tr @ [op]"
  by (auto simp: rdo_warn_def)

lemma liftR_Inr: "liftR r tr = (Inr x, tr') \<longleftrightarrow> r = Inr x \<and> tr' = tr"
  by (auto simp: liftR_def)

lemma map_errS_Inr: "map_errS f m s = (Inr x, t) \<longleftrightarrow> m s = (Inr x, t)"
  by (auto simp: map_errS_def map_err_Inr_iff split: prod.splits)

lemma returnS_Inr: "returnS x s = (Inr y, t) \<longleftrightarrow> y = x \<and> t = s"
  by (auto simp: returnS_def)

lemma failS_Inr: "failS e s = (Inr y, t) \<longleftrightarrow> False"
  by (simp add: failS_def)

lemma with_unmount_Inr:
  "with_unmount E p body tr = (Inr x, tr') \<longleftrightarrow>
     (\<exists>tr1. body tr = (Inr x, tr1) \<and> re_answer E (RUnmount p) (length tr1) = Inr () \<and> tr' = tr1 @ [RUnmount p])"
  by (auto simp: with_unmount_def bindS_Inr_iff rdo_Inr returnS_Inr split: prod.splits sum.splits)

lemma synced_Inr:
  "(case w of (r, t) \<Rightarrow> (r, snd (rdo_warn E RSync t))) = (Inr x, tr') \<longleftrightarrow> (\<exists>t. w = (Inr x, t) \<and> tr' = t @ [RSync])"
  by (cases w) (auto simp: rdo_warn_def)

lemmas run_Inr = bindS_Inr_iff synced_Inr rdo_Inr rdo_warn_Inr liftR_Inr map_errS_Inr returnS_Inr failS_Inr with_unmount_Inr
  map_err_Inr_iff

lemma write_pin_blobs_Inr:
  "write_pin_blobs E bs tr = (Inr x, tr') \<Longrightarrow> tr' = tr @ map (\<lambda>b. RWrite (fst b) (snd b)) bs"
proof (induction bs arbitrary: tr)
  case (Cons b bs)
  then have "write_pin_blobs E bs (tr @ [RWrite (fst b) (snd b)]) = (Inr x, tr')"
    by (simp add: run_Inr)
  from Cons.IH [OF this] show ?case
    by simp
qed (simp add: run_Inr)

lemma write_chain_info_Inr:
  assumes "write_chain_info E print n tr = (Inr x, tr')"
  obtains contents existing where "print n = Inr contents" "set existing \<subseteq> {RMode CHAIN_INFO_FILENAME 384}"
    "tr' = tr @ existing @ [RWrite CHAIN_INFO_FILENAME contents, RMode CHAIN_INFO_FILENAME CHAIN_INFO_MODE]"
proof -
  obtain contents tr1 where c: "print n = Inr contents"
    "(if re_exists E CHAIN_INFO_FILENAME (length tr)
        then map_errS (\<lambda>_. ''failed to make '' @ CHAIN_INFO_FILENAME @ '' writable'')
               (rdo E (RMode CHAIN_INFO_FILENAME 384)) tr
        else (Inr (), tr)) = (Inr (), tr1)"
    "tr' = tr1 @ [RWrite CHAIN_INFO_FILENAME contents, RMode CHAIN_INFO_FILENAME CHAIN_INFO_MODE]"
    using assms by (auto simp: write_chain_info_def run_Inr)
  show thesis
    using that [OF c(1), of "[RMode CHAIN_INFO_FILENAME 384]"] that [OF c(1), of "[]"] c(2,3)
    by (auto simp: run_Inr split: if_splits)
qed

text \<open>The steps of a run that writes a card, in order.\<close>

definition target_steps ::
    "source_backup \<Rightarrow> flash_privilege \<Rightarrow> partition_layout \<Rightarrow> restore_op list \<Rightarrow> bytes \<Rightarrow> bytes \<Rightarrow> bytes \<Rightarrow> restore_op list" where
  "target_steps backup privilege layout existing chain config manifest =
     [RFlash, RReread, RPartition (generate_sfdisk_script layout), RReread, RFormat KeysPartition, RFormat DataPartition,
      RMount KeysPartition False] @ (if privilege = PrivilegeSudo then [RChown] else []) @
     map (\<lambda>b. RWrite (fst b) (snd b)) (sb_pin_blobs backup) @
     [RWrite ''public_keys'' (sb_public_keys backup), RWrite ''public_key_hashs'' (sb_public_key_hashs backup)] @
     existing @
     [RWrite CHAIN_INFO_FILENAME chain, RMode CHAIN_INFO_FILENAME CHAIN_INFO_MODE, RWrite ''.setup_complete'' (ascii ''1''),
      RSync, RUnmount KeysPartition,
      RMount BootPartition False, RWrite ''watermark-config.json'' config, RUnmount BootPartition,
      RMount BootPartition False, RWrite ''flash-manifest.json'' manifest, RUnmount BootPartition,
      RMount KeysPartition True, RUnmount KeysPartition, RMount BootPartition True, RUnmount BootPartition]"

lemma create_and_format_Inr:
  assumes "create_and_format_partitions E privilege sudo table sectors appeared tr = (Inr x, tr')"
  obtains t s layout where "table = Inr t" "sectors = Inr s" "calculate_layout_from_json t s = Inr layout"
    "tr' = tr @ [RPartition (generate_sfdisk_script layout), RReread, RFormat KeysPartition, RFormat DataPartition]"
  using assms
  by (auto simp: create_and_format_partitions_def run_Inr and_then_Inr_iff split: if_splits)

lemma write_keys_files_Inr:
  assumes "write_keys_files E print backup n tr = (Inr x, tr')"
  obtains contents existing where "print n = Inr contents" "set existing \<subseteq> {RMode CHAIN_INFO_FILENAME 384}"
    "tr' = tr @ map (\<lambda>b. RWrite (fst b) (snd b)) (sb_pin_blobs backup) @
       [RWrite ''public_keys'' (sb_public_keys backup), RWrite ''public_key_hashs'' (sb_public_key_hashs backup)] @
       existing @ [RWrite CHAIN_INFO_FILENAME contents, RMode CHAIN_INFO_FILENAME CHAIN_INFO_MODE,
                   RWrite ''.setup_complete'' (ascii ''1'')]"
proof -
  obtain tr1 tr2 where w: "write_pin_blobs E (sb_pin_blobs backup) tr = (Inr (), tr1)"
    "write_chain_info E print n (tr1 @ [RWrite ''public_keys'' (sb_public_keys backup),
       RWrite ''public_key_hashs'' (sb_public_key_hashs backup)]) = (Inr (), tr2)"
    "tr' = tr2 @ [RWrite ''.setup_complete'' (ascii ''1'')]"
    using assms by (auto simp: write_keys_files_def run_Inr)
  from w(2) obtain contents existing where "print n = Inr contents" "set existing \<subseteq> {RMode CHAIN_INFO_FILENAME 384}"
    "tr2 = (tr1 @ [RWrite ''public_keys'' (sb_public_keys backup), RWrite ''public_key_hashs'' (sb_public_key_hashs backup)])
       @ existing @ [RWrite CHAIN_INFO_FILENAME contents, RMode CHAIN_INFO_FILENAME CHAIN_INFO_MODE]"
    by (rule write_chain_info_Inr)
  then show thesis
    using that [of contents existing] w(3) write_pin_blobs_Inr [OF w(1)] by simp
qed

lemma write_backup_Inr:
  assumes "write_backup_to_target E print print_config backup n privilege tr = (Inr x, tr')"
  obtains chain config existing where "print n = Inr chain" "print_config n = Inr config"
    "set existing \<subseteq> {RMode CHAIN_INFO_FILENAME 384}"
    "tr' = tr @ [RMount KeysPartition False] @ (if privilege = PrivilegeSudo then [RChown] else []) @
       map (\<lambda>b. RWrite (fst b) (snd b)) (sb_pin_blobs backup) @
       [RWrite ''public_keys'' (sb_public_keys backup), RWrite ''public_key_hashs'' (sb_public_key_hashs backup)] @
       existing @ [RWrite CHAIN_INFO_FILENAME chain, RMode CHAIN_INFO_FILENAME CHAIN_INFO_MODE,
                   RWrite ''.setup_complete'' (ascii ''1''), RSync, RUnmount KeysPartition,
                   RMount BootPartition False, RWrite ''watermark-config.json'' config, RUnmount BootPartition]"
proof -
  obtain tr1 tr2 config where w: "reclaim_mount_ownership E privilege (tr @ [RMount KeysPartition False]) = (Inr (), tr1)"
    "write_keys_files E print backup n tr1 = (Inr (), tr2)" "print_config n = Inr config"
    "tr' = tr2 @ [RSync, RUnmount KeysPartition, RMount BootPartition False, RWrite ''watermark-config.json'' config,
             RUnmount BootPartition]"
    using assms
    by (auto simp: write_backup_to_target_def write_watermark_config_def write_config_file_def run_Inr split: prod.splits)
  have "tr1 = tr @ [RMount KeysPartition False] @ (if privilege = PrivilegeSudo then [RChown] else [])"
    using w(1) by (auto simp: reclaim_mount_ownership_def run_Inr split: if_splits)
  moreover obtain chain existing where "print n = Inr chain" "set existing \<subseteq> {RMode CHAIN_INFO_FILENAME 384}"
    "tr2 = tr1 @ map (\<lambda>b. RWrite (fst b) (snd b)) (sb_pin_blobs backup) @
       [RWrite ''public_keys'' (sb_public_keys backup), RWrite ''public_key_hashs'' (sb_public_key_hashs backup)] @
       existing @ [RWrite CHAIN_INFO_FILENAME chain, RMode CHAIN_INFO_FILENAME CHAIN_INFO_MODE,
                   RWrite ''.setup_complete'' (ascii ''1'')]"
    using w(2) by (rule write_keys_files_Inr)
  ultimately show thesis
    using that [of chain config existing] w(3,4) by simp
qed

lemma flash_and_write_Inr:
  assumes "flash_and_write E job backup privilege tr = (Inr x, tr')"
  obtains t s layout chain config manifest existing where
    "fj_table job = Inr t" "fj_sectors job = Inr s" "calculate_layout_from_json t s = Inr layout"
    "fj_print_chain job (fj_chain job) = Inr chain" "fj_print_config job (fj_chain job) = Inr config"
    "fj_manifest job = Inr manifest" "set existing \<subseteq> {RMode CHAIN_INFO_FILENAME 384}"
    "verify_keys_partition (fj_chain_reader job) (fj_view job) = Inr ()"
    "tr' = tr @ target_steps backup privilege layout existing chain config manifest"
proof -
  obtain tr1 tr2 manifest where w:
    "create_and_format_partitions E privilege (fj_sudo job) (fj_table job) (fj_sectors job) (fj_appeared job)
       (tr @ [RFlash, RReread]) = (Inr (), tr1)"
    "write_backup_to_target E (fj_print_chain job) (fj_print_config job) backup (fj_chain job) privilege tr1 = (Inr (), tr2)"
    "fj_manifest job = Inr manifest" "verify_keys_partition (fj_chain_reader job) (fj_view job) = Inr ()"
    "tr' = tr2 @ [RMount BootPartition False, RWrite ''flash-manifest.json'' manifest, RUnmount BootPartition,
       RMount KeysPartition True, RUnmount KeysPartition, RMount BootPartition True, RUnmount BootPartition]"
    using assms
    by (auto simp: flash_and_write_def write_flash_manifest_def verify_target_def read_back_and_verify_def
        read_watermark_config_def run_Inr
        split: prod.splits sum.splits if_splits)
  from w(1) obtain t s layout where l: "fj_table job = Inr t" "fj_sectors job = Inr s"
    "calculate_layout_from_json t s = Inr layout"
    "tr1 = (tr @ [RFlash, RReread]) @ [RPartition (generate_sfdisk_script layout), RReread, RFormat KeysPartition, RFormat DataPartition]"
    by (rule create_and_format_Inr)
  from w(2) obtain chain config existing where b: "fj_print_chain job (fj_chain job) = Inr chain"
    "fj_print_config job (fj_chain job) = Inr config" "set existing \<subseteq> {RMode CHAIN_INFO_FILENAME 384}"
    "tr2 = tr1 @ [RMount KeysPartition False] @ (if privilege = PrivilegeSudo then [RChown] else []) @
       map (\<lambda>b. RWrite (fst b) (snd b)) (sb_pin_blobs backup) @
       [RWrite ''public_keys'' (sb_public_keys backup), RWrite ''public_key_hashs'' (sb_public_key_hashs backup)] @
       existing @ [RWrite CHAIN_INFO_FILENAME chain, RMode CHAIN_INFO_FILENAME CHAIN_INFO_MODE,
                   RWrite ''.setup_complete'' (ascii ''1''), RSync, RUnmount KeysPartition,
                   RMount BootPartition False, RWrite ''watermark-config.json'' config, RUnmount BootPartition]"
    by (rule write_backup_Inr)
  show thesis
    by (rule that [OF l(1-3) b(1,2) w(3) b(3) w(4)]) (simp add: w(5) l(4) b(4) target_steps_def)
qed

section \<open>Running a step and the rest\<close>

lemma bindS_run:
  "bindS (rdo E op) f tr = (case re_answer E op (length tr) of Inl e \<Rightarrow> (Inl e, tr @ [op]) | Inr u \<Rightarrow> f () (tr @ [op]))"
  "bindS (map_errS h (rdo E op)) f tr =
     (case re_answer E op (length tr) of Inl e \<Rightarrow> (Inl (h e), tr @ [op]) | Inr u \<Rightarrow> f () (tr @ [op]))"
  "bindS (rdo_warn E op) f tr = f () (tr @ [op])"
  "bindS (liftR r) f' tr = (case r of Inl e \<Rightarrow> (Inl e, tr) | Inr x \<Rightarrow> f' x tr)"
  by (auto simp: bindS_def rdo_def rdo_warn_def liftR_def map_errS_def split: sum.splits)

lemma snd_bindS: "snd (bindS m f s) = (case m s of (Inl e, t) \<Rightarrow> t | (Inr x, t) \<Rightarrow> snd (f x t))"
  by (auto simp: bindS_def split: prod.splits sum.splits)

section \<open>Partitions left mounted\<close>

text \<open>Whether \<open>p\<close> is mounted after a trace: mounted successfully, and no unmount tried since.\<close>

fun mounted_since :: "restore_env \<Rightarrow> card_partition \<Rightarrow> restore_op list \<Rightarrow> bool" where
  "mounted_since E p [] = False"
| "mounted_since E p (op # before) =
     (case op of
        RMount q _ \<Rightarrow> (q = p \<and> re_answer E op (length before) = Inr ()) \<or> mounted_since E p before
      | RUnmount q \<Rightarrow> q \<noteq> p \<and> mounted_since E p before
      | _ \<Rightarrow> mounted_since E p before)"

definition mounted :: "restore_env \<Rightarrow> card_partition \<Rightarrow> restore_op list \<Rightarrow> bool" where
  "mounted E p tr = mounted_since E p (rev tr)"

lemma mounted_snoc [simp]:
  "mounted E p [] = False"
  "mounted E p (tr @ [op]) =
     (case op of
        RMount q _ \<Rightarrow> (q = p \<and> re_answer E op (length tr) = Inr ()) \<or> mounted E p tr
      | RUnmount q \<Rightarrow> q \<noteq> p \<and> mounted E p tr
      | _ \<Rightarrow> mounted E p tr)"
  by (simp_all add: mounted_def split: restore_op.split)

text \<open>A run from a state without the partition mounted ends in one.\<close>

definition releases :: "restore_env \<Rightarrow> card_partition \<Rightarrow> 'a rio \<Rightarrow> bool" where
  "releases E p f \<longleftrightarrow> (\<forall>tr. \<not> mounted E p tr \<longrightarrow> \<not> mounted E p (snd (f tr)))"

named_theorems release_intros "runs that leave no partition mounted"

lemma releases_bindS [release_intros]:
  assumes "releases E p f" "\<And>x. releases E p (g x)"
  shows "releases E p (bindS f g)"
  unfolding releases_def
proof (intro allI impI)
  fix tr
  assume none: "\<not> mounted E p tr"
  show "\<not> mounted E p (snd (bindS f g tr))"
    by (rule bindS_state_inv [where Q = "\<lambda>t. \<not> mounted E p t"])
      (use assms none in \<open>auto simp: releases_def\<close>)
qed

lemma releases_pure [release_intros]:
  "releases E p (returnS x)" "releases E p (failS e)" "releases E p (liftR r)"
  "releases E p (rdo_warn E (RUnmount q))" "releases E p (rdo_warn E RSync)" "releases E p (rdo_warn E RReread)"
  "releases E p (rdo E RChown)" "releases E p (rdo E (RWrite n b))" "releases E p (rdo E (RMode n m))"
  "releases E p (rdo E (RPartition t))" "releases E p (rdo E (RFormat q))" "releases E p (rdo E RFlash)"
  "releases E p (rdo E (RUnmount q))"
  by (auto simp: releases_def returnS_def failS_def liftR_def rdo_warn_def rdo_def)

lemma releases_mount: "q \<noteq> p \<Longrightarrow> releases E p (rdo E (RMount q ro))"
  by (auto simp: releases_def rdo_def)

lemma snd_map_errS [simp]: "snd (map_errS h f s) = snd (f s)"
  by (simp add: map_errS_def case_prod_unfold)

lemma releases_map_errS [release_intros]: "releases E p f \<Longrightarrow> releases E p (map_errS h f)"
  by (simp add: releases_def)

lemma snd_with_unmount: "snd (with_unmount E q body tr) = snd (body tr) @ [RUnmount q]"
  by (auto simp: with_unmount_def bindS_def rdo_def rdo_warn_def returnS_def split: prod.splits sum.splits)

lemma releases_with_unmount [release_intros]: "releases E p body \<Longrightarrow> releases E p (with_unmount E q body)"
  by (simp add: releases_def snd_with_unmount)

lemma releases_mounted_body [release_intros]:
  assumes "releases E p body"
  shows "releases E p (bindS (map_errS h (rdo E (RMount q ro))) (\<lambda>_. with_unmount E q body))"
    "releases E p (bindS (rdo E (RMount q ro)) (\<lambda>_. with_unmount E q body))"
proof -
  have "\<not> mounted E p (snd (body (tr @ [RMount q ro])) @ [RUnmount q])" if "\<not> mounted E p tr" for tr
    using assms that by (cases "q = p") (auto simp: releases_def)
  then show "releases E p (bindS (map_errS h (rdo E (RMount q ro))) (\<lambda>_. with_unmount E q body))"
    "releases E p (bindS (rdo E (RMount q ro)) (\<lambda>_. with_unmount E q body))"
    by (auto simp: releases_def bindS_run snd_with_unmount split: sum.split)
qed

lemma releases_write_pin_blobs [release_intros]: "releases E p (write_pin_blobs E bs)"
  by (induction bs) (auto intro!: release_intros)

lemma releases_if_exists [release_intros]:
  "releases E p (\<lambda>tr. if c tr then map_errS h (rdo E (RMode n m)) tr else (Inr (), tr))"
  by (simp add: releases_def rdo_def)

lemma releases_synced [release_intros]:
  "releases E p f \<Longrightarrow> releases E p (\<lambda>tr. case f tr of (r, tr1) \<Rightarrow> (r, snd (rdo_warn E RSync tr1)))"
  by (simp add: releases_def rdo_warn_def case_prod_unfold)

lemma releases_write_keys_files [release_intros]: "releases E p (write_keys_files E print backup n)"
  unfolding write_keys_files_def write_chain_info_def by (intro release_intros)

lemma releases_write_watermark_config [release_intros]: "releases E p (write_watermark_config E print_config n)"
  unfolding write_watermark_config_def write_config_file_def by (intro release_intros)

text \<open>The one way out of \<open>write_backup_to_target\<close> with the keys partition still mounted.\<close>

lemma write_backup_mounted:
  assumes "\<not> mounted E p tr"
  shows "mounted E p (snd (write_backup_to_target E print print_config backup n privilege tr)) \<longleftrightarrow>
    p = KeysPartition \<and> privilege = PrivilegeSudo \<and> re_answer E (RMount KeysPartition False) (length tr) = Inr () \<and>
    re_answer E RChown (Suc (length tr)) \<noteq> Inr ()"
proof -
  let ?body = "\<lambda>tr. case write_keys_files E print backup n tr of (r, tr1) \<Rightarrow> (r, snd (rdo_warn E RSync tr1))"
  let ?config = "map_errS (\<lambda>_. ''Failed to stage watermark-config.json on the boot partition'') (write_watermark_config E print_config n)"
  let ?rest = "bindS (with_unmount E KeysPartition ?body) (\<lambda>_. ?config)"
  let ?mount = "map_errS (\<lambda>_. ''Failed to mount target keys partition'') (rdo E (RMount KeysPartition False))"
  let ?run = "write_backup_to_target E print print_config backup n privilege"
  have run: "?run tr = bindS ?mount (\<lambda>_. bindS (reclaim_mount_ownership E privilege) (\<lambda>_. ?rest)) tr"
    by (simp add: write_backup_to_target_def)
  have config: "releases E p ?config"
    by (intro releases_map_errS releases_write_watermark_config)
  have rest: "\<not> mounted E p (snd (?rest t))" if "p = KeysPartition \<or> \<not> mounted E p t" for t
  proof -
    have "\<not> mounted E p (snd (with_unmount E KeysPartition ?body t))"
      using that releases_synced [OF releases_write_keys_files, of E p print backup n]
      by (auto simp: snd_with_unmount releases_def)
    then show ?thesis
      unfolding snd_bindS using config
      by (cases "with_unmount E KeysPartition ?body t"; cases "fst (with_unmount E KeysPartition ?body t)")
        (simp_all add: releases_def)
  qed
  show ?thesis
  proof (cases "re_answer E (RMount KeysPartition False) (length tr)")
    case (Inl e)
    then show ?thesis
      using assms by (simp add: run bindS_run)
  next
    case (Inr u)
    let ?t = "tr @ [RMount KeysPartition False]"
    have step: "?run tr = bindS (reclaim_mount_ownership E privilege) (\<lambda>_. ?rest) ?t"
      using Inr by (simp add: run bindS_run)
    have there: "mounted E p ?t \<longleftrightarrow> p = KeysPartition"
      using Inr assms by auto
    show ?thesis
    proof (cases privilege)
      case PrivilegeDirect
      then show ?thesis
        unfolding step using rest [of ?t] there by (auto simp: reclaim_mount_ownership_def bindS_simps)
    next
      case PrivilegeSudo
      then have "?run tr = (case re_answer E RChown (Suc (length tr)) of Inl e \<Rightarrow> (Inl e, ?t @ [RChown])
          | Inr _ \<Rightarrow> ?rest (?t @ [RChown]))"
        using step by (simp add: reclaim_mount_ownership_def bindS_run)
      moreover have "mounted E p (?t @ [RChown]) \<longleftrightarrow> p = KeysPartition"
        using there by (simp add: mounted_def)
      ultimately show ?thesis
        using rest [of "?t @ [RChown]"] Inr PrivilegeSudo by (auto split: sum.split)
    qed
  qed
qed

lemma manifest_mounted:
  assumes "\<not> mounted E p tr"
  shows "mounted E p (snd (write_flash_manifest E manifest tr)) \<longleftrightarrow>
    p = BootPartition \<and> re_answer E (RMount BootPartition False) (length tr) = Inr () \<and> \<not> is_ok manifest"
  using assms
  by (cases "re_answer E (RMount BootPartition False) (length tr)"; cases manifest)
    (auto simp: write_flash_manifest_def bindS_run snd_with_unmount rdo_def mounted_def)

lemma releases_verify_target: "releases E p (verify_target E json V config)"
proof -
  have read: "releases E p (bindS (map_errS h (rdo E (RMount q True))) (\<lambda>_. bindS (rdo E (RUnmount q)) f))"
    if "\<And>x. releases E p (f x)" for h q f
    using that by (auto simp: releases_def bindS_run mounted_def split: sum.split)
  have "releases E p (read_watermark_config E config)"
    by (auto simp: releases_def read_watermark_config_def bindS_run liftR_def mounted_def split: sum.split)
  then have "releases E p (read_back_and_verify E config)"
    unfolding read_back_and_verify_def by (intro releases_bindS releases_map_errS) (auto intro: release_intros)
  then show ?thesis
    unfolding verify_target_def by (intro read release_intros)
qed

section \<open>The source card is not the one that is flashed\<close>

text \<open>Operations that change no card.\<close>

definition touches_no_card :: "restore_op \<Rightarrow> bool" where
  "touches_no_card op \<longleftrightarrow> (case op of RSwap \<Rightarrow> True | RIdentified _ \<Rightarrow> True | RConfirm \<Rightarrow> True | _ \<Rightarrow> False)"

lemma touches_no_card_ops [simp]: "touches_no_card RSwap" "touches_no_card (RIdentified a)" "touches_no_card RConfirm"
  by (simp_all add: touches_no_card_def)

abbreviation stays :: "restore_op \<Rightarrow> bool" where
  "stays op \<equiv> op \<noteq> RSwap"

lemma adds_rio [adds_intros]:
  "P op \<Longrightarrow> adds_only P (rdo E op)" "P op \<Longrightarrow> adds_only P (rdo_warn E op)" "adds_only P (liftR r)"
  by (auto simp: adds_only_def rdo_def rdo_warn_def liftR_def)

lemma adds_map_errS [adds_intros]: "adds_only P f \<Longrightarrow> adds_only P (map_errS h f)"
  unfolding adds_only_def map_errS_def by (metis (no_types, lifting) case_prod_unfold snd_conv)

lemma adds_with_unmount [adds_intros]: "adds_only P body \<Longrightarrow> P (RUnmount q) \<Longrightarrow> adds_only P (with_unmount E q body)"
  unfolding adds_only_def snd_with_unmount
  by (metis append.assoc list_all_append list.pred_inject)

lemma adds_synced [adds_intros]:
  assumes "adds_only P f" "P RSync"
  shows "adds_only P (\<lambda>tr. case f tr of (r, tr1) \<Rightarrow> (r, snd (rdo_warn E RSync tr1)))"
  unfolding adds_only_def
proof
  fix tr
  obtain ops where "snd (f tr) = tr @ ops" "list_all P ops"
    using assms(1) unfolding adds_only_def by blast
  then show "\<exists>ops. snd (case f tr of (r, tr1) \<Rightarrow> (r, snd (rdo_warn E RSync tr1))) = tr @ ops \<and> list_all P ops"
    using assms(2) by (intro exI [of _ "ops @ [RSync]"]) (auto simp: rdo_warn_def split: prod.splits)
qed

lemma adds_if [adds_intros]: "adds_only P f \<Longrightarrow> adds_only P (\<lambda>tr. if c tr then f tr else (Inr (), tr))"
  by (auto simp: adds_only_def)

lemma adds_write_pin_blobs [adds_intros]: "adds_only stays (write_pin_blobs E bs)"
  by (induction bs) (auto intro!: adds_intros)

lemma adds_cases [adds_intros]:
  "adds_only P f \<Longrightarrow> adds_only P g \<Longrightarrow> adds_only P (if c then f else g)"
  "(\<And>e. adds_only P (f' e)) \<Longrightarrow> (\<And>x. adds_only P (g' x)) \<Longrightarrow> adds_only P (case r of Inl e \<Rightarrow> f' e | Inr x \<Rightarrow> g' x)"
  by (auto split: sum.split)

lemma create_and_format_stays [adds_intros]: "adds_only stays (create_and_format_partitions E pr sudo table sectors appeared)"
  unfolding create_and_format_partitions_def by (intro adds_intros) simp_all

lemma write_backup_stays [adds_intros]: "adds_only stays (write_backup_to_target E print print_config backup n pr)"
  unfolding write_backup_to_target_def reclaim_mount_ownership_def write_keys_files_def write_chain_info_def
    write_watermark_config_def write_config_file_def
  by (intro adds_intros) simp_all

lemma verify_target_stays [adds_intros]: "adds_only stays (verify_target E json V config)"
  unfolding verify_target_def read_back_and_verify_def read_watermark_config_def by (intro adds_intros) simp_all

lemma flash_and_write_stays: "adds_only stays (flash_and_write E job backup privilege)"
  unfolding flash_and_write_def write_flash_manifest_def by (intro adds_intros) simp_all

lemma confirm_run:
  "yes \<Longrightarrow> bindS (confirm_restore_operation E yes) f tr = f True tr"
  "\<not> yes \<Longrightarrow> bindS (confirm_restore_operation E yes) f tr =
     (case re_confirmed E (length tr) of Inl e \<Rightarrow> (Inl e, tr @ [RConfirm]) | Inr b \<Rightarrow> f b (tr @ [RConfirm]))"
  by (auto simp: confirm_restore_operation_def bindS_def split: sum.split)

text \<open>Nothing is changed before the confirmation.\<close>

lemma dual_reader_steps:
  assumes "run_dual_reader_restore E job backup privilege tr = (r, tr')"
  obtains post where "tr' = tr @ post" "list_all stays post"
    "list_all touches_no_card post \<or> fj_yes job \<or> (re_confirmed E (length tr) = Inr True \<and> (\<exists>rest. post = RConfirm # rest))"
proof -
  have flash: "\<exists>ops. snd (flash_and_write E job backup privilege t) = t @ ops \<and> list_all stays ops" for t
    using flash_and_write_stays unfolding adds_only_def by blast
  have tail: "snd (bindS (flash_and_write E job backup privilege) (\<lambda>_. returnS CardWritten) t)
      = snd (flash_and_write E job backup privilege t)" for t
    by (auto simp: bindS_def returnS_def split: prod.splits sum.splits)
  have confirmed: "\<exists>post. tr' = tr @ post \<and> list_all stays post \<and>
      (list_all touches_no_card post \<or> fj_yes job \<or> (re_confirmed E (length tr) = Inr True \<and> (\<exists>rest. post = RConfirm # rest)))"
    if run: "bindS (confirm_restore_operation E (fj_yes job)) (\<lambda>ok. if \<not> ok then returnS Cancelled
       else bindS (flash_and_write E job backup privilege) (\<lambda>_. returnS CardWritten)) tr = (r, tr')"
  proof (cases "fj_yes job")
    case True
    then have "tr' = snd (flash_and_write E job backup privilege tr)"
      using run unfolding confirm_run(1) [OF True] by (simp flip: tail)
    then show ?thesis
      using flash [of tr] True by auto
  next
    case False
    show ?thesis
    proof (cases "re_confirmed E (length tr) = Inr True")
      case True
      then have "tr' = snd (flash_and_write E job backup privilege (tr @ [RConfirm]))"
        using run unfolding confirm_run(2) [OF False] by (simp flip: tail)
      then show ?thesis
        using flash [of "tr @ [RConfirm]"] True by fastforce
    next
      case no: False
      then have "tr' = tr @ [RConfirm]"
        using run unfolding confirm_run(2) [OF False]
        by (cases "re_confirmed E (length tr)") (auto simp: returnS_def)
      then show ?thesis
        by (simp add:)
    qed
  qed
  show thesis
  proof (cases "extract_named_keys (fj_json job) (sb_public_key_hashs backup)")
    case (Inl e)
    then show ?thesis
      using assms that [of "[]"] by (simp add: run_dual_reader_restore_def bindS_def liftR_def)
  next
    case (Inr ks)
    then show ?thesis
      using assms confirmed that by (auto simp: run_dual_reader_restore_def bindS_def liftR_def)
  qed
qed

lemma read_until_touches_no_card: "adds_only touches_no_card (read_until E reads)"
  by (induction reads rule: read_until.induct) (auto intro!: adds_intros)

lemma identify_run: "identify E tr = (Inr (re_identity E (length tr)), tr @ [RIdentified (re_identity E (length tr))])"
  by (simp add: identify_def)

lemma swap_until_steps:
  assumes "swap_until_other fuel E source_id tr = (r, tr')"
  shows "\<exists>mid. tr' = tr @ mid \<and> list_all touches_no_card mid \<and>
    (r = Inr True \<longrightarrow> (\<exists>before b. mid = before @ [RIdentified b] \<and> \<not> card_ids_match source_id b))"
  using assms
proof (induction fuel arbitrary: tr)
  case 0
  then show ?case
    by (auto simp: bindS_def identify_def returnS_def split: if_splits)
next
  case (Suc n)
  let ?b = "re_identity E (length tr)"
  show ?case
  proof (cases "card_ids_match source_id ?b")
    case True
    then have "swap_until_other n E source_id (tr @ [RIdentified ?b, RSwap]) = (r, tr')"
      using Suc.prems unfolding swap_until_other.simps [of "Suc n"]
      by (simp add: bindS_eqI1 [OF identify_run] bindS_run del: swap_until_other.simps)
    from Suc.IH [OF this] obtain mid where "tr' = (tr @ [RIdentified ?b, RSwap]) @ mid" "list_all touches_no_card mid"
      "r = Inr True \<longrightarrow> (\<exists>before b. mid = before @ [RIdentified b] \<and> \<not> card_ids_match source_id b)"
      by blast
    then show ?thesis
      by (intro exI [of _ "RIdentified ?b # RSwap # mid"]) (auto simp: Cons_eq_append_conv)
  next
    case False
    then show ?thesis
      using Suc.prems by (auto simp: bindS_def identify_def returnS_def)
  qed
qed

text \<open>
  When anything is done to a card, the card that was read was identified, a swap was waited for, and the
  card found last in the reader, with none swapped since, was not the same one.
\<close>

lemma single_reader_steps:
  assumes "run_single_reader_restore fuel E job reads probed tr = (r, tr')"
  obtains ops where "tr' = tr @ ops" "list_all touches_no_card ops"
  | before a mid b post where "tr' = tr @ before @ [RIdentified a, RSwap] @ mid @ [RIdentified b] @ post"
    "list_all touches_no_card (before @ mid)" "list_all stays post" "\<not> card_ids_match a b"
    "fj_yes job \<or> list_all touches_no_card post \<or>
       (re_confirmed E (length (tr @ before @ [RIdentified a, RSwap] @ mid @ [RIdentified b])) = Inr True \<and>
        (\<exists>rest. post = RConfirm # rest))"
proof (cases probed)
  case (Inl e)
  then show ?thesis
    using assms that(1) [of "[]"] by (simp add: run_single_reader_restore_def bindS_run)
next
  case (Inr privilege)
  obtain before where before: "snd (read_until E reads tr) = tr @ before" "list_all touches_no_card before"
    using read_until_touches_no_card unfolding adds_only_def by blast
  obtain r1 where read: "read_until E reads tr = (r1, tr @ before)"
    using before(1) by (metis prod.collapse)
  show ?thesis
  proof (cases "\<exists>backup. r1 = Inr (Some backup) \<and>
      warn_network_mismatch backup (fj_chain job) (fj_yes job) (fj_mismatch_answer job) = Inr True")
    case False
    then have "tr' = tr @ before"
      using assms read Inr
      by (cases r1) (auto simp: run_single_reader_restore_def bindS_run bindS_def [of "read_until E reads"] returnS_def
          split: option.splits sum.splits if_splits)
    then show ?thesis
      using that(1) before(2) by blast
  next
    case True
    then obtain backup where r1: "r1 = Inr (Some backup)"
      "warn_network_mismatch backup (fj_chain job) (fj_yes job) (fj_mismatch_answer job) = Inr True"
      by blast
    define a where "a = re_identity E (length (tr @ before))"
    define t where "t = tr @ before @ [RIdentified a, RSwap]"
    obtain r2 t2 where swap: "swap_until_other fuel E a t = (r2, t2)"
      by (cases "swap_until_other fuel E a t")
    have run: "(r, tr') = bindS (swap_until_other fuel E a)
        (\<lambda>swapped. if \<not> swapped then returnS StillWaiting else run_dual_reader_restore E job backup privilege) t"
      using assms Inr read r1
      by (simp add: run_single_reader_restore_def bindS_run bindS_def [of "read_until E reads"] bindS_eqI1 [OF identify_run]
          a_def t_def del: swap_until_other.simps)
    obtain mid where mid: "t2 = t @ mid" "list_all touches_no_card mid"
      "r2 = Inr True \<longrightarrow> (\<exists>before b. mid = before @ [RIdentified b] \<and> \<not> card_ids_match a b)"
      using swap_until_steps [OF swap] by blast
    show ?thesis
    proof (cases "r2 = Inr True")
      case False
      then have "tr' = t2"
        using run swap by (cases r2) (auto simp: bindS_def returnS_def)
      then show ?thesis
        using that(1) [of "before @ [RIdentified a, RSwap] @ mid"] before(2) mid by (simp add: t_def)
    next
      case True
      then obtain inner b where b: "mid = inner @ [RIdentified b]" "\<not> card_ids_match a b"
        using mid(3) by blast
      have "run_dual_reader_restore E job backup privilege t2 = (r, tr')"
        using run swap True by (simp add: bindS_def [of "swap_until_other fuel E a"] del: swap_until_other.simps)
      then obtain post where "tr' = t2 @ post" "list_all stays post"
        "list_all touches_no_card post \<or> fj_yes job \<or> (re_confirmed E (length t2) = Inr True \<and> (\<exists>rest. post = RConfirm # rest))"
        by (rule dual_reader_steps)
      then show ?thesis
        using that(2) [of before a inner b post] before(2) mid b by (auto simp: t_def)
    qed
  qed
qed

section \<open>What is on the card afterwards\<close>

text \<open>The files of a partition: formatting empties it, a write goes to the partition that is mounted.\<close>

fun card_step :: "card_partition \<Rightarrow> restore_op \<Rightarrow> card_partition option \<times> (string \<rightharpoonup> bytes)
    \<Rightarrow> card_partition option \<times> (string \<rightharpoonup> bytes)" where
  "card_step p (RFormat q) (m, files) = (m, if q = p then Map.empty else files)"
| "card_step p (RMount q ro) (m, files) = (Some q, files)"
| "card_step p (RUnmount q) (m, files) = (None, files)"
| "card_step p (RWrite name bs) (m, files) = (m, if m = Some p then files(name \<mapsto> bs) else files)"
| "card_step p op (m, files) = (m, files)"

definition card_files :: "card_partition \<Rightarrow> restore_op list \<Rightarrow> string \<rightharpoonup> bytes" where
  "card_files p tr = snd (fold (card_step p) tr (None, Map.empty))"

lemma fold_writes:
  "fold (card_step p) (map (\<lambda>b. RWrite (fst b) (snd b)) bs) (Some p, files) = (Some p, files ++ map_of (rev bs))"
  by (induction bs arbitrary: files) (auto simp: map_add_def fun_eq_iff split: option.splits)

lemma fold_modes: "set ops \<subseteq> {RMode n m} \<Longrightarrow> fold (card_step p) ops c = c"
  by (induction ops) (auto, cases c, auto)

lemma target_files:
  assumes "set existing \<subseteq> {RMode CHAIN_INFO_FILENAME 384}"
  shows "card_files KeysPartition (tr @ target_steps backup privilege layout existing chain config manifest) =
    (map_of (rev (sb_pin_blobs backup)))(''public_keys'' \<mapsto> sb_public_keys backup,
      ''public_key_hashs'' \<mapsto> sb_public_key_hashs backup, CHAIN_INFO_FILENAME \<mapsto> chain, ''.setup_complete'' \<mapsto> ascii ''1'')"
proof -
  obtain m files where "fold (card_step KeysPartition) tr (None, Map.empty) = (m, files)"
    by fastforce
  then show ?thesis
    by (simp add: card_files_def target_steps_def fold_writes fold_modes [OF assms])
qed

end
