(* ===== verification/Restore_Runs.thy ===== *)
theory Restore_Runs
  imports Card_Restore Ui_Samples
begin

text \<open>
  The host's restore and migration put together with the device that boots the card: a restored card
  carries the blobs of the source byte for byte, and a migrated one opens on the device under the new PIN
  into the two chosen keys. Concrete runs show that the hypotheses can hold.
\<close>

section \<open>The card in the device\<close>

text \<open>The device sees the keys partition under its mount point.\<close>

definition on_device :: "(string \<rightharpoonup> bytes) \<Rightarrow> (path \<rightharpoonup> bytes) \<Rightarrow> bool" where
  "on_device files m \<longleftrightarrow> (\<forall>n. m [''keys'', n] = files n)"

lemma dual_reader_completed:
  assumes "run_dual_reader_restore E job backup privilege tr = (Inr CardWritten, tr')"
  obtains tr0 t s layout chain config manifest existing where "tr0 = tr \<or> tr0 = tr @ [RConfirm]"
    "fj_table job = Inr t" "fj_sectors job = Inr s" "calculate_layout_from_json t s = Inr layout"
    "set existing \<subseteq> {RMode CHAIN_INFO_FILENAME 384}"
    "tr' = tr0 @ target_steps backup privilege layout existing chain config manifest"
proof -
  obtain tr0 where tr0: "confirm_restore_operation E (fj_yes job) tr = (Inr True, tr0)"
    "flash_and_write E job backup privilege tr0 = (Inr (), tr')"
    using assms by (auto simp: run_dual_reader_restore_def run_Inr split: if_splits)
  moreover have "tr0 = tr \<or> tr0 = tr @ [RConfirm]"
    using tr0(1) by (auto simp: confirm_restore_operation_def split: if_splits)
  ultimately show thesis
    using that by (blast elim: flash_and_write_Inr)
qed

lemma completed_files:
  assumes "run_dual_reader_restore E job backup privilege tr = (Inr CardWritten, tr')"
  obtains chain where "card_files KeysPartition tr' =
    (map_of (rev (sb_pin_blobs backup)))(''public_keys'' \<mapsto> sb_public_keys backup,
      ''public_key_hashs'' \<mapsto> sb_public_key_hashs backup, CHAIN_INFO_FILENAME \<mapsto> chain, ''.setup_complete'' \<mapsto> ascii ''1'')"
  using assms by (rule dual_reader_completed) (use target_files that in metis)

section \<open>A restored card\<close>

lemma safe_name_other:
  assumes "is_safe_pin_blob_filename n"
  shows "n \<noteq> ''public_keys''" "n \<noteq> ''public_key_hashs''" "n \<noteq> CHAIN_INFO_FILENAME" "n \<noteq> ''.setup_complete''"
  using safe_name(1) [OF assms] by (auto simp: CHAIN_INFO_FILENAME_def)

text \<open>A directory does not list a name twice.\<close>

definition listed_once :: "listing \<Rightarrow> bool" where
  "listed_once es \<longleftrightarrow> (\<forall>n c c'. Inr (Some n, c) \<in> set es \<longrightarrow> Inr (Some n, c') \<in> set es \<longrightarrow> c = c')"

lemma map_of_rev_functional:
  assumes "\<forall>n b b'. (n, b) \<in> set xs \<longrightarrow> (n, b') \<in> set xs \<longrightarrow> b = b'" "(n, b) \<in> set xs"
  shows "map_of (rev xs) n = Some b"
proof (cases "map_of (rev xs) n")
  case None
  then show ?thesis
    using assms(2) by (force simp: map_of_eq_None_iff)
next
  case (Some b')
  then show ?thesis
    using assms map_of_SomeD [OF Some] by auto
qed

lemma restored_files:
  assumes read: "read_source_card E json S tr0 = (Inr backup, tr)" and dir: "sc_dir S = Inr es" "listed_once es"
    and run: "run_dual_reader_restore E job backup privilege tr = (Inr CardWritten, tr')"
    and n: "is_safe_pin_blob_filename n" "Inr (Some n, c) \<in> set es"
  shows "\<exists>bs. c = Inr bs \<and> card_files KeysPartition tr' n = Some bs"
proof -
  have blobs: "read_pin_blobs (Inr es) = Inr (sb_pin_blobs backup)"
    using read_source_card_Inr(1) [OF read] dir by simp
  obtain bs where c: "c = Inr bs"
    using n read_pin_blobs_Inr(4) [OF blobs] by (cases c) auto
  then have "(n, bs) \<in> set (sb_pin_blobs backup)"
    using n read_pin_blobs_Inr(1) [OF blobs] by auto
  moreover have "b = b'" if "(m, b) \<in> set (sb_pin_blobs backup)" "(m, b') \<in> set (sb_pin_blobs backup)" for m b b'
    using that dir(2) read_pin_blobs_Inr(1) [OF blobs] unfolding listed_once_def by fastforce
  ultimately have "map_of (rev (sb_pin_blobs backup)) n = Some bs"
    by (intro map_of_rev_functional) auto
  moreover obtain chain where "card_files KeysPartition tr' =
    (map_of (rev (sb_pin_blobs backup)))(''public_keys'' \<mapsto> sb_public_keys backup,
      ''public_key_hashs'' \<mapsto> sb_public_key_hashs backup, CHAIN_INFO_FILENAME \<mapsto> chain, ''.setup_complete'' \<mapsto> ascii ''1'')"
    using run by (rule completed_files)
  ultimately show ?thesis
    using c safe_name_other [OF n(1)] by simp
qed

lemma restored_nothing_else:
  assumes "read_source_card E json S tr0 = (Inr backup, tr)" "sc_dir S = Inr es"
    and "run_dual_reader_restore E job backup privilege tr = (Inr CardWritten, tr')"
    and "card_files KeysPartition tr' n = Some bs"
  shows "n \<in> {''public_keys'', ''public_key_hashs'', CHAIN_INFO_FILENAME, ''.setup_complete''} \<or>
    is_safe_pin_blob_filename n \<and> Inr (Some n, Inr bs) \<in> set es"
proof -
  have blobs: "read_pin_blobs (Inr es) = Inr (sb_pin_blobs backup)"
    using read_source_card_Inr(1) [OF assms(1)] assms(2) by simp
  obtain chain where "card_files KeysPartition tr' =
    (map_of (rev (sb_pin_blobs backup)))(''public_keys'' \<mapsto> sb_public_keys backup,
      ''public_key_hashs'' \<mapsto> sb_public_key_hashs backup, CHAIN_INFO_FILENAME \<mapsto> chain, ''.setup_complete'' \<mapsto> ascii ''1'')"
    using assms(3) by (rule completed_files)
  then show ?thesis
    using assms(4) read_pin_blobs_Inr(1) [OF blobs] by (auto split: if_splits dest!: map_of_SomeD)
qed

section \<open>A migrated card\<close>

lemma migrated_kept:
  assumes blobs: "sb_pin_blobs backup = [(SECRET_KEYS_ENC_V2_FILENAME, blob)]" "opens_only C pin json blob"
    and run: "run_dual_reader_restore E job backup privilege tr = (Inr CardWritten, tr')"
    and dev: "on_device (card_files KeysPartition tr') m" "settled m d"
  shows "keys_kept C pin json d" "kd_files d SECRET_KEYS_ENC_PATH = None" "\<not> is_first_boot True d" "calm d"
proof -
  obtain chain where files: "card_files KeysPartition tr' =
    (map_of (rev (sb_pin_blobs backup)))(''public_keys'' \<mapsto> sb_public_keys backup,
      ''public_key_hashs'' \<mapsto> sb_public_key_hashs backup, CHAIN_INFO_FILENAME \<mapsto> chain, ''.setup_complete'' \<mapsto> ascii ''1'')"
    using run by (rule completed_files)
  have m: "m SECRET_KEYS_ENC_V2_PATH = Some blob" "m SECRET_KEYS_ENC_PATH = None" "m SETUP_MARKER = Some (ascii ''1'')"
    using dev(1) by (simp_all add: on_device_def files blobs(1) SECRET_KEYS_ENC_V2_PATH_def SECRET_KEYS_ENC_PATH_def
        SETUP_MARKER_def SECRET_KEYS_ENC_V2_FILENAME_def CHAIN_INFO_FILENAME_def)
  have d: "kd_files d = m" "kd_past d = [m]" "kd_dirty d = []" "calm d"
    using dev(2) by (simp_all add: settled_def)
  show "keys_kept C pin json d"
    using m blobs(2) by (simp add: keys_safe_def recoverable_def d)
  show "kd_files d SECRET_KEYS_ENC_PATH = None" "\<not> is_first_boot True d" "calm d"
    using m by (simp_all add: d is_first_boot_def needs_storage_setup_def kd_exists_def)
qed

section \<open>Concrete runs\<close>

definition octez_crates :: crates where
  "octez_crates = sample_crates\<lparr>bs58_encode := (\<lambda>bs. ''BLsk'' @ nibbles bs),
     bs58_decode := (\<lambda>s. if take 4 s = ''BLsk'' \<and> list_all plain_char s then Inr (from_nibbles (drop 4 s)) else Inl ''character'')\<rparr>"

lemma octez_crates_plain: "bs58_texts_plain octez_crates"
  by (simp add: bs58_texts_plain_def octez_crates_def)

definition octez_text :: "u8 \<Rightarrow> string" where
  "octez_text b = ''unencrypted:'' @ sk_to_b58check octez_crates sample_blst (SecretKey (barray_of [b]))"

text \<open>Both files of the source are read as the same list; the addresses are not on the card.\<close>

definition sample_octez :: octez_json where
  "sample_octez bs = Inr [(Some ''baker'', Some (octez_text 7)), (Some ''dal'', Some (octez_text 8))]"

definition sample_migration :: "string + source_backup" where
  "sample_migration =
     build_migrated_backup octez_crates sample_blst sample_ciphers sample_octez sample_wallet_json (barray_of [3]) (barray_of [4])
       (Inr ([], empty_keys)) [] None sample_pin \<lparr>rm_consensus = Some ''dal'', rm_companion = None\<rparr> None"

definition obliging_host :: restore_env where
  "obliging_host = \<lparr>re_answer = (\<lambda>_ _. Inr ()), re_identity = (\<lambda>n. Some (if n = 0 then ''A'' else ''B'')),
     re_confirmed = (\<lambda>_. Inr True), re_exists = (\<lambda>_ _. False)\<rparr>"

definition sample_job :: flash_job where
  "sample_job =
     \<lparr>fj_chain = \<lparr>nc_id = ''NetX'', nc_level = 5, nc_name = ''main'', nc_blocks_per_cycle = 10\<rparr>, fj_yes = False,
      fj_json = (\<lambda>_. Inr []), fj_print_chain = (\<lambda>_. Inr [1]), fj_print_config = (\<lambda>_. Inr [2]), fj_manifest = Inr [3],
      fj_sudo = Inr (), fj_table = Inr (Some (Some [(Some 8192, Some 65536), (Some 73728, Some 131072)])),
      fj_sectors = Inr 31116288, fj_appeared = True, fj_chain_reader = (\<lambda>_. Some (Some ''NetX'', Some ''main'')),
      fj_view = \<lparr>kv_len = (\<lambda>_. Some 9), kv_dir = Some [(Some ''secret_keys.enc.v2'', Some 80)], kv_exists = (\<lambda>_. True),
        kv_chain_info = Some ''{}''\<rparr>,
      fj_config = Inr \<lparr>nc_id = ''NetX'', nc_level = 5, nc_name = ''main'', nc_blocks_per_cycle = 10\<rparr>,
      fj_mismatch_answer = Inr True\<rparr>"

lemma sample_migrates: "is_ok sample_migration"
  by code_simp

lemma obliging_rdo [simp]:
  "re_answer obliging_host op n = Inr ()" "re_confirmed obliging_host n = Inr True" "re_exists obliging_host f n = False"
  by (simp_all add: obliging_host_def)

lemma obliging_blobs: "write_pin_blobs obliging_host bs tr = (Inr (), tr @ map (\<lambda>b. RWrite (fst b) (snd b)) bs)"
  by (induction bs arbitrary: tr) (simp_all add: bindS_run returnS_def)

lemma sample_layout: "is_ok (calculate_layout_from_json (Some (Some [(Some 8192, Some 65536), (Some 73728, Some 131072)])) 31116288)"
  by code_simp

lemma sample_completes:
  "\<exists>tr'. run_dual_reader_restore obliging_host sample_job backup PrivilegeSudo tr = (Inr CardWritten, tr')"
proof -
  obtain layout where layout:
    "calculate_layout_from_json (Some (Some [(Some 8192, Some 65536), (Some 73728, Some 131072)])) 31116288 = Inr layout"
    using sample_layout by (auto simp: is_ok_iff)
  have format: "create_and_format_partitions obliging_host PrivilegeSudo (fj_sudo sample_job) (fj_table sample_job)
      (fj_sectors sample_job) (fj_appeared sample_job) t =
      (Inr (), t @ [RPartition (generate_sfdisk_script layout), RReread, RFormat KeysPartition, RFormat DataPartition])" for t
    by (simp add: create_and_format_partitions_def sample_job_def bindS_run layout rdo_def)
  have files: "\<exists>t'. write_keys_files obliging_host (fj_print_chain sample_job) backup (fj_chain sample_job) t = (Inr (), t')" for t
    by (simp add: write_keys_files_def write_chain_info_def map_errS_def bindS_def obliging_blobs rdo_def liftR_def sample_job_def)
  have boot: "\<exists>t'. write_watermark_config obliging_host (fj_print_config sample_job) (fj_chain sample_job) t = (Inr (), t')" for t
    by (simp add: write_watermark_config_def write_config_file_def with_unmount_def map_errS_def bindS_def rdo_def liftR_def sample_job_def returnS_def)
  have backup: "\<exists>t'. write_backup_to_target obliging_host (fj_print_chain sample_job) (fj_print_config sample_job) backup
      (fj_chain sample_job) PrivilegeSudo t = (Inr (), t')" for t
  proof -
    obtain t1 where "write_keys_files obliging_host (fj_print_chain sample_job) backup (fj_chain sample_job)
        (t @ [RMount KeysPartition False, RChown]) = (Inr (), t1)"
      using files by blast
    moreover obtain t2 where "write_watermark_config obliging_host (fj_print_config sample_job) (fj_chain sample_job)
        (t1 @ [RSync, RUnmount KeysPartition]) = (Inr (), t2)"
      using boot by blast
    ultimately show ?thesis
      by (simp add: write_backup_to_target_def reclaim_mount_ownership_def bindS_run)
        (simp add: with_unmount_def bindS_def map_errS_def rdo_def rdo_warn_def returnS_def)
  qed
  have manifest: "\<exists>t'. write_flash_manifest obliging_host (fj_manifest sample_job) t = (Inr (), t')" for t
    by (simp add: write_flash_manifest_def with_unmount_def bindS_def rdo_def liftR_def sample_job_def returnS_def)
  have verify: "\<exists>t'. verify_target obliging_host (fj_chain_reader sample_job) (fj_view sample_job) (fj_config sample_job) t = (Inr (), t')" for t
    by (simp add: verify_target_def read_back_and_verify_def read_watermark_config_def verify_keys_partition_def require_nonempty_def unwrap_str_def
        map_errS_def bindS_def rdo_def rdo_warn_def liftR_def sample_job_def returnS_def)
  obtain t1 where t1: "write_backup_to_target obliging_host (fj_print_chain sample_job) (fj_print_config sample_job) backup
      (fj_chain sample_job) PrivilegeSudo (tr @ [RConfirm, RFlash, RReread, RPartition (generate_sfdisk_script layout), RReread,
        RFormat KeysPartition, RFormat DataPartition]) = (Inr (), t1)"
    using backup by blast
  obtain t2 where t2: "write_flash_manifest obliging_host (fj_manifest sample_job) t1 = (Inr (), t2)"
    using manifest by blast
  obtain t3 where t3: "verify_target obliging_host (fj_chain_reader sample_job) (fj_view sample_job) (fj_config sample_job) t2 = (Inr (), t3)"
    using verify by blast
  have "extract_named_keys (fj_json sample_job) (sb_public_key_hashs backup) = Inr []" "\<not> fj_yes sample_job"
    by (simp_all add: extract_named_keys_def sample_job_def map_filter_simps)
  moreover have "flash_and_write obliging_host sample_job backup PrivilegeSudo (tr @ [RConfirm]) = (Inr (), t3)"
    by (simp add: flash_and_write_def bindS_run) (simp add: bindS_def format t1 t2 t3 map_errS_def)
  ultimately show ?thesis
    by (simp add: run_dual_reader_restore_def bindS_run confirm_run) (simp add: bindS_def returnS_def)
qed

text \<open>With one reader: the source \<open>A\<close> is read, swapped for \<open>B\<close>, and \<open>B\<close> is written.\<close>

definition sample_backup :: source_backup where
  "sample_backup =
     \<lparr>sb_pin_blobs = [(''secret_keys.enc.v2'', [7])], sb_public_keys = [8], sb_public_key_hashs = [9],
      sb_source_card_id = Some ''A'', sb_source_chain_id = Some ''NetX'', sb_source_chain_name = Some ''main''\<rparr>"

lemma sample_swapped:
  "\<exists>tr'. run_single_reader_restore 1 obliging_host sample_job [Inr sample_backup] (Inr PrivilegeSudo) [] = (Inr CardWritten, tr') \<and>
     RFlash \<in> set tr'"
proof -
  obtain tr' where run: "run_dual_reader_restore obliging_host sample_job sample_backup PrivilegeSudo
      [RIdentified (Some ''A''), RSwap, RIdentified (Some ''B'')] = (Inr CardWritten, tr')"
    using sample_completes by blast
  then have "RFlash \<in> set tr'"
    by (rule dual_reader_completed) (auto simp: target_steps_def)
  moreover note run
  moreover have "warn_network_mismatch sample_backup (fj_chain sample_job) (fj_yes sample_job) (fj_mismatch_answer sample_job)
      = Inr True"
    by (simp add: warn_network_mismatch_def sample_backup_def sample_job_def)
  moreover have "re_identity obliging_host 0 = Some ''A''" "re_identity obliging_host (Suc (Suc 0)) = Some ''B''"
    by (simp_all add: obliging_host_def)
  ultimately show ?thesis
    by (simp add: run_single_reader_restore_def bindS_run bindS_def [of "returnS _"] returnS_def bindS_eqI1 [OF identify_run]
        bindS_def [of "bindS _ _"] card_ids_match_def)
qed

text \<open>A card with one blob and a file that is none.\<close>

definition sample_source :: source_card where
  "sample_source =
     \<lparr>sc_has_keys_partition = True,
      sc_dir = Inr [Inr (Some ''public_keys'', Inr [8]), Inr (Some ''secret_keys.enc.v2'', Inr [7]), Inr (None, Inl ''io'')],
      sc_public_keys = Inr [8], sc_public_key_hashs = Inr [9], sc_chain_info = None, sc_card_id = Some ''A''\<rparr>"

lemma sample_source_read:
  "\<exists>backup tr. read_source_card obliging_host (\<lambda>_. (None, None)) sample_source [] = (Inr backup, tr)"
proof -
  have "is_ok (fst (read_source_card obliging_host (\<lambda>_. (None, None)) sample_source []))"
    by code_simp
  then show ?thesis
    by (metis is_ok_iff prod.collapse)
qed

lemma sample_blob_name: "is_safe_pin_blob_filename ''secret_keys.enc.v2''"
  by code_simp

text \<open>The card put into the device.\<close>

lemma sample_inserted: "\<exists>d. on_device files (kd_files d) \<and> settled (kd_files d) d"
proof -
  define m where "m = (\<lambda>p. case p of [a, n] \<Rightarrow> if a = ''keys'' then files n else None | _ \<Rightarrow> None)"
  let ?d = "empty_keys\<lparr>kd_files := m, kd_past := [m]\<rparr>"
  have "settled m ?d"
    using empty_keys_settled by (simp add: settled_def calm_def empty_keys_def)
  moreover have "on_device files m"
    by (simp add: on_device_def m_def)
  ultimately show ?thesis
    by (intro exI [of _ ?d]) simp
qed

text \<open>A host on which taking ownership fails.\<close>

definition sulking_host :: restore_env where
  "sulking_host = obliging_host\<lparr>re_answer := (\<lambda>op _. if op = RChown then Inl ''chown'' else Inr ())\<rparr>"

end
