(* ===== verification/Key_Rotation.thy ===== *)
theory Key_Rotation
  imports Wallet Text
begin

text \<open>
  \<open>host-utility/src/rotate_keys.rs\<close>: the swap from the current to the pending keys of a baker, with the
  parts of \<open>keys.rs\<close>, \<open>key_role.rs\<close> and \<open>constants.rs\<close> it stands on: renaming aliases in the three files
  of the octez wallet, the rollback of a failed promotion, the check that the baker signs, the removal of
  backups, the classification of an interrupted rotation and its resumption. Reads and writes of the files
  fail as the environment says; octez-client, the chain, the baker and the operator are its answers too. Error
  messages are shortened, and their context is kept in place of the chain of causes.
\<close>

section \<open>Aliases\<close>

definition CONSENSUS_KEY_ALIAS :: string where "CONSENSUS_KEY_ALIAS = ''russignol-consensus''"
definition COMPANION_KEY_ALIAS :: string where "COMPANION_KEY_ALIAS = ''russignol-companion''"
definition CONSENSUS_KEY_PENDING_ALIAS :: string where "CONSENSUS_KEY_PENDING_ALIAS = ''russignol-consensus-pending''"
definition COMPANION_KEY_PENDING_ALIAS :: string where "COMPANION_KEY_PENDING_ALIAS = ''russignol-companion-pending''"
definition CONSENSUS_KEY_OLD_ALIAS :: string where "CONSENSUS_KEY_OLD_ALIAS = ''russignol-consensus-old''"
definition COMPANION_KEY_OLD_ALIAS :: string where "COMPANION_KEY_OLD_ALIAS = ''russignol-companion-old''"

lemmas alias_defs = CONSENSUS_KEY_ALIAS_def COMPANION_KEY_ALIAS_def CONSENSUS_KEY_PENDING_ALIAS_def
  COMPANION_KEY_PENDING_ALIAS_def CONSENSUS_KEY_OLD_ALIAS_def COMPANION_KEY_OLD_ALIAS_def

definition baker_alias :: "key_role \<Rightarrow> string" where
  "baker_alias role = (case role of Consensus \<Rightarrow> CONSENSUS_KEY_ALIAS | Companion \<Rightarrow> COMPANION_KEY_ALIAS)"

definition baker_pending_alias :: "key_role \<Rightarrow> string" where
  "baker_pending_alias role =
     (case role of Consensus \<Rightarrow> CONSENSUS_KEY_PENDING_ALIAS | Companion \<Rightarrow> COMPANION_KEY_PENDING_ALIAS)"

definition baker_old_alias :: "key_role \<Rightarrow> string" where
  "baker_old_alias role = (case role of Consensus \<Rightarrow> CONSENSUS_KEY_OLD_ALIAS | Companion \<Rightarrow> COMPANION_KEY_OLD_ALIAS)"

section \<open>The wallet and the environment\<close>

datatype wallet_file = PublicKeyHashs | PublicKeys | SecretKeys

text \<open>
  An entry of a wallet file: its name (\<open>None\<close> when missing or no string) and what else it holds. A file is
  an array of entries or something that does not parse.
\<close>

datatype wallet_content = Entries "(string option \<times> string) list" | Garbled

type_synonym wallet_files = "wallet_file \<Rightarrow> wallet_content option"

text \<open>\<open>RoSignals\<close> carries the expected hash and whether the three signals agreed on it.\<close>

datatype rotation_op =
    RoRead wallet_file | RoWrite wallet_file | RoShow string | RoForget string
  | RoSignals string bool | RoStop | RoStart | RoGuide | RoWait | RoRunning | RoAsk | RoChain | RoSigner

record rotation =
  ro_files :: wallet_files
  ro_log :: "rotation_op list"

text \<open>A write is done, refused before the file was touched, or breaks off after it was truncated.\<close>

datatype write_answer = WriteOk | WriteRefused string | WriteTorn string

record activation_status =
  as_consensus_pending :: bool
  as_consensus_cycle :: "int option"

text \<open>
  Every answer depends on how many operations came before. \<open>rv_show\<close> is what \<open>show address\<close> prints for
  the files as they are, \<open>rv_forgotten\<close> the files after a \<open>forget address\<close> that ended well.
\<close>

record rotation_env =
  rv_read :: "nat \<Rightarrow> string option"
  rv_write :: "nat \<Rightarrow> write_answer"
  rv_show :: "wallet_files \<Rightarrow> string \<Rightarrow> nat \<Rightarrow> string + string"
  rv_forget :: "nat \<Rightarrow> string + bool \<times> string"
  rv_forgotten :: "string \<Rightarrow> wallet_files \<Rightarrow> wallet_files"
  rv_alive :: "nat \<Rightarrow> bool"
  rv_signer_keys :: "nat \<Rightarrow> string + string list"
  rv_active_key :: "nat \<Rightarrow> string + string"
  rv_status :: "nat \<Rightarrow> string + activation_status"
  rv_do :: "rotation_op \<Rightarrow> nat \<Rightarrow> string + unit"
  rv_yes :: "nat \<Rightarrow> string + bool"

type_synonym 'a rot = "(rotation, string, 'a) stateful"

definition logged :: "rotation_op \<Rightarrow> (nat \<Rightarrow> string + 'a) \<Rightarrow> 'a rot" where
  "logged op answer s = (answer (length (ro_log s)), s\<lparr>ro_log := ro_log s @ [op]\<rparr>)"

abbreviation perform :: "rotation_env \<Rightarrow> rotation_op \<Rightarrow> unit rot" where
  "perform E op \<equiv> logged op (rv_do E op)"

text \<open>\<open>.ok()\<close> on a result.\<close>

definition attempt :: "'a rot \<Rightarrow> 'a option rot" where
  "attempt f s = (case f s of (Inl e, s1) \<Rightarrow> (Inr None, s1) | (Inr x, s1) \<Rightarrow> (Inr (Some x), s1))"

section \<open>octez-client and the wallet files\<close>

definition get_key_hash :: "rotation_env \<Rightarrow> string \<Rightarrow> string rot" where
  "get_key_hash E a =
     bindS (\<lambda>s. logged (RoShow a) (rv_show E (ro_files s) a) s) (\<lambda>stdout.
       case List.find (\<lambda>l. strip_prefix ''Hash:'' l \<noteq> None) (lines_of stdout) of
         Some l \<Rightarrow> returnS (trim (drop 5 l))
       | None \<Rightarrow> failS ''Could not parse key hash from octez-client output'')"

definition NO_SUCH_ALIAS :: string where "NO_SUCH_ALIAS = ''no public key hash alias named''"

fun str_contains :: "string \<Rightarrow> string \<Rightarrow> bool" where
  "str_contains needle [] = (needle = [])"
| "str_contains needle (c # cs) = (take (length needle) (c # cs) = needle \<or> str_contains needle cs)"

definition forget_alias_ok :: "bool \<Rightarrow> string \<Rightarrow> bool" where
  "forget_alias_ok status_success stderr = (status_success \<or> str_contains NO_SUCH_ALIAS stderr)"

definition forget_key_alias :: "rotation_env \<Rightarrow> string \<Rightarrow> unit rot" where
  "forget_key_alias E a =
     bindS (logged (RoForget a) (rv_forget E)) (\<lambda>(success, stderr) s.
       let s1 = (if success then s\<lparr>ro_files := rv_forgotten E a (ro_files s)\<rparr> else s) in
       if forget_alias_ok success stderr then (Inr (), s1)
       else (Inl (''Failed to forget alias '' @ CHR 0x27 # a @ [CHR 0x27]), s1))"

definition signer_holds_key :: "rotation_env \<Rightarrow> string \<Rightarrow> bool rot" where
  "signer_holds_key E expected_hash =
     bindS (logged RoSigner (rv_signer_keys E)) (\<lambda>ks. returnS (expected_hash \<in> set ks))"

definition check_remote_signer :: "rotation_env \<Rightarrow> bool rot" where
  "check_remote_signer E =
     bindS (attempt (logged RoSigner (rv_signer_keys E))) (\<lambda>ks.
       returnS (case ks of Some l \<Rightarrow> KEY_ROLE_COUNT \<le> length l | None \<Rightarrow> False))"

fun rename_first :: "string \<Rightarrow> string \<Rightarrow> (string option \<times> string) list \<Rightarrow> (string option \<times> string) list option" where
  "rename_first old_alias new_alias [] = None"
| "rename_first old_alias new_alias ((n, v) # es) =
     (if n = Some old_alias then Some ((Some new_alias, v) # es)
      else map_option (\<lambda>es'. (n, v) # es') (rename_first old_alias new_alias es))"

text \<open>What is written back, if anything: entries under the new name are dropped before the renaming.\<close>

definition rename_entries :: "string \<Rightarrow> string \<Rightarrow> (string option \<times> string) list \<Rightarrow> (string option \<times> string) list option" where
  "rename_entries old_alias new_alias es =
     rename_first old_alias new_alias (filter (\<lambda>e. fst e \<noteq> Some new_alias) es)"

definition read_wallet_file :: "rotation_env \<Rightarrow> wallet_file \<Rightarrow> (string option \<times> string) list rot" where
  "read_wallet_file E f =
     bindS (logged (RoRead f) (\<lambda>n. case rv_read E n of Some e \<Rightarrow> Inl (''Failed to read: '' @ e) | None \<Rightarrow> Inr ())) (\<lambda>_ s.
       case ro_files s f of
         Some (Entries es) \<Rightarrow> (Inr es, s)
       | _ \<Rightarrow> (Inl ''Failed to parse'', s))"

definition write_wallet_file :: "rotation_env \<Rightarrow> wallet_file \<Rightarrow> (string option \<times> string) list \<Rightarrow> unit rot" where
  "write_wallet_file E f es s =
     (let s1 = s\<lparr>ro_log := ro_log s @ [RoWrite f]\<rparr> in
      case rv_write E (length (ro_log s)) of
        WriteOk \<Rightarrow> (Inr (), s1\<lparr>ro_files := (ro_files s)(f := Some (Entries es))\<rparr>)
      | WriteRefused e \<Rightarrow> (Inl (''Failed to write: '' @ e), s1)
      | WriteTorn e \<Rightarrow> (Inl (''Failed to write: '' @ e), s1\<lparr>ro_files := (ro_files s)(f := Some Garbled)\<rparr>))"

fun rename_in_files :: "rotation_env \<Rightarrow> string \<Rightarrow> string \<Rightarrow> wallet_file list \<Rightarrow> bool \<Rightarrow> bool rot" where
  "rename_in_files E old_alias new_alias [] found_in_primary s = (Inr found_in_primary, s)"
| "rename_in_files E old_alias new_alias (f # fs) found_in_primary s =
     (if ro_files s f = None then rename_in_files E old_alias new_alias fs found_in_primary s
      else bindS (read_wallet_file E f) (\<lambda>es.
        case rename_entries old_alias new_alias es of
          None \<Rightarrow> rename_in_files E old_alias new_alias fs (f \<noteq> PublicKeyHashs \<and> found_in_primary)
        | Some es' \<Rightarrow> bindS (write_wallet_file E f es') (\<lambda>_.
            rename_in_files E old_alias new_alias fs (f = PublicKeyHashs \<or> found_in_primary))) s)"

definition rename_alias_locally :: "rotation_env \<Rightarrow> string \<Rightarrow> string \<Rightarrow> unit rot" where
  "rename_alias_locally E old_alias new_alias =
     bindS (rename_in_files E old_alias new_alias [PublicKeyHashs, PublicKeys, SecretKeys] False) (\<lambda>found_in_primary.
       if found_in_primary then returnS ()
       else failS (''Alias '' @ CHR 0x27 # old_alias @ CHR 0x27 # '' not found in wallet.''))"

section \<open>Promotion\<close>

fun join_comma :: "string list \<Rightarrow> string" where
  "join_comma [] = []"
| "join_comma [x] = x"
| "join_comma (x # xs) = x @ '', '' @ join_comma xs"

definition rollback_incomplete :: "string \<Rightarrow> string list \<Rightarrow> string" where
  "rollback_incomplete err unrestored =
     (if unrestored = [] then err
      else ''Rollback incomplete: wallet is inconsistent. Could not restore alias(es): '' @ join_comma unrestored)"

text \<open>Renamings undone in order: from, to, and the alias reported when that fails.\<close>

fun undo_renames :: "rotation_env \<Rightarrow> (string \<times> string \<times> string) list \<Rightarrow> rotation \<Rightarrow> string list \<times> rotation" where
  "undo_renames E [] s = ([], s)"
| "undo_renames E ((old_alias, new_alias, reported) # us) s =
     (case rename_alias_locally E old_alias new_alias s of
        (r, s1) \<Rightarrow> (case undo_renames E us s1 of
          (unrestored, s2) \<Rightarrow> (if is_ok r then unrestored else reported # unrestored, s2)))"

definition rename_or_undo :: "rotation_env \<Rightarrow> string \<Rightarrow> string \<Rightarrow> string \<Rightarrow> (string \<times> string \<times> string) list \<Rightarrow> unit rot" where
  "rename_or_undo E old_alias new_alias err us s =
     (case rename_alias_locally E old_alias new_alias s of
        (Inr _, s1) \<Rightarrow> (Inr (), s1)
      | (Inl _, s1) \<Rightarrow> (case undo_renames E us s1 of (unrestored, s2) \<Rightarrow> (Inl (rollback_incomplete err unrestored), s2)))"

text \<open>Steps 2 and 3: the renamings, each with what is undone when it fails.\<close>

definition promotion_moves :: "rotation_env \<Rightarrow> unit rot" where
  "promotion_moves E =
     bindS (rename_or_undo E CONSENSUS_KEY_ALIAS CONSENSUS_KEY_OLD_ALIAS ''Failed to backup consensus key'' []) (\<lambda>_.
     bindS (rename_or_undo E COMPANION_KEY_ALIAS COMPANION_KEY_OLD_ALIAS ''Failed to backup companion key''
              [(CONSENSUS_KEY_OLD_ALIAS, CONSENSUS_KEY_ALIAS, CONSENSUS_KEY_ALIAS)]) (\<lambda>_.
     bindS (rename_or_undo E CONSENSUS_KEY_PENDING_ALIAS CONSENSUS_KEY_ALIAS ''Failed to promote pending consensus key''
              [(CONSENSUS_KEY_OLD_ALIAS, CONSENSUS_KEY_ALIAS, CONSENSUS_KEY_ALIAS),
               (COMPANION_KEY_OLD_ALIAS, COMPANION_KEY_ALIAS, COMPANION_KEY_ALIAS)]) (\<lambda>_.
       rename_or_undo E COMPANION_KEY_PENDING_ALIAS COMPANION_KEY_ALIAS ''Failed to promote pending companion key''
         [(CONSENSUS_KEY_ALIAS, CONSENSUS_KEY_PENDING_ALIAS, CONSENSUS_KEY_PENDING_ALIAS),
          (CONSENSUS_KEY_OLD_ALIAS, CONSENSUS_KEY_ALIAS, CONSENSUS_KEY_ALIAS),
          (COMPANION_KEY_OLD_ALIAS, COMPANION_KEY_ALIAS, COMPANION_KEY_ALIAS)])))"

definition promote_aliases_with_backup :: "rotation_env \<Rightarrow> unit rot" where
  "promote_aliases_with_backup E =
     bindS (map_errS (\<lambda>_. ''Cannot find pending consensus key alias'') (get_key_hash E CONSENSUS_KEY_PENDING_ALIAS)) (\<lambda>_.
     bindS (map_errS (\<lambda>_. ''Cannot find pending companion key alias'') (get_key_hash E COMPANION_KEY_PENDING_ALIAS)) (\<lambda>_.
     bindS (map_errS (\<lambda>_. ''Cannot find current consensus key alias'') (get_key_hash E CONSENSUS_KEY_ALIAS)) (\<lambda>_.
     bindS (map_errS (\<lambda>_. ''Cannot find current companion key alias'') (get_key_hash E COMPANION_KEY_ALIAS)) (\<lambda>_.
       promotion_moves E))))"

definition rollback_aliases :: "rotation_env \<Rightarrow> unit rot" where
  "rollback_aliases E =
     bindS (rename_alias_locally E CONSENSUS_KEY_OLD_ALIAS CONSENSUS_KEY_ALIAS) (\<lambda>_.
       rename_alias_locally E COMPANION_KEY_OLD_ALIAS COMPANION_KEY_ALIAS)"

section \<open>Is the baker signing?\<close>

definition signing_verified :: "bool \<Rightarrow> bool \<Rightarrow> string option \<Rightarrow> string \<Rightarrow> bool" where
  "signing_verified process_alive signer_has_new_key active_consensus_key expected_consensus_hash =
     (process_alive \<and> signer_has_new_key \<and> active_consensus_key = Some expected_consensus_hash)"

text \<open>At most \<open>n\<close> attempts. The three probes of an attempt are one operation.\<close>

fun signing_attempts :: "nat \<Rightarrow> rotation_env \<Rightarrow> string \<Rightarrow> bool rot" where
  "signing_attempts 0 E expected s = (Inr False, s)"
| "signing_attempts (Suc n) E expected s =
     (let k = length (ro_log s);
          ok_now = signing_verified (rv_alive E k)
            (case rv_signer_keys E k of Inr ks \<Rightarrow> expected \<in> set ks | Inl _ \<Rightarrow> False)
            (ok (rv_active_key E k)) expected;
          s1 = s\<lparr>ro_log := ro_log s @ [RoSignals expected ok_now]\<rparr>
      in if ok_now then (Inr True, s1) else signing_attempts n E expected s1)"

definition verify_baker_signing :: "rotation_env \<Rightarrow> bool rot" where
  "verify_baker_signing E =
     bindS (attempt (get_key_hash E CONSENSUS_KEY_ALIAS)) (\<lambda>r.
       case r of None \<Rightarrow> returnS False | Some expected \<Rightarrow> signing_attempts 12 E expected)"

section \<open>Removing the backups\<close>

text \<open>The aliases that could not be removed.\<close>

fun forget_old :: "rotation_env \<Rightarrow> (key_role \<Rightarrow> string option) \<Rightarrow> key_role list \<Rightarrow> string list rot" where
  "forget_old E old_hashes [] = returnS []"
| "forget_old E old_hashes (role # roles) =
     (if old_hashes role = None then forget_old E old_hashes roles
      else bindS (attempt (forget_key_alias E (baker_old_alias role))) (\<lambda>r.
           bindS (forget_old E old_hashes roles) (\<lambda>unremoved.
             returnS (if r = None then baker_old_alias role # unremoved else unremoved))))"

definition cleanup_backup_aliases :: "rotation_env \<Rightarrow> bool \<Rightarrow> unit rot" where
  "cleanup_backup_aliases E auto_confirm =
     bindS (attempt (get_key_hash E (baker_old_alias Consensus))) (\<lambda>old_consensus.
     bindS (attempt (get_key_hash E (baker_old_alias Companion))) (\<lambda>old_companion.
       if old_consensus = None \<and> old_companion = None then returnS ()
       else bindS (if auto_confirm then returnS True else logged RoAsk (rv_yes E)) (\<lambda>proceed.
         if \<not> proceed then returnS ()
         else bindS (forget_old E (\<lambda>role. case role of Consensus \<Rightarrow> old_consensus | Companion \<Rightarrow> old_companion) KEY_ROLE_ALL)
           (\<lambda>unremoved.
              if unremoved \<noteq> [] then failS (''Could not remove backup alias(es): '' @ join_comma unremoved)
              else returnS ()))))"

section \<open>Where a rotation stands\<close>

definition pending_aliases_exist :: "rotation_env \<Rightarrow> bool rot" where
  "pending_aliases_exist E =
     bindS (attempt (get_key_hash E CONSENSUS_KEY_PENDING_ALIAS)) (\<lambda>c.
     bindS (attempt (get_key_hash E COMPANION_KEY_PENDING_ALIAS)) (\<lambda>k. returnS (c \<noteq> None \<or> k \<noteq> None)))"

definition old_aliases_exist :: "rotation_env \<Rightarrow> bool rot" where
  "old_aliases_exist E =
     bindS (attempt (get_key_hash E CONSENSUS_KEY_OLD_ALIAS)) (\<lambda>c.
     bindS (attempt (get_key_hash E COMPANION_KEY_OLD_ALIAS)) (\<lambda>k. returnS (c \<noteq> None \<or> k \<noteq> None)))"

datatype rotation_state =
    RotationClean | KeysImported string string | RotationPending int | PendingOnChainOnly int
  | KeysActivatedNeedSwap | PartialSwap

definition unwrap_or_default :: "string option \<Rightarrow> string" where
  "unwrap_or_default r = (case r of Some h \<Rightarrow> h | None \<Rightarrow> [])"

definition detect_rotation_state :: "rotation_env \<Rightarrow> rotation_state rot" where
  "detect_rotation_state E =
     bindS (old_aliases_exist E) (\<lambda>old.
       if old then returnS PartialSwap
       else
         bindS (logged RoChain (rv_status E)) (\<lambda>status.
           if as_consensus_pending status then
             (case as_consensus_cycle status of
                None \<Rightarrow> failS ''On-chain consensus key is pending but no activation cycle was reported''
              | Some activation_cycle \<Rightarrow>
                  bindS (pending_aliases_exist E) (\<lambda>pending.
                    returnS (if pending then RotationPending activation_cycle else PendingOnChainOnly activation_cycle)))
           else
             bindS (pending_aliases_exist E) (\<lambda>pending.
               if \<not> pending then returnS RotationClean
               else
                 bindS (attempt (get_key_hash E CONSENSUS_KEY_PENDING_ALIAS)) (\<lambda>c.
                 bindS (attempt (get_key_hash E COMPANION_KEY_PENDING_ALIAS)) (\<lambda>k.
                 bindS (map_errS (\<lambda>_. ''Could not determine the active on-chain consensus key'')
                          (logged RoChain (rv_active_key E))) (\<lambda>active_key.
                   returnS (if active_key = unwrap_or_default c then KeysActivatedNeedSwap
                            else KeysImported (unwrap_or_default c) (unwrap_or_default k))))))))"

definition handle_replace_flag :: "rotation_env \<Rightarrow> rotation_state \<Rightarrow> rotation_state rot" where
  "handle_replace_flag E state =
     (case state of
        RotationClean \<Rightarrow> returnS state
      | PartialSwap \<Rightarrow> failS ''Cannot use --replace during swap state''
      | KeysActivatedNeedSwap \<Rightarrow> failS ''Cannot use --replace during swap state''
      | _ \<Rightarrow>
          bindS (map_errS (\<lambda>_. ''Failed to clear the pending consensus key for --replace'')
                   (forget_key_alias E CONSENSUS_KEY_PENDING_ALIAS)) (\<lambda>_.
          bindS (map_errS (\<lambda>_. ''Failed to clear the pending companion key for --replace'')
                   (forget_key_alias E COMPANION_KEY_PENDING_ALIAS)) (\<lambda>_. returnS RotationClean)))"

section \<open>The swap and its resumption\<close>

text \<open>Step 6 and, when it succeeds, step 7; otherwise \<open>otherwise\<close>.\<close>

definition verify_and_cleanup :: "rotation_env \<Rightarrow> bool \<Rightarrow> unit rot \<Rightarrow> unit rot" where
  "verify_and_cleanup E auto_confirm otherwise =
     bindS (verify_baker_signing E) (\<lambda>verified.
       if verified then cleanup_backup_aliases E auto_confirm else otherwise)"

definition is_baker_running :: "rotation_env \<Rightarrow> bool rot" where
  "is_baker_running E = logged RoRunning (\<lambda>n. Inr (rv_alive E n))"

definition execute_swap_sequence :: "rotation_env \<Rightarrow> bool \<Rightarrow> unit rot" where
  "execute_swap_sequence E auto_confirm =
     bindS (if auto_confirm then returnS True else logged RoAsk (rv_yes E)) (\<lambda>go.
       if \<not> go then returnS ()
       else
         bindS (perform E RoStop) (\<lambda>_.
         bindS (perform E RoGuide) (\<lambda>_.
         bindS (perform E RoWait) (\<lambda>_.
         bindS (promote_aliases_with_backup E) (\<lambda>_.
         bindS (perform E RoStart) (\<lambda>_. verify_and_cleanup E auto_confirm (returnS ())))))))"

definition resume_from_partial_swap :: "rotation_env \<Rightarrow> bool \<Rightarrow> unit rot" where
  "resume_from_partial_swap E auto_confirm =
     bindS (attempt (get_key_hash E CONSENSUS_KEY_ALIAS)) (\<lambda>_.
     bindS (attempt (get_key_hash E CONSENSUS_KEY_OLD_ALIAS)) (\<lambda>_.
     bindS (is_baker_running E) (\<lambda>running.
     bindS (if running then returnS () else perform E RoStart) (\<lambda>_.
       verify_and_cleanup E auto_confirm
         (bindS (logged RoAsk (rv_yes E)) (\<lambda>should_rollback.
            if should_rollback then rollback_aliases E else returnS ()))))))"

definition resume_from_keys_activated_need_swap :: "rotation_env \<Rightarrow> bool \<Rightarrow> unit rot" where
  "resume_from_keys_activated_need_swap E auto_confirm =
     bindS (get_key_hash E CONSENSUS_KEY_PENDING_ALIAS) (\<lambda>pending_hash.
     bindS (attempt (get_key_hash E COMPANION_KEY_PENDING_ALIAS)) (\<lambda>_.
     bindS (check_remote_signer E) (\<lambda>signer_ok.
     bindS (if signer_ok then returnS ()
            else if auto_confirm then failS ''Signer not accessible and --yes specified. Cannot proceed automatically.''
            else bindS (logged RoAsk (rv_yes E)) (\<lambda>proceed.
              if \<not> proceed then failS ''User aborted''
              else bindS (check_remote_signer E) (\<lambda>signer_ok.
                if signer_ok then returnS ()
                else failS ''Signer still not accessible. Please check the device connection and try again.''))) (\<lambda>_.
     bindS (signer_holds_key E pending_hash) (\<lambda>holds.
       if \<not> holds then failS (''Signer does not have the active key '' @ pending_hash)
       else
         bindS (if auto_confirm then returnS True else logged RoAsk (rv_yes E)) (\<lambda>proceed.
           if \<not> proceed then failS ''User aborted''
           else
             bindS (promote_aliases_with_backup E) (\<lambda>_.
             bindS (is_baker_running E) (\<lambda>running.
             bindS (if running then returnS () else perform E RoStart) (\<lambda>_.
               verify_and_cleanup E auto_confirm (returnS ()))))))))))"

end
