(* ===== verification/Rotation_Safety.thy ===== *)
theory Rotation_Safety
  imports Key_Rotation
begin

text \<open>
  What a key rotation does to the aliases of the wallet: a promotion that ends well moves the current keys
  to their backups and the pending ones into their place; one that fails, and reports no alias left
  unrestored, leaves everything but the aliases of the role it failed at as it was. Backups are only
  removed after the three signals agreed.
\<close>

section \<open>Renaming in a file\<close>

text \<open>The reference: aliases as a map.\<close>

definition move_alias :: "string \<Rightarrow> string \<Rightarrow> (string \<rightharpoonup> string) \<Rightarrow> string \<rightharpoonup> string" where
  "move_alias a b m = (case m a of None \<Rightarrow> m | Some v \<Rightarrow> m(a := None, b \<mapsto> v))"

definition named :: "(string option \<times> string) list \<Rightarrow> string \<rightharpoonup> string" where
  "named es a = map_of es (Some a)"

fun names_once :: "(string option \<times> string) list \<Rightarrow> bool" where
  "names_once [] \<longleftrightarrow> True"
| "names_once ((n, v) # es) \<longleftrightarrow> (n \<noteq> None \<longrightarrow> n \<notin> fst ` set es) \<and> names_once es"

lemma move_alias_absent: "m a = None \<Longrightarrow> move_alias a b m = m"
  by (simp add: move_alias_def)

lemma rename_first_None: "rename_first a b es = None \<longleftrightarrow> named es a = None"
  by (induction a b es rule: rename_first.induct) (auto simp: named_def)

lemma rename_first_names:
  "rename_first a b es = Some es' \<Longrightarrow> Some n \<in> fst ` set es' \<Longrightarrow> n = b \<or> Some n \<in> fst ` set es"
proof (induction a b es arbitrary: es' rule: rename_first.induct)
  case (2 a b m v es)
  show ?case
  proof (cases "m = Some a")
    case True
    then have "es' = (Some b, v) # es"
      using 2(2) by simp
    then show ?thesis
      using 2(3) by auto
  next
    case False
    then obtain es1 where "rename_first a b es = Some es1" "es' = (m, v) # es1"
      using 2(2) by auto
    then show ?thesis
      using 2(1) [OF False, of es1] 2(3) by auto
  qed
qed simp

lemma rename_first_Some:
  assumes "rename_first a b es = Some es'" "names_once es" "a \<noteq> b" "named es b = None"
  shows "named es' = move_alias a b (named es)" "names_once es'"
proof -
  have "named es' = move_alias a b (named es) \<and> names_once es'"
    using assms
  proof (induction a b es arbitrary: es' rule: rename_first.induct)
    case (2 a b n v es)
    show ?case
    proof (cases "n = Some a")
      case True
      have "Some a \<notin> fst ` set es" "names_once es"
        using 2(3) True by auto
      moreover have "Some b \<notin> fst ` set es"
        using 2(5) True 2(4) by (auto simp: named_def map_of_eq_None_iff split: if_splits)
      ultimately show ?thesis
        using 2(2,4) True by (auto simp: named_def move_alias_def fun_eq_iff map_of_eq_None_iff)
    next
      case False
      then obtain es1 where es1: "rename_first a b es = Some es1" "es' = (n, v) # es1"
        using 2(2) by auto
      have nb: "n \<noteq> Some b" "named es b = None"
        using 2(5) by (auto simp: named_def split: if_splits)
      have "names_once es" and n: "n \<noteq> None \<longrightarrow> n \<notin> fst ` set es"
        using 2(3) by auto
      with 2(1) [OF False es1(1) _ 2(4) nb(2)] have IH: "named es1 = move_alias a b (named es)" "names_once es1"
        by auto
      have "n \<noteq> None \<longrightarrow> n \<notin> fst ` set es1"
        using rename_first_names [OF es1(1)] n nb(1) by (cases n) auto
      then have "names_once es'"
        using IH(2) es1(2) by auto
      moreover have "named es' = move_alias a b (named ((n, v) # es))"
      proof
        fix x
        have "named es1 x = move_alias a b (named es) x"
          using IH(1) by simp
        then show "named es' x = move_alias a b (named ((n, v) # es)) x"
          using False nb(1) by (auto simp: es1(2) named_def move_alias_def split: option.splits)
      qed
      ultimately show ?thesis
        by blast
    qed
  qed simp
  then show "named es' = move_alias a b (named es)" "names_once es'"
    by auto
qed

lemma named_filter: "named (filter (\<lambda>e. fst e \<noteq> Some b) es) = (named es)(b := None)"
  by (rule ext, induction es) (auto simp: named_def)

lemma names_once_filter: "names_once es \<Longrightarrow> names_once (filter P es)"
  by (induction es rule: names_once.induct) auto

lemma rename_entries_None: "a \<noteq> b \<Longrightarrow> rename_entries a b es = None \<longleftrightarrow> named es a = None"
  by (simp add: rename_entries_def rename_first_None named_filter)

lemma rename_entries_Some:
  assumes "rename_entries a b es = Some es'" "names_once es" "a \<noteq> b"
  shows "named es' = move_alias a b (named es)" "names_once es'"
proof -
  note r = rename_first_Some [OF assms(1) [unfolded rename_entries_def] names_once_filter [OF assms(2)] assms(3)]
  have "named (filter (\<lambda>e. fst e \<noteq> Some b) es) b = None"
    by (simp add: named_filter)
  note r = r [OF this]
  show "names_once es'"
    by (rule r(2))
  have "named es a \<noteq> None"
    using assms(1) rename_entries_None [OF assms(3), of es] by auto
  then show "named es' = move_alias a b (named es)"
    using r(1) assms(3) by (auto simp: named_filter move_alias_def fun_eq_iff)
qed

section \<open>Renaming in the wallet\<close>

definition alias_in :: "wallet_files \<Rightarrow> wallet_file \<Rightarrow> string \<rightharpoonup> string" where
  "alias_in files f = (case files f of Some (Entries es) \<Rightarrow> named es | _ \<Rightarrow> Map.empty)"

definition wallet_wf :: "wallet_files \<Rightarrow> bool" where
  "wallet_wf files \<longleftrightarrow> (\<forall>f es. files f = Some (Entries es) \<longrightarrow> names_once es)"

definition no_torn_writes :: "rotation_env \<Rightarrow> bool" where
  "no_torn_writes E \<longleftrightarrow> (\<forall>n e. rv_write E n \<noteq> WriteTorn e)"

lemma read_wallet_file_run:
  assumes "read_wallet_file E f s = (r, s1)"
  shows "ro_files s1 = ro_files s" and "r = Inr es \<Longrightarrow> ro_files s f = Some (Entries es)"
  using assms
  by (cases "rv_read E (length (ro_log s))"; cases "ro_files s f"; cases "the (ro_files s f)";
      simp add: read_wallet_file_def logged_def bindS_def; auto)+

lemma write_wallet_file_run:
  assumes "write_wallet_file E f es s = (r, s1)" "no_torn_writes E"
  shows "ro_files s1 = (if is_ok r then (ro_files s)(f := Some (Entries es)) else ro_files s)"
  using assms by (auto simp: write_wallet_file_def no_torn_writes_def Let_def split: write_answer.splits)

text \<open>Exactly the files of \<open>d\<close> were renamed in.\<close>

definition moved_in :: "string \<Rightarrow> string \<Rightarrow> wallet_file set \<Rightarrow> wallet_files \<Rightarrow> wallet_files \<Rightarrow> bool" where
  "moved_in a b d files files' \<longleftrightarrow>
     (\<forall>f. alias_in files' f = (if f \<in> d then move_alias a b (alias_in files f) else alias_in files f))"

lemma moved_in_refl: "moved_in a b {} files files"
  by (simp add: moved_in_def)

lemma moved_in_skip: "moved_in a b d files files' \<Longrightarrow> alias_in files f a = None \<Longrightarrow> moved_in a b (insert f d) files files'"
  by (auto simp: moved_in_def move_alias_absent)

lemma moved_in_step:
  assumes "moved_in a b d (files(f := Some (Entries es'))) files'" "f \<notin> d"
    and "named es' = move_alias a b (alias_in files f)"
  shows "moved_in a b (insert f d) files files'"
proof -
  have "alias_in (files(f := Some (Entries es'))) g =
      (if g = f then move_alias a b (alias_in files f) else alias_in files g)" for g
    using assms(3) by (simp add: alias_in_def)
  then show ?thesis
    using assms(1,2) by (simp add: moved_in_def)
qed

text \<open>An error leaves the files not reached as they were.\<close>

lemma rename_in_files_run:
  assumes "rename_in_files E a b fs found s = (r, s1)" "no_torn_writes E" "wallet_wf (ro_files s)" "a \<noteq> b" "distinct fs"
  shows "\<exists>d. wallet_wf (ro_files s1) \<and> d \<subseteq> set fs \<and> moved_in a b d (ro_files s) (ro_files s1) \<and>
    (is_ok r \<longrightarrow> d = set fs) \<and>
    (r = Inr True \<longrightarrow> found \<or> PublicKeyHashs \<in> set fs \<and> alias_in (ro_files s) PublicKeyHashs a \<noteq> None)"
  using assms(1,3,5)
proof (induction fs arbitrary: found s)
  case Nil
  then show ?case
    using moved_in_refl by fastforce
next
  case (Cons f fs)
  have fresh: "f \<notin> set fs" "distinct fs"
    using Cons.prems(3) by auto
  show ?case
  proof (cases "ro_files s f")
    case None
    then have "rename_in_files E a b fs found s = (r, s1)"
      using Cons.prems(1) by simp
    from Cons.IH [OF this Cons.prems(2) fresh(2)] obtain d where d: "wallet_wf (ro_files s1)" "d \<subseteq> set fs"
      "moved_in a b d (ro_files s) (ro_files s1)" "is_ok r \<longrightarrow> d = set fs"
      "r = Inr True \<longrightarrow> found \<or> PublicKeyHashs \<in> set fs \<and> alias_in (ro_files s) PublicKeyHashs a \<noteq> None"
      by blast
    have "alias_in (ro_files s) f a = None"
      using None by (simp add: alias_in_def)
    from moved_in_skip [OF d(3) this] show ?thesis
      using d by (intro exI [of _ "insert f d"]) auto
  next
    case (Some c)
    obtain r1 s2 where read: "read_wallet_file E f s = (r1, s2)"
      by (cases "read_wallet_file E f s")
    note same = read_wallet_file_run(1) [OF read]
    show ?thesis
    proof (cases r1)
      case (Inl e)
      then have "r = Inl e" "s1 = s2"
        using Cons.prems(1) Some read by (auto simp: bindS_def)
      then show ?thesis
        using Cons.prems(2) same moved_in_refl by (intro exI [of _ "{}"]) auto
    next
      case (Inr es)
      have "ro_files s f = Some (Entries es)"
        using read_wallet_file_run(2) [OF read Inr] .
      then have once: "names_once es" and names: "alias_in (ro_files s) f = named es"
        using Cons.prems(2) by (auto simp: wallet_wf_def alias_in_def)
      show ?thesis
      proof (cases "rename_entries a b es")
        case None
        then have rest: "rename_in_files E a b fs (f \<noteq> PublicKeyHashs \<and> found) s2 = (r, s1)"
          using Cons.prems(1) Some read Inr by (simp add: bindS_def)
        have "wallet_wf (ro_files s2)"
          using Cons.prems(2) same by simp
        from Cons.IH [OF rest this fresh(2)] obtain d where d: "wallet_wf (ro_files s1)" "d \<subseteq> set fs"
          "moved_in a b d (ro_files s) (ro_files s1)" "is_ok r \<longrightarrow> d = set fs"
          "r = Inr True \<longrightarrow> (f \<noteq> PublicKeyHashs \<and> found) \<or>
             PublicKeyHashs \<in> set fs \<and> alias_in (ro_files s) PublicKeyHashs a \<noteq> None"
          unfolding same by blast
        have "alias_in (ro_files s) f a = None"
          using None rename_entries_None [OF assms(4)] names by simp
        from moved_in_skip [OF d(3) this] show ?thesis
          using d by (intro exI [of _ "insert f d"]) auto
      next
        case renamed: (Some es')
        note en = rename_entries_Some [OF renamed once assms(4)]
        obtain r2 s3 where wrote: "write_wallet_file E f es' s2 = (r2, s3)"
          by (cases "write_wallet_file E f es' s2")
        note w = write_wallet_file_run [OF wrote assms(2), unfolded same]
        have there: "alias_in (ro_files s) f a \<noteq> None"
          using renamed rename_entries_None [OF assms(4), of es] names by auto
        show ?thesis
        proof (cases r2)
          case (Inl e)
          then have "r = Inl e" "s1 = s3" "ro_files s3 = ro_files s"
            using Cons.prems(1) Some read Inr renamed wrote w by (auto simp: bindS_def)
          then show ?thesis
            using Cons.prems(2) moved_in_refl by (intro exI [of _ "{}"]) auto
        next
          case ok2: (Inr u)
          then have rest: "rename_in_files E a b fs (f = PublicKeyHashs \<or> found) s3 = (r, s1)"
            using Cons.prems(1) Some read Inr renamed wrote by (simp add: bindS_def)
          have files: "ro_files s3 = (ro_files s)(f := Some (Entries es'))"
            using w ok2 by simp
          then have good: "wallet_wf (ro_files s3)"
            using Cons.prems(2) en(2) by (auto simp: wallet_wf_def)
          from Cons.IH [OF rest good fresh(2)] obtain d where d: "wallet_wf (ro_files s1)" "d \<subseteq> set fs"
            "moved_in a b d (ro_files s3) (ro_files s1)" "is_ok r \<longrightarrow> d = set fs"
            "r = Inr True \<longrightarrow> (f = PublicKeyHashs \<or> found) \<or>
               PublicKeyHashs \<in> set fs \<and> alias_in (ro_files s3) PublicKeyHashs a \<noteq> None"
            by blast
          have "f \<notin> d"
            using d(2) fresh(1) by blast
          have "moved_in a b (insert f d) (ro_files s) (ro_files s1)"
            by (rule moved_in_step [OF d(3) [unfolded files] \<open>f \<notin> d\<close>]) (simp add: en(1) names)
          moreover have "alias_in (ro_files s3) PublicKeyHashs = alias_in (ro_files s) PublicKeyHashs" if "f \<noteq> PublicKeyHashs"
            using that by (simp add: files alias_in_def)
          ultimately show ?thesis
            using d(1,2,4,5) there by (intro exI [of _ "insert f d"]) (cases "f = PublicKeyHashs"; auto)
        qed
      qed
    qed
  qed
qed

lemma rename_run:
  assumes "rename_alias_locally E a b s = (r, s1)" "no_torn_writes E" "wallet_wf (ro_files s)" "a \<noteq> b"
  shows "wallet_wf (ro_files s1)"
    and "is_ok r \<Longrightarrow> alias_in (ro_files s1) f = move_alias a b (alias_in (ro_files s) f)"
    and "is_ok r \<Longrightarrow> alias_in (ro_files s) PublicKeyHashs a \<noteq> None"
    and "x \<notin> {a, b} \<Longrightarrow> alias_in (ro_files s1) f x = alias_in (ro_files s) f x"
proof -
  obtain r0 s0 where run: "rename_in_files E a b [PublicKeyHashs, PublicKeys, SecretKeys] False s = (r0, s0)"
    by (cases "rename_in_files E a b [PublicKeyHashs, PublicKeys, SecretKeys] False s")
  have r: "s1 = s0" "is_ok r \<longleftrightarrow> r0 = Inr True"
    using assms(1) run by (auto simp: rename_alias_locally_def bindS_def returnS_def failS_def split: sum.splits if_splits)
  obtain d where d: "wallet_wf (ro_files s0)" "moved_in a b d (ro_files s) (ro_files s0)"
    "is_ok r0 \<longrightarrow> d = set [PublicKeyHashs, PublicKeys, SecretKeys]"
    "r0 = Inr True \<longrightarrow> alias_in (ro_files s) PublicKeyHashs a \<noteq> None"
    using rename_in_files_run [OF run assms(2-4)] by auto
  note moved = d(2) [unfolded moved_in_def, rule_format]
  show "wallet_wf (ro_files s1)"
    using d(1) r(1) by simp
  show "alias_in (ro_files s1) f = move_alias a b (alias_in (ro_files s) f)" if "is_ok r"
  proof -
    have "d = set [PublicKeyHashs, PublicKeys, SecretKeys]"
      using that d(3) r(2) by simp
    then have "f \<in> d"
      by (cases f) auto
    then show ?thesis
      using moved r(1) by simp
  qed
  show "alias_in (ro_files s) PublicKeyHashs a \<noteq> None" if "is_ok r"
    using that d(4) r(2) by simp
  show "alias_in (ro_files s1) f x = alias_in (ro_files s) f x" if "x \<notin> {a, b}"
    using that moved [of f] r(1) by (auto simp: move_alias_def split: option.splits)
qed

section \<open>Promotion\<close>

definition role_aliases :: "key_role \<Rightarrow> string set" where
  "role_aliases role = {baker_alias role, baker_pending_alias role, baker_old_alias role}"

text \<open>The error names no alias that could not be restored.\<close>

definition rolled_back :: "string \<Rightarrow> bool" where
  "rolled_back e \<longleftrightarrow> take 19 e \<noteq> ''Rollback incomplete''"

lemma get_key_hash_files: "ro_files (snd (get_key_hash E a s)) = ro_files s"
  by (auto simp: get_key_hash_def bindS_def logged_def returnS_def failS_def split: sum.split option.split)

lemma attempt_snd: "snd (attempt f s) = snd (f s)"
  by (auto simp: attempt_def split: prod.split sum.split)

lemma bindS_cases:
  assumes "bindS m f s = (r, s')"
  obtains e where "m s = (Inl e, s')" "r = Inl e" | x s1 where "m s = (Inr x, s1)" "f x s1 = (r, s')"
  using assms by (auto simp: bindS_def split: prod.splits sum.splits)

lemma map_errS_cases:
  assumes "map_errS h m s = (r, s')"
  obtains e where "m s = (Inl e, s')" "r = Inl (h e)" | x where "m s = (Inr x, s')" "r = Inr x"
  using assms by (cases "m s"; cases "fst (m s)") (auto simp: map_errS_def)

lemma undo_run:
  assumes "undo_renames E us s = ([], s')" "no_torn_writes E" "wallet_wf (ro_files s)" "\<forall>(a, b, c) \<in> set us. a \<noteq> b"
  shows "alias_in (ro_files s') f = fold (\<lambda>(a, b, c). move_alias a b) us (alias_in (ro_files s) f)"
  using assms(1,3,4)
proof (induction us arbitrary: s)
  case (Cons u us)
  obtain a b c where u: "u = (a, b, c)"
    by (cases u)
  obtain r1 s1 where ren: "rename_alias_locally E a b s = (r1, s1)"
    by (cases "rename_alias_locally E a b s")
  have ok: "is_ok r1" and rest: "undo_renames E us s1 = ([], s')"
    using Cons.prems(1) ren u by (auto split: prod.splits if_splits)
  have "a \<noteq> b"
    using Cons.prems(3) u by simp
  note run = rename_run [OF ren assms(2) Cons.prems(2) this]
  show ?case
    using Cons.IH [OF rest run(1)] run(2) [OF ok] Cons.prems(3) by (simp add: u)
qed simp

lemma rename_or_undo_run:
  assumes "rename_or_undo E a b err us s = (r, s')" "no_torn_writes E" "wallet_wf (ro_files s)" "a \<noteq> b"
    and "\<forall>(a, b, c) \<in> set us. a \<noteq> b"
  shows "r = Inr () \<Longrightarrow> wallet_wf (ro_files s') \<and> alias_in (ro_files s) PublicKeyHashs a \<noteq> None \<and>
      (\<forall>f. alias_in (ro_files s') f = move_alias a b (alias_in (ro_files s) f))"
    and "r = Inl e \<Longrightarrow> rolled_back e \<Longrightarrow> \<exists>m. (\<forall>f x. x \<notin> {a, b} \<longrightarrow> m f x = alias_in (ro_files s) f x) \<and>
      (\<forall>f. alias_in (ro_files s') f = fold (\<lambda>(a, b, c). move_alias a b) us (m f))"
proof -
  obtain r1 s1 where ren: "rename_alias_locally E a b s = (r1, s1)"
    by (cases "rename_alias_locally E a b s")
  note run = rename_run [OF ren assms(2-4)]
  show "wallet_wf (ro_files s') \<and> alias_in (ro_files s) PublicKeyHashs a \<noteq> None \<and>
      (\<forall>f. alias_in (ro_files s') f = move_alias a b (alias_in (ro_files s) f))" if "r = Inr ()"
  proof -
    have "is_ok r1" "s' = s1"
      using assms(1) ren that by (auto simp: rename_or_undo_def split: sum.splits prod.splits)
    then show ?thesis
      using run by blast
  qed
  show "\<exists>m. (\<forall>f x. x \<notin> {a, b} \<longrightarrow> m f x = alias_in (ro_files s) f x) \<and>
      (\<forall>f. alias_in (ro_files s') f = fold (\<lambda>(a, b, c). move_alias a b) us (m f))" if fail: "r = Inl e" and told: "rolled_back e"
  proof -
    obtain un where un: "undo_renames E us s1 = (un, s')" "e = rollback_incomplete err un"
      using assms(1) ren fail by (auto simp: rename_or_undo_def split: sum.splits prod.splits)
    have "un = []"
      using told un(2) by (cases un) (auto simp: rolled_back_def rollback_incomplete_def)
    then have "alias_in (ro_files s') f = fold (\<lambda>(a, b, c). move_alias a b) us (alias_in (ro_files s1) f)" for f
      using undo_run [OF _ assms(2) run(1) assms(5)] un(1) by blast
    then show ?thesis
      using run(4) by (intro exI [of _ "alias_in (ro_files s1)"]) blast
  qed
qed

text \<open>The six aliases are different, and moves along them undo each other.\<close>

lemma aliases_distinct:
  "distinct [CONSENSUS_KEY_ALIAS, CONSENSUS_KEY_OLD_ALIAS, CONSENSUS_KEY_PENDING_ALIAS,
     COMPANION_KEY_ALIAS, COMPANION_KEY_OLD_ALIAS, COMPANION_KEY_PENDING_ALIAS]"
  by (simp add: alias_defs)

lemmas aliases_unequal = aliases_distinct aliases_distinct [unfolded distinct_rev [symmetric, of "[_, _, _, _, _, _]"]]

lemma move_free: "m b = None \<Longrightarrow> move_alias a b m = (\<lambda>x. if x = a then None else if x = b then m a else m x)"
  by (auto simp: move_alias_def fun_eq_iff split: option.split)

lemma move_other: "x \<notin> {a, b} \<Longrightarrow> move_alias a b m x = m x"
  by (auto simp: move_alias_def split: option.split)

lemma undone:
  assumes d: "distinct [c, co, cp, k, ko, kp]" and none: "m co = None" "m ko = None"
  shows "(\<And>x. x \<notin> {k, ko} \<Longrightarrow> m' x = move_alias c co m x) \<Longrightarrow> y \<notin> {k, ko} \<Longrightarrow> move_alias co c m' y = m y"
    and "(\<And>x. x \<notin> {cp, c} \<Longrightarrow> m' x = move_alias k ko (move_alias c co m) x) \<Longrightarrow> y \<notin> {c, co, cp} \<Longrightarrow>
      move_alias ko k (move_alias co c m') y = m y"
    and "(\<And>x. x \<notin> {kp, k} \<Longrightarrow> m' x = move_alias cp c (move_alias k ko (move_alias c co m)) x) \<Longrightarrow> y \<notin> {k, ko, kp} \<Longrightarrow>
      move_alias ko k (move_alias co c (move_alias c cp m')) y = m y"
proof -
  have d': "distinct (rev [c, co, cp, k, ko, kp])"
    by (simp only: distinct_rev d)
  show "move_alias co c m' y = m y" if m': "\<And>x. x \<notin> {k, ko} \<Longrightarrow> m' x = move_alias c co m x" and y: "y \<notin> {k, ko}"
  proof -
    have "m' c = None" "m' co = m c"
      using m' [of c] m' [of co] d d' none by (simp_all add: move_free)
    then show ?thesis
      using m' [of y] y d d' none by (simp add: move_free)
  qed
  show "move_alias ko k (move_alias co c m') y = m y"
    if m': "\<And>x. x \<notin> {cp, c} \<Longrightarrow> m' x = move_alias k ko (move_alias c co m) x" and y: "y \<notin> {c, co, cp}"
  proof -
    have v: "m' k = None" "m' ko = m k"
      using m' [of k] m' [of ko] d d' none by (simp_all add: move_free)
    have rest: "move_alias co c m' x = m' x" if "x \<notin> {co, c}" for x
      using that by (rule move_other)
    have "move_alias co c m' k = None" "move_alias co c m' ko = m k"
      using v rest d d' by auto
    then show ?thesis
      using m' [of y] y d d' none rest [of y] by (simp add: move_free)
  qed
  show "move_alias ko k (move_alias co c (move_alias c cp m')) y = m y"
    if m': "\<And>x. x \<notin> {kp, k} \<Longrightarrow> m' x = move_alias cp c (move_alias k ko (move_alias c co m)) x" and y: "y \<notin> {k, ko, kp}"
  proof -
    have v: "m' c = m cp" "m' cp = None" "m' co = m c"
      using m' [of c] m' [of cp] m' [of co] d d' none by (simp_all add: move_free)
    have "move_alias ko k (move_alias co c (move_alias c cp m')) y = move_alias co c (move_alias c cp m') y"
      using y by (intro move_other) auto
    also have "\<dots> = m y"
      using m' [of y] y d d' none v by (simp add: move_free)
    finally show ?thesis .
  qed
qed

text \<open>The four lookups change no file.\<close>

lemma lookup_first:
  assumes "bindS (map_errS h (get_key_hash E a)) f s = (r, s')"
  obtains "ro_files s' = ro_files s" "\<not> is_ok r" | x s1 where "ro_files s1 = ro_files s" "f x s1 = (r, s')"
  using assms
proof (rule bindS_cases)
  fix e
  assume "map_errS h (get_key_hash E a) s = (Inl e, s')" "r = Inl e"
  then show thesis
    using that(1) get_key_hash_files [of E a s] by (auto elim!: map_errS_cases)
next
  fix x s1
  assume "map_errS h (get_key_hash E a) s = (Inr x, s1)" "f x s1 = (r, s')"
  then show thesis
    using that(2) [of s1 x] get_key_hash_files [of E a s] by (auto elim!: map_errS_cases)
qed

lemma promote_split:
  assumes "promote_aliases_with_backup E s = (r, s')"
  obtains "ro_files s' = ro_files s" "\<not> is_ok r" | s0 where "ro_files s0 = ro_files s" "promotion_moves E s0 = (r, s')"
  apply (rule lookup_first [OF assms [unfolded promote_aliases_with_backup_def]])
   apply (rule that(1), assumption, assumption)
  apply (erule lookup_first)
   apply (rule that(1), simp, simp)
  apply (erule lookup_first)
   apply (rule that(1), simp, simp)
  apply (erule lookup_first)
   apply (rule that(1), simp, simp)
  apply (rule that(2) [rotated], assumption, simp)
  done

text \<open>No backup of an earlier rotation is left.\<close>

definition no_backups :: "wallet_files \<Rightarrow> bool" where
  "no_backups files \<longleftrightarrow>
     (\<forall>f. alias_in files f CONSENSUS_KEY_OLD_ALIAS = None \<and> alias_in files f COMPANION_KEY_OLD_ALIAS = None)"

definition others_kept :: "key_role \<Rightarrow> wallet_files \<Rightarrow> wallet_files \<Rightarrow> bool" where
  "others_kept role files files' \<longleftrightarrow> (\<forall>f x. x \<notin> role_aliases role \<longrightarrow> alias_in files' f x = alias_in files f x)"

abbreviation "promoted m \<equiv>
  move_alias COMPANION_KEY_PENDING_ALIAS COMPANION_KEY_ALIAS (move_alias CONSENSUS_KEY_PENDING_ALIAS CONSENSUS_KEY_ALIAS
    (move_alias COMPANION_KEY_ALIAS COMPANION_KEY_OLD_ALIAS (move_alias CONSENSUS_KEY_ALIAS CONSENSUS_KEY_OLD_ALIAS m)))"

lemma role_alias_sets:
  "role_aliases Consensus = {CONSENSUS_KEY_ALIAS, CONSENSUS_KEY_OLD_ALIAS, CONSENSUS_KEY_PENDING_ALIAS}"
  "role_aliases Companion = {COMPANION_KEY_ALIAS, COMPANION_KEY_OLD_ALIAS, COMPANION_KEY_PENDING_ALIAS}"
  by (auto simp: role_aliases_def baker_alias_def baker_pending_alias_def baker_old_alias_def)

lemma aliases_differ:
  "CONSENSUS_KEY_ALIAS \<noteq> CONSENSUS_KEY_OLD_ALIAS" "COMPANION_KEY_ALIAS \<noteq> COMPANION_KEY_OLD_ALIAS"
  "CONSENSUS_KEY_PENDING_ALIAS \<noteq> CONSENSUS_KEY_ALIAS" "COMPANION_KEY_PENDING_ALIAS \<noteq> COMPANION_KEY_ALIAS"
  using aliases_distinct by auto

lemma promotion_moves_run:
  assumes "promotion_moves E s = (r, s')" "no_torn_writes E" "wallet_wf (ro_files s)" "no_backups (ro_files s)"
  shows "r = Inr () \<Longrightarrow> \<forall>f. alias_in (ro_files s') f = promoted (alias_in (ro_files s) f)"
    and "r = Inr () \<Longrightarrow> \<forall>a \<in> {CONSENSUS_KEY_ALIAS, COMPANION_KEY_ALIAS, CONSENSUS_KEY_PENDING_ALIAS, COMPANION_KEY_PENDING_ALIAS}.
      alias_in (ro_files s) PublicKeyHashs a \<noteq> None"
    and "r = Inl e \<Longrightarrow> rolled_back e \<Longrightarrow> \<exists>role. others_kept role (ro_files s) (ro_files s')"
proof -
  note undo = undone [OF aliases_distinct]
  note none = assms(4) [unfolded no_backups_def, rule_format]
  note run = assms(1) [unfolded promotion_moves_def]
  have "(r = Inr () \<longrightarrow> (\<forall>f. alias_in (ro_files s') f = promoted (alias_in (ro_files s) f)) \<and>
      (\<forall>a \<in> {CONSENSUS_KEY_ALIAS, COMPANION_KEY_ALIAS, CONSENSUS_KEY_PENDING_ALIAS, COMPANION_KEY_PENDING_ALIAS}.
         alias_in (ro_files s) PublicKeyHashs a \<noteq> None)) \<and>
    (\<forall>e. r = Inl e \<longrightarrow> rolled_back e \<longrightarrow> (\<exists>role. others_kept role (ro_files s) (ro_files s')))" (is ?goal)
  proof (rule bindS_cases [OF run], goal_cases)
    case (1 e)
    from rename_or_undo_run(2) [OF 1(1) assms(2,3) aliases_differ(1), of e] have "rolled_back e \<Longrightarrow> others_kept Consensus (ro_files s) (ro_files s')"
      by (auto simp: others_kept_def role_alias_sets)
    with 1(2) show ?case
      by auto
  next
    case (2 x s1)
    note s1 = rename_or_undo_run(1) [OF 2(1) assms(2,3) aliases_differ(1), simplified]
    show ?case
    proof (rule bindS_cases [OF 2(2)], goal_cases)
      case (1 e)
      have "others_kept Companion (ro_files s) (ro_files s')" if told: "rolled_back e"
      proof -
        obtain m where m: "\<forall>f x. x \<notin> {COMPANION_KEY_ALIAS, COMPANION_KEY_OLD_ALIAS} \<longrightarrow> m f x = alias_in (ro_files s1) f x"
          "\<forall>f. alias_in (ro_files s') f = move_alias CONSENSUS_KEY_OLD_ALIAS CONSENSUS_KEY_ALIAS (m f)"
          using rename_or_undo_run(2) [OF 1(1) assms(2) _ aliases_differ(2), of e] s1 told aliases_differ aliases_differ [symmetric] by auto
        show ?thesis
          unfolding others_kept_def role_alias_sets
        proof (intro allI impI)
          fix f x
          assume x: "x \<notin> {COMPANION_KEY_ALIAS, COMPANION_KEY_OLD_ALIAS, COMPANION_KEY_PENDING_ALIAS}"
          have "move_alias CONSENSUS_KEY_OLD_ALIAS CONSENSUS_KEY_ALIAS (m f) x = alias_in (ro_files s) f x"
            by (rule undo(1)) (use none m(1) s1 x aliases_differ [symmetric] in auto)
          then show "alias_in (ro_files s') f x = alias_in (ro_files s) f x"
            using m(2) by simp
        qed
      qed
      with 1(2) show ?case
        by auto
    next
      case (2 x s2)
      note s2 = rename_or_undo_run(1) [OF 2(1) assms(2) _ aliases_differ(2), simplified]
      show ?case
      proof (rule bindS_cases [OF 2(2)], goal_cases)
        case (1 e)
        have "others_kept Consensus (ro_files s) (ro_files s')" if told: "rolled_back e"
        proof -
          obtain m where m: "\<forall>f x. x \<notin> {CONSENSUS_KEY_PENDING_ALIAS, CONSENSUS_KEY_ALIAS} \<longrightarrow> m f x = alias_in (ro_files s2) f x"
            "\<forall>f. alias_in (ro_files s') f = move_alias COMPANION_KEY_OLD_ALIAS COMPANION_KEY_ALIAS
               (move_alias CONSENSUS_KEY_OLD_ALIAS CONSENSUS_KEY_ALIAS (m f))"
            using rename_or_undo_run(2) [OF 1(1) assms(2) _ aliases_differ(3), of e] s1 s2 told aliases_differ aliases_differ [symmetric] by auto
          show ?thesis
            unfolding others_kept_def role_alias_sets
          proof (intro allI impI)
            fix f x
            assume x: "x \<notin> {CONSENSUS_KEY_ALIAS, CONSENSUS_KEY_OLD_ALIAS, CONSENSUS_KEY_PENDING_ALIAS}"
            have "move_alias COMPANION_KEY_OLD_ALIAS COMPANION_KEY_ALIAS
                (move_alias CONSENSUS_KEY_OLD_ALIAS CONSENSUS_KEY_ALIAS (m f)) x = alias_in (ro_files s) f x"
              by (rule undo(2)) (use none m(1) s1 s2 x aliases_differ [symmetric] in auto)
            then show "alias_in (ro_files s') f x = alias_in (ro_files s) f x"
              using m(2) by simp
          qed
        qed
        with 1(2) show ?case
          by auto
      next
        case (2 x s3)
        note s3 = rename_or_undo_run(1) [OF 2(1) assms(2) _ aliases_differ(3), simplified]
        note last = 2(2)
        show ?case
        proof (intro conjI impI allI)
          fix e
          assume e: "r = Inl e" "rolled_back e"
          obtain m where m: "\<forall>f x. x \<notin> {COMPANION_KEY_PENDING_ALIAS, COMPANION_KEY_ALIAS} \<longrightarrow> m f x = alias_in (ro_files s3) f x"
            "\<forall>f. alias_in (ro_files s') f = move_alias COMPANION_KEY_OLD_ALIAS COMPANION_KEY_ALIAS
               (move_alias CONSENSUS_KEY_OLD_ALIAS CONSENSUS_KEY_ALIAS
                 (move_alias CONSENSUS_KEY_ALIAS CONSENSUS_KEY_PENDING_ALIAS (m f)))"
            using rename_or_undo_run(2) [OF last assms(2) _ aliases_differ(4), of e] s1 s2 s3 e aliases_differ aliases_differ [symmetric] by auto
          have "others_kept Companion (ro_files s) (ro_files s')"
            unfolding others_kept_def role_alias_sets
          proof (intro allI impI)
            fix f x
            assume x: "x \<notin> {COMPANION_KEY_ALIAS, COMPANION_KEY_OLD_ALIAS, COMPANION_KEY_PENDING_ALIAS}"
            have "move_alias COMPANION_KEY_OLD_ALIAS COMPANION_KEY_ALIAS (move_alias CONSENSUS_KEY_OLD_ALIAS CONSENSUS_KEY_ALIAS
                (move_alias CONSENSUS_KEY_ALIAS CONSENSUS_KEY_PENDING_ALIAS (m f))) x = alias_in (ro_files s) f x"
              by (rule undo(3)) (use none m(1) s1 s2 s3 x aliases_differ [symmetric] in auto)
            then show "alias_in (ro_files s') f x = alias_in (ro_files s) f x"
              using m(2) by simp
          qed
          then show "\<exists>role. others_kept role (ro_files s) (ro_files s')"
            by blast
        next
          assume "r = Inr ()"
          with last have "rename_or_undo E COMPANION_KEY_PENDING_ALIAS COMPANION_KEY_ALIAS ''Failed to promote pending companion key''
              [(CONSENSUS_KEY_ALIAS, CONSENSUS_KEY_PENDING_ALIAS, CONSENSUS_KEY_PENDING_ALIAS),
               (CONSENSUS_KEY_OLD_ALIAS, CONSENSUS_KEY_ALIAS, CONSENSUS_KEY_ALIAS),
               (COMPANION_KEY_OLD_ALIAS, COMPANION_KEY_ALIAS, COMPANION_KEY_ALIAS)] s3 = (Inr (), s')"
            by simp
          note s4 = rename_or_undo_run(1) [OF this assms(2) _ aliases_differ(4), simplified]
          show "alias_in (ro_files s') f = promoted (alias_in (ro_files s) f)" for f
            using s1 s2 s3 s4 aliases_differ aliases_differ [symmetric] by simp
          show "\<forall>a \<in> {CONSENSUS_KEY_ALIAS, COMPANION_KEY_ALIAS, CONSENSUS_KEY_PENDING_ALIAS, COMPANION_KEY_PENDING_ALIAS}.
              alias_in (ro_files s) PublicKeyHashs a \<noteq> None"
            using s1 s2 s3 s4 aliases_unequal none [of PublicKeyHashs]
            by (simp add: move_free)
        qed
      qed
    qed
  qed
  then show "r = Inr () \<Longrightarrow> \<forall>f. alias_in (ro_files s') f = promoted (alias_in (ro_files s) f)"
    "r = Inr () \<Longrightarrow> \<forall>a \<in> {CONSENSUS_KEY_ALIAS, COMPANION_KEY_ALIAS, CONSENSUS_KEY_PENDING_ALIAS, COMPANION_KEY_PENDING_ALIAS}.
      alias_in (ro_files s) PublicKeyHashs a \<noteq> None"
    "r = Inl e \<Longrightarrow> rolled_back e \<Longrightarrow> \<exists>role. others_kept role (ro_files s) (ro_files s')"
    by blast+
qed

text \<open>What a promotion means for each role.\<close>

lemma promoted_role:
  assumes "m CONSENSUS_KEY_OLD_ALIAS = None" "m COMPANION_KEY_OLD_ALIAS = None"
  shows "promoted m (baker_alias role) = m (baker_pending_alias role)" "promoted m (baker_old_alias role) = m (baker_alias role)"
    "promoted m (baker_pending_alias role) = None"
  using assms aliases_unequal
  by (cases role; simp add: baker_alias_def baker_pending_alias_def baker_old_alias_def move_free)+

lemma promoted_other: "x \<notin> role_aliases Consensus \<Longrightarrow> x \<notin> role_aliases Companion \<Longrightarrow> promoted m x = m x"
  by (simp add: role_alias_sets move_other)

section \<open>Backups are removed only once the baker signs\<close>

definition logs :: "(rotation_op \<Rightarrow> bool) \<Rightarrow> 'a rot \<Rightarrow> bool" where
  "logs P f \<longleftrightarrow> (\<forall>s. \<exists>ops. ro_log (snd (f s)) = ro_log s @ ops \<and> list_all P ops)"

named_theorems logs_intros "which operations a step of the rotation performs"

lemma logsE:
  assumes "logs P f" "f s = (r, t)"
  obtains ops where "ro_log t = ro_log s @ ops" "list_all P ops"
proof -
  have "\<exists>ops. ro_log (snd (f s)) = ro_log s @ ops \<and> list_all P ops"
    using assms(1) by (simp add: logs_def)
  then show thesis
    using assms(2) that by auto
qed

lemma logs_bindS [logs_intros]:
  assumes "logs P f" "\<And>x. logs P (g x)"
  shows "logs P (bindS f g)"
  unfolding logs_def
proof
  fix s
  obtain r t where f: "f s = (r, t)"
    by (cases "f s")
  obtain ops where ops: "ro_log t = ro_log s @ ops" "list_all P ops"
    using assms(1) f by (rule logsE)
  show "\<exists>ops. ro_log (snd (bindS f g s)) = ro_log s @ ops \<and> list_all P ops"
  proof (cases r)
    case (Inl e)
    then show ?thesis
      using f ops by (simp add: bindS_def)
  next
    case (Inr x)
    obtain r' t' where g: "g x t = (r', t')"
      by (cases "g x t")
    obtain ops' where "ro_log t' = ro_log t @ ops'" "list_all P ops'"
      using assms(2) g by (rule logsE)
    then show ?thesis
      using f g ops Inr by (simp add: bindS_def)
  qed
qed

lemma logs_pure [logs_intros]: "logs P (returnS x)" "logs P (failS e)"
  by (simp_all add: logs_def returnS_def failS_def)

lemma logs_logged [logs_intros]: "P op \<Longrightarrow> logs P (logged op answer)" "P op \<Longrightarrow> logs P (\<lambda>s. logged op (h s) s)"
  by (simp_all add: logs_def logged_def)

lemma logs_attempt [logs_intros]: "logs P f \<Longrightarrow> logs P (attempt f)"
  by (simp add: logs_def attempt_snd)

lemma logs_map_errS [logs_intros]: "logs P f \<Longrightarrow> logs P (map_errS h f)"
  by (simp add: logs_def map_errS_def case_prod_unfold)

lemma logs_cases [logs_intros]:
  "logs P f \<Longrightarrow> logs P g \<Longrightarrow> logs P (if c then f else g)"
  "logs P f' \<Longrightarrow> (\<And>x. logs P (g' x)) \<Longrightarrow> logs P (case r of None \<Rightarrow> f' | Some x \<Rightarrow> g' x)"
  by (auto split: option.split)

lemma logs_get_key_hash [logs_intros]: "P (RoShow a) \<Longrightarrow> logs P (get_key_hash E a)"
  unfolding get_key_hash_def by (intro logs_intros)

lemma logs_forget [logs_intros]: "P (RoForget a) \<Longrightarrow> logs P (forget_key_alias E a)"
  unfolding forget_key_alias_def
  by (intro logs_bindS logs_logged) (auto simp: logs_def Let_def)

text \<open>Renaming reads and writes files.\<close>

abbreviation file_op :: "rotation_op \<Rightarrow> bool" where
  "file_op op \<equiv> (\<exists>f. op = RoRead f \<or> op = RoWrite f)"

lemma logs_rename_in_files: "logs file_op (rename_in_files E a b fs found)"
proof (induction fs arbitrary: found)
  case (Cons f fs)
  have w: "logs file_op (write_wallet_file E f es)" for es
    by (auto simp: logs_def write_wallet_file_def Let_def split: write_answer.split)
  have r: "logs file_op (read_wallet_file E f)"
    unfolding read_wallet_file_def
    by (intro logs_bindS logs_logged) (auto simp: logs_def split: option.split wallet_content.split)
  have body: "logs file_op (bindS (read_wallet_file E f) (\<lambda>es. case rename_entries a b es of
      None \<Rightarrow> rename_in_files E a b fs (f \<noteq> PublicKeyHashs \<and> found)
    | Some es' \<Rightarrow> bindS (write_wallet_file E f es') (\<lambda>_. rename_in_files E a b fs (f = PublicKeyHashs \<or> found))))"
    by (intro logs_intros r w Cons.IH)
  show ?case
    using body Cons.IH by (auto simp: logs_def)
qed (auto simp: logs_def)

lemma logs_rename: "logs file_op (rename_alias_locally E a b)"
  unfolding rename_alias_locally_def by (intro logs_intros logs_rename_in_files)

lemma logs_mono: "logs P f \<Longrightarrow> (\<And>op. P op \<Longrightarrow> Q op) \<Longrightarrow> logs Q f"
  unfolding logs_def by (metis list.pred_mono_strong)

lemma logs_undo: "\<exists>ops. ro_log (snd (undo_renames E us s)) = ro_log s @ ops \<and> list_all file_op ops"
proof (induction us arbitrary: s)
  case (Cons u us)
  obtain a b c where u: "u = (a, b, c)"
    by (cases u)
  obtain r1 s1 where ren: "rename_alias_locally E a b s = (r1, s1)"
    by (cases "rename_alias_locally E a b s")
  obtain ops where ops: "ro_log s1 = ro_log s @ ops" "list_all file_op ops"
    using logs_rename ren by (rule logsE)
  obtain ops' where "ro_log (snd (undo_renames E us s1)) = ro_log s1 @ ops'" "list_all file_op ops'"
    using Cons.IH by blast
  then show ?case
    using ops ren u by (intro exI [of _ "ops @ ops'"]) (simp add: case_prod_unfold)
qed simp

lemma logs_rename_or_undo: "logs file_op (rename_or_undo E a b err us)"
  unfolding logs_def
proof
  fix s
  obtain r1 s1 where ren: "rename_alias_locally E a b s = (r1, s1)"
    by (cases "rename_alias_locally E a b s")
  obtain ops where ops: "ro_log s1 = ro_log s @ ops" "list_all file_op ops"
    using logs_rename ren by (rule logsE)
  obtain ops' where "ro_log (snd (undo_renames E us s1)) = ro_log s1 @ ops'" "list_all file_op ops'"
    using logs_undo by blast
  then show "\<exists>ops. ro_log (snd (rename_or_undo E a b err us s)) = ro_log s @ ops \<and> list_all file_op ops"
    using ops ren by (cases r1) (auto simp: rename_or_undo_def case_prod_unfold)
qed

definition forgets_nothing :: "rotation_op \<Rightarrow> bool" where
  "forgets_nothing op \<longleftrightarrow> (case op of RoForget _ \<Rightarrow> False | _ \<Rightarrow> True)"

lemma forgets_nothing_ops [simp]:
  "forgets_nothing (RoRead f)" "forgets_nothing (RoWrite f)" "forgets_nothing (RoShow a)" "forgets_nothing (RoSignals h b)"
  "forgets_nothing RoStop" "forgets_nothing RoStart" "forgets_nothing RoGuide" "forgets_nothing RoWait"
  "forgets_nothing RoRunning" "forgets_nothing RoAsk" "forgets_nothing RoSigner" "\<not> forgets_nothing (RoForget a)"
  by (simp_all add: forgets_nothing_def)

lemma renames_forget_nothing [logs_intros]:
  "logs forgets_nothing (rename_alias_locally E a b)" "logs forgets_nothing (rename_or_undo E a b err us)"
  by (rule logs_mono [OF logs_rename] logs_mono [OF logs_rename_or_undo]; auto)+

lemma promote_forgets_nothing [logs_intros]: "logs forgets_nothing (promote_aliases_with_backup E)"
  unfolding promote_aliases_with_backup_def promotion_moves_def by (intro logs_intros) simp_all

text \<open>At some moment all three signals named the key.\<close>

definition signals_agreed :: "rotation_env \<Rightarrow> string \<Rightarrow> bool" where
  "signals_agreed E h \<longleftrightarrow>
     (\<exists>k ks. rv_alive E k \<and> rv_signer_keys E k = Inr ks \<and> h \<in> set ks \<and> rv_active_key E k = Inr h)"

lemma signing_attempts_run:
  assumes "signing_attempts n E h s = (r, t)"
  shows "\<exists>ops. ro_log t = ro_log s @ ops \<and> list_all forgets_nothing ops \<and>
    (r = Inr True \<longrightarrow> RoSignals h True \<in> set ops \<and> signals_agreed E h)"
  using assms
proof (induction n arbitrary: s)
  case 0
  then show ?case
    by auto
next
  case (Suc n)
  define k where "k = length (ro_log s)"
  define now where "now \<longleftrightarrow> signing_verified (rv_alive E k)
    (case rv_signer_keys E k of Inr ks \<Rightarrow> h \<in> set ks | Inl _ \<Rightarrow> False) (ok (rv_active_key E k)) h"
  let ?s = "s\<lparr>ro_log := ro_log s @ [RoSignals h now]\<rparr>"
  have run: "(if now then (Inr True, ?s) else signing_attempts n E h ?s) = (r, t)"
    using Suc.prems by (simp only: signing_attempts.simps now_def k_def Let_def)
  show ?case
  proof (cases now)
    case True
    then have "signals_agreed E h"
      unfolding signals_agreed_def
      by (intro exI [of _ k]) (auto simp: now_def signing_verified_def ok_Some_iff split: sum.splits)
    then show ?thesis
      using run True by auto
  next
    case False
    then obtain ops where "ro_log t = ro_log ?s @ ops" "list_all forgets_nothing ops"
      "r = Inr True \<longrightarrow> RoSignals h True \<in> set ops \<and> signals_agreed E h"
      using Suc.IH [of ?s] run by auto
    then show ?thesis
      by auto
  qed
qed

lemma verify_run:
  assumes "verify_baker_signing E s = (r, t)"
  shows "\<exists>ops. ro_log t = ro_log s @ ops \<and> list_all forgets_nothing ops \<and>
    (r = Inr True \<longrightarrow> (\<exists>h. RoSignals h True \<in> set ops \<and> signals_agreed E h))"
proof (rule bindS_cases [OF assms [unfolded verify_baker_signing_def]], goal_cases)
  case (1 e)
  then show ?case
    by (auto simp: attempt_def split: prod.splits sum.splits)
next
  case (2 x u)
  obtain ops where ops: "ro_log u = ro_log s @ ops" "list_all forgets_nothing ops"
    using logs_attempt [OF logs_get_key_hash [of forgets_nothing, OF forgets_nothing_ops(3)]] 2(1) by (rule logsE)
  show ?case
  proof (cases x)
    case None
    then show ?thesis
      using 2(2) ops by (auto simp: returnS_def)
  next
    case (Some h)
    then obtain ops' where "ro_log t = ro_log u @ ops'" "list_all forgets_nothing ops'"
      "r = Inr True \<longrightarrow> RoSignals h True \<in> set ops' \<and> signals_agreed E h"
      using signing_attempts_run [of 12 E h u r t] 2(2) by auto
    then show ?thesis
      using ops by auto
  qed
qed

definition guarded_forgets :: "rotation_env \<Rightarrow> rotation_op list \<Rightarrow> bool" where
  "guarded_forgets E ops \<longleftrightarrow> (\<forall>pre a post. ops = pre @ RoForget a # post \<longrightarrow>
     a \<in> {CONSENSUS_KEY_OLD_ALIAS, COMPANION_KEY_OLD_ALIAS} \<and> (\<exists>h. RoSignals h True \<in> set pre \<and> signals_agreed E h))"

definition forgets_guarded :: "rotation_env \<Rightarrow> 'a rot \<Rightarrow> bool" where
  "forgets_guarded E f \<longleftrightarrow> (\<forall>s. \<exists>ops. ro_log (snd (f s)) = ro_log s @ ops \<and> guarded_forgets E ops)"

lemma guarded_prepend:
  assumes "list_all forgets_nothing xs" "guarded_forgets E ops"
  shows "guarded_forgets E (xs @ ops)"
  unfolding guarded_forgets_def
proof (intro allI impI)
  fix pre a post
  assume eq: "xs @ ops = pre @ RoForget a # post"
  have "RoForget a \<notin> set xs"
    using assms(1) by (auto simp: list_all_iff)
  then obtain us where "pre = xs @ us" "ops = us @ RoForget a # post"
    using eq by (auto simp: append_eq_append_conv2 append_eq_Cons_conv Cons_eq_append_conv)
  then show "a \<in> {CONSENSUS_KEY_OLD_ALIAS, COMPANION_KEY_OLD_ALIAS} \<and> (\<exists>h. RoSignals h True \<in> set pre \<and> signals_agreed E h)"
    using assms(2) unfolding guarded_forgets_def by fastforce
qed

lemma guarded_nothing: "list_all forgets_nothing ops \<Longrightarrow> guarded_forgets E ops"
  by (auto simp: guarded_forgets_def)

lemma forgets_guarded_pure: "logs forgets_nothing f \<Longrightarrow> forgets_guarded E f"
  unfolding logs_def forgets_guarded_def using guarded_nothing by blast

lemma forgets_guarded_bindS:
  assumes "logs forgets_nothing f" "\<And>x. forgets_guarded E (g x)"
  shows "forgets_guarded E (bindS f g)"
  unfolding forgets_guarded_def
proof
  fix s
  obtain r t where f: "f s = (r, t)"
    by (cases "f s")
  obtain ops where ops: "ro_log t = ro_log s @ ops" "list_all forgets_nothing ops"
    using assms(1) f by (rule logsE)
  show "\<exists>ops. ro_log (snd (bindS f g s)) = ro_log s @ ops \<and> guarded_forgets E ops"
  proof (cases r)
    case (Inl e)
    then show ?thesis
      using f ops guarded_nothing by (auto simp: bindS_def)
  next
    case (Inr x)
    obtain ops' where "ro_log (snd (g x t)) = ro_log t @ ops'" "guarded_forgets E ops'"
      using assms(2) unfolding forgets_guarded_def by blast
    then show ?thesis
      using f ops Inr guarded_prepend by (intro exI [of _ "ops @ ops'"]) (simp add: bindS_def)
  qed
qed

lemma logs_forget_old: "logs (\<lambda>op. \<forall>a. op = RoForget a \<longrightarrow> a \<in> {CONSENSUS_KEY_OLD_ALIAS, COMPANION_KEY_OLD_ALIAS})
    (forget_old E old_hashes roles)"
proof (induction roles)
  case (Cons role roles)
  have role: "baker_old_alias role \<in> {CONSENSUS_KEY_OLD_ALIAS, COMPANION_KEY_OLD_ALIAS}"
    by (cases role) (simp_all add: baker_old_alias_def)
  show ?case
    unfolding forget_old.simps by (intro logs_intros Cons.IH) (use role in auto)
qed (simp add: logs_pure)

lemma logs_cleanup: "logs (\<lambda>op. \<forall>a. op = RoForget a \<longrightarrow> a \<in> {CONSENSUS_KEY_OLD_ALIAS, COMPANION_KEY_OLD_ALIAS})
    (cleanup_backup_aliases E auto_confirm)"
  unfolding cleanup_backup_aliases_def by (intro logs_intros logs_forget_old) auto

lemma verify_and_cleanup_guarded:
  assumes "logs forgets_nothing otherwise"
  shows "forgets_guarded E (verify_and_cleanup E auto_confirm otherwise)"
  unfolding forgets_guarded_def
proof
  fix s
  obtain r t where v: "verify_baker_signing E s = (r, t)"
    by (cases "verify_baker_signing E s")
  obtain ops where ops: "ro_log t = ro_log s @ ops" "list_all forgets_nothing ops"
    "r = Inr True \<longrightarrow> (\<exists>h. RoSignals h True \<in> set ops \<and> signals_agreed E h)"
    using verify_run [OF v] by blast
  show "\<exists>ops. ro_log (snd (verify_and_cleanup E auto_confirm otherwise s)) = ro_log s @ ops \<and> guarded_forgets E ops"
  proof (cases "r = Inr True")
    case True
    obtain r' t' where c: "cleanup_backup_aliases E auto_confirm t = (r', t')"
      by (cases "cleanup_backup_aliases E auto_confirm t")
    obtain ops' where ops': "ro_log t' = ro_log t @ ops'"
      "list_all (\<lambda>op. \<forall>a. op = RoForget a \<longrightarrow> a \<in> {CONSENSUS_KEY_OLD_ALIAS, COMPANION_KEY_OLD_ALIAS}) ops'"
      using logs_cleanup c by (rule logsE)
    have "guarded_forgets E (ops @ ops')"
      unfolding guarded_forgets_def
    proof (intro allI impI conjI)
      fix pre a post
      assume eq: "ops @ ops' = pre @ RoForget a # post"
      have "RoForget a \<notin> set ops"
        using ops(2) by (auto simp: list_all_iff)
      then obtain us where us: "pre = ops @ us" "ops' = us @ RoForget a # post"
        using eq by (auto simp: append_eq_append_conv2 append_eq_Cons_conv Cons_eq_append_conv)
      show "a \<in> {CONSENSUS_KEY_OLD_ALIAS, COMPANION_KEY_OLD_ALIAS}"
        using ops'(2) us(2) by simp
      show "\<exists>h. RoSignals h True \<in> set pre \<and> signals_agreed E h"
        using ops(3) True us(1) by auto
    qed
    then show ?thesis
      using v c ops(1) ops'(1) True by (simp add: verify_and_cleanup_def bindS_def)
  next
    case False
    then consider e where "r = Inl e" | "r = Inr False"
      by (cases r) auto
    then show ?thesis
    proof cases
      case 1
      then show ?thesis
        using v ops guarded_nothing by (auto simp: verify_and_cleanup_def bindS_def)
    next
      case 2
      obtain r' t' where o': "otherwise t = (r', t')"
        by (cases "otherwise t")
      obtain ops' where "ro_log t' = ro_log t @ ops'" "list_all forgets_nothing ops'"
        using assms o' by (rule logsE)
      then show ?thesis
        using v o' ops 2 guarded_nothing [of "ops @ ops'"] by (auto simp: verify_and_cleanup_def bindS_def)
    qed
  qed
qed

lemma rollback_forgets_nothing: "logs forgets_nothing (bindS (logged RoAsk (rv_yes E)) (\<lambda>b. if b then rollback_aliases E else returnS ()))"
  unfolding rollback_aliases_def by (intro logs_intros) simp_all

lemma flows_guarded:
  "forgets_guarded E (execute_swap_sequence E auto_confirm)"
  "forgets_guarded E (resume_from_partial_swap E auto_confirm)"
  "forgets_guarded E (resume_from_keys_activated_need_swap E auto_confirm)"
proof -
  have if_guarded: "forgets_guarded E f \<Longrightarrow> forgets_guarded E g \<Longrightarrow> forgets_guarded E (if c then f else g)"
    for f g :: "'z rot" and c
    by simp
  have done_: "forgets_guarded E (verify_and_cleanup E auto_confirm (returnS ()))"
    by (rule verify_and_cleanup_guarded) (intro logs_intros)
  show "forgets_guarded E (execute_swap_sequence E auto_confirm)"
    unfolding execute_swap_sequence_def
    by (intro forgets_guarded_bindS if_guarded done_ forgets_guarded_pure [OF logs_pure(1)] logs_intros) simp_all
  show "forgets_guarded E (resume_from_partial_swap E auto_confirm)"
    unfolding resume_from_partial_swap_def is_baker_running_def
    by (intro forgets_guarded_bindS verify_and_cleanup_guarded rollback_forgets_nothing logs_intros) simp_all
  show "forgets_guarded E (resume_from_keys_activated_need_swap E auto_confirm)"
    unfolding resume_from_keys_activated_need_swap_def is_baker_running_def check_remote_signer_def signer_holds_key_def
    by (intro forgets_guarded_bindS if_guarded done_ forgets_guarded_pure [OF logs_pure(2)] logs_intros) simp_all
qed

end
