(* ===== verification/Rotation_Runs.thy ===== *)
theory Rotation_Runs
  imports Rotation_Safety
begin

text \<open>
  Key rotations run on a small wallet: one that ends well, and two in which a key is lost although the
  error, or the success, names nothing.
\<close>

section \<open>The sample wallet\<close>

definition sample_wallet :: wallet_files where
  "sample_wallet f =
     Some (Entries [(Some CONSENSUS_KEY_ALIAS, ''c''), (Some COMPANION_KEY_ALIAS, ''k''), (Some ''bob'', ''b''),
       (Some CONSENSUS_KEY_PENDING_ALIAS, ''C''), (Some COMPANION_KEY_PENDING_ALIAS, ''K'')])"

text \<open>octez-client as documented, a device and a chain that have the key \<open>C\<close>; \<open>w\<close> answers the writes.\<close>

definition sample_rotation_env :: "(nat \<Rightarrow> write_answer) \<Rightarrow> rotation_env" where
  "sample_rotation_env w =
     \<lparr>rv_read = (\<lambda>_. None), rv_write = w,
      rv_show = (\<lambda>files a _. case alias_in files PublicKeyHashs a of Some h \<Rightarrow> Inr (''Hash:'' @ h) | None \<Rightarrow> Inr ''none''),
      rv_forget = (\<lambda>_. Inr (True, [])),
      rv_forgotten = (\<lambda>a files f. case files f of
          Some (Entries es) \<Rightarrow> Some (Entries (filter (\<lambda>e. fst e \<noteq> Some a) es)) | c \<Rightarrow> c),
      rv_alive = (\<lambda>_. True), rv_signer_keys = (\<lambda>_. Inr [''C'', ''K'']), rv_active_key = (\<lambda>_. Inr ''C''),
      rv_status = (\<lambda>_. Inr \<lparr>as_consensus_pending = False, as_consensus_cycle = None\<rparr>),
      rv_do = (\<lambda>_ _. Inr ()), rv_yes = (\<lambda>_. Inr True)\<rparr>"

abbreviation "writes_work \<equiv> sample_rotation_env (\<lambda>_. WriteOk)"

text \<open>The second file refuses the last renaming of the promotion.\<close>

abbreviation "late_refusal \<equiv> sample_rotation_env (\<lambda>n. if n = 21 then WriteRefused ''no space'' else WriteOk)"

abbreviation "fresh_rotation \<equiv> \<lparr>ro_files = sample_wallet, ro_log = []\<rparr>"

lemma sample_moves:
  "fst (promotion_moves writes_work fresh_rotation) = Inr ()"
  "alias_in (ro_files (snd (promotion_moves writes_work fresh_rotation))) PublicKeyHashs CONSENSUS_KEY_ALIAS = Some ''C''"
  by code_simp+

lemma late_moves:
  "fst (promotion_moves late_refusal fresh_rotation) = Inl ''Failed to promote pending companion key''"
  "alias_in (ro_files (snd (promotion_moves late_refusal fresh_rotation))) PublicKeyHashs COMPANION_KEY_PENDING_ALIAS = None"
  "alias_in (ro_files (snd (promotion_moves late_refusal fresh_rotation))) PublicKeyHashs COMPANION_KEY_ALIAS = Some ''k''"
  by code_simp+

section \<open>Looking up its keys\<close>

text \<open>Hashes of one letter print as one line and need no trimming.\<close>

definition letter :: "string \<Rightarrow> bool" where
  "letter h \<longleftrightarrow> h = ''c'' \<or> h = ''k'' \<or> h = ''C'' \<or> h = ''K''"

lemma letter_trim: "letter h \<Longrightarrow> trim h = h"
proof -
  have space: "of_char (hd w) \<notin> {67, 75, 99, 107 :: nat}"
    if "w \<in> set white_space \<or> w \<in> set (map rev white_space)" "w \<noteq> []" for w
    using that by (auto simp: white_space_def text_of_def)
  have plain: "trim [c] = [c]" if "of_char c \<in> {67, 75, 99, 107 :: nat}" for c
  proof -
    have "hd w \<noteq> c" if "w \<in> set white_space \<or> w \<in> set (map rev white_space)" "w \<noteq> []" for w
      using space [OF that] \<open>of_char c \<in> _\<close> by blast
    then have "strip_one white_space [c] = None" "strip_one (map rev white_space) [c] = None"
      by (simp_all add: strip_one_None)
    then show ?thesis
      by (simp add: trim_def strip_all_id)
  qed
  have codes: "of_char (CHR ''c'') = (99 :: nat)" "of_char (CHR ''k'') = (107 :: nat)"
    "of_char (CHR ''C'') = (67 :: nat)" "of_char (CHR ''K'') = (75 :: nat)"
    by simp_all
  show "letter h \<Longrightarrow> trim h = h"
    using plain [of "CHR ''c''"] plain [of "CHR ''k''"] plain [of "CHR ''C''"] plain [of "CHR ''K''"]
    unfolding letter_def codes by fastforce
qed

lemma letter_line: "letter h \<Longrightarrow> lines_of (''Hash:'' @ h) = [''Hash:'' @ h]"
  unfolding letter_def lines_of_def by (elim disjE; simp)

lemma sample_lookup:
  assumes "alias_in (ro_files s) PublicKeyHashs a = Some h" "letter h"
  shows "get_key_hash (sample_rotation_env w) a s = (Inr h, s\<lparr>ro_log := ro_log s @ [RoShow a]\<rparr>)"
proof -
  have "List.find (\<lambda>l. strip_prefix ''Hash:'' l \<noteq> None) (lines_of (''Hash:'' @ h)) = Some (''Hash:'' @ h)"
    unfolding letter_line [OF assms(2)] by (simp add: strip_prefix_def)
  moreover have "trim (drop 5 (''Hash:'' @ h)) = h"
    using letter_trim [OF assms(2)] by simp
  moreover have "rv_show (sample_rotation_env w) (ro_files s) a n = Inr (''Hash:'' @ h)" for n
    using assms(1) by (simp add: sample_rotation_env_def)
  ultimately show ?thesis
    by (simp only: get_key_hash_def bindS_def logged_def returnS_def prod.case sum.case option.case)
qed

lemma sample_lookup_none:
  "alias_in (ro_files s) PublicKeyHashs a = None \<Longrightarrow>
    get_key_hash (sample_rotation_env w) a s =
      (Inl ''Could not parse key hash from octez-client output'', s\<lparr>ro_log := ro_log s @ [RoShow a]\<rparr>)"
  by (simp add: get_key_hash_def bindS_def logged_def failS_def sample_rotation_env_def lines_of_def strip_prefix_def)

lemma sample_promote: "\<exists>s'. promote_aliases_with_backup writes_work fresh_rotation = (Inr (), s')"
proof -
  let ?s = "\<lparr>ro_files = sample_wallet, ro_log =
    [RoShow CONSENSUS_KEY_PENDING_ALIAS, RoShow COMPANION_KEY_PENDING_ALIAS, RoShow CONSENSUS_KEY_ALIAS, RoShow COMPANION_KEY_ALIAS]\<rparr>"
  have "alias_in sample_wallet PublicKeyHashs CONSENSUS_KEY_PENDING_ALIAS = Some ''C''"
    "alias_in sample_wallet PublicKeyHashs COMPANION_KEY_PENDING_ALIAS = Some ''K''"
    "alias_in sample_wallet PublicKeyHashs CONSENSUS_KEY_ALIAS = Some ''c''"
    "alias_in sample_wallet PublicKeyHashs COMPANION_KEY_ALIAS = Some ''k''"
    by code_simp+
  then have "promote_aliases_with_backup writes_work fresh_rotation = promotion_moves writes_work ?s"
    by (simp add: promote_aliases_with_backup_def bindS_def map_errS_def sample_lookup letter_def)
  moreover have "fst (promotion_moves writes_work ?s) = Inr ()"
    by code_simp
  ultimately show ?thesis
    by (metis prod.collapse)
qed

lemma sample_wallet_fine: "wallet_wf sample_wallet" "no_backups sample_wallet" "no_torn_writes (sample_rotation_env (\<lambda>_. WriteOk))"
proof -
  show "wallet_wf sample_wallet"
    by (auto simp: wallet_wf_def sample_wallet_def alias_defs)
  show "no_backups sample_wallet"
    by (simp add: no_backups_def alias_in_def named_def sample_wallet_def alias_defs)
  show "no_torn_writes (sample_rotation_env (\<lambda>_. WriteOk))"
    by (simp add: no_torn_writes_def sample_rotation_env_def)
qed

section \<open>A power cut after the third renaming\<close>

definition three_renamings :: "unit rot" where
  "three_renamings =
     bindS (rename_alias_locally writes_work CONSENSUS_KEY_ALIAS CONSENSUS_KEY_OLD_ALIAS) (\<lambda>_.
     bindS (rename_alias_locally writes_work COMPANION_KEY_ALIAS COMPANION_KEY_OLD_ALIAS) (\<lambda>_.
       rename_alias_locally writes_work CONSENSUS_KEY_PENDING_ALIAS CONSENSUS_KEY_ALIAS))"

definition cut_wallet :: wallet_files where
  "cut_wallet = ro_files (snd (three_renamings fresh_rotation))"

lemma cut_wallet_eq:
  "cut_wallet = (\<lambda>f. Some (Entries [(Some CONSENSUS_KEY_OLD_ALIAS, ''c''), (Some COMPANION_KEY_OLD_ALIAS, ''k''), (Some ''bob'', ''b''),
     (Some CONSENSUS_KEY_ALIAS, ''C''), (Some COMPANION_KEY_PENDING_ALIAS, ''K'')]))"
  (is "_ = (\<lambda>f. ?c)")
proof
  have "cut_wallet PublicKeyHashs = ?c" "cut_wallet PublicKeys = ?c" "cut_wallet SecretKeys = ?c"
    by code_simp+
  then show "cut_wallet f = ?c" for f
    by (cases f) simp_all
qed

definition cut_rotation :: rotation where
  "cut_rotation = \<lparr>ro_files = cut_wallet, ro_log = []\<rparr>"

lemma cut_aliases:
  "alias_in cut_wallet PublicKeyHashs CONSENSUS_KEY_ALIAS = Some ''C''"
  "alias_in cut_wallet PublicKeyHashs CONSENSUS_KEY_OLD_ALIAS = Some ''c''"
  "alias_in cut_wallet PublicKeyHashs COMPANION_KEY_OLD_ALIAS = Some ''k''"
  by (simp_all add: cut_wallet_eq alias_in_def named_def alias_defs)

lemma cut_detected: "fst (detect_rotation_state writes_work cut_rotation) = Inr PartialSwap"
  by (simp add: detect_rotation_state_def old_aliases_exist_def bindS_def attempt_def returnS_def
      sample_lookup letter_def cut_aliases cut_rotation_def)

definition cut_log :: "rotation_op list" where
  "cut_log = [RoShow CONSENSUS_KEY_ALIAS, RoShow CONSENSUS_KEY_OLD_ALIAS, RoRunning, RoShow CONSENSUS_KEY_ALIAS,
     RoSignals ''C'' True, RoShow CONSENSUS_KEY_OLD_ALIAS, RoShow COMPANION_KEY_OLD_ALIAS, RoForget CONSENSUS_KEY_OLD_ALIAS]"

lemma sample_signing:
  "0 < n \<Longrightarrow> signing_attempts n writes_work ''C'' s = (Inr True, s\<lparr>ro_log := ro_log s @ [RoSignals ''C'' True]\<rparr>)"
  by (cases n) (simp_all add: Let_def signing_verified_def sample_rotation_env_def)

lemma sample_forget:
  "forget_key_alias writes_work a s =
     (Inr (), s\<lparr>ro_files := rv_forgotten writes_work a (ro_files s), ro_log := ro_log s @ [RoForget a]\<rparr>)"
  by (simp add: forget_key_alias_def bindS_def logged_def forget_alias_ok_def sample_rotation_env_def)

lemma cut_verified:
  assumes "alias_in (ro_files s) PublicKeyHashs CONSENSUS_KEY_ALIAS = Some ''C''"
  shows "verify_baker_signing writes_work s =
    (Inr True, s\<lparr>ro_log := ro_log s @ [RoShow CONSENSUS_KEY_ALIAS, RoSignals ''C'' True]\<rparr>)"
  using assms by (simp add: verify_baker_signing_def bindS_def attempt_def sample_lookup letter_def sample_signing)

lemma cut_cleaned:
  assumes "ro_files s = cut_wallet"
  shows "cleanup_backup_aliases writes_work True s = (Inr (), s\<lparr>
    ro_files := rv_forgotten writes_work COMPANION_KEY_OLD_ALIAS (rv_forgotten writes_work CONSENSUS_KEY_OLD_ALIAS cut_wallet),
    ro_log := ro_log s @ [RoShow CONSENSUS_KEY_OLD_ALIAS, RoShow COMPANION_KEY_OLD_ALIAS,
      RoForget CONSENSUS_KEY_OLD_ALIAS, RoForget COMPANION_KEY_OLD_ALIAS]\<rparr>)"
  using assms
  by (simp add: cleanup_backup_aliases_def bindS_def attempt_def returnS_def baker_old_alias_def sample_lookup letter_def
      cut_aliases KEY_ROLE_ALL_def sample_forget)

lemma cut_resumed:
  "\<exists>t. resume_from_partial_swap writes_work True cut_rotation = (Inr (), t) \<and>
     ro_log t = cut_log @ [RoForget COMPANION_KEY_OLD_ALIAS] \<and>
     alias_in (ro_files t) PublicKeyHashs COMPANION_KEY_ALIAS = None \<and>
     alias_in (ro_files t) PublicKeyHashs COMPANION_KEY_OLD_ALIAS = None"
proof -
  let ?files = "rv_forgotten writes_work COMPANION_KEY_OLD_ALIAS (rv_forgotten writes_work CONSENSUS_KEY_OLD_ALIAS cut_wallet)"
  have "is_baker_running writes_work s = (Inr True, s\<lparr>ro_log := ro_log s @ [RoRunning]\<rparr>)" for s
    by (simp add: is_baker_running_def logged_def sample_rotation_env_def)
  then have "resume_from_partial_swap writes_work True cut_rotation =
      (Inr (), \<lparr>ro_files = ?files, ro_log = cut_log @ [RoForget COMPANION_KEY_OLD_ALIAS]\<rparr>)"
    by (simp add: resume_from_partial_swap_def verify_and_cleanup_def cut_rotation_def bindS_def attempt_def returnS_def
        sample_lookup letter_def cut_aliases cut_verified cut_cleaned cut_log_def)
  moreover have "alias_in ?files PublicKeyHashs COMPANION_KEY_ALIAS = None"
    "alias_in ?files PublicKeyHashs COMPANION_KEY_OLD_ALIAS = None"
    by (simp_all add: sample_rotation_env_def cut_wallet_eq alias_in_def named_def alias_defs)
  ultimately show ?thesis
    by simp
qed

end
