(* ===== verification/Spec2Isabelle.thy ===== *)
theory Spec2Isabelle
  imports Ui_Samples Signing_Behaviour Panel_Samples Disk_Runs Restore_Runs Rotation_Runs
begin

text \<open>
  russignol is a hardware signer for Tezos bakers: a Raspberry Pi that holds a consensus and a companion
  BLS key, answers sign requests over TCP, refuses to sign the same level and round twice, and is
  operated through a small touch display. This development models the signer library
  (\<open>src/libs/signer\<close>), the storage and crypto libraries (\<open>src/libs/storage\<close>, \<open>src/libs/crypto\<close>), the
  device program (\<open>src/rpi-signer\<close>), the display driver (\<open>src/libs/epd-2in13-v4\<close>), the release tools and,
  of the host utility (\<open>src/host-utility\<close>), the disk check, the restore, migration and rotation of keys, and
  states what makes them correct.

  Parts and theories.

  Foundations. \<open>Prelude\<close>: words, byte arrays, errors as sums, stateful functions \<open>'s \<Rightarrow> (error + 'a) \<times> 's\<close>.
  \<open>Utf8\<close>, \<open>Text\<close>: the \<open>str\<close> operations used. \<open>Crates\<close>: third-party code (blst, BLAKE, bs58, bson) as
  records of functions, with their documented laws as named predicates and a concrete lawful instance.
  \<open>File_System\<close>: the part of \<open>std::fs\<close> the mark store uses, with stable storage, a cache, and an oracle
  for the outcome of every operation.

  The signer library. \<open>Base58check\<close>, \<open>Bls\<close>, \<open>Key_Role\<close>, \<open>Magic_Bytes\<close>, \<open>Watermark_File\<close>,
  \<open>High_Watermark\<close>, \<open>Signing_Activity\<close>, \<open>Signer_Core\<close>, \<open>Protocol\<close> model the files of the same name;
  \<open>Key_Manager\<close>, \<open>Server\<close> and \<open>Connection\<close> model \<open>server.rs\<close>: the key manager, the request handler
  (state: the locks on keys and tracker, the disk, pending ceiling threads, a trace of callbacks) and the
  socket loop. \<open>Watermark_Invariant\<close> and \<open>Sign_Safety\<close> hold the invariant of the tracker (in-memory mark,
  ceiling and file of each key and operation agree up to what a crash may undo); \<open>Device\<close> is the
  transition system of requests, ceiling threads, faults, power cuts and boots that refines an
  append-only log of signed marks; \<open>Request_Handling\<close> shows that requests are steps of it;
  \<open>Signing_Behaviour\<close> what each branch of the signing path does.

  The keys partition. \<open>Key_Blob\<close>: the encrypted blob (\<open>libs/crypto\<close>). \<open>Key_Migration\<close>: unlocking and the
  two-boot format migration (\<open>tezos_encrypt.rs\<close>), over a directory with every state a power cut may
  bring back. \<open>Secret_Keys_Json\<close>, \<open>Wallet\<close>: key generation and its files. \<open>Watermark_Setup\<close>: the staged
  configuration. \<open>Signer_Server\<close>: from decrypted keys to the running server.

  The card. \<open>Partition_Layout\<close> (\<open>libs/storage\<close>), \<open>Storage_Setup\<close> (\<open>storage.rs\<close>: a trace of disk commands
  with arbitrary answers), \<open>First_Boot\<close> (\<open>setup.rs\<close>, dropping root).

  The process. \<open>App\<close>, \<open>App_Machine\<close>: the application state machine (\<open>app.rs\<close>), handlers returning lists
  of effects. \<open>Ui_Pages\<close>: touches. \<open>Ui_Loop\<close>: what each effect does (\<open>main.rs\<close>). \<open>Ui_Run\<close>: threads, boot
  and the event loop as the step relation \<open>ui_step\<close>. \<open>Ui_Safety\<close>, \<open>Ui_Privileges\<close>: invariants of that
  relation. \<open>Ui_Unlock\<close>: progress. \<open>Samples\<close>, \<open>Ui_Samples\<close>: concrete inputs for the witnesses.

  The display. \<open>Epd_Driver\<close>: the panel driver as a state with a wire log, the board answering every
  access from the history of the wire. \<open>Epd_Window\<close>: the dirty mask against the frames pushed since the
  panel was idle. \<open>Epd_Display\<close>: refresh policy, display, drawing, touches. \<open>Epd_Updates\<close>: updates on
  every outcome and runs with their log of refreshes.

  Around the signer. \<open>Peripherals\<close>: LED, CPU frequency, log rotation. \<open>Network_Status\<close>: the network
  screen. \<open>Provenance\<close>: flash manifest, release signature, boot partition mounts, the first-boot check of
  the root file system, the image screen. \<open>Panel_Samples\<close>: concrete inputs for these.

  The host. \<open>Disk_Check\<close>: the state of a card and the classifier of \<open>check disk\<close>. \<open>Disk_Repair\<close>:
  gathering, choosing the node, planning and executing repairs as a trace of card accesses.
  \<open>Disk_Safety\<close>: plans are justified, executions complete and keep the mounts in order, and a second
  check converges. \<open>Disk_Runs\<close>: the command as a whole.
  \<open>Nomadic_Keys\<close> (\<open>migrate_keys.rs\<close>): the wallet of a Nomadic Labs card turned into the files of a
  russignol card. \<open>Card_Restore\<close> (\<open>restore_keys.rs\<close>): reading a source card, laying out, formatting,
  writing and verifying the target, with one reader or two, as a trace. \<open>Restore_Runs\<close>: what is on the
  card afterwards and what the device makes of it.
  \<open>Key_Rotation\<close> (\<open>rotate_keys.rs\<close>, \<open>keys.rs\<close>): renaming, promotion and rollback of the aliases in the
  octez wallet, the check that the baker signs, the removal of backups, and resumptions, with failing
  reads, writes and programs. \<open>Rotation_Safety\<close>: promotions against aliases as a map, and when backups are
  deleted. \<open>Rotation_Runs\<close>: runs on a small wallet.

  Interfaces are locales: \<open>mark_codec\<close> (record codecs, interpreted for both record formats),
  \<open>wire_codec\<close> (field codecs of the protocol), \<open>bounded_log\<close> (the event ring), \<open>monotone_log\<close> (a
  transition system with an ordered log, interpreted for the device), \<open>key_paths\<close> (the three paths of
  the migration).

  Atomicity. A lock scope of the signer, one event of the loop and one worker thread are each one step;
  steps interleave arbitrarily. Two PIN checks running at once on the keys partition are therefore
  modelled one after the other, although the code takes no lock there.

  Bounds and fuel. Machine integers are words and wrap as the release profile does. Loops are
  recursive functions with a measure (the request loop of \<open>Connection\<close>: the unread input; the wait for
  the panel: the time left to its timeout); only the
  reference JSON reader of \<open>Secret_Keys_Json\<close> has fuel, the length of its input, which is enough because
  every object takes a character, and the waiting for another card in \<open>Card_Restore\<close>, which the code does
  without end: there it bounds the swaps the operator makes, and using it up is an outcome of its own.

  What is not modelled: the drawing of pages and fonts; the texts of the log; signal plumbing; writing
  the image and upgrades of the host utility, the dialogues and transactions before the swap of a key
  rotation, and the build tasks, which drive external programs; the secrecy of memory. JSON, scrypt, AES-GCM, BLS, ed25519, hashing, the board and the kernel are parameters.
\<close>

section \<open>The device never signs the same mark twice\<close>





text \<open>
  C3. The request handler refines the device: whatever the request, the tracker, the disk and the
  pending ceiling threads after \<open>handle_request\<close> are those before it or those after one device step.
\<close>

theorem handle_request_refines_device:
  assumes "handle_request X B now el req w = (r, w')" and "rh_watermark (w_handler w) = Some (Lock p h)"
  shows "\<exists>p' h' out. rh_watermark (w_handler w') = Some (Lock p' h') \<and>
    (device_step X B C pkhs)\<^sup>=\<^sup>= (Up (h, w_fs w) (w_tasks w), log) (Up (h', w_fs w') (w_tasks w'), log @ out)"
  by (rule handle_request_step [OF assms])

theorem handle_request_refines_device_witness:
  "\<exists>p' h' out. rh_watermark (w_handler (snd (handle_request sample_crates sample_blst 0 0
        (ReqSign (sample_pkh, 2) sample_block None) sample_world))) = Some (Lock p' h') \<and>
    sample_step\<^sup>=\<^sup>= (Up (fst sample_seeded, w_fs sample_world) (w_tasks sample_world), [])
      (Up (h', w_fs (snd (handle_request sample_crates sample_blst 0 0
            (ReqSign (sample_pkh, 2) sample_block None) sample_world)))
          (w_tasks (snd (handle_request sample_crates sample_blst 0 0
            (ReqSign (sample_pkh, 2) sample_block None) sample_world))), [] @ out)"
  by (rule handle_request_refines_device [OF prod.collapse [symmetric] sample_world_simps(1)])

text \<open>
  C4. A signature that \<open>handle_sign\<close> returns for a payload with a level is a signing step of the
  device, and what that step appends to the log is the mark of exactly this payload and key.
\<close>

theorem returned_signature_is_logged:
  assumes "handle_sign X B now el pv data w = (Inr (resp, ch), w')"
    and "rh_watermark (w_handler w) = Some (Lock p h)"
    and "device_inv X C pkhs (Up (h, w_fs w) (w_tasks w), log)"
    and "parse_sign_payload data = Some parsed" and "ps_level parsed = Some l"
    and "ps_op_type parsed = Some op" and "ps_round parsed = Some r"
  shows "\<exists>h'. rh_watermark (w_handler w') = Some (Lock False h') \<and>
    device_step X B C pkhs (Up (h, w_fs w) (w_tasks w), log)
      (Up (h', w_fs w') (w_tasks w'), log @ [(fst pv, op_idx op, WatermarkEntry l r)])"
  by (rule handle_sign_logged [OF assms])

theorem returned_signature_is_logged_witness:
  "\<exists>resp ch w' h'. handle_sign sample_crates sample_blst 0 0 (sample_pkh, 2) sample_block sample_world
      = (Inr (resp, ch), w') \<and>
    sample_step (Up sample_seeded [], []) (Up (h', w_fs w') (w_tasks w'), [] @ [(sample_pkh, 0, WatermarkEntry 6 0)])"
proof -
  obtain resp ch w' where run: "handle_sign sample_crates sample_blst 0 0 (sample_pkh, 2) sample_block sample_world
      = (Inr (resp, ch), w')"
    using sample_handle_ok [of 0 0 2] unfolding is_ok_iff by (metis prod.collapse)
  from returned_signature_is_logged [OF run sample_world_simps(1), of sample_config "[sample_pkh]" "[]"
      sample_parsed 6 Block 0]
  show ?thesis
    using run sample_seeded_inv
    by (auto simp: sample_parsed)
qed

text \<open>
  C5. With a correct curve library and a key manager whose entries belong together, every signature
  that \<open>handle_sign\<close> returns verifies for the requested payload under a public key whose hash is the
  requested one.
\<close>

theorem returned_signature_verifies:
  assumes "blst_sign_lawful B" and "rh_keys (w_handler w) = Lock False km"
    and "\<forall>(p, u) \<in> set (signers km). consistent X B u \<and> un_public_key_hash u = p"
    and "handle_sign X B now el pv data w = (Inr (resp, ch), w')"
  shows "\<exists>sg pk. resp = RespSignature sg \<and> pk_hash X B pk = fst pv \<and> bls_verify B pk sg data None"
proof -
  from handle_sign_ok [OF assms(4)] assms(2) obtain signer where
    s: "map_of (signers km) (fst pv) = Some signer" "resp = RespSignature (bls_sign B (un_secret_key signer) data None)"
    by auto
  then have "consistent X B signer" and "un_public_key_hash signer = fst pv"
    using assms(3) by (auto dest!: map_of_SomeD)
  then show ?thesis
    using s(2) bls_verify_sign [OF assms(1), of "un_secret_key signer" data None] by (auto simp: consistent_def)
qed

theorem returned_signature_verifies_witness:
  "\<exists>resp ch w' sg pk. handle_sign sample_crates sample_blst 0 0 (sample_pkh, 2) sample_block sample_world
      = (Inr (resp, ch), w') \<and> resp = RespSignature sg \<and>
    pk_hash sample_crates sample_blst pk = sample_pkh \<and> bls_verify sample_blst pk sg sample_block None"
proof -
  obtain resp ch w' where run: "handle_sign sample_crates sample_blst 0 0 (sample_pkh, 2) sample_block sample_world
      = (Inr (resp, ch), w')"
    using sample_handle_ok [of 0 0 2] unfolding is_ok_iff by (metis prod.collapse)
  have "\<forall>(p, u) \<in> set (signers sample_km). consistent sample_crates sample_blst u \<and> un_public_key_hash u = p"
    by (simp add: sample_km_def add_signer_def km_new_def sample_pkh_signer) (simp add: sample_signer_def)
  from returned_signature_verifies [OF sample_blst_lawful(4) sample_world_simps(4) this run] run show ?thesis
    by auto
qed

section \<open>The encrypted keys\<close>







section \<open>The process of the device\<close>

text \<open>
  C9. In every interleaving of the event loop with its threads, the touch panel and the signer's
  callbacks, the signer is started at most once, and never without a mark store.
\<close>

theorem signer_started_once:
  assumes "fresh_process u" and "(ui_step V)\<^sup>*\<^sup>* (boot V u) v"
  shows "length (ui_started v) \<le> 1 \<and> (ui_started v \<noteq> [] \<longrightarrow> guarded (ui_watermark v) \<noteq> None)"
  using signer_inv_reach [OF assms] by (simp add: signer_inv_def once_def)

theorem signer_started_once_witness:
  "\<exists>v. (ui_step sample_env)\<^sup>*\<^sup>* (boot sample_env (sample_ui 1000 tiny_keys True)) v \<and> length (ui_started v) = 1 \<and>
     guarded (ui_watermark v) \<noteq> None"
proof -
  obtain v where v: "(ui_step sample_env)\<^sup>*\<^sup>* (boot sample_env (sample_ui 1000 tiny_keys True)) v" "ui_started v = [tiny_km]"
    using tiny_unlocks by blast
  then have "length (ui_started v) = 1" "ui_started v \<noteq> []"
    by simp_all
  with signer_started_once [OF sample_fresh v(1)] v(1) show ?thesis
    by blast
qed

text \<open>
  C10. The signer never runs as root: when it has been started, the process has left the root user, on
  every path (first boot, an ordinary boot, a migration with its notices), provided that a failed
  operation on the keys partition had no effect.
\<close>

theorem signer_never_root:
  assumes "fresh_process u" and "clean (ui_keys u)" and "(ui_step V)\<^sup>*\<^sup>* (boot V u) v" and "ui_started v \<noteq> []"
  shows "0 < uid (ui_ids v)"
  using root_inv_reach [OF assms(1-3)] assms(4) by (simp add: root_inv_def)

theorem signer_never_root_witness:
  "\<exists>v. (ui_step sample_env)\<^sup>*\<^sup>* (boot sample_env (sample_ui 1000 tiny_keys True)) v \<and> ui_started v \<noteq> [] \<and> 0 < uid (ui_ids v)"
proof -
  obtain v where r: "(ui_step sample_env)\<^sup>*\<^sup>* (boot sample_env (sample_ui 1000 tiny_keys True)) v" "ui_started v = [tiny_km]"
    using tiny_unlocks by blast
  from r have v: "(ui_step sample_env)\<^sup>*\<^sup>* (boot sample_env (sample_ui 1000 tiny_keys True)) v" "ui_started v \<noteq> []"
    by simp_all
  from signer_never_root [OF sample_fresh tiny_ordinary(3) v] v show ?thesis
    by blast
qed



text \<open>
  C12. After five wrong PINs within one lockout period of a boot no further PIN is tried in that
  period, whatever else happens in between.
\<close>

theorem pin_lockout:
  assumes "\<forall>d \<in> set ds. t0 \<le> dl_now d \<and> dl_now d < t0 + LOCKOUT_DURATION"
    and "5 \<le> count_list (map dl_event ds) AeInvalidPinEntered" and "now < t0 + LOCKOUT_DURATION"
    and "handle_event now n (AePinEntered pin) (snd (run_app ds (app_new False))) = (action, effects, b)"
  shows "EfSpawnPinVerify pin' \<notin> set effects"
proof -
  have "pin_count t0 0 (app_new False)"
    by (simp add: pin_count_def app_new_def)
  from locked_out_no_verify [OF pin_count_run [OF this assms(1)] _ assms(3,4)] assms(2) show ?thesis
    by simp
qed

theorem pin_lockout_witness:
  "let ds = replicate 5 \<lparr>dl_now = 0, dl_needs_storage = False, dl_modal = True, dl_event = AeInvalidPinEntered\<rparr> in
   EfSpawnPinVerify [1] \<notin> set (fst (snd (handle_event 1 False (AePinEntered [1]) (snd (run_app ds (app_new False))))))"
  unfolding Let_def
  by (rule pin_lockout [where ?t0.0 = 0 and now = 1]) (auto simp: LOCKOUT_DURATION_def prod_eq_iff, simp add: eval_nat_numeral)

section \<open>The signing path\<close>

text \<open>
  C13. Progress: in any state of the device, a request whose mark is above the current entry of its
  key and operation is signed if the next two disk operations succeed.
\<close>

theorem signing_progress:
  assumes "device_inv X C pkhs (Up s ts, log)" and "keys (fst s) pkh = Some pk"
    and "ps_op_type parsed = Some op" and "ps_level parsed = Some l" and "ps_round parsed = Some r"
    and "entries pk ! op_idx op = Some e" and "e < WatermarkEntry l r" and "disk_works (snd s)"
  shows "issued (fst (locked_sign X B signer chain pkh parsed data s)) = [(pkh, op_idx op, WatermarkEntry l r)]"
proof -
  have "good X C (set log) s"
    using assms(1) by simp
  from locked_sign_progress [OF this assms(2-8) prod.collapse [symmetric]] show ?thesis .
qed

theorem signing_progress_witness:
  "issued (fst (locked_sign sample_crates sample_blst sample_signer sample_chain sample_pkh sample_parsed sample_block
     sample_seeded)) = [(sample_pkh, op_idx Block, WatermarkEntry 6 0)]"
proof -
  obtain pk where "keys (fst sample_seeded) sample_pkh = Some pk" "entries pk ! op_idx Block = Some (WatermarkEntry 5 0)"
    using sample_seeded_entries by auto
  from signing_progress [OF sample_seeded_inv this(1) sample_parsed(3,2,4) this(2) _ sample_seeded_disk]
  show ?thesis
    by simp
qed



text \<open>
  C15. No request makes the handler panic (index a slice or an array out of range, or unwrap a
  missing entry), whatever bytes it carries, as long as the tracker is in a state of the device.
\<close>

theorem no_request_panics:
  assumes "tracker_ok X C w"
  shows "fst (handle_request X B now el req w) \<noteq> Inl SvPanic"
  by (rule handle_request_no_panic [OF assms])

theorem no_request_panics_witness:
  "tracker_ok sample_crates sample_config sample_world \<and>
   fst (handle_request sample_crates sample_blst 0 0 (ReqSign (sample_pkh, 2) [0x11] None) sample_world) \<noteq> Inl SvPanic"
proof -
  have "tracker_ok sample_crates sample_config sample_world"
    using sample_seeded_good by (auto simp: tracker_ok_def)
  then show ?thesis
    using no_request_panics by blast
qed

section \<open>Mark files\<close>

text \<open>
  C16. The 72-byte record on disk decodes to a level and round exactly if it is the encoding of that
  level and round under the same MAC key and chain: nothing else is accepted, and distinct marks have
  distinct records.
\<close>

theorem mark_record_codec:
  "(decode_authenticated X k ad b = Some (l, r) \<longleftrightarrow> b = encode_authenticated X k ad l r) \<and>
   (encode_authenticated X k ad l r = encode_authenticated X k ad l' r' \<longleftrightarrow> l = l' \<and> r = r')"
  using auth.dec_Some_iff auth.enc_inj by blast

text \<open>
  C17. A record torn between two marks of the same key and chain at any byte reads as the old mark,
  the new mark, or nothing: a partial write cannot forge a third mark.
\<close>

theorem torn_record_forges_nothing:
  assumes "mac_collision_free X k ad"
    and "bytes_of c = torn n (bytes_of (encode_authenticated X k ad l r)) (bytes_of (encode_authenticated X k ad l0 r0))"
  shows "decode_authenticated X k ad c \<in> {None, Some (l, r), Some (l0, r0)}"
  by (rule decode_authenticated_torn [OF assms])

theorem torn_record_forges_nothing_witness:
  "decode_authenticated sample_crates (barray_of [9]) [1, 2]
     (barray_of (torn 20 (bytes_of (encode_authenticated sample_crates (barray_of [9]) [1, 2] 8 1))
                         (bytes_of (encode_authenticated sample_crates (barray_of [9]) [1, 2] 7 0))))
   \<in> {None, Some (8, 1), Some (7, 0)}"
  by (rule torn_record_forges_nothing [OF sample_crates_mac, where n = 20]) (simp add: length_torn)

section \<open>The card: setup, check and repair\<close>

text \<open>
  C18. Storage setup stays on the free part of the card: every discard, every partition it creates
  and every format lies between the end of the second partition and the end of the card, whatever the
  commands answer; and when it reports success it has formatted and mounted both partitions.
\<close>

theorem storage_setup_confined:
  assumes "card E disk p2_start p2_size"
  shows "list_all (confined ((unat p2_start + unat p2_size) * 512) (unat disk * 512)) (snd (setup_storage E [])) \<and>
    (is_ok (fst (setup_storage E [])) \<longrightarrow>
       {OpMkfs KEYS_PART ''russignol-keys'', OpMkfs DATA_PART ''russignol-data'', OpMount ''rw'' KEYS_PART ''/keys'',
        OpMount F2FS_MOUNT_OPTS DATA_PART ''/data''} \<subseteq> set (snd (setup_storage E [])))"
  using card_confined [OF assms] setup_completed [of E] by (auto simp: adds_def is_ok_iff) (metis prod.collapse)+

theorem storage_setup_confined_witness:
  "list_all (confined (663552 * 512) (16777216 * 512)) (snd (setup_storage sample_storage []))"
  using storage_setup_confined [OF sample_card] by simp











text \<open>
  C24. Restore of a card: when the host reports success, the keys partition of the target holds every key
  blob the source card lists under an acceptable name, byte for byte, no blob the source does not list, and
  the source's public key files.
\<close>

theorem restore_copies_keys:
  assumes "read_source_card E json S tr0 = (Inr backup, tr)" and "sc_dir S = Inr es" and "listed_once es"
    and "run_dual_reader_restore E job backup privilege tr = (Inr CardWritten, tr')"
  shows "\<forall>n. is_safe_pin_blob_filename n \<longrightarrow>
      (\<forall>c. Inr (Some n, c) \<in> set es \<longrightarrow> (\<exists>bs. c = Inr bs \<and> card_files KeysPartition tr' n = Some bs)) \<and>
      (\<forall>bs. card_files KeysPartition tr' n = Some bs \<longrightarrow> Inr (Some n, Inr bs) \<in> set es)"
    (is "\<forall>n. _ \<longrightarrow> ?copied n \<and> ?listed n")
proof (intro allI impI)
  fix n
  assume n: "is_safe_pin_blob_filename n"
  then have "?copied n"
    using restored_files [OF assms] by blast
  moreover have "?listed n"
    using restored_nothing_else [OF assms(1,2,4)] safe_name_other [OF n] by blast
  ultimately show "?copied n \<and> ?listed n"
    by blast
qed

theorem restore_copies_keys_witness:
  "\<exists>backup tr tr'. read_source_card obliging_host (\<lambda>_. (None, None)) sample_source [] = (Inr backup, tr) \<and>
     run_dual_reader_restore obliging_host sample_job backup PrivilegeSudo tr = (Inr CardWritten, tr') \<and>
     card_files KeysPartition tr' ''secret_keys.enc.v2'' = Some [7]"
proof -
  obtain backup tr tr' where run: "read_source_card obliging_host (\<lambda>_. (None, None)) sample_source [] = (Inr backup, tr)"
    "run_dual_reader_restore obliging_host sample_job backup PrivilegeSudo tr = (Inr CardWritten, tr')"
    using sample_source_read sample_completes by meson
  have "sc_dir sample_source =
      Inr [Inr (Some ''public_keys'', Inr [8]), Inr (Some ''secret_keys.enc.v2'', Inr [7]), Inr (None, Inl ''io'')]"
    by (simp add: sample_source_def)
  moreover have "listed_once
      [Inr (Some ''public_keys'', Inr [8]), Inr (Some ''secret_keys.enc.v2'', Inr [7]), Inr (None, Inl ''io'')]"
    by (auto simp: listed_once_def)
  ultimately have "card_files KeysPartition tr' ''secret_keys.enc.v2'' = Some [7]"
    using restore_copies_keys [OF run(1) _ _ run(2)] sample_blob_name by fastforce
  then show ?thesis
    using run by blast
qed



section \<open>Key rotation\<close>






section \<open>The display and the log\<close>





text \<open>
  C31. Drawing: whatever is drawn, in both rotations, a buffer of 4000 bytes stays one, no access leaves
  it, and exactly the pixels asked for that lie on the display have the last colour asked for them.
\<close>

theorem drawing_total_and_exact:
  assumes "length buf = BUFFER_SIZE"
  shows "(\<exists>buf'. draw_iter turn buf ps = Some buf' \<and> length buf' = BUFFER_SIZE \<and>
      (\<forall>q. in_size (display_size turn) q \<longrightarrow> pixel_shown turn buf' q =
         (case last_color ps q of Some c \<Rightarrow> c = On | None \<Rightarrow> pixel_shown turn buf q))) \<and>
    (\<exists>buf'. fill_solid R turn buf area c = Some buf' \<and> length buf' = BUFFER_SIZE) \<and>
    (\<forall>q. in_size (display_size turn) q \<longrightarrow> pixel_shown turn (display_clear buf c) q = (c = On))"
  by (intro conjI allI impI draw_iter_sets_pixels [OF assms] fill_solid_no_panic [OF assms] display_clear_shown [OF assms])

theorem drawing_total_and_exact_witness:
  "\<exists>buf'. draw_iter Deg90 (replicate BUFFER_SIZE 0) [((3, 4), On), ((-1, 7), On)] = Some buf' \<and>
     length buf' = BUFFER_SIZE \<and> pixel_shown Deg90 buf' (3, 4)"
proof -
  have "in_size (display_size Deg90) (3, 4)"
    by (simp add: in_size_def WIDTH_def HEIGHT_def)
  then show ?thesis
    using drawing_total_and_exact [of "replicate BUFFER_SIZE 0" Deg90 "[((3, 4), On), ((-1, 7), On)]"]
    by (fastforce simp: last_color_def)
qed

text \<open>
  C32. Refresh policy: after any history of drawing, updates, sleep and wake-ups, the first refresh was a
  full one, repainting in place never causes another, and after a successful page transition at most
  a thousand partial refreshes follow the last full one.
\<close>

theorem partial_refreshes_bounded:
  assumes "display_run H d log"
  shows "(log \<noteq> [] \<longrightarrow> last log = Full \<and> planned InPlace d \<noteq> Push Full) \<and>
    (\<forall>policy d'. display_push H Transition policy d = (Inr UpdateDone, d') \<longrightarrow>
       partials_behind (case planned Transition d of Push mode \<Rightarrow> mode # log | Skip \<Rightarrow> log) \<le> 1000)"
  using display_run_log [OF assms] in_place_never_full [OF assms] transition_bounds_partials [OF assms]
  by (auto simp: refresh_log_inv_def)

theorem partial_refreshes_bounded_witness:
  "\<exists>d. display_run sample_board d [Full] \<and> planned InPlace d \<noteq> Push Full"
proof -
  obtain d where "display_run sample_board d [Full]"
    by (rule sample_display_run)
  then show ?thesis
    using partial_refreshes_bounded [of sample_board d "[Full]"] by blast
qed

text \<open>
  C33. Log: while flushing, renaming and opening work, the two log files together stay within twice
  MAX_LOG_SIZE. If once the rename of a rotation succeeds and the opening of the new file fails, the
  rotation never happens again: from then on every written byte adds to the log.
\<close>

theorem log_bounded_until_reopen_fails:
  assumes "log_inv wd"
  shows "(list_all (\<lambda>r. log_disk_works (fst r) \<and> snd r \<le> MAX_LOG_SIZE) rs \<longrightarrow>
      log_bytes (snd (log_writes rs wd)) \<le> 2 * MAX_LOG_SIZE) \<and>
    (MAX_LOG_SIZE < lw_bytes_written (fst wd) + len \<longrightarrow> la_flush A \<longrightarrow> la_rename A \<longrightarrow> \<not> la_open A \<longrightarrow>
      list_all (\<lambda>r. la_write (fst r) = Some (snd r)) rs \<longrightarrow>
      log_bytes (snd (log_writes rs (snd (log_write False A len wd)))) =
        log_bytes (snd (snd (log_write False A len wd))) + sum_list (map snd rs))"
  using log_inv_bytes [OF log_writes_inv [OF assms]] stuck_writes [OF failed_reopen_sticks [OF assms]]
  by blast+

theorem log_bounded_until_reopen_fails_witness:
  "log_bytes (snd (log_writes [(sample_answers True, 100)] sample_log)) \<le> 2 * MAX_LOG_SIZE \<and>
   log_bytes (snd (log_writes [(sample_answers True, 100)] (snd (log_write False (sample_answers False) 100 sample_log)))) =
     log_bytes (snd (snd (log_write False (sample_answers False) 100 sample_log))) + 100"
proof
  show "log_bytes (snd (log_writes [(sample_answers True, 100)] sample_log)) \<le> 2 * MAX_LOG_SIZE"
    by (rule log_bounded_until_reopen_fails [OF sample_log_inv, THEN conjunct1, rule_format])
      (simp add: sample_answers_def log_disk_works_def MAX_LOG_SIZE_def)
  show "log_bytes (snd (log_writes [(sample_answers True, 100)] (snd (log_write False (sample_answers False) 100 sample_log)))) =
      log_bytes (snd (snd (log_write False (sample_answers False) 100 sample_log))) + 100"
    using log_bounded_until_reopen_fails [OF sample_log_inv, of "[(sample_answers True, 100)]" 100 "sample_answers False"]
    by (simp add: sample_answers_def sample_log_def)
qed

section \<open>Migration, configuration and alerts\<close>

text \<open>
  C34. The migration takes two boots: from a legacy file that the PIN opens and fewer than three
  earlier attempts, the first unlock stages the new file, the next one after any reboot promotes it;
  the legacy file is then gone and the new file opens with the same PIN to the same keys.
\<close>

theorem migration_completes:
  assumes "aead_lawful C" and "valid_text K" and "settled m d" and "m SECRET_KEYS_ENC_PATH = Some b"
    and "m SECRET_KEYS_ENC_V2_PATH = None" and "decrypt_with_format C pin b = Inr (K, V1Legacy)"
    and "blob_encrypt C salt nonce pin K = Inr v2_blob" and "counter_of m < 3"
  shows "\<exists>d1 d2. decrypt_secret_keys C salt nonce pin d = (Inr \<lparr>do_plaintext = K, do_migration = Some StagedV2\<rparr>, d1) \<and>
    decrypt_secret_keys C salt' nonce' pin (kd_power_cut i junk d1) = (Inr \<lparr>do_plaintext = K, do_migration = Some PromotedV2\<rparr>, d2) \<and>
    kd_files d2 SECRET_KEYS_ENC_PATH = None \<and> kd_files d2 SECRET_KEYS_ENC_V2_PATH = Some v2_blob \<and>
    blob_decrypt C pin v2_blob = Inr K"
  by (rule stage_then_promote [OF assms])

theorem migration_completes_witness:
  "\<exists>d1 d2. decrypt_secret_keys sample_ciphers (barray_of [3]) (barray_of [4]) sample_pin legacy_keys
      = (Inr \<lparr>do_plaintext = ''k'', do_migration = Some StagedV2\<rparr>, d1) \<and>
    decrypt_secret_keys sample_ciphers (barray_of [5]) (barray_of [6]) sample_pin (kd_power_cut 0 Map.empty d1)
      = (Inr \<lparr>do_plaintext = ''k'', do_migration = Some PromotedV2\<rparr>, d2)"
  using migration_completes [OF sample_aead legacy_text legacy_settled legacy_file(1,2) legacy_opens tiny_encrypts,
      of "barray_of [5]" "barray_of [6]" 0 Map.empty] legacy_file(3) by auto

text \<open>
  C35. A fourth staging is never verified: it raises the counter to the threshold at which the next
  boot skips the verification, so the device stays on the legacy format for good, however often it is
  unlocked, with a new file that is never read.
\<close>

theorem fourth_staging_wasted:
  assumes "settled m d" and "m SECRET_KEYS_ENC_PATH = Some b" and "m SECRET_KEYS_ENC_V2_PATH = None"
    and "decrypt_with_format C pin b = Inr (K, V1Legacy)"
    and "blob_encrypt C salt nonce pin K = Inr v2_blob" and "counter_of m = 3"
  shows "\<exists>d1 m1. decrypt_secret_keys C salt nonce pin d = (Inr \<lparr>do_plaintext = K, do_migration = Some StagedV2\<rparr>, d1) \<and>
    settled m1 d1 \<and> (\<forall>d2. settled m1 d2 \<longrightarrow>
      (\<exists>d3. decrypt_secret_keys C salt' nonce' pin d2 = (Inr \<lparr>do_plaintext = K, do_migration = Some (MigrationDisabled 4)\<rparr>, d3) \<and>
        settled m1 d3))"
  by (rule stage_then_disabled [OF assms])

theorem fourth_staging_wasted_witness:
  "\<exists>d1. decrypt_secret_keys sample_ciphers (barray_of [3]) (barray_of [4]) sample_pin tried_keys
      = (Inr \<lparr>do_plaintext = ''k'', do_migration = Some StagedV2\<rparr>, d1)"
  using fourth_staging_wasted [OF tried_settled tried_file(1,2) legacy_opens tiny_encrypts tried_file(3)] by blast



text \<open>
  C37. Two taps on the first button of the greeting that are queued before the first is handled start
  two storage setups at the same time: nothing guards the setup against running twice.
\<close>

theorem double_tap_sets_up_twice:
  assumes "panel_works V" and "ui_page u = ShownSpec PgGreeting" and "app_state (ui_app u) = Setup fp"
    and "\<not> ui_partitioned u" and "ui_halted u = None" and "ui_queue u = []" and "ui_threads u = []"
    and "en_hit V (ShownSpec PgGreeting) x y = OnButton 0"
  shows "\<exists>v. (ui_step V)\<^sup>*\<^sup>* u v \<and> ui_threads v = [ThStorageSetup, ThStorageSetup]"
  by (rule double_tap [OF assms])

theorem double_tap_sets_up_twice_witness:
  "\<exists>v. (ui_step sample_env)\<^sup>*\<^sup>* (boot sample_env (sample_ui 0 empty_keys False)) v \<and> ui_threads v = [ThStorageSetup, ThStorageSetup]"
  by (rule double_tap_sets_up_twice [where fp = None and x = 0 and y = 0])
    (simp_all add: greeting_booted, simp add: sample_env_def sample_hit_def)

section \<open>The wire protocol and its connections\<close>

text \<open>
  C38. Every request whose data is at most 1 MiB encodes, and decodes back to itself.
\<close>

theorem request_round_trip:
  assumes "request_fits req" and "blst_pk_lawful B" and "blst_sig_lawful B"
  shows "\<exists>bs. encode_request B req = Inr bs \<and> decode_request B bs = Inr req"
  using encode_request_ok [OF assms(1), of B] decode_request_encode [OF assms] by blast

theorem request_round_trip_witness:
  "\<exists>bs. encode_request sample_blst (ReqSign (sample_pkh, 2) [0x11] None) = Inr bs \<and>
     decode_request sample_blst bs = Inr (ReqSign (sample_pkh, 2) [0x11] None)"
  by (rule request_round_trip) (simp_all add: MAX_DATA_LEN_def)



text \<open>
  C40. A connection on which a client sends framed requests back to back and then closes: the loop
  terminates without error, every request is answered by the handler in order with exactly one frame,
  the bytes written are the concatenation of these frames, and both connection callbacks fire.
\<close>

theorem connection_serves_in_order:
  assumes "serve X B clk 1 reqs (notify_request_received w) = Some (outs, w')"
    and "list_all2 (\<lambda>req d. decode_request B d = Inr req \<and> length d < 65536 \<and> length d \<le> max_message_size) reqs ds"
    and "incoming k = concat (map frame ds)" and "read_end k = None" and "write_errors k = []"
  shows "handle_connection X B clk max_message_size (w, k) =
    (Inr (), (notify_request_complete w', k\<lparr>incoming := [], outgoing := outgoing k @ concat (map frame outs)\<rparr>))"
  unfolding handle_connection_def fst_conv snd_conv handle_connection_serves [OF assms] by simp

theorem connection_serves_in_order_witness:
  "\<exists>outs w'. serve sample_crates sample_blst (\<lambda>_. (0, 0)) 1 [ReqAuthorizedKeys, ReqAuthorizedKeys]
       (notify_request_received sample_world) = Some (outs, w') \<and> length outs = 2 \<and>
     handle_connection sample_crates sample_blst (\<lambda>_. (0, 0)) 65536
       (sample_world, \<lparr>incoming = frame [2] @ frame [2], read_end = None, outgoing = [], write_errors = []\<rparr>)
     = (Inr (), (notify_request_complete w',
         \<lparr>incoming = [], read_end = None, outgoing = concat (map frame outs), write_errors = []\<rparr>))"
proof -
  let ?reqs = "[ReqAuthorizedKeys, ReqAuthorizedKeys] :: (48 barray, 96 barray) signer_request list"
  obtain outs w' where run: "serve sample_crates sample_blst (\<lambda>_. (0, 0)) 1 ?reqs (notify_request_received sample_world)
      = Some (outs, w')" and outs: "length outs = 2"
    by (simp add: answer_request_def returnS_def handle_authorized_keys_def codec_simps)
  have "list_all2 (\<lambda>req d. decode_request sample_blst d = Inr req \<and> length d < 65536 \<and> length d \<le> 65536) ?reqs [[2], [2]]"
    by (simp add: decode_request_def request_reader_def read_u8_def cursor_read_exact_def bindS_def returnS_def)
  from connection_serves_in_order [OF run this,
      of "\<lparr>incoming = frame [2] @ frame [2], read_end = None, outgoing = [], write_errors = []\<rparr>"] run outs
  show ?thesis
    by auto
qed

section \<open>Further facts\<close>

text \<open>
  Where level and round are read from: in a block payload the level is the four bytes after magic
  byte and chain id, and the round the last four of the \<open>fitness_length\<close> bytes counted from the length
  field itself; in a preattestation or attestation they follow 38 bytes (BLS layout) or 40 bytes (other
  layouts) of magic byte, chain id, branch and operation header.
\<close>

theorem payload_level_and_round:
  assumes "length pre = 5" and "length hdr = 74" and "unat fl = length a + 8"
    and "length head = attestation_level_offset is_bls"
  shows "get_level_and_round_for_tenderbake_block
      (block_payload pre level hdr fl (a @ to_be_bytes_u32 round @ post)) = Some (Inr (level, round)) \<and>
    get_level_and_round_for_tenderbake_attestation
      (head @ to_be_bytes_u32 level @ to_be_bytes_u32 round @ post) is_bls = Some (Inr (level, round))"
  using block_fields [OF assms(1-3)] attestation_fields [OF assms(4)] by blast

theorem payload_level_and_round_witness:
  "get_level_and_round_for_tenderbake_block
     (block_payload [0x11, 1, 2, 3, 4] 6 (replicate 74 0) 8 ([] @ to_be_bytes_u32 3 @ [])) = Some (Inr (6, 3)) \<and>
   get_level_and_round_for_tenderbake_attestation
     (replicate 38 0x12 @ to_be_bytes_u32 6 @ to_be_bytes_u32 3 @ []) True = Some (Inr (6, 3))"
  by (rule payload_level_and_round) (simp_all add: attestation_level_offset_def)

text \<open>
  Every request that names a key the device does not hold, of whatever kind, is answered with
  \<open>KeyNotFound\<close> for that key; the operator is alerted (when the callback is installed) with the key's
  hash, and nothing else changes: not the tracker, the disk, the pending threads or the activity.
\<close>

theorem unknown_key_always_alerts:
  assumes "rh_keys (w_handler w) = Lock False km" and "names_key w req = Some pkh" and "map_of (signers km) pkh = None"
  shows "handle_request X B now el req w =
    (Inl (KeyNotFound (pkh_to_b58check X pkh)), fire (unknown_key_callback (w_handler w)) (EvUnknownKey pkh) w)"
  by (rule handle_request_unknown_key [OF assms])

theorem unknown_key_always_alerts_witness:
  "handle_request sample_crates sample_blst 0 0 (ReqBlsProve (PublicKeyHash (barray_of [8])) None) sample_world =
    (Inl (KeyNotFound (pkh_to_b58check sample_crates (PublicKeyHash (barray_of [8])))),
     fire (unknown_key_callback (w_handler sample_world)) (EvUnknownKey (PublicKeyHash (barray_of [8]))) sample_world)"
proof (rule unknown_key_always_alerts [OF sample_world_simps(4)])
  show "names_key sample_world (ReqBlsProve (PublicKeyHash (barray_of [8])) None) = Some (PublicKeyHash (barray_of [8]))"
    by (simp add: sample_world_def rh_new_def)
  show "map_of (signers sample_km) (PublicKeyHash (barray_of [8])) = None"
    by (simp add: sample_km_def get_after_add km_new_def sample_pkh_def barray_eq_iff bytes_of_barray_of_gen)
qed

text \<open>
  \<open>update_to_level\<close> sets all three marks of the key to the given level, whatever they were and
  even if persisting fails: it does not refuse to lower a mark.
\<close>

theorem update_to_level_can_lower:
  assumes "update_to_level X chain pkh level s = (r, s')" and "keys (fst s) pkh = Some pk"
  shows "\<exists>pk'. keys (fst s') pkh = Some pk' \<and> entries pk' = replicate 3 (Some (WatermarkEntry level 0))"
  using update_to_level_overwrites [OF assms] by (simp add: eval_nat_numeral)

theorem update_to_level_can_lower_witness:
  "\<exists>pk'. keys (fst (snd (update_to_level sample_crates sample_chain sample_pkh 2 sample_ceiling_state))) sample_pkh = Some pk' \<and>
     entries pk' = replicate 3 (Some (WatermarkEntry 2 0)) \<and> WatermarkEntry 2 0 < WatermarkEntry 5 0 \<and>
     entries sample_ceiling_pk ! 0 = Some (WatermarkEntry 5 0)"
  using update_to_level_can_lower [OF prod.collapse [symmetric],
      where X = sample_crates and chain = sample_chain and pkh = sample_pkh and level = 2 and s = sample_ceiling_state
        and pk = sample_ceiling_pk]
  by (simp add: sample_ceiling_state_def sample_ceiling_pk_def)

text \<open>
  \<open>seed_floor\<close> at or below the highest mark of a key changes nothing at all, in memory or on disk.
\<close>

theorem seed_floor_keeps_marks:
  assumes "keys (fst s) pkh = Some pk" and "get_max_level (fst s) pkh = Some m" and "level \<le> m"
  shows "seed_floor X chain pkh level s = (Inr (), s)"
  by (rule seed_floor_never_lowers [OF assms])

theorem seed_floor_keeps_marks_witness:
  "seed_floor sample_crates sample_chain sample_pkh 4 sample_ceiling_state = (Inr (), sample_ceiling_state)"
  by (rule seed_floor_keeps_marks [where m = 5 and pk = sample_ceiling_pk])
    (simp_all add: sample_ceiling_state_def sample_ceiling_pk_def get_max_level_def)

text \<open>
  The response \<open>AuthorizedKeys(Some(..))\<close> is written with tag \<open>0x01\<close>, which the decoder of the
  same module rejects: no client of this library can read a list of authorized keys.
\<close>

theorem authorized_keys_unreadable:
  assumes "encode_response X B (RespAuthorizedKeys (Some l)) = Inr bs"
  shows "decode_response X B bs ReqAuthorizedKeys = Inl (InvalidFormat ''Invalid option tag: 0x01'')"
  by (rule authorized_keys_refused [OF assms])

theorem authorized_keys_unreadable_witness:
  "\<exists>bs. encode_response sample_crates sample_blst (RespAuthorizedKeys (Some [])) = Inr bs \<and>
     decode_response sample_crates sample_blst bs ReqAuthorizedKeys = Inl (InvalidFormat ''Invalid option tag: 0x01'')"
proof -
  obtain bs where "encode_response sample_crates sample_blst (RespAuthorizedKeys (Some [])) = Inr bs"
    by (simp add: codec_simps encode_pkh_list_def u32_try_from_def)
  with authorized_keys_unreadable [OF this] show ?thesis
    by simp
qed

text \<open>
  The check for HTTP clients looks at the two length bytes only, so it never recognises one:
  an oversized length is always reported as \<open>MessageTooLarge\<close>. With the default limit of 64 KiB not
  even that happens, because no 16-bit length exceeds it.
\<close>

theorem http_never_detected:
  "check_http_and_size_error len_buf n = MessageTooLarge n \<and>
   fst (read_message_length (sv_max_message_size (server_new address timeout)) k) \<noteq> Inl (MessageTooLarge n)"
  using check_http_never default_limit_never_exceeded [of k n] by (simp add: server_new_def)

text \<open>
  The list of known keys depends only on which keys are held under which names, not on the
  iteration order of the two hash maps; every held key is in it exactly once, and when both roles are
  present the consensus key comes first and the companion key second.
\<close>

theorem known_keys_listed:
  assumes "bs58_lawful X" and "km_wf km"
  shows "distinct (list_keys X km) \<and> set (list_keys X km) = fst ` set (signers km) \<and>
    (\<forall>c p. role_key X km Consensus = Some c \<longrightarrow> role_key X km Companion = Some p \<longrightarrow>
       list_keys X km ! 0 = c \<and> list_keys X km ! 1 = p) \<and>
    (\<forall>km'. km_wf km' \<longrightarrow> map_of (signers km) = map_of (signers km') \<longrightarrow> map_of (key_names km) = map_of (key_names km') \<longrightarrow>
       list_keys X km = list_keys X km')"
  using list_keys_each_once [OF assms(2)] list_keys_role_order list_keys_order_irrelevant [OF assms] by blast

theorem known_keys_listed_witness:
  "let p = PublicKeyHash (barray_of [3]); q = sample_pkh; u = sample_signer;
       km = add_signer p u ''companion'' (add_signer q u ''consensus'' km_new) in
   distinct (list_keys sample_crates km) \<and>
   list_keys sample_crates km = list_keys sample_crates (add_signer q u ''consensus'' (add_signer p u ''companion'' km_new))"
proof -
  let ?p = "PublicKeyHash (barray_of [3])" and ?u = sample_signer
  let ?a = "add_signer ?p ?u ''companion'' (add_signer sample_pkh ?u ''consensus'' km_new)"
    and ?b = "add_signer sample_pkh ?u ''consensus'' (add_signer ?p ?u ''companion'' km_new)"
  have "map_of (signers ?a) = map_of (signers ?b)" "map_of (key_names ?a) = map_of (key_names ?b)"
    by (auto simp: get_after_add [unfolded get_key_name_def] sample_pkh_def barray_eq_iff bytes_of_barray_of_gen fun_eq_iff)
  with known_keys_listed [OF sample_crates_bs58(1), of ?a] show ?thesis
    by (simp add: km_wf_add_signer)
qed

text \<open>
  After any sequence of pushes the ring of recent events holds the last five, oldest first.
\<close>

theorem ring_holds_last_five:
  "ring_iter (foldl ring_push ring_default es) = drop (length es - 5) es"
  by (rule ring.iter_pushes)

text \<open>
  A handler with a magic byte filter signs exactly the payloads whose first byte is allowed and
  whose signature version is not one of the two legacy ones.
\<close>

theorem handler_signs_exactly_allowed:
  "is_ok (handler_sign B (handler_new u (Some allowed)) data wm version) \<longleftrightarrow>
     data \<noteq> [] \<and> hd data \<in> set allowed \<and> version \<notin> {Some V0, Some V1}"
  by (rule handler_sign_iff)

text \<open>
  A mark at or below a ceiling already on stable storage is signed without any disk operation:
  the file system, its oracle and its clock are untouched.
\<close>

theorem ceiling_needs_no_disk:
  assumes "keys (fst s) pkh = Some pk"
    and "ps_op_type parsed = Some op" and "ps_level parsed = Some l" and "ps_round parsed = Some r"
    and "entries pk ! op_idx op = Some e" and "e < WatermarkEntry l r"
    and "disk_ceiling pk ! op_idx op = Some c" and "WatermarkEntry l r \<le> c"
  shows "snd (snd (locked_sign X B signer chain pkh parsed data s)) = snd s \<and>
    issued (fst (locked_sign X B signer chain pkh parsed data s)) = [(pkh, op_idx op, WatermarkEntry l r)]"
  by (rule locked_sign_ceiling [OF assms prod.collapse [symmetric]])

theorem ceiling_needs_no_disk_witness:
  "snd (snd (locked_sign sample_crates sample_blst sample_signer sample_chain sample_pkh sample_parsed sample_block
      sample_ceiling_state)) = snd sample_ceiling_state \<and>
   issued (fst (locked_sign sample_crates sample_blst sample_signer sample_chain sample_pkh sample_parsed sample_block
      sample_ceiling_state)) = [(sample_pkh, op_idx Block, WatermarkEntry 6 0)]"
  by (rule ceiling_needs_no_disk [where pk = sample_ceiling_pk and e = "WatermarkEntry 5 0"
        and c = "WatermarkEntry 6 u32_MAX"])
    (simp_all add: sample_parsed sample_ceiling_state_def sample_ceiling_pk_def)

text \<open>
  Requests for unknown keys raise at most nine alerts in the life of the process (one for each of
  the eight keys it can hold and one for all others), whatever events arrive in whatever order.
\<close>

theorem unknown_key_alerts_bounded:
  "alert_count (fst (run_app ds (app_new first))) \<le> 9"
  by (rule order_trans [OF alerts_bounded]) (simp add: alerts_left_def app_new_def alert_default_def UNKNOWN_KEY_CAP_def)

text \<open>
  With the gap check installed, the levels refused as a large gap are exactly those more than
  four cycles above the highest mark of the key, and the operator is shown both levels; the bound on
  the cycle length is the one under which the product does not wrap at 32 bits.
\<close>

theorem large_gap_exactly_four_cycles:
  assumes "large_gap_callback (w_handler w)" and "blocks_per_cycle (w_handler w) = Some bpc" and "0 < bpc"
    and "4 * unat bpc < 2 ^ 32"
  shows "precheck_level X chain pkh requested (Some current) w =
    (if unat current + 4 * unat bpc < unat requested
     then (Inl (SvWatermark (LargeLevelGap current requested (requested - current) ((requested - current) div bpc))),
           fire True (EvLargeGap pkh chain current requested) w)
     else (Inr (), w))"
  by (rule precheck_level_gap [OF assms])

theorem large_gap_exactly_four_cycles_witness:
  "let w = sample_world\<lparr>w_handler := with_large_gap_callback 10 (w_handler sample_world)\<rparr> in
   precheck_level sample_crates sample_chain sample_pkh 45 (Some 5) w = (Inr (), w) \<and>
   fst (precheck_level sample_crates sample_chain sample_pkh 46 (Some 5) w) = Inl (SvWatermark (LargeLevelGap 5 46 41 4))"
  using large_gap_exactly_four_cycles
      [of "sample_world\<lparr>w_handler := with_large_gap_callback 10 (w_handler sample_world)\<rparr>" 10
        sample_crates sample_chain sample_pkh 45 5]
    large_gap_exactly_four_cycles
      [of "sample_world\<lparr>w_handler := with_large_gap_callback 10 (w_handler sample_world)\<rparr>" 10
        sample_crates sample_chain sample_pkh 46 5]
  by (simp add: with_large_gap_callback_def Let_def)

text \<open>
  Starting from an idle server with a counter, in every state of the accept loop the counter is
  the number of live connection threads, and that number never exceeds the limit.
\<close>

theorem connection_limit_holds:
  assumes "(server_step max_connections)\<^sup>*\<^sup>* (Some 0, 0) s"
  shows "fst s = Some (snd s) \<and> snd s \<le> max_connections"
  by (rule server_step_limit [OF assms])

theorem connection_limit_holds_witness:
  "fst (Some 1, 1 :: nat) = Some (snd (Some (1 :: nat), 1 :: nat)) \<and> snd (Some (1 :: nat), 1 :: nat) \<le> 1"
proof (rule connection_limit_holds)
  have "server_step 1 (Some 0, 0) (Some 1, 0 + 1)"
    by (rule server_step.accepted) (simp add: accept_connection_def)
  then show "(server_step 1)\<^sup>*\<^sup>* (Some 0, 0) (Some 1, 1)"
    by simp
qed

text \<open>
  A payload of another chain than the provisioned one is refused with \<open>ChainMismatch\<close> before the
  tracker is looked at: no recovery dialog is raised and no state changes.
\<close>

theorem foreign_chain_refused:
  assumes "rh_keys (w_handler w) = Lock False km" and "map_of (signers km) (fst pv) = Some signer" and "magic_ok w data"
    and "parse_sign_payload data = Some parsed" and "ps_chain_id parsed = Some chain"
    and "provisioned_chain_id (w_handler w) = Some own" and "chain \<noteq> own"
  shows "handle_sign X B now el pv data w =
    (let err = ChainMismatch (chain_to_b58check X own) (chain_to_b58check X chain)
     in (Inl (SvWatermark err), fire (watermark_error_callback (w_handler w)) (EvWatermarkError (fst pv) chain err) w))"
  by (rule handle_sign_foreign_chain [OF assms])

theorem foreign_chain_refused_witness:
  "is_ok (fst (handle_sign sample_crates sample_blst 0 0 (sample_pkh, 2) sample_block sample_world)) \<and>
   \<not> is_ok (fst (handle_sign sample_crates sample_blst 0 0 (sample_pkh, 2) sample_block
      (sample_world\<lparr>w_handler := (w_handler sample_world)\<lparr>provisioned_chain_id := Some (ChainId (barray_of [5]))\<rparr>\<rparr>)))"
proof -
  let ?w = "sample_world\<lparr>w_handler := (w_handler sample_world)\<lparr>provisioned_chain_id := Some (ChainId (barray_of [5]))\<rparr>\<rparr>"
  have "sample_chain \<noteq> ChainId (barray_of [5])"
    by (simp add: sample_chain_def barray_eq_iff bytes_of_barray_of_gen)
  then have "handle_sign sample_crates sample_blst 0 0 (sample_pkh, 2) sample_block ?w =
    (let err = ChainMismatch (chain_to_b58check sample_crates (ChainId (barray_of [5]))) (chain_to_b58check sample_crates sample_chain)
     in (Inl (SvWatermark err), fire (watermark_error_callback (w_handler ?w)) (EvWatermarkError (fst (sample_pkh, 2 :: u8)) sample_chain err) ?w))"
    by (intro foreign_chain_refused [where parsed = sample_parsed and km = sample_km and signer = sample_signer])
      (use sample_magic in \<open>simp_all add: sample_signer_held sample_parsed magic_ok_def\<close>)
  then show ?thesis
    by (simp add: sample_handle_ok Let_def)
qed

text \<open>
  A record copied from another key or another chain is accepted only if the two MACs of its
  level and round collide; otherwise it reads as no mark at all.
\<close>

theorem foreign_record_rejected:
  assumes "mac X k' ad' (level_round l r) \<noteq> mac X k ad (level_round l r)"
  shows "decode_authenticated X k' ad' (encode_authenticated X k ad l r) = None"
  using assms by (simp add: decode_authenticated_foreign)

theorem foreign_record_rejected_witness:
  "decode_authenticated sample_keyed_crates (barray_of [1]) [] (encode_authenticated sample_keyed_crates (barray_of [2]) [] 7 0)
     = None"
proof (rule foreign_record_rejected)
  show "mac sample_keyed_crates (barray_of [1]) [] (level_round 7 0) \<noteq>
      mac sample_keyed_crates (barray_of [2]) [] (level_round 7 0)"
    by (simp add: mac_def sample_keyed_crates_def barray_eq_iff bytes_of_barray_of_gen)
qed

text \<open>
  A secret key printed in Base58Check parses back, to a signer whose public key and hash belong
  to it; and whatever Base58Check string parses as data carries that data with its own checksum.
\<close>

theorem secret_key_round_trip:
  assumes "bs58_lawful X" and "blst_sk_lawful B"
  shows "unencrypted_from_b58check X B (sk_to_b58check X B sk) = Inr (unencrypted_new X B sk) \<and>
    consistent X B (unencrypted_new X B sk) \<and>
    (b58_decode X s prefix = Inr data \<longrightarrow>
       bs58_decode X s = Inr (prefix @ data @ take 4 (bytes_of (compute_checksum X (prefix @ data)))))"
  using unencrypted_from_to_b58check [OF assms, of sk] b58_decode_sound by auto

theorem secret_key_round_trip_witness:
  "unencrypted_from_b58check sample_crates sample_blst (sk_to_b58check sample_crates sample_blst sample_sk)
     = Inr sample_signer"
  using secret_key_round_trip [OF sample_crates_bs58(1) sample_blst_lawful(1)] by (simp add: sample_signer_def)

end
